(* ===== verification/Ctl_Prelude.thy ===== *)
theory Ctl_Prelude
  imports Main "HOL-Library.Char_ord" "HOL-Library.List_Lexorder"
begin

text \<open>
  Shared vocabulary of the development: strings as the TypeScript sources use them, outcomes of
  asynchronous calls, and the contracts (locales) that several state machines of the program
  share.

  A JavaScript string is modelled as an Isabelle \<open>string\<close> whose characters are the code units
  0 to 255; the sources compare, trim, measure and match strings, and on this range each of
  these operations is the one of ECMAScript (in particular \<open>js_trim\<close> knows the white space of
  the range, and \<open>utf8_length\<close> counts one byte below 128 and two from there on).
\<close>

named_theorems op_defs "definitions of the operations of a component, unfolded together"
named_theorems guard_defs "definitions of the guards of a component, unfolded together"

section \<open>Strings\<close>

abbreviation code_unit :: "char \<Rightarrow> nat" where
  "code_unit c \<equiv> of_char c"

definition is_ws :: "char \<Rightarrow> bool" where
  "is_ws c \<longleftrightarrow> code_unit c \<in> {9, 10, 11, 12, 13, 32, 160}"

definition js_trim :: "string \<Rightarrow> string" where
  "js_trim s = rev (dropWhile is_ws (rev (dropWhile is_ws s)))"

text \<open>The sources' \<open>CONTROL_CHARACTER_PATTERN\<close>: U+0000 to U+001F and U+007F.\<close>

definition is_control :: "char \<Rightarrow> bool" where
  "is_control c \<longleftrightarrow> code_unit c < 32 \<or> code_unit c = 127"

definition has_control :: "string \<Rightarrow> bool" where
  "has_control s \<longleftrightarrow> list_ex is_control s"

definition is_lower :: "char \<Rightarrow> bool" where
  "is_lower c \<longleftrightarrow> 97 \<le> code_unit c \<and> code_unit c \<le> 122"

definition is_upper :: "char \<Rightarrow> bool" where
  "is_upper c \<longleftrightarrow> 65 \<le> code_unit c \<and> code_unit c \<le> 90"

definition is_digit :: "char \<Rightarrow> bool" where
  "is_digit c \<longleftrightarrow> 48 \<le> code_unit c \<and> code_unit c \<le> 57"

definition is_alnum :: "char \<Rightarrow> bool" where
  "is_alnum c \<longleftrightarrow> is_lower c \<or> is_upper c \<or> is_digit c"

definition is_lower_hex :: "char \<Rightarrow> bool" where
  "is_lower_hex c \<longleftrightarrow> is_digit c \<or> (97 \<le> code_unit c \<and> code_unit c \<le> 102)"

definition utf8_length :: "string \<Rightarrow> nat" where
  "utf8_length s = sum_list (map (\<lambda>c. if code_unit c < 128 then 1 else 2) s)"

definition starts_with :: "string \<Rightarrow> string \<Rightarrow> bool" where
  "starts_with p s \<longleftrightarrow> take (length p) s = p"

fun split_on :: "char \<Rightarrow> string \<Rightarrow> string list" where
  "split_on d [] = [[]]"
| "split_on d (c # cs) =
     (if c = d then [] # split_on d cs
      else (case split_on d cs of [] \<Rightarrow> [[c]] | w # ws \<Rightarrow> (c # w) # ws))"

lemma split_on_nonempty: "split_on d s \<noteq> []"
  by (induction s) (auto split: list.splits)

lemma split_on_no_sep: "d \<notin> set s \<Longrightarrow> split_on d s = [s]"
  by (induction s) auto

lemma split_on_append: "d \<notin> set s \<Longrightarrow> split_on d (s @ d # t) = s # split_on d t"
  by (induction s) (auto split: list.splits)

lemma split_on_parts: "w \<in> set (split_on d s) \<Longrightarrow> d \<notin> set w"
proof (induction s arbitrary: w)
  case (Cons c cs)
  then show ?case using split_on_nonempty [of d cs]
    by (auto split: list.splits if_splits)
qed simp

text \<open>\<open>ss.join(c)\<close>.\<close>

definition join_with :: "char \<Rightarrow> string list \<Rightarrow> string" where
  "join_with c ss = concat (case ss of [] \<Rightarrow> [] | s # r \<Rightarrow> s # map (Cons c) r)"

lemma join_with_Cons: "join_with d (w # ws) = w @ (if ws = [] then [] else d # join_with d ws)"
  by (cases ws) (simp_all add: join_with_def)

lemma join_split_on: "join_with d (split_on d s) = s"
proof (induction s)
  case Nil
  then show ?case by (simp add: join_with_def)
next
  case (Cons c cs)
  then show ?case using split_on_nonempty [of d cs]
    by (auto simp: join_with_Cons split: list.splits)
qed

lemma split_join: "ws \<noteq> [] \<Longrightarrow> \<forall>w \<in> set ws. d \<notin> set w \<Longrightarrow> split_on d (join_with d ws) = ws"
  by (induction ws) (auto simp: join_with_Cons split_on_no_sep split_on_append)

lemma starts_with_append [simp]: "starts_with p (p @ s)"
  by (simp add: starts_with_def)

lemma starts_with_iff: "starts_with p s \<longleftrightarrow> (\<exists>t. s = p @ t)"
  by (metis append_take_drop_id append_eq_conv_conj starts_with_def)

lemma utf8_length_append [simp]: "utf8_length (a @ b) = utf8_length a + utf8_length b"
  by (simp add: utf8_length_def)

text \<open>\<open>v ?? d\<close>: the value, or a default where it is missing.\<close>

definition or_default :: "'a option \<Rightarrow> 'a \<Rightarrow> 'a" where
  "or_default v d = (case v of None \<Rightarrow> d | Some x \<Rightarrow> x)"

lemma or_default_simps [simp]: "or_default None d = d" "or_default (Some x) d = x"
  by (simp_all add: or_default_def)

section \<open>Numbers\<close>

text \<open>\<open>Number.isSafeInteger\<close> on a value that is an integer.\<close>

definition max_safe_integer :: int where
  "max_safe_integer = 9007199254740991"

definition is_safe_integer :: "int \<Rightarrow> bool" where
  "is_safe_integer n \<longleftrightarrow> - max_safe_integer \<le> n \<and> n \<le> max_safe_integer"

section \<open>Outcomes of asynchronous calls\<close>

text \<open>
  A promise raced against a deadline settles with a value, rejects, or times out. The
  deadline is the source's, the outcome is the environment's.
\<close>

datatype 'a outcome = Settled 'a | Rejected | Timed_out

text \<open>
  A request to another object is delivered, lost before it is applied, or applied with its
  response lost; in the last two cases the caller's promise rejects.
\<close>

datatype delivery = Delivered | Request_lost | Response_lost

section \<open>Results\<close>

text \<open>
  A function that throws returns a sum, the thrown error on the left. A guard clause
  \<open>if (!b) throw e; \<dots>\<close> is \<open>require b e (\<dots>)\<close>, a value that may be missing is taken by
  \<open>with_some\<close>, and \<open>and_then\<close> runs a call whose error propagates.
\<close>

definition require :: "bool \<Rightarrow> 'e \<Rightarrow> 'e + 'a \<Rightarrow> 'e + 'a" where
  "require b e k = (if b then k else Inl e)"

definition with_some :: "'a option \<Rightarrow> 'e \<Rightarrow> ('a \<Rightarrow> 'e + 'b) \<Rightarrow> 'e + 'b" where
  "with_some x e k = (case x of None \<Rightarrow> Inl e | Some y \<Rightarrow> k y)"

definition and_then :: "'e + 'a \<Rightarrow> ('a \<Rightarrow> 'e + 'b) \<Rightarrow> 'e + 'b" where
  "and_then r k = (case r of Inl e \<Rightarrow> Inl e | Inr x \<Rightarrow> k x)"

lemma require_Inr [simp]: "require b e k = Inr x \<longleftrightarrow> b \<and> k = Inr x"
  by (simp add: require_def)

lemma require_True [simp]: "require True e k = k"
  by (simp add: require_def)

lemma require_False [simp]: "require False e k = Inl e"
  by (simp add: require_def)

lemma with_some_Inr [simp]: "with_some m e k = Inr x \<longleftrightarrow> (\<exists>y. m = Some y \<and> k y = Inr x)"
  by (simp add: with_some_def split: option.split)

lemma with_some_simps [simp]: "with_some (Some y) e k = k y" "with_some None e k = Inl e"
  by (simp_all add: with_some_def)

lemma and_then_Inr [simp]: "and_then r k = Inr x \<longleftrightarrow> (\<exists>y. r = Inr y \<and> k y = Inr x)"
  by (cases r) (simp_all add: and_then_def)

lemma and_then_simps [simp]: "and_then (Inr y) k = k y" "and_then (Inl e) k = Inl e"
  by (simp_all add: and_then_def)

lemma map_sum_id_Inr [simp]: "map_sum f id r = Inr x \<longleftrightarrow> r = Inr x"
  by (cases r) simp_all

text \<open>How such a function throws.\<close>

lemma throws_iff:
  "require b x k = Inl e \<longleftrightarrow> \<not> b \<and> e = x \<or> b \<and> k = Inl e"
  "with_some m x k' = Inl e \<longleftrightarrow> m = None \<and> e = x \<or> (\<exists>y. m = Some y \<and> k' y = Inl e)"
  "and_then r k'' = Inl e \<longleftrightarrow> r = Inl e \<or> (\<exists>y. r = Inr y \<and> k'' y = Inl e)"
  "map_sum f id r' = Inl e \<longleftrightarrow> (\<exists>x. r' = Inl x \<and> e = f x)"
  by (auto simp: require_def with_some_def and_then_def split: option.split sum.split) (cases r'; auto)+

section \<open>Contracts shared by the state machines\<close>

text \<open>
  A machine whose every admissible event keeps an invariant: so does every run.
\<close>

locale invariant_machine =
  fixes step :: "'s \<Rightarrow> 'e \<Rightarrow> 's"
    and ok :: "'e \<Rightarrow> bool"
    and inv :: "'s \<Rightarrow> bool"
  assumes step_inv: "inv s \<Longrightarrow> ok e \<Longrightarrow> inv (step s e)"
begin

lemma run_inv: "inv s \<Longrightarrow> list_all ok es \<Longrightarrow> inv (foldl step s es)"
  by (induction es arbitrary: s) (auto intro: step_inv)

end

text \<open>A machine with a condition that no admissible event undoes.\<close>

locale absorbing_machine = invariant_machine +
  fixes final :: "'s \<Rightarrow> bool"
  assumes final_step: "inv s \<Longrightarrow> ok e \<Longrightarrow> final s \<Longrightarrow> final (step s e)"
begin

lemma final_run:
  "inv s \<Longrightarrow> list_all ok es \<Longrightarrow> final s \<Longrightarrow> final (foldl step s es)"
  by (induction es arbitrary: s) (auto intro: step_inv final_step)

lemma final_later:
  assumes "inv s" and "list_all ok (es @ fs)" and "final (foldl step s es)"
  shows "final (foldl step s (es @ fs))"
  using assms final_run run_inv by simp

end

text \<open>
  A store whose first write under a key wins: a later insertion of the same key leaves it as it is
  (a primary key, or \<open>insert \<dots> on conflict do nothing\<close>).
\<close>

locale first_write_store =
  fixes lookup :: "'st \<Rightarrow> 'k \<Rightarrow> 'v option"
    and key :: "'v \<Rightarrow> 'k"
    and insert_once :: "'v \<Rightarrow> 'st \<Rightarrow> 'st"
  assumes lookup_insert:
    "lookup (insert_once v s) k = (if k = key v \<and> lookup s k = None then Some v else lookup s k)"
begin

lemma insert_once_idem: "lookup (insert_once v (insert_once v s)) k = lookup (insert_once v s) k"
  by (auto simp: lookup_insert)

lemma insert_once_keeps: "lookup s k = Some x \<Longrightarrow> lookup (insert_once v s) k = Some x"
  by (auto simp: lookup_insert)

lemma insert_once_present: "lookup (insert_once v s) (key v) \<noteq> None"
  by (auto simp: lookup_insert)

lemma keyed_insert: "\<forall>k x. lookup s k = Some x \<longrightarrow> key x = k \<Longrightarrow> lookup (insert_once v s) k = Some x \<Longrightarrow> key x = k"
  by (auto simp: lookup_insert split: if_splits)

end

end
