(* ===== verification/Lease_Registry.thy ===== *)
theory Lease_Registry
  imports Ctl_Prelude
begin

text \<open>
  The durable object that owns one sandbox lease
  (\<open>apps/sandbox-bridge/src/lease-registry.ts\<close>): the grant and lease data, the handler of the
  registry's requests as one function per path, the client class over a namespace of such
  objects, the invariant of the stored record, and the refinement of the handler to the phases
  of a lease.
\<close>

section \<open>Grants, leases and the stored record\<close>

datatype sandbox_ownership = Owner_run string | Owner_session string

record sandbox_grant =
  ag_layer :: string
  ag_owner :: sandbox_ownership
  ag_run_mode :: string
  ag_runner_family :: string
  ag_runner_id :: string
  ag_contract_version :: string
  ag_source :: string
  ag_tenant_id :: string
  ag_user_id :: string

record lease_binding =
  lb_layer :: string
  lb_owner :: sandbox_ownership
  lb_run_mode :: string
  lb_runner_family :: string
  lb_runner_id :: string
  lb_contract_version :: string
  lb_source :: string
  lb_tenant_id :: string
  lb_user_id :: string

record sandbox_lease =
  sl_access_grant :: sandbox_grant
  sl_backend_id :: string
  sl_lease_id :: string

datatype process_state = Running | Starting

datatype lease_status = Destroyed | Destroying | Killed | Pending | Ready

text \<open>
  \<open>lr_destroy_resume_status\<close> is typed \<open>"killed" | "ready"\<close> in the source; \<open>resume_status\<close> is
  that type.
\<close>

datatype resume_status = Resume_killed | Resume_ready

record lease_record =
  lr_backend_id :: string
  lr_binding :: lease_binding
  lr_destroy_resume_status :: "resume_status option"
  lr_kill_requested :: bool
  lr_lease_id :: string
  lr_process_id :: "string option"
  lr_process_state :: "process_state option"
  lr_provider_id :: string
  lr_session_id :: string
  lr_status :: lease_status

definition snapshot_sandbox_grant :: "sandbox_grant \<Rightarrow> lease_binding" where
  "snapshot_sandbox_grant g =
     \<lparr> lb_layer = ag_layer g,
       lb_owner = (case ag_owner g of Owner_run r \<Rightarrow> Owner_run r | Owner_session s \<Rightarrow> Owner_session s),
       lb_run_mode = ag_run_mode g,
       lb_runner_family = ag_runner_family g,
       lb_runner_id = ag_runner_id g,
       lb_contract_version = ag_contract_version g,
       lb_source = ag_source g,
       lb_tenant_id = ag_tenant_id g,
       lb_user_id = ag_user_id g \<rparr>"

definition binding_matches :: "lease_binding \<Rightarrow> lease_binding \<Rightarrow> bool" where
  "binding_matches l r \<longleftrightarrow>
     lb_layer l = lb_layer r \<and>
     lb_run_mode l = lb_run_mode r \<and>
     lb_runner_family l = lb_runner_family r \<and>
     lb_runner_id l = lb_runner_id r \<and>
     lb_contract_version l = lb_contract_version r \<and>
     lb_source l = lb_source r \<and>
     lb_tenant_id l = lb_tenant_id r \<and>
     lb_user_id l = lb_user_id r \<and>
     (case (lb_owner l, lb_owner r) of
        (Owner_run a, Owner_run b) \<Rightarrow> a = b
      | (Owner_session a, Owner_session b) \<Rightarrow> a = b
      | _ \<Rightarrow> False)"

definition record_matches_lease :: "lease_record \<Rightarrow> sandbox_lease \<Rightarrow> bool" where
  "record_matches_lease r l \<longleftrightarrow>
     lr_backend_id r = sl_backend_id l \<and>
     lr_lease_id r = sl_lease_id l \<and>
     binding_matches (lr_binding r) (snapshot_sandbox_grant (sl_access_grant l))"

section \<open>Requests and responses\<close>

text \<open>
  The body of a request, as the client class below sends it, and the responses: the two HTTP
  refusals, the empty 204, and one constructor per JSON payload.
\<close>

record registry_body =
  rb_lease :: "sandbox_lease option"
  rb_process_id :: "string option"
  rb_record :: "lease_record option"

datatype destroy_recovery = Fresh | Unknown

datatype registry_response =
    Method_not_allowed
  | Blocked
  | No_content
  | Allowed lease_record
  | Process_reserved lease_record
  | Kill_flag bool
  | Already_terminal
  | Kill_reserved string string
  | Already_destroyed
  | Destroy_reserved string destroy_recovery

definition response_ok :: "registry_response \<Rightarrow> bool" where
  "response_ok r \<longleftrightarrow> r \<noteq> Method_not_allowed \<and> r \<noteq> Blocked"

section \<open>The transitions, one per path\<close>

text \<open>
  Each function is the block of the handler for its path, with the block's guard: where the
  guard fails the handler falls through to its final \<open>return blocked()\<close>, since every path is
  tested once.
\<close>

type_synonym lease_cell = "lease_record option"

definition on_reserve :: "lease_cell \<Rightarrow> registry_body \<Rightarrow> registry_response \<times> lease_cell" where
  [op_defs]: "on_reserve cur body =
     (case (cur, rb_record body) of
        (None, Some rec) \<Rightarrow> (No_content, Some rec)
      | _ \<Rightarrow> (Blocked, cur))"

definition on_authorize :: "lease_record \<Rightarrow> registry_response \<times> lease_cell" where
  [op_defs]: "on_authorize c =
     (if lr_status c = Ready then (Allowed c, Some c) else (Blocked, Some c))"

definition on_ready :: "lease_record \<Rightarrow> registry_response \<times> lease_cell" where
  [op_defs]: "on_ready c =
     (if lr_status c = Pending then (No_content, Some (c\<lparr>lr_status := Ready\<rparr>))
      else (Blocked, Some c))"

definition on_process_begin :: "lease_record \<Rightarrow> string option \<Rightarrow> registry_response \<times> lease_cell" where
  [op_defs]: "on_process_begin c pid =
     (if lr_status c = Ready \<and> lr_process_id c = None \<and> pid \<noteq> None then
        (let r = c\<lparr>lr_process_id := pid, lr_process_state := Some Starting\<rparr>
         in (Process_reserved r, Some r))
      else (Blocked, Some c))"

definition on_process_running :: "lease_record \<Rightarrow> string option \<Rightarrow> registry_response \<times> lease_cell" where
  [op_defs]: "on_process_running c pid =
     (if lr_status c = Ready \<and> lr_process_id c = pid \<and> lr_process_state c = Some Starting then
        (Kill_flag (lr_kill_requested c), Some (c\<lparr>lr_process_state := Some Running\<rparr>))
      else (Blocked, Some c))"

definition on_process_clear :: "lease_record \<Rightarrow> string option \<Rightarrow> registry_response \<times> lease_cell" where
  [op_defs]: "on_process_clear c pid =
     (if lr_process_id c = pid then
        (No_content,
         Some (c\<lparr>lr_process_id := None, lr_process_state := None,
                 lr_destroy_resume_status :=
                   (if lr_status c = Destroying \<and> lr_kill_requested c then Some Resume_killed
                    else lr_destroy_resume_status c),
                 lr_status :=
                   (if lr_status c = Ready \<and> lr_kill_requested c then Killed
                    else lr_status c)\<rparr>))
      else (Blocked, Some c))"

definition on_kill :: "lease_record \<Rightarrow> registry_response \<times> lease_cell" where
  [op_defs]: "on_kill c =
     (if lr_status c = Destroyed \<or> lr_status c = Killed then (Already_terminal, Some c)
      else (case (lr_status c, lr_process_id c, lr_process_state c) of
              (Ready, Some pid, Some _) \<Rightarrow>
                (Kill_reserved pid (lr_provider_id c), Some (c\<lparr>lr_kill_requested := True\<rparr>))
            | _ \<Rightarrow> (Blocked, Some c)))"

definition on_kill_finish :: "lease_record \<Rightarrow> registry_response \<times> lease_cell" where
  [op_defs]: "on_kill_finish c =
     (if lr_status c = Ready \<and> lr_kill_requested c then
        (No_content,
         Some (c\<lparr>lr_process_id := None, lr_process_state := None, lr_status := Killed\<rparr>))
      else (Blocked, Some c))"

definition on_destroy_begin :: "lease_record \<Rightarrow> registry_response \<times> lease_cell" where
  [op_defs]: "on_destroy_begin c =
     (case lr_status c of
        Destroyed \<Rightarrow> (Already_destroyed, Some c)
      | Destroying \<Rightarrow> (Destroy_reserved (lr_provider_id c) Unknown, Some c)
      | Ready \<Rightarrow> (Destroy_reserved (lr_provider_id c) Fresh,
                  Some (c\<lparr>lr_destroy_resume_status := Some Resume_ready, lr_status := Destroying\<rparr>))
      | Killed \<Rightarrow> (Destroy_reserved (lr_provider_id c) Fresh,
                   Some (c\<lparr>lr_destroy_resume_status := Some Resume_killed, lr_status := Destroying\<rparr>))
      | Pending \<Rightarrow> (Blocked, Some c))"

definition on_destroy_finish :: "lease_record \<Rightarrow> registry_response \<times> lease_cell" where
  [op_defs]: "on_destroy_finish c =
     (if lr_status c = Destroying then
        (No_content,
         Some (c\<lparr>lr_destroy_resume_status := None, lr_process_id := None, lr_process_state := None,
                 lr_kill_requested := True, lr_status := Destroyed\<rparr>))
      else (Blocked, Some c))"

definition status_of_resume :: "resume_status \<Rightarrow> lease_status" where
  "status_of_resume s = (case s of Resume_killed \<Rightarrow> Killed | Resume_ready \<Rightarrow> Ready)"

definition on_destroy_abort :: "lease_record \<Rightarrow> registry_response \<times> lease_cell" where
  [op_defs]: "on_destroy_abort c =
     (case (lr_status c, lr_destroy_resume_status c) of
        (Destroying, Some s) \<Rightarrow>
          (No_content,
           Some (c\<lparr>lr_destroy_resume_status := None, lr_status := status_of_resume s\<rparr>))
      | _ \<Rightarrow> (Blocked, Some c))"

definition on_remove :: "lease_record \<Rightarrow> registry_response \<times> lease_cell" where
  [op_defs]: "on_remove c =
     (if lr_status c = Pending then (No_content, None) else (Blocked, Some c))"

definition bound_transition ::
    "lease_record \<Rightarrow> string \<Rightarrow> string option \<Rightarrow> registry_response \<times> lease_cell" where
  "bound_transition c path pid =
     (if path = ''/authorize'' then on_authorize c
      else if path = ''/ready'' then on_ready c
      else if path = ''/process/begin'' then on_process_begin c pid
      else if path = ''/process/running'' then on_process_running c pid
      else if path = ''/process/clear'' then on_process_clear c pid
      else if path = ''/kill'' then on_kill c
      else if path = ''/kill/finish'' then on_kill_finish c
      else if path = ''/destroy/begin'' then on_destroy_begin c
      else if path = ''/destroy/finish'' then on_destroy_finish c
      else if path = ''/destroy/abort'' then on_destroy_abort c
      else if path = ''/remove'' then on_remove c
      else (Blocked, Some c))"

text \<open>The handler; the storage transaction makes it one atomic step of the object's cell.\<close>

definition handle_sandbox_lease_registry_request ::
    "lease_cell \<Rightarrow> string \<Rightarrow> string \<Rightarrow> registry_body \<Rightarrow> registry_response \<times> lease_cell" where
  "handle_sandbox_lease_registry_request cur meth path body =
     (if meth \<noteq> ''POST'' then (Method_not_allowed, cur)
      else if path = ''/reserve'' then on_reserve cur body
      else (case (cur, rb_lease body) of
              (Some c, Some l) \<Rightarrow>
                if record_matches_lease c l then bound_transition c path (rb_process_id body)
                else (Blocked, cur)
            | _ \<Rightarrow> (Blocked, cur)))"

section \<open>The client class\<close>

text \<open>
  \<open>DurableObjectSandboxLeaseRegistry\<close> addresses one object per lease id; the namespace maps
  each id to its cell. A request that is lost makes the fetch reject (\<open>Fetch_rejected\<close>); the
  other errors are the class's own \<open>throw\<close>s.
\<close>

type_synonym lease_namespace = "string \<Rightarrow> lease_cell"

datatype registry_error =
    Fetch_rejected
  | Reservation_failed
  | Process_binding_failed
  | Transition_failed

definition stub_fetch ::
    "delivery \<Rightarrow> lease_namespace \<Rightarrow> string \<Rightarrow> string \<Rightarrow> registry_body
      \<Rightarrow> (registry_error + registry_response) \<times> lease_namespace" where
  "stub_fetch d ns lid path body =
     (let (resp, cell) = handle_sandbox_lease_registry_request (ns lid) ''POST'' path body
      in case d of
           Delivered \<Rightarrow> (Inr resp, ns(lid := cell))
         | Request_lost \<Rightarrow> (Inl Fetch_rejected, ns)
         | Response_lost \<Rightarrow> (Inl Fetch_rejected, ns(lid := cell)))"

definition lease_body :: "sandbox_lease \<Rightarrow> registry_body" where
  "lease_body l = \<lparr>rb_lease = Some l, rb_process_id = None, rb_record = None\<rparr>"

definition process_body :: "sandbox_lease \<Rightarrow> string \<Rightarrow> registry_body" where
  "process_body l pid = \<lparr>rb_lease = Some l, rb_process_id = Some pid, rb_record = None\<rparr>"

text \<open>\<open>post\<close>: \<open>undefined\<close> (here \<open>None\<close>) for a response that is not ok or has no content.\<close>

definition registry_post ::
    "delivery \<Rightarrow> lease_namespace \<Rightarrow> string \<Rightarrow> string \<Rightarrow> registry_body
      \<Rightarrow> (registry_error + registry_response option) \<times> lease_namespace" where
  "registry_post d ns lid path body =
     (let (r, ns') = stub_fetch d ns lid path body
      in (case r of
            Inl e \<Rightarrow> Inl e
          | Inr resp \<Rightarrow> if \<not> response_ok resp \<or> resp = No_content then Inr None else Inr (Some resp),
          ns'))"

definition require_no_content ::
    "delivery \<Rightarrow> lease_namespace \<Rightarrow> string \<Rightarrow> string \<Rightarrow> registry_body
      \<Rightarrow> (registry_error + unit) \<times> lease_namespace" where
  "require_no_content d ns lid path body =
     (let (r, ns') = stub_fetch d ns lid path body
      in (case r of
            Inl e \<Rightarrow> Inl e
          | Inr resp \<Rightarrow> if response_ok resp then Inr () else Inl Transition_failed,
          ns'))"

definition registry_reserve ::
    "delivery \<Rightarrow> lease_namespace \<Rightarrow> lease_record \<Rightarrow> (registry_error + unit) \<times> lease_namespace" where
  "registry_reserve d ns r =
     (let (res, ns') = stub_fetch d ns (lr_lease_id r) ''/reserve''
                         \<lparr>rb_lease = None, rb_process_id = None, rb_record = Some r\<rparr>
      in (case res of
            Inl e \<Rightarrow> Inl e
          | Inr resp \<Rightarrow> if response_ok resp then Inr () else Inl Reservation_failed,
          ns'))"

text \<open>\<open>authorize\<close>: the record, or \<open>None\<close> for \<open>blocked\<close>.\<close>

definition registry_authorize ::
    "delivery \<Rightarrow> lease_namespace \<Rightarrow> sandbox_lease
      \<Rightarrow> (registry_error + lease_record option) \<times> lease_namespace" where
  "registry_authorize d ns l =
     (let (r, ns') = registry_post d ns (sl_lease_id l) ''/authorize'' (lease_body l)
      in (map_sum id (\<lambda>x. case x of Some (Allowed rec) \<Rightarrow> Some rec | _ \<Rightarrow> None) r, ns'))"

definition registry_begin_process ::
    "delivery \<Rightarrow> lease_namespace \<Rightarrow> sandbox_lease \<Rightarrow> string
      \<Rightarrow> (registry_error + lease_record option) \<times> lease_namespace" where
  "registry_begin_process d ns l pid =
     (let (r, ns') = registry_post d ns (sl_lease_id l) ''/process/begin'' (process_body l pid)
      in (map_sum id (\<lambda>x. case x of Some (Process_reserved rec) \<Rightarrow> Some rec | _ \<Rightarrow> None) r, ns'))"

definition registry_mark_process_running ::
    "delivery \<Rightarrow> lease_namespace \<Rightarrow> sandbox_lease \<Rightarrow> string
      \<Rightarrow> (registry_error + bool) \<times> lease_namespace" where
  "registry_mark_process_running d ns l pid =
     (let (r, ns') = registry_post d ns (sl_lease_id l) ''/process/running'' (process_body l pid)
      in (case r of
            Inl e \<Rightarrow> Inl e
          | Inr (Some (Kill_flag k)) \<Rightarrow> Inr k
          | Inr _ \<Rightarrow> Inl Process_binding_failed,
          ns'))"

datatype kill_reservation = Kr_already_terminal | Kr_reserved string string

definition registry_request_kill ::
    "delivery \<Rightarrow> lease_namespace \<Rightarrow> sandbox_lease
      \<Rightarrow> (registry_error + kill_reservation option) \<times> lease_namespace" where
  "registry_request_kill d ns l =
     (let (r, ns') = registry_post d ns (sl_lease_id l) ''/kill'' (lease_body l)
      in (map_sum id (\<lambda>x. case x of
                            Some Already_terminal \<Rightarrow> Some Kr_already_terminal
                          | Some (Kill_reserved p q) \<Rightarrow> Some (Kr_reserved p q)
                          | _ \<Rightarrow> None) r, ns'))"

datatype destroy_reservation = Dr_already_destroyed | Dr_reserved string destroy_recovery

definition registry_begin_destroy ::
    "delivery \<Rightarrow> lease_namespace \<Rightarrow> sandbox_lease
      \<Rightarrow> (registry_error + destroy_reservation option) \<times> lease_namespace" where
  "registry_begin_destroy d ns l =
     (let (r, ns') = registry_post d ns (sl_lease_id l) ''/destroy/begin'' (lease_body l)
      in (map_sum id (\<lambda>x. case x of
                            Some Already_destroyed \<Rightarrow> Some Dr_already_destroyed
                          | Some (Destroy_reserved p rc) \<Rightarrow> Some (Dr_reserved p rc)
                          | _ \<Rightarrow> None) r, ns'))"

definition registry_mark_ready where
  "registry_mark_ready d ns l = require_no_content d ns (sl_lease_id l) ''/ready'' (lease_body l)"

definition registry_clear_process where
  "registry_clear_process d ns l pid =
     require_no_content d ns (sl_lease_id l) ''/process/clear'' (process_body l pid)"

definition registry_finish_kill where
  "registry_finish_kill d ns l =
     require_no_content d ns (sl_lease_id l) ''/kill/finish'' (lease_body l)"

definition registry_finish_destroy where
  "registry_finish_destroy d ns l =
     require_no_content d ns (sl_lease_id l) ''/destroy/finish'' (lease_body l)"

definition registry_abort_destroy where
  "registry_abort_destroy d ns l =
     require_no_content d ns (sl_lease_id l) ''/destroy/abort'' (lease_body l)"

definition registry_remove where
  "registry_remove d ns l = require_no_content d ns (sl_lease_id l) ''/remove'' (lease_body l)"

section \<open>The invariant of the stored record\<close>

definition lease_inv :: "lease_record \<Rightarrow> bool" where
  "lease_inv c \<longleftrightarrow>
     (lr_process_id c = None \<longleftrightarrow> lr_process_state c = None) \<and>
     (lr_process_id c \<noteq> None \<longrightarrow> lr_status c = Ready \<or> lr_status c = Destroying) \<and>
     (lr_destroy_resume_status c \<noteq> None \<longleftrightarrow> lr_status c = Destroying) \<and>
     (lr_kill_requested c \<and> lr_status c = Ready \<longrightarrow> lr_process_id c \<noteq> None) \<and>
     (lr_kill_requested c \<and> lr_destroy_resume_status c = Some Resume_ready
        \<longrightarrow> lr_process_id c \<noteq> None) \<and>
     (lr_destroy_resume_status c = Some Resume_killed
        \<longrightarrow> lr_kill_requested c \<and> lr_process_id c = None) \<and>
     (lr_status c = Killed \<or> lr_status c = Destroyed \<longrightarrow> lr_kill_requested c) \<and>
     (lr_status c = Pending \<longrightarrow> \<not> lr_kill_requested c)"

definition cell_inv :: "lease_cell \<Rightarrow> bool" where
  "cell_inv cell \<longleftrightarrow> (case cell of None \<Rightarrow> True | Some c \<Rightarrow> lease_inv c)"

text \<open>The record \<open>CloudflareSandboxBackend.create\<close> reserves.\<close>

definition fresh_record :: "lease_record \<Rightarrow> bool" where
  "fresh_record r \<longleftrightarrow> lr_status r = Pending \<and> lr_process_id r = None \<and> lr_process_state r = None
     \<and> lr_destroy_resume_status r = None \<and> \<not> lr_kill_requested r"

text \<open>A request of the machine: method, path and body; admissible when what it reserves is fresh.\<close>

type_synonym registry_request = "string \<times> string \<times> registry_body"

definition admissible_request :: "registry_request \<Rightarrow> bool" where
  "admissible_request q \<longleftrightarrow>
     (case q of (meth, path, body) \<Rightarrow>
        (case rb_record body of None \<Rightarrow> True | Some r \<Rightarrow> fresh_record r))"

definition cell_step :: "lease_cell \<Rightarrow> registry_request \<Rightarrow> lease_cell" where
  "cell_step cell q =
     (case q of (meth, path, body) \<Rightarrow>
        snd (handle_sandbox_lease_registry_request cell meth path body))"

text \<open>
  Any fact about the outcome of a request on a present record follows from the fact for each
  operation: the rule the proofs below share.
\<close>

lemma bound_transition_cases:
  assumes "P (on_authorize c)" and "P (on_ready c)" and "P (on_process_begin c pid)"
    and "P (on_process_running c pid)" and "P (on_process_clear c pid)" and "P (on_kill c)"
    and "P (on_kill_finish c)" and "P (on_destroy_begin c)" and "P (on_destroy_finish c)"
    and "P (on_destroy_abort c)" and "P (on_remove c)" and "P (Blocked, Some c)"
  shows "P (bound_transition c path pid)"
  using assms by (simp add: bound_transition_def)

lemma handle_cases [consumes 0, case_names unchanged reserve bound]:
  assumes "\<And>r. P (r, cell)"
    and "\<And>rec. cell = None \<Longrightarrow> rb_record body = Some rec \<Longrightarrow> P (No_content, Some rec)"
    and "\<And>c l. cell = Some c \<Longrightarrow> rb_lease body = Some l \<Longrightarrow> record_matches_lease c l
           \<Longrightarrow> P (bound_transition c path (rb_process_id body))"
  shows "P (handle_sandbox_lease_registry_request cell meth path body)"
  using assms
  by (auto simp: handle_sandbox_lease_registry_request_def on_reserve_def split: option.splits)

lemma not_resume [simp]:
  "s \<noteq> Resume_ready \<longleftrightarrow> s = Resume_killed" "s \<noteq> Resume_killed \<longleftrightarrow> s = Resume_ready"
  by (cases s; simp)+

lemma op_lease_inv:
  assumes "lease_inv c"
  shows "cell_inv (snd (on_authorize c))" "cell_inv (snd (on_ready c))"
    "cell_inv (snd (on_process_begin c pid))" "cell_inv (snd (on_process_running c pid))"
    "cell_inv (snd (on_process_clear c pid))" "cell_inv (snd (on_kill c))"
    "cell_inv (snd (on_kill_finish c))" "cell_inv (snd (on_destroy_begin c))"
    "cell_inv (snd (on_destroy_finish c))" "cell_inv (snd (on_destroy_abort c))"
    "cell_inv (snd (on_remove c))"
  using assms
  by - ((cases "lr_status c"; cases "lr_process_id c"; cases "lr_process_state c";
      cases "lr_destroy_resume_status c"; simp add: op_defs cell_inv_def lease_inv_def Let_def
        status_of_resume_def split: resume_status.splits; auto)+)

lemma bound_transition_inv: "lease_inv c \<Longrightarrow> cell_inv (snd (bound_transition c path pid))"
  by (rule bound_transition_cases) (simp_all add: op_lease_inv, simp add: cell_inv_def)

lemma fresh_record_inv: "fresh_record r \<Longrightarrow> lease_inv r"
  by (simp add: fresh_record_def lease_inv_def)

lemma cell_step_inv:
  assumes "cell_inv cell" and "admissible_request q"
  shows "cell_inv (cell_step cell q)"
proof -
  obtain meth path body where q: "q = (meth, path, body)" by (cases q)
  have "cell_inv (snd (handle_sandbox_lease_registry_request cell meth path body))"
  proof (rule handle_cases)
    show "cell_inv (snd (r, cell))" for r using assms(1) by simp
    show "cell_inv (snd (No_content, Some rec))" if "rb_record body = Some rec" for rec
      using assms(2) that by (simp add: q admissible_request_def cell_inv_def fresh_record_inv)
    show "cell_inv (snd (bound_transition c path (rb_process_id body)))" if "cell = Some c" for c
      using assms(1) that by (intro bound_transition_inv) (simp add: cell_inv_def)
  qed
  then show ?thesis by (simp add: cell_step_def q)
qed

section \<open>The phases of a lease, and the refinement to them\<close>

text \<open>
  What a lease promises its users, without the bookkeeping: a lease is provisioned, is idle or
  runs one process, is stopped for good once a kill is complete, and while it is being closed
  remembers the phase it would fall back to.
\<close>

datatype lease_phase =
    Absent
  | Provisioning
  | Idle
  | Busy string process_state bool
  | Stopped
  | Closing lease_phase
  | Gone

inductive phase_step :: "lease_phase \<Rightarrow> lease_phase \<Rightarrow> bool" where
  reserve: "phase_step Absent Provisioning"
| release: "phase_step Provisioning Absent"
| activate: "phase_step Provisioning Idle"
| launch: "phase_step Idle (Busy p Starting False)"
| started: "phase_step (Busy p Starting k) (Busy p Running k)"
| finished: "phase_step (Busy p s False) Idle"
| kill: "phase_step (Busy p s k) (Busy p s True)"
| killed: "phase_step (Busy p s True) Stopped"
| close: "q = Idle \<or> q = Stopped \<or> (\<exists>p s k. q = Busy p s k) \<Longrightarrow> phase_step q (Closing q)"
| settle: "phase_step (Closing (Busy p s False)) (Closing Idle)"
| settle_killed: "phase_step (Closing (Busy p s True)) (Closing Stopped)"
| reopen: "phase_step (Closing q) q"
| gone: "phase_step (Closing q) Gone"

inductive_cases phase_step_goneE [elim!]: "phase_step Gone q"
inductive_cases phase_step_stoppedE [elim!]: "phase_step Stopped q"
inductive_cases phase_step_closingE [elim!]: "phase_step (Closing p) q"
inductive_cases phase_step_busyE [elim!]: "phase_step (Busy p s k) q"

definition live_phase :: "lease_record \<Rightarrow> lease_phase" where
  "live_phase c =
     (case (lr_process_id c, lr_process_state c) of
        (Some p, Some s) \<Rightarrow> Busy p s (lr_kill_requested c)
      | _ \<Rightarrow> Idle)"

definition cell_phase :: "lease_cell \<Rightarrow> lease_phase" where
  "cell_phase cell =
     (case cell of
        None \<Rightarrow> Absent
      | Some c \<Rightarrow>
          (case lr_status c of
             Pending \<Rightarrow> Provisioning
           | Ready \<Rightarrow> live_phase c
           | Killed \<Rightarrow> Stopped
           | Destroyed \<Rightarrow> Gone
           | Destroying \<Rightarrow>
               Closing (if lr_destroy_resume_status c = Some Resume_killed then Stopped
                        else live_phase c)))"

definition phase_refines :: "lease_record \<Rightarrow> lease_cell \<Rightarrow> bool" where
  "phase_refines c cell \<longleftrightarrow>
     cell_phase cell = cell_phase (Some c) \<or> phase_step (cell_phase (Some c)) (cell_phase cell)"

lemma op_phase:
  assumes "lease_inv c"
  shows "phase_refines c (snd (on_authorize c))" "phase_refines c (snd (on_ready c))"
    "phase_refines c (snd (on_process_begin c pid))"
    "phase_refines c (snd (on_process_running c pid))"
    "phase_refines c (snd (on_process_clear c pid))" "phase_refines c (snd (on_kill c))"
    "phase_refines c (snd (on_kill_finish c))" "phase_refines c (snd (on_destroy_begin c))"
    "phase_refines c (snd (on_destroy_finish c))" "phase_refines c (snd (on_destroy_abort c))"
    "phase_refines c (snd (on_remove c))"
  using assms
  by - ((cases "lr_status c"; cases "lr_process_id c"; cases "lr_process_state c";
      cases "lr_destroy_resume_status c"; cases "lr_kill_requested c";
      simp add: op_defs phase_refines_def cell_phase_def live_phase_def lease_inv_def Let_def
        status_of_resume_def split: resume_status.splits;
      auto intro: phase_step.intros)+)

lemma bound_transition_phase: "lease_inv c \<Longrightarrow> phase_refines c (snd (bound_transition c path pid))"
  by (rule bound_transition_cases) (simp_all add: op_phase, simp add: phase_refines_def)

lemma cell_step_phase:
  assumes "cell_inv cell" and "admissible_request q"
  shows "cell_phase (cell_step cell q) = cell_phase cell
    \<or> phase_step (cell_phase cell) (cell_phase (cell_step cell q))"
proof -
  obtain meth path body where q: "q = (meth, path, body)" by (cases q)
  let ?P = "\<lambda>out. cell_phase (snd out) = cell_phase cell
    \<or> phase_step (cell_phase cell) (cell_phase (snd out))"
  have "?P (handle_sandbox_lease_registry_request cell meth path body)"
  proof (rule handle_cases)
    show "?P (r, cell)" for r by simp
    show "?P (No_content, Some rec)" if "cell = None" "rb_record body = Some rec" for rec
      using assms(2) that
      by (simp add: q admissible_request_def cell_phase_def fresh_record_def phase_step.reserve)
    show "?P (bound_transition c path (rb_process_id body))" if "cell = Some c" for c
      using bound_transition_phase [of c] assms(1) that by (auto simp: cell_inv_def phase_refines_def)
  qed
  then show ?thesis by (simp add: cell_step_def q)
qed

section \<open>The registry as a machine whose runs follow the phases\<close>

locale lease_machine = invariant_machine +
  fixes phase :: "'s \<Rightarrow> lease_phase"
  assumes phase_ok: "inv s \<Longrightarrow> ok e \<Longrightarrow> phase (step s e) = phase s \<or> phase_step (phase s) (phase (step s e))"
begin

lemma run_phases: "inv s \<Longrightarrow> list_all ok es \<Longrightarrow> phase_step\<^sup>*\<^sup>* (phase s) (phase (foldl step s es))"
proof (induction es arbitrary: s)
  case (Cons e es)
  then have "phase_step\<^sup>*\<^sup>* (phase (step s e)) (phase (foldl step (step s e) es))"
    by (simp add: step_inv)
  moreover have "phase_step\<^sup>*\<^sup>* (phase s) (phase (step s e))"
    using phase_ok [of s e] Cons.prems by auto
  ultimately show ?case by simp
qed simp

text \<open>A set of phases closed under steps holds every later run.\<close>

lemma run_closed:
  assumes "\<And>p q. p \<in> C \<Longrightarrow> phase_step p q \<Longrightarrow> q \<in> C"
    and "inv s" and "list_all ok es" and "phase s \<in> C"
  shows "phase (foldl step s es) \<in> C"
proof -
  have "phase_step\<^sup>*\<^sup>* (phase s) (phase (foldl step s es))"
    using assms(2,3) by (rule run_phases)
  then show ?thesis using assms(4) by induction (auto intro: assms(1))
qed

end

interpretation registry: lease_machine cell_step admissible_request cell_inv cell_phase
  by unfold_locales (rule cell_step_inv cell_step_phase; assumption)+

text \<open>The phases in which a kill has been accepted; no step leaves them for a new launch.\<close>

definition doomed :: "lease_phase set" where
  "doomed = {Stopped, Gone, Closing Stopped} \<union> {Busy p s True | p s. True}
     \<union> {Closing (Busy p s True) | p s. True}"

lemma doomed_closed: "p \<in> doomed \<Longrightarrow> phase_step p q \<Longrightarrow> q \<in> doomed"
  by (auto simp: doomed_def)

lemma kill_requested_doomed:
  "lease_inv c \<Longrightarrow> lr_kill_requested c \<Longrightarrow> cell_phase (Some c) \<in> doomed"
  by (cases "lr_status c"; cases "lr_process_id c"; cases "lr_process_state c";
      cases "lr_destroy_resume_status c"; simp add: cell_phase_def live_phase_def lease_inv_def
        doomed_def)

lemma doomed_no_launch:
  assumes "cell_phase cell \<in> doomed"
  shows "fst (handle_sandbox_lease_registry_request cell meth ''/process/begin'' body)
           \<noteq> Process_reserved r"
  using assms
  by (auto simp: handle_sandbox_lease_registry_request_def bound_transition_def on_process_begin_def
      cell_phase_def live_phase_def doomed_def Let_def split: option.splits lease_status.splits)

lemma handle_Process_reserved:
  assumes "fst (handle_sandbox_lease_registry_request cell meth path body) = Process_reserved r"
  shows "path = ''/process/begin''"
  using assms
  by (auto simp: handle_sandbox_lease_registry_request_def bound_transition_def op_defs Let_def
      split: option.splits if_splits lease_status.splits process_state.splits prod.splits)

lemma binding_matches_iff: "binding_matches l r \<longleftrightarrow> l = r"
  by (cases l; cases r; cases "lb_owner l"; cases "lb_owner r") (auto simp: binding_matches_def)

lemma snapshot_sandbox_grant_inj: "snapshot_sandbox_grant g = snapshot_sandbox_grant h \<longleftrightarrow> g = h"
  by (cases g; cases h)
    (auto simp: snapshot_sandbox_grant_def split: sandbox_ownership.splits)

text \<open>The part of a record that names the lease, its owner and its provider objects.\<close>

definition lease_identity :: "lease_record \<Rightarrow> string \<times> lease_binding \<times> string \<times> string \<times> string" where
  "lease_identity c = (lr_backend_id c, lr_binding c, lr_lease_id c, lr_provider_id c, lr_session_id c)"

lemma bound_transition_identity:
  "snd (bound_transition c path pid) = Some c' \<Longrightarrow> lease_identity c' = lease_identity c"
proof -
  let ?P = "\<lambda>out. \<forall>c'. snd out = Some c' \<longrightarrow> lease_identity c' = lease_identity c"
  have "?P (bound_transition c path pid)"
    by (rule bound_transition_cases)
      (auto simp: op_defs lease_identity_def Let_def
        split: lease_status.splits option.splits process_state.splits)
  then show "snd (bound_transition c path pid) = Some c' \<Longrightarrow> lease_identity c' = lease_identity c"
    by blast
qed

lemma cell_step_identity:
  assumes "cell_step (Some c) q = Some c'"
  shows "lease_identity c' = lease_identity c"
proof -
  obtain meth path body where q: "q = (meth, path, body)" by (cases q)
  let ?P = "\<lambda>out. snd out = Some c' \<longrightarrow> lease_identity c' = lease_identity c"
  have "?P (handle_sandbox_lease_registry_request (Some c) meth path body)"
    by (rule handle_cases) (auto dest: bound_transition_identity)
  with assms show ?thesis by (simp add: cell_step_def q)
qed

section \<open>Properties\<close>

text \<open>every request sequence on a fresh registry object, in any order and with any bodies
  whose reservations are the ones \<open>create\<close> makes, leaves a record that satisfies the record
  invariant (process id and process state agree, a process exists only while ready or
  destroying, a resume status exists exactly while destroying, an accepted kill is never lost).\<close>

theorem registry_invariant:
  assumes "list_all admissible_request qs"
  shows "cell_inv (foldl cell_step None qs)"
  using assms by (intro registry.run_inv) (simp_all add: cell_inv_def)

definition sample_grant :: sandbox_grant where
  "sample_grant = \<lparr>ag_layer = ''research'', ag_owner = Owner_run ''run-1'', ag_run_mode = ''runner_remote'',
     ag_runner_family = ''fastclaw'', ag_runner_id = ''fastclaw.personal-v0'',
     ag_contract_version = ''2026-07-10.agent-runner-selection.v0'',
     ag_source = ''agent_runner_selection'', ag_tenant_id = ''t1'', ag_user_id = ''u1''\<rparr>"

definition sample_lease :: sandbox_lease where
  "sample_lease = \<lparr>sl_access_grant = sample_grant, sl_backend_id = ''cloudflare.sandbox-v0'',
     sl_lease_id = ''l1''\<rparr>"

definition sample_record :: lease_record where
  "sample_record = \<lparr>lr_backend_id = ''cloudflare.sandbox-v0'',
     lr_binding = snapshot_sandbox_grant sample_grant, lr_destroy_resume_status = None,
     lr_kill_requested = False, lr_lease_id = ''l1'', lr_process_id = None,
     lr_process_state = None, lr_provider_id = ''ab-l1'', lr_session_id = ''session-l1'',
     lr_status = Pending\<rparr>"

definition sample_requests :: "registry_request list" where
  "sample_requests =
     [(''POST'', ''/reserve'', \<lparr>rb_lease = None, rb_process_id = None, rb_record = Some sample_record\<rparr>),
      (''POST'', ''/ready'', lease_body sample_lease),
      (''POST'', ''/process/begin'', process_body sample_lease ''p1''),
      (''POST'', ''/kill'', lease_body sample_lease)]"

lemmas sample_defs = sample_grant_def sample_lease_def sample_record_def sample_requests_def
  lease_body_def process_body_def snapshot_sandbox_grant_def

lemma sample_requests_admissible: "list_all admissible_request sample_requests"
  by (simp add: sample_defs admissible_request_def fresh_record_def)

lemma sample_matches: "record_matches_lease sample_record sample_lease"
  by (simp add: record_matches_lease_def binding_matches_iff sample_defs)

lemma sample_matches_update [simp]:
  "record_matches_lease (sample_record\<lparr>lr_status := st\<rparr>) sample_lease"
  "record_matches_lease (sample_record\<lparr>lr_status := st, lr_process_id := p, lr_process_state := ps\<rparr>) sample_lease"
  using sample_matches by (simp_all add: record_matches_lease_def)

lemma sample_run:
  "foldl cell_step None sample_requests =
     Some (sample_record\<lparr>lr_status := Ready, lr_process_id := Some ''p1'',
       lr_process_state := Some Starting, lr_kill_requested := True\<rparr>)"
  using sample_matches
  by (simp add: sample_requests_def cell_step_def handle_sandbox_lease_registry_request_def
      lease_body_def process_body_def bound_transition_def op_defs Let_def)
    (simp add: sample_record_def)

theorem registry_invariant_witness:
  "list_all admissible_request sample_requests \<and> cell_inv (foldl cell_step None sample_requests)
    \<and> foldl cell_step None sample_requests \<noteq> None"
  using registry_invariant [OF sample_requests_admissible] sample_requests_admissible
  by (simp add: sample_run)

text \<open>C1: the handler refines the life cycle of a lease: each request leaves the phase of the
  stored record as it is or moves it along one edge of the phase graph (provisioning to idle,
  idle to busy, busy to idle, to kill requested and to stopped, closing and reopening, gone).\<close>

theorem registry_refines_phases:
  assumes "cell_inv cell" and "admissible_request (meth, path, body)"
    and "handle_sandbox_lease_registry_request cell meth path body = (resp, cell')"
  shows "cell_phase cell' = cell_phase cell \<or> phase_step (cell_phase cell) (cell_phase cell')"
  using cell_step_phase [OF assms(1,2)] assms(3) by (simp add: cell_step_def)

theorem registry_refines_phases_witness:
  "phase_step (cell_phase (Some (sample_record\<lparr>lr_status := Ready\<rparr>)))
     (Busy ''p1'' Starting False)"
proof -
  let ?c = "sample_record\<lparr>lr_status := Ready\<rparr>"
  let ?c' = "?c\<lparr>lr_process_id := Some ''p1'', lr_process_state := Some Starting\<rparr>"
  have "cell_inv (Some ?c)" by (simp add: cell_inv_def lease_inv_def sample_record_def)
  moreover have "admissible_request (''POST'', ''/process/begin'', process_body sample_lease ''p1'')"
    by (simp add: admissible_request_def process_body_def)
  moreover have "handle_sandbox_lease_registry_request (Some ?c) ''POST'' ''/process/begin''
      (process_body sample_lease ''p1'') = (Process_reserved ?c', Some ?c')"
    by (simp add: handle_sandbox_lease_registry_request_def process_body_def bound_transition_def
        on_process_begin_def Let_def) (simp add: sample_record_def)
  ultimately have "cell_phase (Some ?c') = cell_phase (Some ?c)
      \<or> phase_step (cell_phase (Some ?c)) (cell_phase (Some ?c'))"
    by (rule registry_refines_phases)
  then show ?thesis by (simp add: cell_phase_def live_phase_def sample_record_def)
qed



text \<open>destruction is final: after \<open>/destroy/finish\<close> the lease is never authorised again,
  reserves no process and no kill, and every further \<open>/destroy/begin\<close> of its owner answers
  \<open>already_destroyed\<close> (the idempotence the backend contract promises).\<close>

theorem destroyed_is_final:
  assumes "lease_inv c" and "lr_status c = Destroyed" and "list_all admissible_request qs"
  shows "\<exists>c'. foldl cell_step (Some c) qs = Some c' \<and> lr_status c' = Destroyed
    \<and> on_authorize c' = (Blocked, Some c')
    \<and> on_kill c' = (Already_terminal, Some c')
    \<and> on_destroy_begin c' = (Already_destroyed, Some c')"
proof -
  have "cell_phase (foldl cell_step (Some c) qs) \<in> {Gone}"
    using assms by (intro registry.run_closed) (auto simp: cell_inv_def cell_phase_def)
  then obtain c' where "foldl cell_step (Some c) qs = Some c'" "lr_status c' = Destroyed"
    by (auto simp: cell_phase_def live_phase_def split: option.splits lease_status.splits if_splits)
  then show ?thesis by (simp add: op_defs)
qed

theorem destroyed_is_final_witness:
  "\<exists>c'. foldl cell_step
      (Some (sample_record\<lparr>lr_status := Destroyed, lr_kill_requested := True\<rparr>)) sample_requests
        = Some c' \<and> lr_status c' = Destroyed
    \<and> on_authorize c' = (Blocked, Some c')
    \<and> on_kill c' = (Already_terminal, Some c')
    \<and> on_destroy_begin c' = (Already_destroyed, Some c')"
  by (rule destroyed_is_final)
    (simp_all add: sample_requests_admissible lease_inv_def, simp_all add: sample_record_def)

text \<open>a lease belongs to the grant it was reserved for: a request that presents a lease
  whose id, backend or any field of its grant (owner, tenant, user, runner, layer, mode) differs
  from the reserved one is refused and changes nothing, whatever its path.\<close>

theorem foreign_lease_refused:
  assumes "rb_lease body = Some l"
    and "sl_lease_id l \<noteq> lr_lease_id c \<or> sl_backend_id l \<noteq> lr_backend_id c
      \<or> snapshot_sandbox_grant (sl_access_grant l) \<noteq> lr_binding c"
  shows "handle_sandbox_lease_registry_request (Some c) ''POST'' path body = (Blocked, Some c)"
  using assms
  by (auto simp: handle_sandbox_lease_registry_request_def on_reserve_def record_matches_lease_def
      binding_matches_iff split: option.splits)

theorem foreign_lease_refused_witness:
  "handle_sandbox_lease_registry_request (Some sample_record) ''POST'' ''/ready''
     (lease_body (sample_lease\<lparr>sl_access_grant := sample_grant\<lparr>ag_tenant_id := ''t2''\<rparr>\<rparr>))
       = (Blocked, Some sample_record)"
  by (rule foreign_lease_refused
      [where l = "sample_lease\<lparr>sl_access_grant := sample_grant\<lparr>ag_tenant_id := ''t2''\<rparr>\<rparr>"])
    (simp_all add: sample_defs)

text \<open>No request rebinds a stored record: while a record is present, its lease id, backend,
  grant binding, provider object and session stay the ones it was reserved with.\<close>

theorem lease_identity_immutable:
  assumes "handle_sandbox_lease_registry_request (Some c) meth path body = (resp, Some c')"
  shows "lease_identity c' = lease_identity c"
  using cell_step_identity [of c "(meth, path, body)" c'] assms by (simp add: cell_step_def)

theorem lease_identity_immutable_witness:
  "lease_identity (sample_record\<lparr>lr_status := Ready\<rparr>) = lease_identity sample_record"
proof (rule lease_identity_immutable)
  show "handle_sandbox_lease_registry_request (Some sample_record) ''POST'' ''/ready''
      (lease_body sample_lease) = (No_content, Some (sample_record\<lparr>lr_status := Ready\<rparr>))"
    using sample_matches
    by (simp add: handle_sandbox_lease_registry_request_def lease_body_def bound_transition_def
        on_ready_def) (simp add: sample_record_def)
qed
end
