(* ===== verification/Js_Codec.thy ===== *)
theory Js_Codec
  imports Ctl_Prelude "HOL-Library.AList"
begin

text \<open>
  The encodings the token package relies on: UTF-8 (\<open>TextEncoder\<close>, fatal \<open>TextDecoder\<close>),
  base64 (\<open>btoa\<close>, \<open>atob\<close>) with the package's base64url wrapping, decimal and hexadecimal
  digits, and JSON (\<open>JSON.stringify\<close>, \<open>JSON.parse\<close>), each with its round trip.

  A \<open>Uint8Array\<close> is a string of bytes: a character of the range 0 to 255 is a byte. Text outside
  that range does not occur in the model, so the decoder refuses lead bytes above 0xC3.
  A JSON number is kept exact: an integer where its literal denotes one, else the literal.
\<close>

type_synonym bytes = string

section \<open>UTF-8\<close>

definition utf8_char :: "char \<Rightarrow> bytes" where
  "utf8_char c =
     (let n = code_unit c in
      if n < 128 then [c] else [char_of (192 + n div 64), char_of (128 + n mod 64)])"

definition utf8_encode :: "string \<Rightarrow> bytes" where
  "utf8_encode s = concat (map utf8_char s)"

fun utf8_decode_aux :: "bytes \<Rightarrow> string option" where
  "utf8_decode_aux [] = Some []"
| "utf8_decode_aux (b # bs) =
     (if code_unit b < 128 then map_option ((#) b) (utf8_decode_aux bs)
      else if code_unit b = 194 \<or> code_unit b = 195 then
        (case bs of
           [] \<Rightarrow> None
         | d # ds \<Rightarrow>
             if 128 \<le> code_unit d \<and> code_unit d < 192 then
               map_option ((#) (char_of ((code_unit b - 192) * 64 + (code_unit d - 128))))
                 (utf8_decode_aux ds)
             else None)
      else None)"

text \<open>\<open>new TextDecoder("utf-8", { fatal: true, ignoreBOM: false })\<close>: a leading BOM is dropped.\<close>

definition utf8_decode :: "bytes \<Rightarrow> string option" where
  "utf8_decode bs =
     (if map code_unit (take 3 bs) = [239, 187, 191] then utf8_decode_aux (drop 3 bs)
      else utf8_decode_aux bs)"

lemma length_utf8_encode: "length (utf8_encode s) = utf8_length s"
  by (induction s) (auto simp: utf8_encode_def utf8_length_def utf8_char_def Let_def)

lemma code_unit_less [simp]: "code_unit c < 256"
  by (metis of_char_mod_256 mod_less_divisor zero_less_numeral)

lemma utf8_decode_char: "utf8_decode_aux (utf8_char c @ bs) = map_option ((#) c) (utf8_decode_aux bs)"
proof (cases "code_unit c < 128")
  case False
  have "code_unit c < 256" by simp
  with False have "code_unit c div 64 = 2 \<or> code_unit c div 64 = 3" by linarith
  moreover have "char_of (code_unit c div 64 * 64 + code_unit c mod 64) = c"
    by (simp only: div_mult_mod_eq char_of_char)
  moreover have "code_unit c mod 64 < 64" by simp
  then have "code_unit c mod 64 \<noteq> 66" "code_unit c mod 64 \<noteq> 67" by linarith+
  moreover have "code_unit c < 192" if "code_unit c div 64 = 2" using that by linarith
  ultimately show ?thesis using False
    by (elim disjE) (simp_all add: utf8_char_def Let_def)
qed (simp add: utf8_char_def Let_def)

lemma utf8_decode_aux_encode: "utf8_decode_aux (utf8_encode s) = Some s"
  by (induction s) (simp_all add: utf8_encode_def utf8_decode_char)

lemma utf8_encode_head:
  "utf8_encode s = b # bs \<Longrightarrow> code_unit b \<noteq> 239"
proof (cases s)
  case (Cons c cs)
  assume "utf8_encode s = b # bs"
  moreover have "code_unit c < 256" by simp
  then have "192 + code_unit c div 64 < 196" by linarith
  ultimately show ?thesis using Cons
    by (auto simp: utf8_encode_def utf8_char_def Let_def split: if_splits)
qed (simp add: utf8_encode_def)

lemma utf8_decode_encode [simp]: "utf8_decode (utf8_encode s) = Some s"
  using utf8_encode_head [of s]
  by (cases "utf8_encode s") (auto simp: utf8_decode_def utf8_decode_aux_encode [of s, symmetric])

section \<open>Base64\<close>

definition b64_char :: "nat \<Rightarrow> char" where
  "b64_char n =
     (if n < 26 then char_of (65 + n)
      else if n < 52 then char_of (71 + n)
      else if n < 62 then char_of (n - 4)
      else if n = 62 then CHR ''+'' else CHR ''/'')"

definition b64_value :: "char \<Rightarrow> nat option" where
  "b64_value c =
     (if is_upper c then Some (code_unit c - 65)
      else if is_lower c then Some (code_unit c - 71)
      else if is_digit c then Some (code_unit c + 4)
      else if c = CHR ''+'' then Some 62
      else if c = CHR ''/'' then Some 63
      else None)"

fun btoa :: "bytes \<Rightarrow> string" where
  "btoa [] = []"
| "btoa [a] = [b64_char (code_unit a div 4), b64_char (code_unit a mod 4 * 16), CHR ''='', CHR ''='']"
| "btoa [a, b] =
     [b64_char (code_unit a div 4), b64_char (code_unit a mod 4 * 16 + code_unit b div 16),
      b64_char (code_unit b mod 16 * 4), CHR ''='']"
| "btoa (a # b # c # r) =
     b64_char (code_unit a div 4) # b64_char (code_unit a mod 4 * 16 + code_unit b div 16)
       # b64_char (code_unit b mod 16 * 4 + code_unit c div 64) # b64_char (code_unit c mod 64)
       # btoa r"

fun b64_decode :: "string \<Rightarrow> bytes option" where
  "b64_decode [] = Some []"
| "b64_decode [w] = None"
| "b64_decode [w, x] =
     (case (b64_value w, b64_value x) of
        (Some i, Some j) \<Rightarrow> Some [char_of (i * 4 + j div 16)]
      | _ \<Rightarrow> None)"
| "b64_decode [w, x, y] =
     (case (b64_value w, b64_value x, b64_value y) of
        (Some i, Some j, Some k) \<Rightarrow>
          Some [char_of (i * 4 + j div 16), char_of (j mod 16 * 16 + k div 4)]
      | _ \<Rightarrow> None)"
| "b64_decode (w # x # y # z # r) =
     (case (b64_value w, b64_value x, b64_value y, b64_value z, b64_decode r) of
        (Some i, Some j, Some k, Some l, Some bs) \<Rightarrow>
          Some (char_of (i * 4 + j div 16) # char_of (j mod 16 * 16 + k div 4)
            # char_of (k mod 4 * 64 + l) # bs)
      | _ \<Rightarrow> None)"

text \<open>
  \<open>atob\<close>: ASCII white space is dropped; where the length is a multiple of four, at most two
  trailing \<open>=\<close> are; every remaining character must be of the alphabet, and a single left-over
  character fails.
\<close>

definition atob_unpad :: "string \<Rightarrow> string" where
  "atob_unpad s =
     (if length s mod 4 = 0 then
        (if s \<noteq> [] \<and> last s = CHR ''='' then
           (if butlast s \<noteq> [] \<and> last (butlast s) = CHR ''='' then butlast (butlast s)
            else butlast s)
         else s)
      else s)"

definition ascii_ws :: "char \<Rightarrow> bool" where
  "ascii_ws c \<longleftrightarrow> code_unit c \<in> {9, 10, 12, 13, 32}"

definition atob :: "string \<Rightarrow> bytes option" where
  "atob s = b64_decode (atob_unpad (filter (\<lambda>c. \<not> ascii_ws c) s))"

section \<open>Base64url, as the token package wraps it\<close>

definition url_char :: "char \<Rightarrow> char" where
  "url_char c = (if c = CHR ''+'' then CHR ''-'' else if c = CHR ''/'' then CHR ''_'' else c)"

definition std_char :: "char \<Rightarrow> char" where
  "std_char c = (if c = CHR ''-'' then CHR ''+'' else if c = CHR ''_'' then CHR ''/'' else c)"

definition strip_padding :: "string \<Rightarrow> string" where
  "strip_padding s = rev (dropWhile (\<lambda>c. c = CHR ''='') (rev s))"

definition bytes_to_base64url :: "bytes \<Rightarrow> string" where
  "bytes_to_base64url bs = strip_padding (map url_char (btoa bs))"

text \<open>\<open>TOKEN_PART_PATTERN\<close>.\<close>

definition token_part_char :: "char \<Rightarrow> bool" where
  "token_part_char c \<longleftrightarrow> is_alnum c \<or> c = CHR ''_'' \<or> c = CHR ''-''"

definition token_part :: "string \<Rightarrow> bool" where
  "token_part s \<longleftrightarrow> s \<noteq> [] \<and> list_all token_part_char s"

definition base64url_to_bytes :: "string \<Rightarrow> bytes option" where
  "base64url_to_bytes v =
     (if v = [] \<or> \<not> token_part v then None
      else (let normalized = map std_char v in
            atob (normalized @ replicate ((4 - length normalized mod 4) mod 4) (CHR ''=''))))"

fun b64_core :: "bytes \<Rightarrow> string" where
  "b64_core [] = []"
| "b64_core [a] = [b64_char (code_unit a div 4), b64_char (code_unit a mod 4 * 16)]"
| "b64_core [a, b] =
     [b64_char (code_unit a div 4), b64_char (code_unit a mod 4 * 16 + code_unit b div 16),
      b64_char (code_unit b mod 16 * 4)]"
| "b64_core (a # b # c # r) =
     b64_char (code_unit a div 4) # b64_char (code_unit a mod 4 * 16 + code_unit b div 16)
       # b64_char (code_unit b mod 16 * 4 + code_unit c div 64) # b64_char (code_unit c mod 64)
       # b64_core r"

definition b64_pad :: "bytes \<Rightarrow> nat" where
  "b64_pad bs = (if length bs mod 3 = 0 then 0 else 3 - length bs mod 3)"

lemma b64_pad_simps [simp]:
  "b64_pad [] = 0" "b64_pad [a] = 2" "b64_pad [a, b] = 1" "b64_pad (a # b # c # r) = b64_pad r"
proof -
  have "length (a # b # c # r) = length r + 3" by simp
  then show "b64_pad (a # b # c # r) = b64_pad r" unfolding b64_pad_def by (metis mod_add_self2)
qed (simp_all add: b64_pad_def)

lemma btoa_core: "btoa bs = b64_core bs @ replicate (b64_pad bs) (CHR ''='')"
  by (induction bs rule: btoa.induct) (simp_all add: numeral_2_eq_2)

lemma b64_core_quad: "length (b64_core (a # b # c # r)) mod 4 = length (b64_core r) mod 4"
proof -
  have "length (b64_core (a # b # c # r)) = length (b64_core r) + 4" by simp
  then show ?thesis by (metis mod_add_self2)
qed

lemma b64_core_pad: "(4 - length (b64_core bs) mod 4) mod 4 = b64_pad bs"
proof (induction bs rule: btoa.induct)
  case (4 a b c r)
  then show ?case by (simp only: b64_core_quad b64_pad_simps)
qed simp_all

lemma b64_char_value:
  assumes "n < 64"
  shows "b64_value (b64_char n) = Some n"
proof -
  have m: "(65 + n) mod 256 = 65 + n" "(71 + n) mod 256 = 71 + n" "(n - 4) mod 256 = n - 4"
    using assms by simp_all
  consider "n < 26" | "26 \<le> n" "n < 52" | "52 \<le> n" "n < 62" | "n = 62" | "n = 63"
    using assms by linarith
  then show ?thesis
    by cases (simp_all add: b64_char_def b64_value_def is_upper_def is_lower_def is_digit_def m,
        linarith)
qed

lemma div_mod_block:
  fixes x y m :: nat
  assumes "y < m"
  shows "(x * m + y) div m = x" "(x * m + y) mod m = y"
  using assms by simp_all

lemma byte_parts:
  fixes a :: nat
  assumes "a < 256"
  shows "a div 4 < 64" "a div 16 < 16" "a div 64 < 4" "a mod 4 < 4" "a mod 16 < 16" "a mod 64 < 64"
  using assms by (simp_all add: less_mult_imp_div_less)

lemma sextet_bounds:
  fixes a b c :: nat
  assumes "a < 256" and "b < 256" and "c < 256"
  shows "a div 4 < 64" "a mod 4 * 16 < 64" "a mod 4 * 16 + b div 16 < 64" "b mod 16 * 4 < 64"
    "b mod 16 * 4 + c div 64 < 64" "c mod 64 < 64"
  using byte_parts [OF assms(1)] byte_parts [OF assms(2)] byte_parts [OF assms(3)] by linarith+

lemma sextet_join:
  fixes a b c :: nat
  assumes "b < 256" and "c < 256"
  shows "a div 4 * 4 + a mod 4 * 16 div 16 = a"
    "a div 4 * 4 + (a mod 4 * 16 + b div 16) div 16 = a"
    "(a mod 4 * 16 + b div 16) mod 16 * 16 + b mod 16 * 4 div 4 = b"
    "(a mod 4 * 16 + b div 16) mod 16 * 16 + (b mod 16 * 4 + c div 64) div 4 = b"
    "(b mod 16 * 4 + c div 64) mod 4 * 64 + c mod 64 = c"
  using byte_parts(2) [OF assms(1)] byte_parts(3) [OF assms(2)]
  by (simp_all only: div_mod_block div_mult_mod_eq nonzero_mult_div_cancel_right)

lemmas sextets = sextet_bounds [OF code_unit_less code_unit_less code_unit_less]
  sextet_join [OF code_unit_less code_unit_less]

lemma b64_decode_core: "b64_decode (b64_core bs) = Some bs"
  by (induction bs rule: b64_core.induct)
    (simp_all only: b64_core.simps b64_decode.simps b64_char_value sextets option.case prod.case
      char_of_char)

lemma b64_char_alphabet:
  assumes "n < 64"
  shows "b64_char n \<noteq> CHR ''=''" "\<not> ascii_ws (b64_char n)"
    "std_char (url_char (b64_char n)) = b64_char n" "token_part_char (url_char (b64_char n))"
proof -
  have v: "b64_value (b64_char n) = Some n" using assms by (rule b64_char_value)
  then show "b64_char n \<noteq> CHR ''=''" "\<not> ascii_ws (b64_char n)"
    by (auto simp: b64_value_def is_upper_def is_lower_def is_digit_def ascii_ws_def split: if_splits)
  have "b64_char n \<noteq> CHR ''-''" "b64_char n \<noteq> CHR ''_''"
    using v by (auto simp: b64_value_def is_upper_def is_lower_def is_digit_def)
  then show "std_char (url_char (b64_char n)) = b64_char n"
    by (simp add: std_char_def url_char_def)
  show "token_part_char (url_char (b64_char n))"
    using v by (auto simp: token_part_char_def url_char_def b64_value_def is_alnum_def split: if_splits)
qed

lemma b64_core_all:
  assumes "\<And>n. n < 64 \<Longrightarrow> P (b64_char n)"
  shows "list_all P (b64_core bs)"
  by (induction bs rule: b64_core.induct) (simp_all add: assms sextets)

lemma map_id_on: "(\<And>c. c \<in> set s \<Longrightarrow> f c = c) \<Longrightarrow> map f s = s"
  by (induction s) auto

lemma dropWhile_none: "(\<And>c. c \<in> set xs \<Longrightarrow> \<not> P c) \<Longrightarrow> dropWhile P xs = xs"
  by (cases xs) auto

lemma pad_to_quad:
  fixes l :: nat
  shows "(l + (4 - l mod 4) mod 4) mod 4 = 0"
proof -
  have "l mod 4 < 4" by simp
  then consider "l mod 4 = 0" | "l mod 4 = 1" | "l mod 4 = 2" | "l mod 4 = 3" by linarith
  then show ?thesis by cases (simp_all, presburger+)
qed

lemma bytes_to_base64url_core: "bytes_to_base64url bs = map url_char (b64_core bs)"
proof -
  let ?u = "map url_char (b64_core bs)"
  have "list_all (\<lambda>c. token_part_char (url_char c)) (b64_core bs)"
    by (rule b64_core_all) (rule b64_char_alphabet)
  then have "c \<noteq> CHR ''=''" if "c \<in> set ?u" for c
    using that by (auto simp: list_all_iff token_part_char_def is_alnum_def is_upper_def is_lower_def
        is_digit_def)
  then have "dropWhile (\<lambda>c. c = CHR ''='') (rev ?u) = rev ?u"
    by (intro dropWhile_none) (simp only: set_rev not_False_eq_True)
  moreover have "map url_char (btoa bs) = ?u @ replicate (b64_pad bs) (CHR ''='')"
    by (simp add: btoa_core url_char_def)
  moreover have "dropWhile (\<lambda>c. c = CHR ''='') (replicate n (CHR ''='') @ xs)
      = dropWhile (\<lambda>c. c = CHR ''='') xs" for n xs
    by (induction n) auto
  ultimately show ?thesis
    by (simp add: bytes_to_base64url_def strip_padding_def)
qed


lemma atob_unpad_padded:
  assumes "\<And>c. c \<in> set core \<Longrightarrow> c \<noteq> CHR ''=''" and "(length core + p) mod 4 = 0" and "p \<le> 2"
  shows "atob_unpad (core @ replicate p (CHR ''='')) = core"
proof -
  have last: "last core \<noteq> CHR ''=''" if "core \<noteq> []"
    using assms(1) last_in_set [OF that] by blast
  consider "p = 0" | "p = 1" | "p = 2" using assms(3) by linarith
  then show ?thesis
  proof cases
    case 1
    then show ?thesis using assms(2) last
      by (cases "core = []") (simp_all add: atob_unpad_def)
  next
    case 2
    then have "core \<noteq> []" using assms(2) by auto
    with 2 show ?thesis using assms(2) last by (simp add: atob_unpad_def)
  next
    case 3
    then have "core @ replicate p (CHR ''='') = (core @ [CHR ''='']) @ [CHR ''='']"
      by (simp add: numeral_2_eq_2)
    moreover have "length ((core @ [CHR ''='']) @ [CHR ''='']) mod 4 = 0" using assms(2) 3 by simp
    ultimately show ?thesis by (simp only: atob_unpad_def last_snoc butlast_snoc) simp
  qed
qed

lemma b64_pad_le: "b64_pad bs \<le> 2"
proof -
  have "k \<noteq> 0 \<Longrightarrow> 3 - k \<le> 2" for k :: nat by linarith
  then show ?thesis by (simp add: b64_pad_def)
qed

lemma atob_padded:
  "atob (b64_core bs @ replicate (b64_pad bs) (CHR ''='')) = Some bs"
proof -
  have core: "list_all (\<lambda>c. c \<noteq> CHR ''='' \<and> \<not> ascii_ws c) (b64_core bs)"
    by (rule b64_core_all) (simp add: b64_char_alphabet)
  have "filter (\<lambda>c. \<not> ascii_ws c) (b64_core bs) = b64_core bs"
    using core by (auto simp: list_all_iff intro: filter_True)
  moreover have "\<not> ascii_ws (CHR ''='')" by (simp add: ascii_ws_def)
  moreover have "atob_unpad (b64_core bs @ replicate (b64_pad bs) (CHR ''='')) = b64_core bs"
  proof (rule atob_unpad_padded [OF _ _ b64_pad_le])
    show "c \<noteq> CHR ''=''" if "c \<in> set (b64_core bs)" for c
      using core that by (auto simp: list_all_iff)
    show "(length (b64_core bs) + b64_pad bs) mod 4 = 0"
      by (simp only: b64_core_pad [symmetric] pad_to_quad)
  qed
  ultimately show ?thesis by (simp add: atob_def filter_replicate b64_decode_core)
qed

theorem base64url_roundtrip:
  assumes "bs \<noteq> []"
  shows "base64url_to_bytes (bytes_to_base64url bs) = Some bs"
proof -
  have core: "list_all (\<lambda>c. token_part_char (url_char c) \<and> std_char (url_char c) = c) (b64_core bs)"
    by (rule b64_core_all) (simp add: b64_char_alphabet)
  then have "map std_char (map url_char (b64_core bs)) = b64_core bs"
    by (simp add: list_all_iff map_id_on)
  moreover have "token_part (map url_char (b64_core bs))"
    using core assms by (cases bs rule: b64_core.cases) (simp_all add: token_part_def list_all_iff)
  moreover have "length (map url_char (b64_core bs)) = length (b64_core bs)" by simp
  ultimately show ?thesis using atob_padded [of bs] b64_core_pad [of bs]
    by (simp add: base64url_to_bytes_def bytes_to_base64url_core token_part_def Let_def)
qed

section \<open>Digits\<close>

fun nat_text :: "nat \<Rightarrow> string" where
  "nat_text n = (if n < 10 then [char_of (48 + n)] else nat_text (n div 10) @ [char_of (48 + n mod 10)])"

declare nat_text.simps [simp del]

definition int_text :: "int \<Rightarrow> string" where
  "int_text i = (if i < 0 then CHR ''-'' # nat_text (nat (- i)) else nat_text (nat i))"

definition digits_value :: "string \<Rightarrow> nat" where
  "digits_value s = foldl (\<lambda>n c. 10 * n + (code_unit c - 48)) 0 s"

text \<open>\<open>Number\<close> of a content length, which HTTP restricts to decimal digits; \<open>None\<close> is not a finite number.\<close>

definition content_length_of :: "string \<Rightarrow> nat option" where
  "content_length_of s = (if s \<noteq> [] \<and> list_all is_digit s then Some (digits_value s) else None)"

text \<open>\<open>byte.toString(16).padStart(2, "0")\<close>, byte by byte.\<close>

definition hex_digit :: "nat \<Rightarrow> char" where
  "hex_digit n = (if n < 10 then char_of (48 + n) else char_of (87 + n))"

definition hex_value :: "char \<Rightarrow> nat option" where
  "hex_value c =
     (if is_digit c then Some (code_unit c - 48)
      else if 97 \<le> code_unit c \<and> code_unit c \<le> 102 then Some (code_unit c - 87)
      else if 65 \<le> code_unit c \<and> code_unit c \<le> 70 then Some (code_unit c - 55)
      else None)"

definition bytes_to_hex :: "bytes \<Rightarrow> string" where
  "bytes_to_hex bs = concat (map (\<lambda>b. [hex_digit (code_unit b div 16), hex_digit (code_unit b mod 16)]) bs)"

lemma digit_char [simp]: "d < 10 \<Longrightarrow> is_digit (char_of (48 + d))" "d < 10 \<Longrightarrow> code_unit (char_of (48 + d)) = 48 + d"
  by (simp_all add: is_digit_def)

lemma nat_text_digits: "list_all is_digit (nat_text n)"
  by (induction n rule: nat_text.induct) (subst nat_text.simps, simp)

lemma nat_text_nonempty [simp]: "nat_text n \<noteq> []"
  by (subst nat_text.simps) simp

lemma nat_text_value: "digits_value (nat_text n) = n"
proof (induction n rule: nat_text.induct)
  case (1 n)
  then show ?case by (subst nat_text.simps) (auto simp: digits_value_def)
qed

lemma nat_text_zero: "hd (nat_text n) = CHR ''0'' \<Longrightarrow> n < 10"
proof (induction n rule: nat_text.induct)
  case (1 n)
  show ?case
  proof (rule ccontr)
    assume n: "\<not> n < 10"
    then have "hd (nat_text (n div 10)) = CHR ''0''"
      using 1(2) by (simp add: nat_text.simps [of n] hd_append)
    with n 1(1) have small: "n div 10 < 10" by blast
    with \<open>hd (nat_text (n div 10)) = CHR ''0''\<close> have "char_of (48 + n div 10) = CHR ''0''"
      by (simp add: nat_text.simps [of "n div 10"])
    then have "code_unit (char_of (48 + n div 10)) = 48" by simp
    with small have "n div 10 = 0" by (simp only: digit_char)
    with n show False by simp
  qed
qed

lemma nat_text_no_leading_zero: "length (nat_text n) = 1 \<or> hd (nat_text n) \<noteq> CHR ''0''"
  using nat_text_zero [of n] by (auto simp: nat_text.simps [of n])

lemma hex_digit_value: "n < 16 \<Longrightarrow> hex_value (hex_digit n) = Some n"
  by (cases "n < 10") (simp_all add: hex_digit_def hex_value_def is_digit_def)

lemma hex_digit_lower: "n < 16 \<Longrightarrow> is_lower_hex (hex_digit n)"
  by (cases "n < 10") (simp_all add: hex_digit_def is_lower_hex_def is_digit_def)

lemma bytes_to_hex_length: "length (bytes_to_hex bs) = 2 * length bs"
  by (induction bs) (simp_all add: bytes_to_hex_def)

lemma bytes_to_hex_lower: "list_all is_lower_hex (bytes_to_hex bs)"
proof (induction bs)
  case (Cons b bs)
  have "code_unit b div 16 < 16" "code_unit b mod 16 < 16"
    using byte_parts [OF code_unit_less, of b] by simp_all
  with Cons show ?case by (simp add: bytes_to_hex_def hex_digit_lower)
qed (simp add: bytes_to_hex_def)

section \<open>JSON\<close>

datatype json =
  JNull | JBool bool | JNum int | JFrac string | JStr string | JArr "json list"
  | JObj "(string \<times> json) list"

definition json_escape :: "char \<Rightarrow> string" where
  "json_escape c =
     (let n = code_unit c in
      if n = 34 \<or> n = 92 then [CHR 0x5C, c]
      else if n = 8 then [CHR 0x5C, CHR ''b'']
      else if n = 9 then [CHR 0x5C, CHR ''t'']
      else if n = 10 then [CHR 0x5C, CHR ''n'']
      else if n = 12 then [CHR 0x5C, CHR ''f'']
      else if n = 13 then [CHR 0x5C, CHR ''r'']
      else if n < 32 then
        [CHR 0x5C, CHR ''u'', CHR ''0'', CHR ''0'', hex_digit (n div 16), hex_digit (n mod 16)]
      else [c])"

definition json_string :: "string \<Rightarrow> string" where
  "json_string s = CHR 0x22 # concat (map json_escape s) @ [CHR 0x22]"

text \<open>\<open>JSON.stringify\<close> without replacer or indentation.\<close>

fun json_text :: "json \<Rightarrow> string"
  and elems_text :: "json list \<Rightarrow> string"
  and members_text :: "(string \<times> json) list \<Rightarrow> string" where
  "json_text JNull = ''null''"
| "json_text (JBool b) = (if b then ''true'' else ''false'')"
| "json_text (JNum i) = int_text i"
| "json_text (JFrac l) = l"
| "json_text (JStr s) = json_string s"
| "json_text (JArr vs) = CHR ''['' # elems_text vs @ [CHR '']'']"
| "json_text (JObj ms) = CHR ''{'' # members_text ms @ [CHR ''}'']"
| "elems_text [] = []"
| "elems_text [v] = json_text v"
| "elems_text (v # w # vs) = json_text v @ CHR '','' # elems_text (w # vs)"
| "members_text [] = []"
| "members_text [(k, v)] = json_string k @ CHR '':'' # json_text v"
| "members_text ((k, v) # m # ms) =
     json_string k @ CHR '':'' # json_text v @ CHR '','' # members_text (m # ms)"

definition json_ws :: "char \<Rightarrow> bool" where
  "json_ws c \<longleftrightarrow> code_unit c \<in> {9, 10, 13, 32}"

definition skip_ws :: "string \<Rightarrow> string" where
  "skip_ws s = dropWhile json_ws s"

text \<open>The rest of a string literal after its opening quote, with the text after the closing one.\<close>

definition simple_escape :: "char \<Rightarrow> char option" where
  "simple_escape e =
     map_of
       [(CHR 0x22, CHR 0x22), (CHR 0x5C, CHR 0x5C), (CHR 0x2F, CHR 0x2F), (CHR ''b'', CHR 0x08),
        (CHR ''f'', CHR 0x0C), (CHR ''n'', CHR 0x0A), (CHR ''r'', CHR 0x0D), (CHR ''t'', CHR 0x09)] e"

definition unicode_escape :: "char \<Rightarrow> char \<Rightarrow> char \<Rightarrow> char \<Rightarrow> char option" where
  "unicode_escape h0 h1 h2 h3 =
     (case (hex_value h0, hex_value h1, hex_value h2, hex_value h3) of
        (Some a, Some b, Some i, Some j) \<Rightarrow>
          if a = 0 \<and> b = 0 then Some (char_of (16 * i + j)) else None
      | _ \<Rightarrow> None)"

fun p_chars :: "string \<Rightarrow> (string \<times> string) option" where
  "p_chars [] = None"
| "p_chars (c # cs) =
     (if c = CHR 0x22 then Some ([], cs)
      else if c = CHR 0x5C then
        (case cs of
           [] \<Rightarrow> None
         | e # r \<Rightarrow>
             (if e = CHR ''u'' then
                (case r of
                   h0 # h1 # h2 # h3 # r' \<Rightarrow>
                     (case unicode_escape h0 h1 h2 h3 of
                        Some y \<Rightarrow> map_option (\<lambda>(s, t). (y # s, t)) (p_chars r')
                      | None \<Rightarrow> None)
                 | _ \<Rightarrow> None)
              else
                (case simple_escape e of
                   Some y \<Rightarrow> map_option (\<lambda>(s, t). (y # s, t)) (p_chars r)
                 | None \<Rightarrow> None)))
      else if code_unit c < 32 then None
      else map_option (\<lambda>(s, t). (c # s, t)) (p_chars cs))"

definition p_sign :: "string \<Rightarrow> bool \<times> string" where
  "p_sign s = (case s of c # r \<Rightarrow> if c = CHR ''-'' then (True, r) else (False, s) | [] \<Rightarrow> (False, s))"

definition p_fraction :: "string \<Rightarrow> (string \<times> string) option" where
  "p_fraction s =
     (case s of
        c # r \<Rightarrow>
          if c = CHR ''.'' then
            (if takeWhile is_digit r = [] then None
             else Some (takeWhile is_digit r, dropWhile is_digit r))
          else Some ([], s)
      | [] \<Rightarrow> Some ([], s))"

definition p_exponent :: "string \<Rightarrow> (int \<times> string) option" where
  "p_exponent s =
     (case s of
        c # r \<Rightarrow>
          if c = CHR ''e'' \<or> c = CHR ''E'' then
            (let (neg, r1) =
                   (case r of d # r' \<Rightarrow>
                      if d = CHR ''-'' then (True, r') else if d = CHR ''+'' then (False, r')
                      else (False, r)
                    | [] \<Rightarrow> (False, r));
                 ds = takeWhile is_digit r1 in
             if ds = [] then None
             else Some ((if neg then - int (digits_value ds) else int (digits_value ds)),
                        dropWhile is_digit r1))
          else Some (0, s)
      | [] \<Rightarrow> Some (0, s))"

text \<open>The literal \<open>\<plusminus>ip.fp\<times>10^e\<close> as a number: an integer where it denotes one.\<close>

definition number_of :: "bool \<Rightarrow> string \<Rightarrow> string \<Rightarrow> int \<Rightarrow> string \<Rightarrow> json" where
  "number_of neg ip fp e lit =
     (let m = int (digits_value (ip @ fp)); m = (if neg then - m else m);
          k = e - int (length fp) in
      if 0 \<le> k then JNum (m * 10 ^ nat k)
      else if m mod (10 ^ nat (- k)) = 0 then JNum (m div 10 ^ nat (- k))
      else JFrac lit)"

definition p_number :: "string \<Rightarrow> (json \<times> string) option" where
  "p_number s =
     (let (neg, s1) = p_sign s; ip = takeWhile is_digit s1; s2 = dropWhile is_digit s1 in
      if ip = [] \<or> (1 < length ip \<and> hd ip = CHR ''0'') then None
      else (case p_fraction s2 of
              None \<Rightarrow> None
            | Some (fp, s3) \<Rightarrow>
                (case p_exponent s3 of
                   None \<Rightarrow> None
                 | Some (e, s4) \<Rightarrow>
                     Some (number_of neg ip fp e (take (length s - length s4) s), s4))))"

text \<open>A repeated key keeps its first position and its last value.\<close>

definition object_of :: "(string \<times> json) list \<Rightarrow> (string \<times> json) list" where
  "object_of ms = fold (\<lambda>(k, v). AList.update k v) ms []"

definition expect :: "char \<Rightarrow> string \<Rightarrow> string option" where
  "expect c s = (case skip_ws s of [] \<Rightarrow> None | d # r \<Rightarrow> if d = c then Some r else None)"

fun p_value :: "nat \<Rightarrow> string \<Rightarrow> (json \<times> string) option"
  and p_elems :: "nat \<Rightarrow> string \<Rightarrow> (json list \<times> string) option"
  and p_members :: "nat \<Rightarrow> string \<Rightarrow> ((string \<times> json) list \<times> string) option" where
  "p_value 0 s = None"
| "p_value (Suc n) s =
     (case skip_ws s of
        [] \<Rightarrow> None
      | c # r \<Rightarrow>
          if c = CHR 0x22 then map_option (\<lambda>(x, t). (JStr x, t)) (p_chars r)
          else if c = CHR ''['' then
            (case expect (CHR '']'') r of
               Some t \<Rightarrow> Some (JArr [], t)
             | None \<Rightarrow> map_option (\<lambda>(vs, t). (JArr vs, t)) (p_elems n r))
          else if c = CHR ''{'' then
            (case expect (CHR ''}'') r of
               Some t \<Rightarrow> Some (JObj [], t)
             | None \<Rightarrow> map_option (\<lambda>(ms, t). (JObj (object_of ms), t)) (p_members n r))
          else if starts_with ''null'' (c # r) then Some (JNull, drop 4 (c # r))
          else if starts_with ''true'' (c # r) then Some (JBool True, drop 4 (c # r))
          else if starts_with ''false'' (c # r) then Some (JBool False, drop 5 (c # r))
          else p_number (c # r))"
| "p_elems 0 s = None"
| "p_elems (Suc n) s =
     (case p_value n s of
        None \<Rightarrow> None
      | Some (v, r) \<Rightarrow>
          (case expect (CHR '','') r of
             Some r' \<Rightarrow> map_option (\<lambda>(vs, t). (v # vs, t)) (p_elems n r')
           | None \<Rightarrow> map_option (\<lambda>t. ([v], t)) (expect (CHR '']'') r)))"
| "p_members 0 s = None"
| "p_members (Suc n) s =
     (case expect (CHR 0x22) s of
        None \<Rightarrow> None
      | Some r0 \<Rightarrow>
          (case p_chars r0 of
             None \<Rightarrow> None
           | Some (k, r1) \<Rightarrow>
               (case expect (CHR '':'') r1 of
                  None \<Rightarrow> None
                | Some r2 \<Rightarrow>
                    (case p_value n r2 of
                       None \<Rightarrow> None
                     | Some (v, r3) \<Rightarrow>
                         (case expect (CHR '','') r3 of
                            Some r4 \<Rightarrow> map_option (\<lambda>(ms, t). ((k, v) # ms, t)) (p_members n r4)
                          | None \<Rightarrow> map_option (\<lambda>t. ([(k, v)], t)) (expect (CHR ''}'') r3))))))"

definition json_parse :: "string \<Rightarrow> json option" where
  "json_parse s =
     (case p_value (2 * length s + 2) s of
        Some (v, r) \<Rightarrow> if skip_ws r = [] then Some v else None
      | None \<Rightarrow> None)"

section \<open>Stringify, then parse\<close>

text \<open>The values \<open>JSON.stringify\<close> is applied to: integers, and objects with distinct keys.\<close>

fun json_ok :: "json \<Rightarrow> bool" where
  "json_ok (JFrac l) = False"
| "json_ok (JArr vs) = list_all json_ok vs"
| "json_ok (JObj ms) = (distinct (map fst ms) \<and> list_all (\<lambda>m. json_ok (snd m)) ms)"
| "json_ok _ = True"

definition ends_number :: "string \<Rightarrow> bool" where
  "ends_number s \<longleftrightarrow>
     (case s of [] \<Rightarrow> True
      | c # r \<Rightarrow> \<not> is_digit c \<and> c \<noteq> CHR ''.'' \<and> c \<noteq> CHR ''e'' \<and> c \<noteq> CHR ''E'')"

lemma escape_chars:
  "char_of (34 :: nat) = CHR 0x22" "char_of (92 :: nat) = CHR 0x5C" "char_of (8 :: nat) = CHR 0x08"
  "char_of (9 :: nat) = CHR 0x09" "char_of (10 :: nat) = CHR 0x0A" "char_of (12 :: nat) = CHR 0x0C"
  "char_of (13 :: nat) = CHR 0x0D"
  by (simp_all add: char_of_def bit_iff_odd)

lemma p_chars_escape:
  "p_chars (json_escape c @ t) = map_option (\<lambda>(s, t). (c # s, t)) (p_chars t)"
proof -
  let ?n = "code_unit c"
  have c: "c = char_of n" if "?n = n" for n using that by (metis char_of_char)
  consider "?n = 34" | "?n = 92" | "?n = 8" | "?n = 9" | "?n = 10" | "?n = 12" | "?n = 13"
    | (ctl) "?n < 32" "?n \<notin> {8, 9, 10, 12, 13}" | (plain) "32 \<le> ?n" "?n \<noteq> 34" "?n \<noteq> 92"
    by (cases "?n < 32") auto
  then show ?thesis
  proof cases
    case ctl
    then have "?n div 16 < 16" "?n mod 16 < 16" by simp_all
    then have "hex_value (hex_digit (?n div 16)) = Some (?n div 16)"
      "hex_value (hex_digit (?n mod 16)) = Some (?n mod 16)" by (simp_all add: hex_digit_value)
    moreover have "16 * (?n div 16) + ?n mod 16 = ?n" by simp
    moreover have "hex_value (CHR ''0'') = Some 0" by (simp add: hex_value_def is_digit_def)
    moreover have "?n \<noteq> 34" "?n \<noteq> 92" using ctl by auto
    ultimately show ?thesis using ctl by (simp add: json_escape_def Let_def unicode_escape_def)
  next
    case plain
    then have "c \<noteq> CHR 0x22" "c \<noteq> CHR 0x5C" by auto
    with plain show ?thesis by (auto simp: json_escape_def Let_def)
  qed (drule c, simp add: json_escape_def escape_chars simple_escape_def)+
qed

lemma p_chars_text: "p_chars (concat (map json_escape s) @ CHR 0x22 # t) = Some (s, t)"
  by (induction s) (simp_all add: p_chars_escape)

lemma takeWhile_text:
  "list_all P xs \<Longrightarrow> (case t of [] \<Rightarrow> True | c # r \<Rightarrow> \<not> P c) \<Longrightarrow> takeWhile P (xs @ t) = xs \<and> dropWhile P (xs @ t) = t"
  by (induction xs) (auto split: list.splits)

lemma p_number_nat:
  assumes "ends_number t"
  shows "p_number (nat_text n @ t) = Some (JNum (int n), t)"
    and "p_number (CHR ''-'' # nat_text n @ t) = Some (JNum (- int n), t)"
proof -
  have d: "takeWhile is_digit (nat_text n @ t) = nat_text n \<and> dropWhile is_digit (nat_text n @ t) = t"
    using nat_text_digits assms by (intro takeWhile_text) (auto simp: ends_number_def split: list.splits)
  have "p_fraction t = Some ([], t)" "p_exponent t = Some (0, t)"
    using assms by (auto simp: p_fraction_def p_exponent_def ends_number_def split: list.splits)
  moreover have "\<not> (nat_text n = [] \<or> (1 < length (nat_text n) \<and> hd (nat_text n) = CHR ''0''))"
    using nat_text_no_leading_zero [of n] by auto
  moreover have "p_sign (CHR ''-'' # nat_text n @ t) = (True, nat_text n @ t)"
    by (simp add: p_sign_def)
  moreover obtain c cs where cs: "nat_text n = c # cs" by (meson list.exhaust nat_text_nonempty)
  with nat_text_digits [of n] have "c \<noteq> CHR ''-''" by (auto simp: is_digit_def)
  with cs have "p_sign (nat_text n @ t) = (False, nat_text n @ t)" by (simp add: p_sign_def)
  ultimately show "p_number (nat_text n @ t) = Some (JNum (int n), t)"
    "p_number (CHR ''-'' # nat_text n @ t) = Some (JNum (- int n), t)"
    using d by (simp_all add: p_number_def number_of_def nat_text_value Let_def)
qed

lemma p_number_text: "ends_number t \<Longrightarrow> p_number (int_text i @ t) = Some (JNum i, t)"
  using p_number_nat [of t "nat i"] p_number_nat [of t "nat (- i)"]
  by (auto simp: int_text_def)

lemma fold_update_distinct:
  "distinct (map fst (acc @ ms)) \<Longrightarrow> fold (\<lambda>(k, v). AList.update k v) ms acc = acc @ ms"
proof (induction ms arbitrary: acc)
  case (Cons m ms)
  obtain k v where m: "m = (k, v)" by force
  have "k \<notin> set (map fst acc)" using Cons.prems m by auto
  then have "AList.update k v acc = acc @ [(k, v)]" by (induction acc) auto
  then show ?case using Cons.IH [of "acc @ [(k, v)]"] Cons.prems m by simp
qed simp

lemma object_of_distinct: "distinct (map fst ms) \<Longrightarrow> object_of ms = ms"
  using fold_update_distinct [of "[]" ms] by (simp add: object_of_def)

text \<open>No text of a value starts with white space or a closing bracket.\<close>

definition value_start :: "string \<Rightarrow> bool" where
  "value_start s \<longleftrightarrow> s \<noteq> [] \<and> \<not> json_ws (hd s) \<and> hd s \<notin> {CHR '']'', CHR ''}'', CHR '',''}"

lemma nat_text_start: "\<exists>c cs. nat_text n = c # cs \<and> is_digit c"
  using nat_text_digits [of n] by (cases "nat_text n") auto

lemma int_text_start: "\<exists>c cs. int_text i = c # cs \<and> (is_digit c \<or> c = CHR ''-'')"
  using nat_text_start [of "nat i"] by (auto simp: int_text_def)

lemma value_start_text: "json_ok v \<Longrightarrow> value_start (json_text v @ t)"
proof (cases v)
  case (JNum i)
  obtain c cs where "int_text i = c # cs" "is_digit c \<or> c = CHR ''-''"
    using int_text_start by blast
  then show ?thesis using JNum by (auto simp: value_start_def json_ws_def is_digit_def)
qed (auto simp: value_start_def json_ws_def json_string_def)

lemma skip_ws_start: "value_start s \<Longrightarrow> skip_ws s = s"
  by (cases s) (auto simp: value_start_def skip_ws_def)

lemma expect_close:
  assumes "value_start s" and "c \<in> {CHR '']'', CHR ''}'', CHR '',''}"
  shows "expect c s = None"
  using assms by (cases s) (auto simp: expect_def skip_ws_start value_start_def split: list.splits)

lemma expect_here: "\<not> json_ws c \<Longrightarrow> expect d (c # r) = (if c = d then Some r else None)"
  by (simp add: expect_def skip_ws_def)

lemma json_ws_punctuation [simp]:
  "\<not> json_ws (CHR '','')" "\<not> json_ws (CHR '':'')" "\<not> json_ws (CHR '']'')" "\<not> json_ws (CHR ''}'')"
  "\<not> json_ws (CHR ''['')" "\<not> json_ws (CHR ''{'')" "\<not> json_ws (CHR 0x22)"
  by (simp_all add: json_ws_def)

lemma ends_number_punctuation [simp]:
  "ends_number (CHR '','' # t)" "ends_number (CHR '']'' # t)" "ends_number (CHR ''}'' # t)" "ends_number []"
  by (simp_all add: ends_number_def is_digit_def)

lemma p_value_number:
  assumes "ends_number t"
  shows "p_value (Suc n) (int_text i @ t) = Some (JNum i, t)"
proof -
  obtain c cs where c: "int_text i = c # cs" "is_digit c \<or> c = CHR ''-''"
    using int_text_start by blast
  then have "\<not> json_ws c" "c \<noteq> CHR 0x22" "c \<noteq> CHR ''[''" "c \<noteq> CHR ''{''" "c \<noteq> CHR ''n''"
    "c \<noteq> CHR ''t''" "c \<noteq> CHR ''f''"
    by (auto simp: json_ws_def is_digit_def)
  then show ?thesis using p_number_text [OF assms, of i] c
    by (simp add: skip_ws_def starts_with_def)
qed

lemma elems_start: "vs \<noteq> [] \<Longrightarrow> list_all json_ok vs \<Longrightarrow> value_start (elems_text vs @ t)"
  by (cases vs rule: elems_text.cases) (simp_all add: value_start_text)

lemma members_head: "ms \<noteq> [] \<Longrightarrow> \<exists>r. members_text ms @ t = CHR 0x22 # r"
  by (cases ms rule: members_text.cases) (simp_all add: json_string_def)

lemma p_members_key:
  "p_members (Suc n) (json_string k @ CHR '':'' # s) =
     (case p_value n s of
        None \<Rightarrow> None
      | Some (v, r3) \<Rightarrow>
          (case expect (CHR '','') r3 of
             Some r4 \<Rightarrow> map_option (\<lambda>(ms, t). ((k, v) # ms, t)) (p_members n r4)
           | None \<Rightarrow> map_option (\<lambda>t. ([(k, v)], t)) (expect (CHR ''}'') r3)))"
  by (simp add: json_string_def expect_here p_chars_text)

lemma parse_text:
  shows "json_ok v \<Longrightarrow> ends_number t \<Longrightarrow> 2 * length (json_text v) + 1 \<le> n \<Longrightarrow>
      p_value n (json_text v @ t) = Some (v, t)"
    and "vs \<noteq> [] \<Longrightarrow> list_all json_ok vs \<Longrightarrow> 2 * length (elems_text vs) + 2 \<le> n \<Longrightarrow>
      p_elems n (elems_text vs @ CHR '']'' # t) = Some (vs, t)"
    and "ms \<noteq> [] \<Longrightarrow> list_all (\<lambda>m. json_ok (snd m)) ms \<Longrightarrow> 2 * length (members_text ms) + 2 \<le> n \<Longrightarrow>
      p_members n (members_text ms @ CHR ''}'' # t) = Some (ms, t)"
proof (induction v and vs and ms arbitrary: n t and n t and n t
    rule: json_text_elems_text_members_text.induct)
  case 1
  then show ?case by (cases n) (simp_all add: skip_ws_def json_ws_def starts_with_def)
next
  case (2 b)
  then show ?case by (cases n) (simp_all add: skip_ws_def json_ws_def starts_with_def)
next
  case (3 i)
  then obtain m where "n = Suc m" by (cases n) auto
  with 3 show ?case by (simp add: p_value_number del: p_value.simps)
next
  case (5 s)
  then show ?case
    by (cases n) (simp_all add: skip_ws_def json_string_def p_chars_text)
next
  case (6 vs)
  then obtain m where n: "n = Suc m" by (cases n) auto
  show ?case
  proof (cases "vs = []")
    case True
    then show ?thesis by (simp add: n skip_ws_def expect_here)
  next
    case False
    then have "p_elems m (elems_text vs @ CHR '']'' # t) = Some (vs, t)"
      using 6 by (simp add: n)
    moreover have "expect (CHR '']'') (elems_text vs @ CHR '']'' # t) = None"
      using elems_start [OF False] 6(2) by (intro expect_close) simp_all
    ultimately show ?thesis by (simp add: n skip_ws_def)
  qed
next
  case (7 ms)
  then obtain m where n: "n = Suc m" by (cases n) auto
  show ?case
  proof (cases "ms = []")
    case True
    then show ?thesis by (simp add: n skip_ws_def expect_here)
  next
    case False
    then have "p_members m (members_text ms @ CHR ''}'' # t) = Some (ms, t)"
      using 7 by (simp add: n)
    moreover obtain r where "members_text ms @ CHR ''}'' # t = CHR 0x22 # r"
      using members_head [OF False] by blast
    then have "expect (CHR ''}'') (members_text ms @ CHR ''}'' # t) = None"
      by (simp add: expect_here)
    moreover have "object_of ms = ms" using 7(2) by (simp add: object_of_distinct)
    ultimately show ?thesis by (simp add: n skip_ws_def)
  qed
next
  case (9 v)
  then obtain m where n: "n = Suc m" by (cases n) auto
  have "p_value m (json_text v @ CHR '']'' # t) = Some (v, CHR '']'' # t)"
    using 9 by (simp add: n)
  then show ?case by (simp add: n expect_here)
next
  case (10 v w vs)
  then obtain m where n: "n = Suc m" by (cases n) auto
  have "p_value m (json_text v @ CHR '','' # elems_text (w # vs) @ CHR '']'' # t)
      = Some (v, CHR '','' # elems_text (w # vs) @ CHR '']'' # t)"
    using 10 by (simp add: n)
  moreover have "p_elems m (elems_text (w # vs) @ CHR '']'' # t) = Some (w # vs, t)"
    using 10 by (simp add: n)
  ultimately show ?case by (simp add: n expect_here)
next
  case (12 k v)
  then obtain m where n: "n = Suc m" by (cases n) auto
  have "p_value m (json_text v @ CHR ''}'' # t) = Some (v, CHR ''}'' # t)"
    using 12 by (simp add: n)
  then show ?case by (simp add: n p_members_key expect_here del: p_members.simps)
next
  case (13 k v w ms)
  then obtain m where n: "n = Suc m" by (cases n) auto
  have "p_value m (json_text v @ CHR '','' # members_text (w # ms) @ CHR ''}'' # t)
      = Some (v, CHR '','' # members_text (w # ms) @ CHR ''}'' # t)"
    using 13 by (simp add: n)
  moreover have "p_members m (members_text (w # ms) @ CHR ''}'' # t) = Some (w # ms, t)"
    using 13 by (simp add: n)
  ultimately show ?case by (simp add: n p_members_key expect_here del: p_members.simps)
qed simp_all

theorem json_roundtrip: "json_ok v \<Longrightarrow> json_parse (json_text v) = Some v"
  using parse_text(1) [of v "[]" "2 * length (json_text v) + 2"]
  by (simp add: json_parse_def skip_ws_def)

section \<open>The parser's fuel\<close>

text \<open>
  The parser is called with \<open>2 * length s + 2\<close>: more fuel gives the same answer, so a
  refusal is always a refusal of the grammar.
\<close>

lemma p_chars_length: "p_chars s = Some (x, t) \<Longrightarrow> length t < length s"
proof (induction "length s" arbitrary: s x t rule: less_induct)
  case less
  show ?case
  proof (cases s)
    case (Cons c cs)
    with less.prems show ?thesis
      by (auto split: if_splits list.splits option.splits dest!: less.hyps [rotated])
  qed (use less.prems in simp)
qed

lemma skip_ws_length: "length (skip_ws s) \<le> length s"
  by (simp add: skip_ws_def length_dropWhile_le)

lemma expect_length: "expect c s = Some t \<Longrightarrow> length t < length s"
  using skip_ws_length [of s] by (auto simp: expect_def split: list.splits if_splits)

lemma p_number_length:
  assumes "p_number s = Some (v, t)"
  shows "length t < length s"
proof -
  obtain neg s1 where s1: "p_sign s = (neg, s1)" by force
  then have "length s1 \<le> length s" by (auto simp: p_sign_def split: list.splits if_splits)
  moreover have "length s1 = length (takeWhile is_digit s1) + length (dropWhile is_digit s1)"
    by (metis length_append takeWhile_dropWhile_id)
  moreover have frac: "length y \<le> length r" if "p_fraction r = Some (x, y)" for r x y
    using that by (auto simp: p_fraction_def le_SucI length_dropWhile_le split: list.splits if_splits)
  moreover have expo: "length y \<le> length r" if "p_exponent r = Some (x, y)" for r x y
    using that length_dropWhile_le [of is_digit]
    by (auto simp: p_exponent_def Let_def le_SucI split: list.splits if_splits prod.splits)
  moreover obtain fp s3 e where "takeWhile is_digit s1 \<noteq> []"
    "p_fraction (dropWhile is_digit s1) = Some (fp, s3)" "p_exponent s3 = Some (e, t)"
    using assms s1 by (auto simp: p_number_def Let_def split: if_splits option.splits)
  moreover from this(1) have "0 < length (takeWhile is_digit s1)" by simp
  ultimately show ?thesis by (metis (no_types) frac expo add_strict_increasing leD le_less_trans not_le order_trans)
qed

lemma skip_ws_tail: "skip_ws s = c # r \<Longrightarrow> length r < length s"
  using skip_ws_length [of s] by simp

lemma consume_length:
  shows "p_value n s = Some (v, t) \<Longrightarrow> length t < length s"
    and "p_elems n s = Some (vs, t) \<Longrightarrow> length t < length s"
    and "p_members n s = Some (ms, t) \<Longrightarrow> length t < length s"
proof (induction n s and n s and n s arbitrary: v t and vs t and ms t
    rule: p_value_p_elems_p_members.induct)
  case (2 n s)
  from 2(3) obtain c r where cr: "skip_ws s = c # r" by (auto split: list.splits)
  have "length t < length (c # r)"
  proof (cases "c = CHR ''['' \<or> c = CHR ''{''")
    case True
    then show ?thesis using 2 cr
      by (auto split: option.splits dest: expect_length) (meson less_SucI)+
  next
    case False
    then show ?thesis using 2(3) cr
      by (auto split: if_splits dest!: p_chars_length p_number_length intro: less_SucI)
  qed
  then show ?case using cr skip_ws_length [of s] by simp
next
  case (4 n s)
  from 4(3) obtain v r where v: "p_value n s = Some (v, r)" by (auto split: option.splits)
  then have "length r < length s" using 4(1) by simp
  moreover have "length t < length r"
  proof (cases "expect (CHR '','') r")
    case None
    with 4(3) v show ?thesis by (auto dest: expect_length)
  next
    case (Some r')
    with 4(3) v obtain ws where "p_elems n r' = Some (ws, t)" by auto
    with 4(2) [OF v refl Some] have "length t < length r'" by simp
    with Some show ?thesis by (auto dest: expect_length)
  qed
  ultimately show ?case by simp
next
  case (6 n s)
  from 6(3) obtain r0 k r1 r2 v r where r: "expect (CHR 0x22) s = Some r0" "p_chars r0 = Some (k, r1)"
    "expect (CHR '':'') r1 = Some r2" "p_value n r2 = Some (v, r)"
    by (auto split: option.splits)
  then have "length r < length s"
    using 6(1) [OF r(1,2) refl r(3)] by (force dest: expect_length p_chars_length)
  moreover have "length t < length r"
  proof (cases "expect (CHR '','') r")
    case None
    with 6(3) r show ?thesis by (auto dest: expect_length)
  next
    case (Some r')
    with 6(3) r obtain ws where "p_members n r' = Some (ws, t)" by auto
    with 6(2) [OF r(1,2) refl r(3,4) refl Some] have "length t < length r'" by simp
    with Some show ?thesis by (auto dest: expect_length)
  qed
  ultimately show ?case by simp
qed simp_all

lemma fuel_enough:
  "(2 * length s + 1 \<le> n \<longrightarrow> 2 * length s + 1 \<le> m \<longrightarrow> p_value n s = p_value m s) \<and>
   (2 * length s + 2 \<le> n \<longrightarrow> 2 * length s + 2 \<le> m \<longrightarrow> p_elems n s = p_elems m s) \<and>
   (2 * length s + 2 \<le> n \<longrightarrow> 2 * length s + 2 \<le> m \<longrightarrow> p_members n s = p_members m s)"
proof (induction n arbitrary: s m)
  case (Suc n)
  have IH: "2 * length s + 1 \<le> n \<Longrightarrow> 2 * length s + 1 \<le> m \<Longrightarrow> p_value n s = p_value m s"
    "2 * length s + 2 \<le> n \<Longrightarrow> 2 * length s + 2 \<le> m \<Longrightarrow> p_elems n s = p_elems m s"
    "2 * length s + 2 \<le> n \<Longrightarrow> 2 * length s + 2 \<le> m \<Longrightarrow> p_members n s = p_members m s" for m s
    using Suc.IH by blast+
  show ?case
  proof (cases m)
    case m: (Suc k)
    have "p_value (Suc n) s = p_value (Suc k) s"
      if "2 * length s + 1 \<le> Suc n" "2 * length s + 1 \<le> Suc k"
    proof (cases "skip_ws s")
      case (Cons c r)
      with that skip_ws_tail [OF Cons] have "p_elems n r = p_elems k r" "p_members n r = p_members k r"
        by (intro IH; simp)+
      with Cons show ?thesis by (simp split: option.split)
    qed simp
    moreover have "p_elems (Suc n) s = p_elems (Suc k) s"
      if "2 * length s + 2 \<le> Suc n" "2 * length s + 2 \<le> Suc k"
    proof -
      have v: "p_value n s = p_value k s" using that by (intro IH) simp_all
      have "p_elems n r' = p_elems k r'" if "p_value k s = Some (v, r)" "expect (CHR '','') r = Some r'" for v r r'
        using consume_length(1) [OF that(1)] expect_length [OF that(2)]
          \<open>2 * length s + 2 \<le> Suc n\<close> \<open>2 * length s + 2 \<le> Suc k\<close> by (intro IH) linarith+
      with v show ?thesis by (simp split: option.split prod.split)
    qed
    moreover have "p_members (Suc n) s = p_members (Suc k) s"
      if big: "2 * length s + 2 \<le> Suc n" "2 * length s + 2 \<le> Suc k"
    proof -
      have v: "p_value n r2 = p_value k r2 \<and> length r2 < length s"
        if "expect (CHR 0x22) s = Some r0" "p_chars r0 = Some (x, r1)" "expect (CHR '':'') r1 = Some r2"
        for r0 x r1 r2
        using big expect_length [OF that(1)] p_chars_length [OF that(2)] expect_length [OF that(3)]
        by (intro conjI IH) linarith+
      moreover have "p_members n r' = p_members k r'"
        if "length r2 < length s" "p_value k r2 = Some (y, r)" "expect (CHR '','') r = Some r'" for r2 y r r'
        using big that(1) consume_length(1) [OF that(2)] expect_length [OF that(3)]
        by (intro IH) linarith+
      ultimately show ?thesis by (fastforce split: option.split prod.split)
    qed
    ultimately show ?thesis using m by blast
  qed simp
qed simp

theorem json_parse_fuel:
  assumes "2 * length s + 2 \<le> n"
  shows "json_parse s =
    (case p_value n s of
       Some (v, r) \<Rightarrow> if skip_ws r = [] then Some v else None
     | None \<Rightarrow> None)"
  using assms fuel_enough [of s n "2 * length s + 2"] by (simp add: json_parse_def)

end
