(* ===== verification/Run_Auth.thy ===== *)
theory Run_Auth
  imports Js_Codec
begin

text \<open>
  The token package \<open>packages/sandbox-run-auth/src/index.ts\<close>: run tokens and tool-gateway
  tokens, each a base64url payload and an HMAC-SHA-256 signature of it.

  WebCrypto is a parameter: \<open>hmac key message\<close> is the 32-byte signature that
  \<open>crypto.subtle.sign\<close> returns, \<open>crypto.subtle.verify\<close> compares with it, and \<open>sha\<close> is the
  SHA-256 digest. An error is represented by its code. The clock \<open>nowMs\<close> is an argument.
  The claim \<open>v\<close>, of the literal type 1, has no field in the records.
\<close>

section \<open>Data\<close>

datatype token_error =
  Invalid_claims | Invalid_scope | Invalid_secret | Invalid_signature | Invalid_token
  | Token_expired | Token_not_yet_valid

definition sandbox_run_scopes :: "string list" where
  "sandbox_run_scopes =
     [''sandbox:create'', ''sandbox:destroy'', ''sandbox:exec'', ''sandbox:file'', ''sandbox:status'']"

definition tool_gateway_audience :: string where
  "tool_gateway_audience = ''aiphabee:sandbox-tool-gateway''"

record run_claims =
  rc_exp :: int
  rc_iat :: int
  rc_jti :: string
  rc_max_calls :: int
  rc_scopes :: "string list"
  rc_tenant_hash :: string
  rc_user_hash :: string

record issue_run_input =
  ir_max_calls :: int
  ir_now_ms :: int
  ir_run_id :: string
  ir_scopes :: "string list"
  ir_secret :: string
  ir_tenant_id :: string
  ir_ttl_seconds :: int
  ir_user_id :: string

record issued_run_token =
  it_claims :: run_claims
  it_sandbox_id :: string
  it_token :: string

record gateway_claims =
  gc_exp :: int
  gc_iat :: int
  gc_jti :: string
  gc_lease_id :: string
  gc_run_id :: string
  gc_tenant_id :: string
  gc_tool_name :: string
  gc_user_id :: string

record issue_gateway_input =
  ig_lease_id :: string
  ig_now_ms :: int
  ig_run_id :: string
  ig_secret :: string
  ig_tenant_id :: string
  ig_token_id :: string
  ig_tool_name :: string
  ig_ttl_seconds :: int
  ig_user_id :: string

section \<open>Patterns\<close>

definition run_id_char :: "char \<Rightarrow> bool" where
  "run_id_char c \<longleftrightarrow> is_alnum c \<or> c \<in> {CHR ''.'', CHR ''_'', CHR '':'', CHR ''-''}"

definition run_id_pattern :: "string \<Rightarrow> bool" where
  "run_id_pattern s \<longleftrightarrow>
     (case s of [] \<Rightarrow> False
      | c # cs \<Rightarrow> is_alnum c \<and> 7 \<le> length cs \<and> length cs \<le> 127 \<and> list_all run_id_char cs)"

definition hash_pattern :: "string \<Rightarrow> bool" where
  "hash_pattern s \<longleftrightarrow> length s = 64 \<and> list_all is_lower_hex s"

definition tool_name_pattern :: "string \<Rightarrow> bool" where
  "tool_name_pattern s \<longleftrightarrow>
     (case s of [] \<Rightarrow> False
      | c # cs \<Rightarrow> is_lower c \<and> length cs \<le> 127 \<and>
          list_all (\<lambda>d. is_lower d \<or> is_digit d \<or> d = CHR ''_'') cs)"

section \<open>Keys, digests and scopes\<close>

definition import_hmac_key :: "string \<Rightarrow> token_error + bytes" where
  "import_hmac_key secret =
     (let secret_bytes = utf8_encode secret in
      require (32 \<le> length secret_bytes) Invalid_secret (Inr secret_bytes))"

definition normalize_scopes :: "string list \<Rightarrow> token_error + string list" where
  "normalize_scopes scopes =
     require (scopes \<noteq> [] \<and> \<not> list_ex (\<lambda>s. s \<notin> set sandbox_run_scopes) scopes) Invalid_scope
       (Inr (sort (remdups scopes)))"

definition hash_identity :: "(bytes \<Rightarrow> bytes) \<Rightarrow> string \<Rightarrow> string \<Rightarrow> token_error + string" where
  "hash_identity sha kind value =
     require (js_trim value \<noteq> []) Invalid_claims
       (Inr (bytes_to_hex (sha (utf8_encode (''aiphabee:sandbox-run:'' @ kind @ '':'' @ value)))))"

definition derive_sandbox_id :: "(bytes \<Rightarrow> bytes) \<Rightarrow> run_claims \<Rightarrow> token_error + string" where
  "derive_sandbox_id sha c =
     require (run_id_pattern (rc_jti c) \<and> hash_pattern (rc_tenant_hash c) \<and> hash_pattern (rc_user_hash c))
       Invalid_claims
       (let digest = bytes_to_hex (sha (utf8_encode
              (''aiphabee:sandbox:'' @ rc_jti c @ '':'' @ rc_tenant_hash c @ '':'' @ rc_user_hash c))) in
        Inr (''ab-'' @ take 32 digest))"

section \<open>Reading claims\<close>

definition str_field :: "(string \<times> json) list \<Rightarrow> string \<Rightarrow> string option" where
  "str_field ms k = (case map_of ms k of Some (JStr s) \<Rightarrow> Some s | _ \<Rightarrow> None)"

definition safe_int_field :: "(string \<times> json) list \<Rightarrow> string \<Rightarrow> int option" where
  "safe_int_field ms k =
     (case map_of ms k of Some (JNum i) \<Rightarrow> if is_safe_integer i then Some i else None | _ \<Rightarrow> None)"

definition exact_keys :: "string list \<Rightarrow> (string \<times> json) list \<Rightarrow> bool" where
  "exact_keys ks ms \<longleftrightarrow> length ms = length ks \<and> list_all (\<lambda>k. map_of ms k \<noteq> None) ks"

definition json_members :: "json \<Rightarrow> (string \<times> json) list option" where
  "json_members v = (case v of JObj ms \<Rightarrow> Some ms | _ \<Rightarrow> None)"

text \<open>\<open>Array.isArray(v)\<close> with every element a string.\<close>

definition string_list :: "json \<Rightarrow> string list option" where
  "string_list v =
     (case v of
        JArr vs \<Rightarrow>
          if list_all (\<lambda>x. case x of JStr _ \<Rightarrow> True | _ \<Rightarrow> False) vs
          then Some (map (\<lambda>x. case x of JStr s \<Rightarrow> s | _ \<Rightarrow> []) vs) else None
      | _ \<Rightarrow> None)"

section \<open>Run tokens\<close>

definition canonical_claims :: "run_claims \<Rightarrow> json" where
  "canonical_claims c =
     JObj [(''exp'', JNum (rc_exp c)), (''iat'', JNum (rc_iat c)), (''jti'', JStr (rc_jti c)),
       (''max_calls'', JNum (rc_max_calls c)), (''scopes'', JArr (map JStr (rc_scopes c))),
       (''tenant_hash'', JStr (rc_tenant_hash c)), (''user_hash'', JStr (rc_user_hash c)), (''v'', JNum 1)]"

definition validate_claims :: "json \<Rightarrow> int \<Rightarrow> string option \<Rightarrow> token_error + run_claims" where
  "validate_claims value now scope =
     with_some (json_members value) Invalid_claims (\<lambda>ms.
     require
       (exact_keys [''exp'', ''iat'', ''jti'', ''max_calls'', ''scopes'', ''tenant_hash'', ''user_hash'', ''v''] ms)
       Invalid_claims (
     require (map_of ms ''v'' = Some (JNum 1)) Invalid_claims (
     with_some (str_field ms ''jti'') Invalid_claims (\<lambda>jti.
     require (run_id_pattern jti) Invalid_claims (
     with_some (str_field ms ''tenant_hash'') Invalid_claims (\<lambda>tenant_hash.
     require (hash_pattern tenant_hash) Invalid_claims (
     with_some (str_field ms ''user_hash'') Invalid_claims (\<lambda>user_hash.
     require (hash_pattern user_hash) Invalid_claims (
     with_some (safe_int_field ms ''max_calls'') Invalid_claims (\<lambda>max_calls.
     require (1 \<le> max_calls \<and> max_calls \<le> 64) Invalid_claims (
     with_some (safe_int_field ms ''iat'') Invalid_claims (\<lambda>iat.
     with_some (safe_int_field ms ''exp'') Invalid_claims (\<lambda>exp.
     require (iat < exp \<and> exp - iat \<le> 600) Invalid_claims (
     require (iat \<le> now + 30) Token_not_yet_valid (
     require (now < exp) Token_expired (
     with_some (Option.bind (map_of ms ''scopes'') string_list) Invalid_scope (\<lambda>raw_scopes.
     and_then (normalize_scopes raw_scopes) (\<lambda>scopes.
     require (json_text (JArr (map JStr scopes)) = json_text (JArr (map JStr raw_scopes))) Invalid_scope (
     require (case scope of None \<Rightarrow> True | Some s \<Rightarrow> s \<in> set scopes) Invalid_scope (
       Inr \<lparr>rc_exp = exp, rc_iat = iat, rc_jti = jti, rc_max_calls = max_calls, rc_scopes = scopes,
            rc_tenant_hash = tenant_hash, rc_user_hash = user_hash\<rparr>))))))))))))))))))))"

definition sign_payload ::
  "(bytes \<Rightarrow> bytes \<Rightarrow> bytes) \<Rightarrow> string \<Rightarrow> json \<Rightarrow> token_error + string" where
  "sign_payload hmac secret claims =
     (let payload = utf8_encode (json_text claims) in
      and_then (import_hmac_key secret) (\<lambda>key.
        Inr (bytes_to_base64url payload @ CHR ''.'' # bytes_to_base64url (hmac key payload))))"

definition issue_sandbox_run_token ::
  "(bytes \<Rightarrow> bytes \<Rightarrow> bytes) \<Rightarrow> (bytes \<Rightarrow> bytes) \<Rightarrow> issue_run_input \<Rightarrow> token_error + issued_run_token" where
  "issue_sandbox_run_token hmac sha input =
     (let now = ir_now_ms input div 1000 in
      require (is_safe_integer (ir_ttl_seconds input) \<and> 1 \<le> ir_ttl_seconds input \<and> ir_ttl_seconds input \<le> 600)
        Invalid_claims (
      and_then (normalize_scopes (ir_scopes input)) (\<lambda>scopes.
      and_then (hash_identity sha ''tenant'' (ir_tenant_id input)) (\<lambda>tenant_hash.
      and_then (hash_identity sha ''user'' (ir_user_id input)) (\<lambda>user_hash.
      and_then
        (validate_claims
           (JObj [(''exp'', JNum (now + ir_ttl_seconds input)), (''iat'', JNum now),
              (''jti'', JStr (ir_run_id input)), (''max_calls'', JNum (ir_max_calls input)),
              (''scopes'', JArr (map JStr scopes)), (''tenant_hash'', JStr tenant_hash),
              (''user_hash'', JStr user_hash), (''v'', JNum 1)])
           now None) (\<lambda>claims.
      and_then (sign_payload hmac (ir_secret input) (canonical_claims claims)) (\<lambda>token.
      and_then (derive_sandbox_id sha claims) (\<lambda>sandbox_id.
        Inr \<lparr>it_claims = claims, it_sandbox_id = sandbox_id, it_token = token\<rparr>))))))))"

text \<open>The first half of both verifiers: split, decode, check the signature, parse.\<close>

definition open_token ::
  "(bytes \<Rightarrow> bytes \<Rightarrow> bytes) \<Rightarrow> string \<Rightarrow> string \<Rightarrow> token_error + string \<times> json" where
  "open_token hmac token secret =
     require (length token \<le> 4096) Invalid_token (
     with_some (case split_on (CHR ''.'') token of [p, s] \<Rightarrow> Some (p, s) | _ \<Rightarrow> None) Invalid_token (\<lambda>(p, s).
     with_some (base64url_to_bytes p) Invalid_token (\<lambda>payload.
     with_some (base64url_to_bytes s) Invalid_token (\<lambda>signature.
     and_then (import_hmac_key secret) (\<lambda>key.
     require (hmac key payload = signature) Invalid_signature (
     with_some (utf8_decode payload) Invalid_token (\<lambda>text.
     with_some (json_parse text) Invalid_token (\<lambda>parsed. Inr (text, parsed)))))))))"

definition verify_sandbox_run_token ::
  "(bytes \<Rightarrow> bytes \<Rightarrow> bytes) \<Rightarrow> string \<Rightarrow> string \<Rightarrow> int \<Rightarrow> string option \<Rightarrow> token_error + run_claims" where
  "verify_sandbox_run_token hmac token secret now_ms scope =
     and_then (open_token hmac token secret) (\<lambda>(text, parsed).
     and_then (validate_claims parsed (now_ms div 1000) scope) (\<lambda>claims.
     require (json_text (canonical_claims claims) = text) Invalid_claims (Inr claims)))"

section \<open>Tool-gateway tokens\<close>

definition canonical_gateway_claims :: "gateway_claims \<Rightarrow> json" where
  "canonical_gateway_claims c =
     JObj [(''aud'', JStr tool_gateway_audience), (''exp'', JNum (gc_exp c)), (''iat'', JNum (gc_iat c)),
       (''jti'', JStr (gc_jti c)), (''lease_id'', JStr (gc_lease_id c)), (''run_id'', JStr (gc_run_id c)),
       (''tenant_id'', JStr (gc_tenant_id c)), (''tool_name'', JStr (gc_tool_name c)),
       (''user_id'', JStr (gc_user_id c)), (''v'', JNum 1)]"

definition valid_gateway_id :: "string \<Rightarrow> bool" where
  "valid_gateway_id s \<longleftrightarrow> 1 \<le> length s \<and> length s \<le> 128 \<and> js_trim s = s \<and> \<not> has_control s"

definition gateway_id_field :: "(string \<times> json) list \<Rightarrow> string \<Rightarrow> token_error + string" where
  "gateway_id_field ms k =
     with_some (str_field ms k) Invalid_claims (\<lambda>s. require (valid_gateway_id s) Invalid_claims (Inr s))"

definition validate_gateway_claims :: "json \<Rightarrow> int \<Rightarrow> string option \<Rightarrow> token_error + gateway_claims" where
  "validate_gateway_claims value now tool =
     with_some (json_members value) Invalid_claims (\<lambda>ms.
     require
       (exact_keys [''aud'', ''exp'', ''iat'', ''jti'', ''lease_id'', ''run_id'', ''tenant_id'', ''tool_name'',
          ''user_id'', ''v''] ms) Invalid_claims (
     require (map_of ms ''v'' = Some (JNum 1) \<and> map_of ms ''aud'' = Some (JStr tool_gateway_audience))
       Invalid_claims (
     with_some (safe_int_field ms ''iat'') Invalid_claims (\<lambda>iat.
     with_some (safe_int_field ms ''exp'') Invalid_claims (\<lambda>exp.
     require (iat < exp \<and> exp - iat \<le> 600) Invalid_claims (
     require (iat \<le> now + 30) Token_not_yet_valid (
     require (now < exp) Token_expired (
     with_some (str_field ms ''tool_name'') Invalid_scope (\<lambda>tool_name.
     require (tool_name_pattern tool_name) Invalid_scope (
     require (case tool of None \<Rightarrow> True | Some t \<Rightarrow> tool_name = t) Invalid_scope (
     and_then (gateway_id_field ms ''jti'') (\<lambda>jti.
     and_then (gateway_id_field ms ''lease_id'') (\<lambda>lease_id.
     and_then (gateway_id_field ms ''run_id'') (\<lambda>run_id.
     and_then (gateway_id_field ms ''tenant_id'') (\<lambda>tenant_id.
     and_then (gateway_id_field ms ''user_id'') (\<lambda>user_id.
       Inr \<lparr>gc_exp = exp, gc_iat = iat, gc_jti = jti, gc_lease_id = lease_id, gc_run_id = run_id,
            gc_tenant_id = tenant_id, gc_tool_name = tool_name, gc_user_id = user_id\<rparr>))))))))))))))))"

definition issue_sandbox_tool_gateway_token ::
  "(bytes \<Rightarrow> bytes \<Rightarrow> bytes) \<Rightarrow> issue_gateway_input \<Rightarrow> token_error + gateway_claims \<times> string" where
  "issue_sandbox_tool_gateway_token hmac input =
     (let now = ig_now_ms input div 1000 in
      require (is_safe_integer (ig_ttl_seconds input) \<and> 1 \<le> ig_ttl_seconds input \<and> ig_ttl_seconds input \<le> 600)
        Invalid_claims (
      and_then
        (validate_gateway_claims
           (JObj [(''aud'', JStr tool_gateway_audience), (''exp'', JNum (now + ig_ttl_seconds input)),
              (''iat'', JNum now), (''jti'', JStr (ig_token_id input)), (''lease_id'', JStr (ig_lease_id input)),
              (''run_id'', JStr (ig_run_id input)), (''tenant_id'', JStr (ig_tenant_id input)),
              (''tool_name'', JStr (ig_tool_name input)), (''user_id'', JStr (ig_user_id input)), (''v'', JNum 1)])
           now None) (\<lambda>claims.
      and_then (sign_payload hmac (ig_secret input) (canonical_gateway_claims claims)) (\<lambda>token.
        Inr (claims, token)))))"

definition verify_sandbox_tool_gateway_token ::
  "(bytes \<Rightarrow> bytes \<Rightarrow> bytes) \<Rightarrow> string \<Rightarrow> string \<Rightarrow> int \<Rightarrow> string option \<Rightarrow> token_error + gateway_claims" where
  "verify_sandbox_tool_gateway_token hmac token secret now_ms tool =
     and_then (open_token hmac token secret) (\<lambda>(text, parsed).
     and_then (validate_gateway_claims parsed (now_ms div 1000) tool) (\<lambda>claims.
     require (json_text (canonical_gateway_claims claims) = text) Invalid_claims (Inr claims)))"

section \<open>Claims that validate\<close>

definition valid_run_claims :: "run_claims \<Rightarrow> bool" where
  "valid_run_claims c \<longleftrightarrow>
     run_id_pattern (rc_jti c) \<and> hash_pattern (rc_tenant_hash c) \<and> hash_pattern (rc_user_hash c) \<and>
     1 \<le> rc_max_calls c \<and> rc_max_calls c \<le> 64 \<and> is_safe_integer (rc_iat c) \<and> is_safe_integer (rc_exp c) \<and>
     rc_iat c < rc_exp c \<and> rc_exp c - rc_iat c \<le> 600 \<and>
     rc_scopes c \<noteq> [] \<and> set (rc_scopes c) \<subseteq> set sandbox_run_scopes \<and>
     sorted (rc_scopes c) \<and> distinct (rc_scopes c)"

definition run_claims_current :: "run_claims \<Rightarrow> int \<Rightarrow> bool" where
  "run_claims_current c now \<longleftrightarrow> rc_iat c \<le> now + 30 \<and> now < rc_exp c"

definition scope_granted :: "string option \<Rightarrow> run_claims \<Rightarrow> bool" where
  "scope_granted scope c \<longleftrightarrow> (case scope of None \<Rightarrow> True | Some s \<Rightarrow> s \<in> set (rc_scopes c))"

definition valid_gateway_claims :: "gateway_claims \<Rightarrow> bool" where
  "valid_gateway_claims c \<longleftrightarrow>
     is_safe_integer (gc_iat c) \<and> is_safe_integer (gc_exp c) \<and>
     gc_iat c < gc_exp c \<and> gc_exp c - gc_iat c \<le> 600 \<and> tool_name_pattern (gc_tool_name c) \<and>
     list_all valid_gateway_id [gc_jti c, gc_lease_id c, gc_run_id c, gc_tenant_id c, gc_user_id c]"

definition gateway_claims_current :: "gateway_claims \<Rightarrow> int \<Rightarrow> bool" where
  "gateway_claims_current c now \<longleftrightarrow> gc_iat c \<le> now + 30 \<and> now < gc_exp c"

lemma str_field_Some [simp]: "str_field ms k = Some s \<longleftrightarrow> map_of ms k = Some (JStr s)"
  by (simp add: str_field_def split: option.split json.split)

lemma safe_int_field_Some [simp]:
  "safe_int_field ms k = Some i \<longleftrightarrow> map_of ms k = Some (JNum i) \<and> is_safe_integer i"
  by (auto simp: safe_int_field_def split: option.split json.split)

lemma json_members_Some [simp]: "json_members v = Some ms \<longleftrightarrow> v = JObj ms"
  by (simp add: json_members_def split: json.split)

lemma string_list_strings [simp]: "string_list (JArr (map JStr ss)) = Some ss"
  by (simp add: string_list_def list_all_iff comp_def)

lemma normalize_scopes_Inr:
  "normalize_scopes xs = Inr ys \<longleftrightarrow> xs \<noteq> [] \<and> set xs \<subseteq> set sandbox_run_scopes \<and> ys = sort (remdups xs)"
  by (auto simp: normalize_scopes_def list_ex_iff)

lemma sort_remdups_id: "sorted xs \<Longrightarrow> distinct xs \<Longrightarrow> sort (remdups xs) = xs"
  by (simp add: distinct_remdups_id sorted_sort_id)

lemma json_text_inj: "json_ok v \<Longrightarrow> json_ok w \<Longrightarrow> json_text v = json_text w \<Longrightarrow> v = w"
  by (metis json_roundtrip option.inject)

lemma scopes_text: "json_text (JArr (map JStr xs)) = json_text (JArr (map JStr ys)) \<longleftrightarrow> xs = ys"
proof
  assume "json_text (JArr (map JStr xs)) = json_text (JArr (map JStr ys))"
  then have "JArr (map JStr xs) = JArr (map JStr ys)"
    by (rule json_text_inj [rotated 2]) (simp_all add: list_all_iff)
  then show "xs = ys" by (simp add: inj_map_eq_map inj_on_def)
qed simp

lemma sort_remdups_fixed: "sort (remdups xs) = ys \<Longrightarrow> ys = xs \<Longrightarrow> sorted xs \<and> distinct xs"
  by (metis distinct_remdups distinct_sort sorted_sort)

lemma validate_claims_sound:
  assumes "validate_claims v now scope = Inr c"
  shows "valid_run_claims c" and "run_claims_current c now" and "scope_granted scope c"
proof -
  note unfold = validate_claims_def scopes_text normalize_scopes_Inr
  have "sort (remdups (rc_scopes c)) = rc_scopes c"
    using assms by (clarsimp simp: unfold simp del: json_text.simps)
  then have sorted: "sorted (rc_scopes c) \<and> distinct (rc_scopes c)"
    by (metis sort_remdups_fixed)
  show "run_claims_current c now"
    using assms by (clarsimp simp: unfold run_claims_current_def simp del: json_text.simps)
  show "scope_granted scope c"
    using assms by (cases scope) (clarsimp simp: unfold scope_granted_def simp del: json_text.simps)+
  have "valid_run_claims (c\<lparr>rc_scopes := rc_scopes c\<rparr>)"
    using assms sorted
    by (clarsimp simp: unfold valid_run_claims_def simp del: json_text.simps)
  then show "valid_run_claims c" by simp
qed

lemma validate_claims_complete:
  assumes "valid_run_claims c" and "run_claims_current c now" and "scope_granted scope c"
  shows "validate_claims (canonical_claims c) now scope = Inr c"
proof -
  have "normalize_scopes (rc_scopes c) = Inr (rc_scopes c)"
    using assms(1) by (simp add: valid_run_claims_def normalize_scopes_Inr sort_remdups_id)
  then show ?thesis using assms
    by (simp add: validate_claims_def canonical_claims_def valid_run_claims_def run_claims_current_def
        scope_granted_def exact_keys_def is_safe_integer_def max_safe_integer_def)
qed

lemma gateway_id_field_Inr [simp]:
  "gateway_id_field ms k = Inr s \<longleftrightarrow> map_of ms k = Some (JStr s) \<and> valid_gateway_id s"
  by (auto simp: gateway_id_field_def)

lemma validate_gateway_claims_sound:
  assumes "validate_gateway_claims v now tool = Inr c"
  shows "valid_gateway_claims c" and "gateway_claims_current c now"
    and "tool \<noteq> None \<Longrightarrow> tool = Some (gc_tool_name c)"
  using assms
  by (clarsimp simp: validate_gateway_claims_def valid_gateway_claims_def gateway_claims_current_def)+

lemma validate_gateway_claims_complete:
  assumes "valid_gateway_claims c" and "gateway_claims_current c now"
    and "tool = None \<or> tool = Some (gc_tool_name c)"
  shows "validate_gateway_claims (canonical_gateway_claims c) now tool = Inr c"
  using assms
  by (elim disjE)
    (simp_all add: validate_gateway_claims_def canonical_gateway_claims_def valid_gateway_claims_def
      gateway_claims_current_def exact_keys_def)

lemma canonical_ok: "json_ok (canonical_claims c)" "json_ok (canonical_gateway_claims g)"
  by (simp_all add: canonical_claims_def canonical_gateway_claims_def list_all_iff)

section \<open>Signed payloads\<close>

lemma base64url_no_dot: "CHR ''.'' \<notin> set (bytes_to_base64url bs)"
proof -
  have "list_all (\<lambda>c. token_part_char (url_char c)) (b64_core bs)"
    by (rule b64_core_all) (rule b64_char_alphabet)
  moreover have "\<not> token_part_char (CHR ''.'')"
    by (simp add: token_part_char_def is_alnum_def is_lower_def is_upper_def is_digit_def)
  ultimately show ?thesis by (auto simp: bytes_to_base64url_core list_all_iff)
qed

lemma json_text_nonempty: "json_ok v \<Longrightarrow> json_text v \<noteq> []"
  using value_start_text [of v "[]"] by (simp add: value_start_def)

lemma utf8_encode_nonempty: "s \<noteq> [] \<Longrightarrow> utf8_encode s \<noteq> []"
  by (cases s) (simp_all add: utf8_encode_def utf8_char_def Let_def)

lemma open_signed:
  assumes "sign_payload hmac secret v = Inr token" and "json_ok v"
    and "\<And>k m. hmac k m \<noteq> []" and "length token \<le> 4096"
  shows "open_token hmac token secret = Inr (json_text v, v)"
proof -
  let ?p = "utf8_encode (json_text v)"
  obtain key where key: "import_hmac_key secret = Inr key"
    and token: "token = bytes_to_base64url ?p @ CHR ''.'' # bytes_to_base64url (hmac key ?p)"
    using assms(1) by (auto simp: sign_payload_def Let_def)
  have "?p \<noteq> []" using json_text_nonempty [OF assms(2)] by (rule utf8_encode_nonempty)
  then have "base64url_to_bytes (bytes_to_base64url ?p) = Some ?p" by (rule base64url_roundtrip)
  moreover have "base64url_to_bytes (bytes_to_base64url (hmac key ?p)) = Some (hmac key ?p)"
    using assms(3) by (rule base64url_roundtrip)
  moreover have "split_on (CHR ''.'') token = [bytes_to_base64url ?p, bytes_to_base64url (hmac key ?p)]"
    by (simp only: token split_on_append [OF base64url_no_dot] split_on_no_sep [OF base64url_no_dot])
  ultimately show ?thesis
    using key assms(4) by (simp add: open_token_def json_roundtrip [OF assms(2)])
qed

lemma open_token_signed:
  assumes "open_token hmac token secret = Inr (text, v)"
  obtains p s payload where "split_on (CHR ''.'') token = [p, s]" "32 \<le> length (utf8_encode secret)"
    "base64url_to_bytes p = Some payload" "base64url_to_bytes s = Some (hmac (utf8_encode secret) payload)"
    "utf8_decode payload = Some text" "json_parse text = Some v"
  using assms that
  by (auto simp: open_token_def import_hmac_key_def Let_def split: list.splits)

section \<open>The size of an issued token\<close>

lemma length_b64_core: "length (b64_core bs) \<le> (4 * length bs + 2) div 3"
  by (induction bs rule: b64_core.induct) simp_all

lemma length_nat_text: "n < 10 ^ d \<Longrightarrow> 0 < d \<Longrightarrow> length (nat_text n) \<le> d"
proof (induction d arbitrary: n)
  case (Suc d)
  show ?case
  proof (cases "n < 10")
    case False
    then have "d \<noteq> 0" using Suc.prems(1) by (cases d) auto
    moreover have "n div 10 < 10 ^ d" using Suc.prems(1) by (simp add: less_mult_imp_div_less mult.commute)
    ultimately show ?thesis using Suc.IH [of "n div 10"] False by (subst nat_text.simps) simp
  qed (subst nat_text.simps, simp)
qed simp

lemma length_int_text:
  assumes "is_safe_integer i"
  shows "length (int_text i) \<le> 17"
proof -
  have "nat i < 10 ^ 16" "nat (- i) < 10 ^ 16"
    using assms unfolding is_safe_integer_def max_safe_integer_def by (simp_all, linarith+)
  then have "length (nat_text (nat i)) \<le> 16" "length (nat_text (nat (- i))) \<le> 16"
    by (intro length_nat_text; simp)+
  then show ?thesis by (simp add: int_text_def)
qed

lemma utf8_length_le: "utf8_length s \<le> 2 * length s"
  by (induction s) (simp_all add: utf8_length_def)

lemma utf8_length_simps [simp]:
  "utf8_length [] = 0"
  "utf8_length (c # s) = (if code_unit c < 128 then 1 else 2) + utf8_length s"
  by (simp_all add: utf8_length_def)

lemma utf8_length_ascii: "list_all (\<lambda>c. code_unit c < 128) s \<Longrightarrow> utf8_length s = length s"
  by (induction s) simp_all

lemma utf8_length_int:
  assumes "is_safe_integer i"
  shows "utf8_length (int_text i) \<le> 17"
proof -
  have "list_all (\<lambda>c. code_unit c < 128) (nat_text n)" for n
    using nat_text_digits [of n] by (auto simp: list_all_iff is_digit_def)
  then have "list_all (\<lambda>c. code_unit c < 128) (int_text i)" by (simp add: int_text_def)
  then show ?thesis using length_int_text [OF assms] by (simp add: utf8_length_ascii)
qed

definition plain_char :: "char \<Rightarrow> bool" where
  "plain_char c \<longleftrightarrow> is_alnum c \<or> c \<in> {CHR ''.'', CHR ''_'', CHR '':'', CHR ''-''}"

lemma plain_escape: "plain_char c \<Longrightarrow> json_escape c = [c] \<and> code_unit c < 128"
  by (auto simp: plain_char_def is_alnum_def is_lower_def is_upper_def is_digit_def json_escape_def Let_def)

lemma escape_length: "\<not> is_control c \<Longrightarrow> utf8_length (json_escape c) \<le> 2"
  by (auto simp: is_control_def json_escape_def Let_def)

lemma utf8_length_plain: "list_all plain_char s \<Longrightarrow> utf8_length (json_string s) = length s + 2"
proof (induction s)
  case (Cons c s)
  then show ?case using plain_escape [of c] by (simp add: json_string_def)
qed (simp add: json_string_def)

lemma utf8_length_string: "\<not> has_control s \<Longrightarrow> utf8_length (json_string s) \<le> 2 * length s + 2"
proof (induction s)
  case (Cons c s)
  then show ?case using escape_length [of c] by (simp add: json_string_def has_control_def)
qed (simp add: json_string_def)

lemma run_id_size: "run_id_pattern s \<Longrightarrow> utf8_length (json_string s) \<le> 130"
  by (subst utf8_length_plain)
    (auto simp: run_id_pattern_def plain_char_def run_id_char_def list_all_iff split: list.splits)

lemma hash_size: "hash_pattern s \<Longrightarrow> utf8_length (json_string s) = 66"
  by (subst utf8_length_plain)
    (auto simp: hash_pattern_def plain_char_def is_lower_hex_def is_alnum_def is_lower_def list_all_iff)

lemma tool_name_size: "tool_name_pattern s \<Longrightarrow> utf8_length (json_string s) \<le> 130"
  by (subst utf8_length_plain)
    (auto simp: tool_name_pattern_def plain_char_def is_alnum_def list_all_iff split: list.splits)

lemma gateway_id_size: "valid_gateway_id s \<Longrightarrow> utf8_length (json_string s) \<le> 258"
  using utf8_length_string [of s] by (simp add: valid_gateway_id_def)

lemma scope_size: "s \<in> set sandbox_run_scopes \<Longrightarrow> utf8_length (json_string s) \<le> 17"
  by (subst utf8_length_plain)
    (auto simp: sandbox_run_scopes_def plain_char_def is_alnum_def is_lower_def)

lemma elems_size:
  "set ss \<subseteq> set sandbox_run_scopes \<Longrightarrow> utf8_length (elems_text (map JStr ss)) \<le> 18 * length ss"
proof (induction ss)
  case (Cons s ss)
  then show ?case using scope_size [of s]
    by (cases ss) auto
qed simp

lemma scopes_size:
  assumes "set ss \<subseteq> set sandbox_run_scopes" and "distinct ss"
  shows "utf8_length (elems_text (map JStr ss)) \<le> 90"
proof -
  have "length ss = card (set ss)" using assms(2) by (simp add: distinct_card)
  also have "\<dots> \<le> card (set sandbox_run_scopes)" using assms(1) by (intro card_mono) simp_all
  also have "\<dots> \<le> 5" by (simp add: sandbox_run_scopes_def)
  finally show ?thesis using elems_size [OF assms(1)] by simp
qed

lemma run_claims_size:
  assumes "valid_run_claims c"
  shows "utf8_length (json_text (canonical_claims c)) \<le> 700"
proof -
  have "is_safe_integer (rc_max_calls c)"
    using assms by (simp add: valid_run_claims_def is_safe_integer_def max_safe_integer_def)
  then show ?thesis
    using assms run_id_size [of "rc_jti c"] hash_size [of "rc_tenant_hash c"] hash_size [of "rc_user_hash c"]
      utf8_length_int [of "rc_exp c"] utf8_length_int [of "rc_iat c"] utf8_length_int [of "rc_max_calls c"]
      utf8_length_int [of 1] scopes_size [of "rc_scopes c"]
    by (simp add: valid_run_claims_def canonical_claims_def json_string_def json_escape_def
        is_safe_integer_def max_safe_integer_def)
qed

lemma gateway_claims_size:
  assumes "valid_gateway_claims c"
  shows "utf8_length (json_text (canonical_gateway_claims c)) \<le> 1700"
  using assms gateway_id_size [of "gc_jti c"] gateway_id_size [of "gc_lease_id c"]
    gateway_id_size [of "gc_run_id c"] gateway_id_size [of "gc_tenant_id c"] gateway_id_size [of "gc_user_id c"]
    tool_name_size [of "gc_tool_name c"]
    utf8_length_int [of "gc_exp c"] utf8_length_int [of "gc_iat c"] utf8_length_int [of 1]
  by (simp add: valid_gateway_claims_def canonical_gateway_claims_def json_string_def json_escape_def
      tool_gateway_audience_def is_safe_integer_def max_safe_integer_def)

lemma signed_length:
  assumes "sign_payload hmac secret v = Inr token" and "utf8_length (json_text v) \<le> 1700"
    and "\<And>k m. length (hmac k m) = 32"
  shows "length token \<le> 4096"
proof -
  let ?p = "utf8_encode (json_text v)"
  obtain key where token: "token = bytes_to_base64url ?p @ CHR ''.'' # bytes_to_base64url (hmac key ?p)"
    using assms(1) by (auto simp: sign_payload_def Let_def)
  have "length (bytes_to_base64url ?p) \<le> 2267"
    using length_b64_core [of ?p] assms(2) by (simp add: bytes_to_base64url_core length_utf8_encode)
  moreover have "length (bytes_to_base64url (hmac key ?p)) \<le> 44"
    using length_b64_core [of "hmac key ?p"] assms(3) by (simp add: bytes_to_base64url_core)
  ultimately show ?thesis by (simp add: token)
qed

lemma hmac_nonempty: "(\<And>k m. length (hmac k m) = 32) \<Longrightarrow> hmac k m \<noteq> []"
  by (metis length_greater_0_conv zero_less_numeral)

lemma canonical_claims_inj: "canonical_claims c = canonical_claims d \<Longrightarrow> c = d"
  by (cases c; cases d) (simp add: canonical_claims_def inj_map_eq_map inj_on_def)

lemma canonical_gateway_claims_inj: "canonical_gateway_claims c = canonical_gateway_claims d \<Longrightarrow> c = d"
  by (cases c; cases d) (simp add: canonical_gateway_claims_def)

lemma validate_claims_errors:
  assumes "valid_run_claims c"
  shows "validate_claims (canonical_claims c) now scope =
    (if now + 30 < rc_iat c then Inl Token_not_yet_valid
     else if rc_exp c \<le> now then Inl Token_expired
     else if \<not> scope_granted scope c then Inl Invalid_scope
     else Inr c)"
proof -
  have "normalize_scopes (rc_scopes c) = Inr (rc_scopes c)"
    using assms by (simp add: valid_run_claims_def normalize_scopes_Inr sort_remdups_id)
  then show ?thesis using assms
    by (simp add: validate_claims_def canonical_claims_def valid_run_claims_def
        scope_granted_def exact_keys_def is_safe_integer_def max_safe_integer_def safe_int_field_def str_field_def json_members_def require_def)
qed

lemma validate_gateway_claims_errors:
  assumes "valid_gateway_claims c"
  shows "validate_gateway_claims (canonical_gateway_claims c) now tool =
    (if now + 30 < gc_iat c then Inl Token_not_yet_valid
     else if gc_exp c \<le> now then Inl Token_expired
     else if \<not> (tool = None \<or> tool = Some (gc_tool_name c)) then Inl Invalid_scope
     else Inr c)"
  using assms
  by (cases tool)
    (simp_all add: validate_gateway_claims_def canonical_gateway_claims_def valid_gateway_claims_def
      exact_keys_def safe_int_field_def str_field_def json_members_def gateway_id_field_def require_def)

lemma issued_run_token:
  assumes "issue_sandbox_run_token hmac sha input = Inr r"
  shows "valid_run_claims (it_claims r)"
    and "sign_payload hmac (ir_secret input) (canonical_claims (it_claims r)) = Inr (it_token r)"
    and "rc_iat (it_claims r) = ir_now_ms input div 1000"
    and "rc_exp (it_claims r) = ir_now_ms input div 1000 + ir_ttl_seconds input"
    and "rc_jti (it_claims r) = ir_run_id input"
    and "rc_max_calls (it_claims r) = ir_max_calls input"
    and "set (rc_scopes (it_claims r)) = set (ir_scopes input)"
proof -
  note unfold = issue_sandbox_run_token_def Let_def
  obtain v claims where v: "validate_claims v (ir_now_ms input div 1000) None = Inr claims" "it_claims r = claims"
    and s: "sign_payload hmac (ir_secret input) (canonical_claims claims) = Inr (it_token r)"
    using assms by (clarsimp simp: unfold)
  show "valid_run_claims (it_claims r)" using validate_claims_sound(1) [OF v(1)] v(2) by simp
  show "sign_payload hmac (ir_secret input) (canonical_claims (it_claims r)) = Inr (it_token r)"
    using s v(2) by simp
  show "rc_iat (it_claims r) = ir_now_ms input div 1000"
    "rc_exp (it_claims r) = ir_now_ms input div 1000 + ir_ttl_seconds input"
    "rc_jti (it_claims r) = ir_run_id input" "rc_max_calls (it_claims r) = ir_max_calls input"
    "set (rc_scopes (it_claims r)) = set (ir_scopes input)"
    using assms by (clarsimp simp: unfold validate_claims_def normalize_scopes_Inr)+
qed

lemma issued_identity:
  assumes "issue_sandbox_run_token hmac sha input = Inr r"
  shows "hash_identity sha ''tenant'' (ir_tenant_id input) = Inr (rc_tenant_hash (it_claims r))"
    and "hash_identity sha ''user'' (ir_user_id input) = Inr (rc_user_hash (it_claims r))"
    and "derive_sandbox_id sha (it_claims r) = Inr (it_sandbox_id r)"
  using assms by (clarsimp simp: issue_sandbox_run_token_def Let_def validate_claims_def normalize_scopes_Inr)+

lemma verify_issued:
  assumes "sign_payload hmac secret (canonical_claims c) = Inr token" and "valid_run_claims c"
    and "\<And>k m. length (hmac k m) = 32"
  shows "open_token hmac token secret = Inr (json_text (canonical_claims c), canonical_claims c)"
  using run_claims_size [OF assms(2)] signed_length [OF assms(1)] hmac_nonempty [of hmac] assms(3)
  by (intro open_signed [OF assms(1) canonical_ok(1)]) simp_all

lemma verify_issued_gateway:
  assumes "sign_payload hmac secret (canonical_gateway_claims c) = Inr token" and "valid_gateway_claims c"
    and "\<And>k m. length (hmac k m) = 32"
  shows "open_token hmac token secret = Inr (json_text (canonical_gateway_claims c), canonical_gateway_claims c)"
  using gateway_claims_size [OF assms(2)] signed_length [OF assms(1)] hmac_nonempty [of hmac] assms(3)
  by (intro open_signed [OF assms(1) canonical_ok(2)]) simp_all

lemma gateway_issued:
  assumes "issue_sandbox_tool_gateway_token hmac input = Inr (c, token)"
  shows "valid_gateway_claims c"
    and "sign_payload hmac (ig_secret input) (canonical_gateway_claims c) = Inr token"
    and "c = \<lparr>gc_exp = ig_now_ms input div 1000 + ig_ttl_seconds input, gc_iat = ig_now_ms input div 1000,
      gc_jti = ig_token_id input, gc_lease_id = ig_lease_id input, gc_run_id = ig_run_id input,
      gc_tenant_id = ig_tenant_id input, gc_tool_name = ig_tool_name input, gc_user_id = ig_user_id input\<rparr>"
proof -
  note unfold = issue_sandbox_tool_gateway_token_def Let_def
  obtain v where v: "validate_gateway_claims v (ig_now_ms input div 1000) None = Inr c"
    using assms by (clarsimp simp: unfold)
  show "valid_gateway_claims c" by (rule validate_gateway_claims_sound(1) [OF v])
  show "sign_payload hmac (ig_secret input) (canonical_gateway_claims c) = Inr token"
    using assms by (clarsimp simp: unfold)
  show "c = \<lparr>gc_exp = ig_now_ms input div 1000 + ig_ttl_seconds input, gc_iat = ig_now_ms input div 1000,
      gc_jti = ig_token_id input, gc_lease_id = ig_lease_id input, gc_run_id = ig_run_id input,
      gc_tenant_id = ig_tenant_id input, gc_tool_name = ig_tool_name input, gc_user_id = ig_user_id input\<rparr>"
    using assms by (clarsimp simp: unfold validate_gateway_claims_def)
qed

section \<open>Properties\<close>

definition sample_hmac :: "bytes \<Rightarrow> bytes \<Rightarrow> bytes" where
  "sample_hmac k m = replicate 32 (CHR ''s'')"

definition sample_sha :: "bytes \<Rightarrow> bytes" where
  "sample_sha m = replicate 32 (CHR ''f'')"

definition sample_secret :: string where
  "sample_secret = replicate 32 (CHR ''k'')"

definition sample_run_input :: issue_run_input where
  "sample_run_input = \<lparr>ir_max_calls = 8, ir_now_ms = 1700000000500, ir_run_id = ''run-0001'',
     ir_scopes = [''sandbox:exec'', ''sandbox:create'', ''sandbox:exec''], ir_secret = sample_secret,
     ir_tenant_id = ''tenant'', ir_ttl_seconds = 300, ir_user_id = ''user''\<rparr>"

definition sample_claims :: run_claims where
  "sample_claims = \<lparr>rc_exp = 1700000300, rc_iat = 1700000000, rc_jti = ''run-0001'', rc_max_calls = 8,
     rc_scopes = [''sandbox:create'', ''sandbox:exec''], rc_tenant_hash = replicate 64 (CHR ''6''),
     rc_user_hash = replicate 64 (CHR ''6'')\<rparr>"

definition sample_token :: string where
  "sample_token =
     (let payload = utf8_encode (json_text (canonical_claims sample_claims)) in
      bytes_to_base64url payload @ CHR ''.'' # bytes_to_base64url (replicate 32 (CHR ''s'')))"

lemma sample_hex: "bytes_to_hex (replicate n (CHR ''f'')) = replicate (2 * n) (CHR ''6'')"
  by (induction n) (simp_all add: bytes_to_hex_def hex_digit_def char_of_def bit_iff_odd)

lemma sample_hash:
  "hash_identity sample_sha kind v = require (js_trim v \<noteq> []) Invalid_claims (Inr (replicate 64 (CHR ''6'')))"
  by (simp add: hash_identity_def sample_sha_def sample_hex)

lemma sample_valid: "valid_run_claims sample_claims"
  by (simp add: valid_run_claims_def sample_claims_def run_id_pattern_def run_id_char_def hash_pattern_def
      is_alnum_def is_lower_def is_upper_def is_digit_def is_lower_hex_def sandbox_run_scopes_def
      is_safe_integer_def max_safe_integer_def list_all_iff)

lemma sample_key: "import_hmac_key sample_secret = Inr (utf8_encode sample_secret)"
  by (simp add: import_hmac_key_def sample_secret_def length_utf8_encode utf8_length_def sum_list_replicate)

lemma sample_issued:
  "issue_sandbox_run_token sample_hmac sample_sha sample_run_input =
     Inr \<lparr>it_claims = sample_claims, it_sandbox_id = ''ab-'' @ replicate 32 (CHR ''6''), it_token = sample_token\<rparr>"
proof -
  have scopes: "normalize_scopes [''sandbox:exec'', ''sandbox:create'', ''sandbox:exec''] =
      Inr [''sandbox:create'', ''sandbox:exec'']"
    by (simp add: normalize_scopes_def sandbox_run_scopes_def)
  have "validate_claims (canonical_claims sample_claims) 1700000000 None = Inr sample_claims"
    using sample_valid by (rule validate_claims_complete)
      (simp_all add: run_claims_current_def scope_granted_def sample_claims_def)
  moreover have "derive_sandbox_id sample_sha sample_claims = Inr (''ab-'' @ replicate 32 (CHR ''6''))"
    using sample_valid by (simp add: derive_sandbox_id_def valid_run_claims_def sample_sha_def sample_hex)
  moreover have "sign_payload sample_hmac sample_secret (canonical_claims sample_claims) = Inr sample_token"
    by (simp add: sign_payload_def sample_key sample_token_def sample_hmac_def Let_def)
  ultimately show ?thesis
    using scopes
    by (simp add: issue_sandbox_run_token_def sample_run_input_def sample_hash is_safe_integer_def
        max_safe_integer_def js_trim_def is_ws_def canonical_claims_def sample_claims_def)
qed

lemma sample_verified:
  assumes "t div 1000 = 1700000000 \<or> t div 1000 = 1700000299"
  shows "verify_sandbox_run_token sample_hmac sample_token sample_secret t None = Inr sample_claims"
proof -
  have "open_token sample_hmac sample_token sample_secret =
      Inr (json_text (canonical_claims sample_claims), canonical_claims sample_claims)"
    by (rule verify_issued [OF _ sample_valid])
      (simp_all add: sample_hmac_def sign_payload_def sample_key sample_token_def Let_def)
  then show ?thesis using assms
    by (elim disjE) (simp_all add: verify_sandbox_run_token_def validate_claims_errors [OF sample_valid],
      simp_all add: sample_claims_def scope_granted_def)
qed

text \<open>
  C4: A run token that was issued verifies, under the same secret, exactly inside its window:
  before \<open>iat - 30 s\<close> it is refused as not yet valid, from \<open>exp\<close> on as expired, for a scope it
  does not carry as out of scope, and otherwise verification returns the very claims it was issued
  with. In particular an issued token never exceeds the verifier's 4096 characters, and its base64url,
  UTF-8 and JSON encodings are undone by the verifier.
\<close>

theorem run_token_verifies_in_window:
  assumes "issue_sandbox_run_token hmac sha input = Inr r" and "\<And>k m. length (hmac k m) = 32"
  shows "verify_sandbox_run_token hmac (it_token r) (ir_secret input) now_ms scope =
    (if now_ms div 1000 + 30 < ir_now_ms input div 1000 then Inl Token_not_yet_valid
     else if ir_now_ms input div 1000 + ir_ttl_seconds input \<le> now_ms div 1000 then Inl Token_expired
     else if scope \<noteq> None \<and> the scope \<notin> set (ir_scopes input) then Inl Invalid_scope
     else Inr (it_claims r))"
proof -
  note c = issued_run_token [OF assms(1)]
  have "scope_granted scope (it_claims r) \<longleftrightarrow> \<not> (scope \<noteq> None \<and> the scope \<notin> set (ir_scopes input))"
    by (simp add: scope_granted_def c split: option.split)
  then show ?thesis
    by (simp add: verify_sandbox_run_token_def verify_issued [OF c(2,1) assms(2)]
        validate_claims_errors [OF c(1)] c(3,4) del: validate_claims_def)
qed

theorem run_token_verifies_in_window_witness:
  "verify_sandbox_run_token sample_hmac sample_token sample_secret 1700000299999 (Some ''sandbox:exec'')
     = Inr sample_claims \<and>
   verify_sandbox_run_token sample_hmac sample_token sample_secret 1700000300000 None = Inl Token_expired"
  using run_token_verifies_in_window [OF sample_issued, of 1700000299999 "Some ''sandbox:exec''"]
    run_token_verifies_in_window [OF sample_issued, of 1700000300000 None]
  by (simp add: sample_hmac_def sample_run_input_def)

text \<open>
  Whatever string is presented, a run token verifies only if it is two base64url parts, the second
  the HMAC of the first under a secret of at least 32 bytes, whose payload is the canonical JSON text
  of the returned claims; the claims then have a lifetime of at most 600 seconds that contains
  the present (30 seconds of skew at its start), 1 to 64 calls, and sorted, distinct, known
  scopes among which is the required one.
\<close>

theorem verified_run_token_is_signed:
  assumes "verify_sandbox_run_token hmac token secret now_ms scope = Inr c"
  shows "valid_run_claims c \<and> run_claims_current c (now_ms div 1000) \<and> scope_granted scope c \<and>
    32 \<le> length (utf8_encode secret) \<and>
    (\<exists>p s payload. split_on (CHR ''.'') token = [p, s] \<and> base64url_to_bytes p = Some payload \<and>
       base64url_to_bytes s = Some (hmac (utf8_encode secret) payload) \<and>
       utf8_decode payload = Some (json_text (canonical_claims c)))"
proof -
  obtain payload_text v where o: "open_token hmac token secret = Inr (payload_text, v)"
    and v: "validate_claims v (now_ms div 1000) scope = Inr c" and t: "json_text (canonical_claims c) = payload_text"
    using assms by (auto simp: verify_sandbox_run_token_def)
  from o show ?thesis
  proof (rule open_token_signed)
  qed (use validate_claims_sound [OF v] t in blast)
qed

theorem verified_run_token_is_signed_witness:
  "valid_run_claims sample_claims \<and> run_claims_current sample_claims 1700000299"
  using verified_run_token_is_signed [OF sample_verified [of 1700000299999]] by simp

text \<open>
  One token string never verifies at two instants 630 seconds apart, and wherever it verifies
  it yields the same claims.
\<close>

theorem run_token_lifetime:
  assumes "verify_sandbox_run_token hmac token secret t1 scope1 = Inr c1"
    and "verify_sandbox_run_token hmac token secret t2 scope2 = Inr c2"
  shows "c1 = c2 \<and> t2 < t1 + 630000"
proof -
  obtain payload_text v where o: "open_token hmac token secret = Inr (payload_text, v)"
    and v1: "validate_claims v (t1 div 1000) scope1 = Inr c1" and "json_text (canonical_claims c1) = payload_text"
    and v2: "validate_claims v (t2 div 1000) scope2 = Inr c2" and "json_text (canonical_claims c2) = payload_text"
    using assms by (auto simp: verify_sandbox_run_token_def)
  then have eq: "c1 = c2" using json_text_inj [OF canonical_ok(1) canonical_ok(1)] canonical_claims_inj by metis
  have "rc_exp c1 - rc_iat c1 \<le> 600" "rc_iat c1 \<le> t1 div 1000 + 30" "t2 div 1000 < rc_exp c1"
    using validate_claims_sound [OF v1] validate_claims_sound [OF v2] eq
    by (simp_all add: valid_run_claims_def run_claims_current_def)
  then show ?thesis using eq by linarith
qed

theorem run_token_lifetime_witness:
  "sample_claims = sample_claims \<and> 1700000299999 < (1700000000000 :: int) + 630000"
  by (rule run_token_lifetime [OF sample_verified sample_verified]) simp_all

definition sample_gateway_input :: issue_gateway_input where
  "sample_gateway_input = \<lparr>ig_lease_id = ''lease-1'', ig_now_ms = 1700000000000, ig_run_id = ''run-0001'',
     ig_secret = sample_secret, ig_tenant_id = ''tenant'', ig_token_id = ''token-1'', ig_tool_name = ''quote'',
     ig_ttl_seconds = 60, ig_user_id = ''user''\<rparr>"

definition sample_gateway_claims :: gateway_claims where
  "sample_gateway_claims = \<lparr>gc_exp = 1700000060, gc_iat = 1700000000, gc_jti = ''token-1'',
     gc_lease_id = ''lease-1'', gc_run_id = ''run-0001'', gc_tenant_id = ''tenant'', gc_tool_name = ''quote'',
     gc_user_id = ''user''\<rparr>"

definition sample_gateway_token :: string where
  "sample_gateway_token =
     (let payload = utf8_encode (json_text (canonical_gateway_claims sample_gateway_claims)) in
      bytes_to_base64url payload @ CHR ''.'' # bytes_to_base64url (replicate 32 (CHR ''s'')))"

lemma sample_gateway_valid: "valid_gateway_claims sample_gateway_claims"
  by (simp add: valid_gateway_claims_def sample_gateway_claims_def valid_gateway_id_def js_trim_def is_ws_def
      has_control_def is_control_def tool_name_pattern_def is_lower_def is_safe_integer_def max_safe_integer_def)

lemma sample_gateway_signed:
  "sign_payload sample_hmac sample_secret (canonical_gateway_claims sample_gateway_claims) = Inr sample_gateway_token"
  by (simp add: sign_payload_def sample_key sample_gateway_token_def sample_hmac_def Let_def)

lemma sample_gateway_issued:
  "issue_sandbox_tool_gateway_token sample_hmac sample_gateway_input = Inr (sample_gateway_claims, sample_gateway_token)"
proof -
  have "validate_gateway_claims (canonical_gateway_claims sample_gateway_claims) 1700000000 None = Inr sample_gateway_claims"
    using sample_gateway_valid by (rule validate_gateway_claims_complete)
      (simp_all add: gateway_claims_current_def sample_gateway_claims_def)
  then show ?thesis
    using sample_gateway_signed
    by (simp add: issue_sandbox_tool_gateway_token_def sample_gateway_input_def is_safe_integer_def
        max_safe_integer_def canonical_gateway_claims_def sample_gateway_claims_def)
qed

text \<open>
  A tool-gateway token that was issued verifies, under the same secret, exactly inside its window
  and for the one tool it names (or when no tool is required); the claims returned are the
  tenant, user, run, lease and token identifiers it was issued with.
\<close>

theorem gateway_token_verifies_for_its_tool:
  assumes "issue_sandbox_tool_gateway_token hmac input = Inr (c, token)"
    and "\<And>k m. length (hmac k m) = 32"
  shows "verify_sandbox_tool_gateway_token hmac token (ig_secret input) now_ms tool =
    (if now_ms div 1000 + 30 < ig_now_ms input div 1000 then Inl Token_not_yet_valid
     else if ig_now_ms input div 1000 + ig_ttl_seconds input \<le> now_ms div 1000 then Inl Token_expired
     else if tool \<noteq> None \<and> tool \<noteq> Some (ig_tool_name input) then Inl Invalid_scope
     else Inr \<lparr>gc_exp = ig_now_ms input div 1000 + ig_ttl_seconds input, gc_iat = ig_now_ms input div 1000,
       gc_jti = ig_token_id input, gc_lease_id = ig_lease_id input, gc_run_id = ig_run_id input,
       gc_tenant_id = ig_tenant_id input, gc_tool_name = ig_tool_name input, gc_user_id = ig_user_id input\<rparr>)"
proof -
  note c = gateway_issued [OF assms(1)]
  have "gc_iat c = ig_now_ms input div 1000" "gc_exp c = ig_now_ms input div 1000 + ig_ttl_seconds input"
    "gc_tool_name c = ig_tool_name input"
    by (simp_all add: c(3))
  then show ?thesis
    by (simp add: verify_sandbox_tool_gateway_token_def verify_issued_gateway [OF c(2,1) assms(2)]
        validate_gateway_claims_errors [OF c(1)] c(3) [symmetric])
qed

theorem gateway_token_verifies_for_its_tool_witness:
  "verify_sandbox_tool_gateway_token sample_hmac sample_gateway_token sample_secret 1700000059000 (Some ''quote'')
     = Inr sample_gateway_claims \<and>
   verify_sandbox_tool_gateway_token sample_hmac sample_gateway_token sample_secret 1700000059000 (Some ''fx'')
     = Inl Invalid_scope"
  using gateway_token_verifies_for_its_tool [OF sample_gateway_issued, of 1700000059000 "Some ''quote''"]
    gateway_token_verifies_for_its_tool [OF sample_gateway_issued, of 1700000059000 "Some ''fx''"]
  by (simp add: sample_hmac_def sample_gateway_input_def sample_gateway_claims_def)

text \<open>
  Whatever string is presented as a tool-gateway token, it verifies for a tool only if it is
  signed under the secret, its payload is the canonical JSON text of the returned claims, the claims name that
  tool, every identifier is trimmed, free of control characters and of 1 to 128 characters, and the
  present lies in a window of at most 600 seconds (30 of skew).
\<close>

theorem verified_gateway_token_is_signed:
  assumes "verify_sandbox_tool_gateway_token hmac token secret now_ms (Some tool) = Inr c"
  shows "gc_tool_name c = tool \<and> valid_gateway_claims c \<and> gateway_claims_current c (now_ms div 1000) \<and>
    32 \<le> length (utf8_encode secret) \<and>
    (\<exists>p s payload. split_on (CHR ''.'') token = [p, s] \<and> base64url_to_bytes p = Some payload \<and>
       base64url_to_bytes s = Some (hmac (utf8_encode secret) payload) \<and>
       utf8_decode payload = Some (json_text (canonical_gateway_claims c)))"
proof -
  obtain payload_text v where o: "open_token hmac token secret = Inr (payload_text, v)"
    and v: "validate_gateway_claims v (now_ms div 1000) (Some tool) = Inr c"
    and t: "json_text (canonical_gateway_claims c) = payload_text"
    using assms by (auto simp: verify_sandbox_tool_gateway_token_def)
  have "gc_tool_name c = tool" using validate_gateway_claims_sound(3) [OF v] by simp
  moreover note validate_gateway_claims_sound(1,2) [OF v] t
  ultimately show ?thesis using o by (metis open_token_signed)
qed

theorem verified_gateway_token_is_signed_witness:
  "gc_tool_name sample_gateway_claims = ''quote'' \<and> valid_gateway_claims sample_gateway_claims"
proof -
  have "open_token sample_hmac sample_gateway_token sample_secret =
      Inr (json_text (canonical_gateway_claims sample_gateway_claims), canonical_gateway_claims sample_gateway_claims)"
    by (rule verify_issued_gateway [OF sample_gateway_signed sample_gateway_valid]) (simp add: sample_hmac_def)
  then have "verify_sandbox_tool_gateway_token sample_hmac sample_gateway_token sample_secret 1700000059000
      (Some ''quote'') = Inr sample_gateway_claims"
    by (simp add: verify_sandbox_tool_gateway_token_def validate_gateway_claims_errors [OF sample_gateway_valid])
      (simp add: sample_gateway_claims_def)
  from verified_gateway_token_is_signed [OF this] show ?thesis by simp
qed

text \<open>
  C40: Every verified run token names a sandbox: the derivation of the identifier cannot fail on
  it, and the identifier is \<open>ab-\<close> and 32 lower-case hexadecimal digits, a function of the run
  identifier and the two identity hashes alone.
\<close>

theorem verified_token_names_sandbox:
  assumes "verify_sandbox_run_token hmac token secret now_ms scope = Inr c"
    and "\<And>m. length (sha m) = 32"
  shows "\<exists>d. derive_sandbox_id sha c = Inr (''ab-'' @ d) \<and> length d = 32 \<and> list_all is_lower_hex d \<and>
    (\<forall>c'. rc_jti c' = rc_jti c \<and> rc_tenant_hash c' = rc_tenant_hash c \<and> rc_user_hash c' = rc_user_hash c \<longrightarrow>
      derive_sandbox_id sha c' = Inr (''ab-'' @ d))"
proof -
  obtain v where "validate_claims v (now_ms div 1000) scope = Inr c"
    using assms(1) by (auto simp: verify_sandbox_run_token_def)
  then have "valid_run_claims c" by (rule validate_claims_sound)
  moreover have "length (take 32 (bytes_to_hex (sha m))) = 32" for m
    using assms(2) by (simp add: bytes_to_hex_length)
  moreover have "list_all is_lower_hex (take 32 (bytes_to_hex (sha m)))" for m
    using bytes_to_hex_lower [of "sha m"] by (auto simp: list_all_iff dest: in_set_takeD)
  ultimately show ?thesis
    by (auto simp: derive_sandbox_id_def valid_run_claims_def Let_def)
qed

theorem verified_token_names_sandbox_witness:
  "\<exists>d. derive_sandbox_id sample_sha sample_claims = Inr (''ab-'' @ d) \<and> length d = 32"
  using verified_token_names_sandbox [OF sample_verified [of 1700000299999], of sample_sha]
  by (auto simp: sample_sha_def)

end
