(* ===== verification/Run_Guard.thy ===== *)
theory Run_Guard
  imports Run_Auth
begin

text \<open>
  The durable object that meters one run (\<open>apps/sandbox-bridge/src/run-guard.ts\<close>): the decision
  function \<open>applyRunGuardClaim\<close>, the request handler over the object's one stored state, and
  the client class over a namespace of such objects. A request runs without another one
  interleaved (the input gate of a durable object), so it is one step of the stored state.
\<close>

section \<open>Data\<close>

datatype guard_operation = Op_create | Op_destroy | Op_exec | Op_file | Op_status

record exec_receipt =
  er_argv_sha256 :: string
  er_exit_code :: int
  er_stdout_sha256 :: string

record guard_state =
  gs_call_count :: int
  gs_destroying :: bool
  gs_exp :: int
  gs_exec_receipt :: "exec_receipt option"
  gs_jti :: string
  gs_max_calls :: int
  gs_scopes :: "string list"
  gs_terminal :: bool
  gs_tenant_hash :: string
  gs_user_hash :: string

datatype guard_code = Call_budget_exhausted | Destroy_in_progress | Token_state_mismatch

record guard_decision =
  gd_allowed :: bool
  gd_call_count :: int
  gd_code :: "guard_code option"
  gd_exec_receipt :: "exec_receipt option"
  gd_terminal :: bool

definition initial_state :: "run_claims \<Rightarrow> guard_state" where
  "initial_state c =
     \<lparr>gs_call_count = 0, gs_destroying = False, gs_exp = rc_exp c, gs_exec_receipt = None,
      gs_jti = rc_jti c, gs_max_calls = rc_max_calls c, gs_scopes = rc_scopes c, gs_terminal = False,
      gs_tenant_hash = rc_tenant_hash c, gs_user_hash = rc_user_hash c\<rparr>"

definition state_matches_claims :: "guard_state \<Rightarrow> run_claims \<Rightarrow> bool" where
  "state_matches_claims s c \<longleftrightarrow>
     gs_exp s = rc_exp c \<and> gs_jti s = rc_jti c \<and> gs_max_calls s = rc_max_calls c \<and>
     gs_tenant_hash s = rc_tenant_hash c \<and> gs_user_hash s = rc_user_hash c \<and>
     json_text (JArr (map JStr (gs_scopes s))) = json_text (JArr (map JStr (rc_scopes c)))"

definition state_matches_run_identity :: "guard_state \<Rightarrow> run_claims \<Rightarrow> bool" where
  "state_matches_run_identity s c \<longleftrightarrow>
     gs_jti s = rc_jti c \<and> gs_tenant_hash s = rc_tenant_hash c \<and> gs_user_hash s = rc_user_hash c"

definition guard_allow :: "guard_state \<Rightarrow> guard_decision" where
  "guard_allow s =
     \<lparr>gd_allowed = True, gd_call_count = gs_call_count s, gd_code = None,
      gd_exec_receipt = gs_exec_receipt s, gd_terminal = gs_terminal s\<rparr>"

definition guard_refuse :: "guard_state \<Rightarrow> guard_code \<Rightarrow> bool \<Rightarrow> guard_decision" where
  "guard_refuse s code terminal =
     \<lparr>gd_allowed = False, gd_call_count = gs_call_count s, gd_code = Some code,
      gd_exec_receipt = None, gd_terminal = terminal\<rparr>"

section \<open>The decision\<close>

definition apply_run_guard_claim ::
  "guard_state option \<Rightarrow> run_claims \<Rightarrow> guard_operation \<Rightarrow> guard_decision \<times> guard_state" where
  "apply_run_guard_claim current c operation =
     (let s = (case current of Some s \<Rightarrow> s | None \<Rightarrow> initial_state c);
          exact = state_matches_claims s c;
          reissued = \<not> exact \<and> (operation = Op_destroy \<or> operation = Op_status) \<and>
            state_matches_run_identity s c in
      if \<not> exact \<and> \<not> reissued then (guard_refuse s Token_state_mismatch (gs_terminal s), s)
      else if operation = Op_status \<and> gs_terminal s then (guard_allow s, s)
      else if operation = Op_destroy \<and> gs_terminal s then (guard_allow s, s)
      else if reissued \<and> operation = Op_status then (guard_allow s, s)
      else if gs_destroying s \<or> gs_terminal s then
        (guard_refuse s Destroy_in_progress (gs_terminal s), s)
      else if operation = Op_destroy then (guard_allow s, s\<lparr>gs_destroying := True\<rparr>)
      else if gs_max_calls s \<le> gs_call_count s then
        (guard_refuse s Call_budget_exhausted False, s)
      else
        (let s' = s\<lparr>gs_call_count := gs_call_count s + 1\<rparr> in (guard_allow s', s')))"

section \<open>The handler\<close>

datatype guard_body =
  Claim_body run_claims guard_operation
  | Receipt_body run_claims "exec_receipt option"
  | Empty_body

datatype guard_response =
  Guard_decision guard_decision
  | Guard_no_content
  | Guard_error nat string
  | Guard_threw

definition guard_ok :: "guard_response \<Rightarrow> bool" where
  "guard_ok r \<longleftrightarrow> (case r of Guard_decision _ \<Rightarrow> True | Guard_no_content \<Rightarrow> True | _ \<Rightarrow> False)"

definition receipt_valid :: "exec_receipt option \<Rightarrow> bool" where
  "receipt_valid r \<longleftrightarrow>
     (case r of None \<Rightarrow> False
      | Some x \<Rightarrow> hash_pattern (er_argv_sha256 x) \<and> is_safe_integer (er_exit_code x) \<and>
          hash_pattern (er_stdout_sha256 x))"

record guard_request =
  gq_method :: string
  gq_path :: string
  gq_body :: guard_body

definition handle_run_guard_request ::
  "guard_state option \<Rightarrow> guard_request \<Rightarrow> guard_response \<times> guard_state option" where
  "handle_run_guard_request current q =
     (if gq_method q \<noteq> ''POST'' then (Guard_error 405 ''METHOD_NOT_ALLOWED'', current)
      else if gq_path q = ''/claim'' then
        (case gq_body q of
           Claim_body c operation \<Rightarrow>
             (let (d, s) = apply_run_guard_claim current c operation in (Guard_decision d, Some s))
         | _ \<Rightarrow> (Guard_threw, current))
      else
        (case current of
           None \<Rightarrow> (Guard_error 409 ''RUN_NOT_INITIALIZED'', current)
         | Some s \<Rightarrow>
             if gq_path q = ''/finish-destroy'' then
               (Guard_no_content, Some (s\<lparr>gs_destroying := False, gs_terminal := True\<rparr>))
             else if gq_path q = ''/abort-destroy'' then
               (Guard_no_content, Some (s\<lparr>gs_destroying := False\<rparr>))
             else if gq_path q = ''/record-exec'' then
               (case gq_body q of
                  Receipt_body c r \<Rightarrow>
                    if \<not> state_matches_claims s c \<or> gs_destroying s \<or> gs_terminal s \<or> \<not> receipt_valid r
                    then (Guard_error 409 ''INVALID_EXEC_RECEIPT'', current)
                    else (Guard_no_content, Some (s\<lparr>gs_exec_receipt := r\<rparr>))
                | _ \<Rightarrow> (Guard_threw, current))
             else (Guard_error 404 ''NOT_FOUND'', current)))"

section \<open>The client\<close>

type_synonym guard_namespace = "string \<Rightarrow> guard_state option"

definition guard_object_name :: "run_claims \<Rightarrow> string" where
  "guard_object_name c = rc_jti c @ '':'' @ rc_tenant_hash c @ '':'' @ rc_user_hash c"

definition guard_fetch ::
  "delivery \<Rightarrow> guard_namespace \<Rightarrow> run_claims \<Rightarrow> guard_request \<Rightarrow> guard_response option \<times> guard_namespace" where
  "guard_fetch d ns c q =
     (let n = guard_object_name c; (r, s) = handle_run_guard_request (ns n) q in
      case d of
        Delivered \<Rightarrow> (Some r, ns(n := s))
      | Request_lost \<Rightarrow> (None, ns)
      | Response_lost \<Rightarrow> (None, ns(n := s)))"

text \<open>Each method of the client: \<open>None\<close> is a rejected promise.\<close>

definition guard_claim ::
  "delivery \<Rightarrow> guard_namespace \<Rightarrow> run_claims \<Rightarrow> guard_operation \<Rightarrow> guard_decision option \<times> guard_namespace" where
  "guard_claim d ns c operation =
     (let (r, ns') = guard_fetch d ns c \<lparr>gq_method = ''POST'', gq_path = ''/claim'', gq_body = Claim_body c operation\<rparr> in
      (case r of Some (Guard_decision x) \<Rightarrow> Some x | _ \<Rightarrow> None, ns'))"

definition guard_finish_destroy :: "delivery \<Rightarrow> guard_namespace \<Rightarrow> run_claims \<Rightarrow> bool \<times> guard_namespace" where
  "guard_finish_destroy d ns c =
     (let (r, ns') = guard_fetch d ns c \<lparr>gq_method = ''POST'', gq_path = ''/finish-destroy'', gq_body = Empty_body\<rparr> in
      (case r of Some x \<Rightarrow> guard_ok x | None \<Rightarrow> False, ns'))"

definition guard_abort_destroy :: "delivery \<Rightarrow> guard_namespace \<Rightarrow> run_claims \<Rightarrow> bool \<times> guard_namespace" where
  "guard_abort_destroy d ns c =
     (let (r, ns') = guard_fetch d ns c \<lparr>gq_method = ''POST'', gq_path = ''/abort-destroy'', gq_body = Empty_body\<rparr> in
      (case r of Some x \<Rightarrow> guard_ok x | None \<Rightarrow> False, ns'))"

definition guard_record_exec ::
  "delivery \<Rightarrow> guard_namespace \<Rightarrow> run_claims \<Rightarrow> exec_receipt \<Rightarrow> bool \<times> guard_namespace" where
  "guard_record_exec d ns c receipt =
     (let (r, ns') = guard_fetch d ns c
        \<lparr>gq_method = ''POST'', gq_path = ''/record-exec'', gq_body = Receipt_body c (Some receipt)\<rparr> in
      (case r of Some x \<Rightarrow> guard_ok x | None \<Rightarrow> False, ns'))"

section \<open>The object as a machine\<close>

definition guard_step :: "guard_state option \<Rightarrow> guard_request \<Rightarrow> guard_state option" where
  "guard_step s q = snd (handle_run_guard_request s q)"

text \<open>The claims the bridge sends are verified ones, so their call budget is positive.\<close>

definition guard_request_ok :: "guard_request \<Rightarrow> bool" where
  "guard_request_ok q \<longleftrightarrow> (case gq_body q of Claim_body c _ \<Rightarrow> 1 \<le> rc_max_calls c \<and> rc_max_calls c \<le> 64 | _ \<Rightarrow> True)"

definition guard_inv :: "guard_state option \<Rightarrow> bool" where
  "guard_inv s \<longleftrightarrow>
     (case s of None \<Rightarrow> True
      | Some x \<Rightarrow> 0 \<le> gs_call_count x \<and> gs_call_count x \<le> gs_max_calls x \<and> gs_max_calls x \<le> 64 \<and>
          (gs_terminal x \<longrightarrow> \<not> gs_destroying x))"

definition guard_terminal :: "guard_state option \<Rightarrow> bool" where
  "guard_terminal s \<longleftrightarrow> (case s of None \<Rightarrow> False | Some x \<Rightarrow> gs_terminal x)"

text \<open>What the object is pinned to by its first claim.\<close>

definition guard_pin :: "guard_state \<Rightarrow> int \<times> string \<times> int \<times> string list \<times> string \<times> string" where
  "guard_pin s = (gs_exp s, gs_jti s, gs_max_calls s, gs_scopes s, gs_tenant_hash s, gs_user_hash s)"

definition claims_pin :: "run_claims \<Rightarrow> int \<times> string \<times> int \<times> string list \<times> string \<times> string" where
  "claims_pin c = (rc_exp c, rc_jti c, rc_max_calls c, rc_scopes c, rc_tenant_hash c, rc_user_hash c)"

lemma state_matches_claims_pin: "state_matches_claims s c \<longleftrightarrow> guard_pin s = claims_pin c"
  by (auto simp: state_matches_claims_def guard_pin_def claims_pin_def scopes_text simp del: json_text.simps)

lemma initial_state_pin [simp]: "guard_pin (initial_state c) = claims_pin c"
  by (simp add: guard_pin_def claims_pin_def initial_state_def)

lemma guard_pin_update [simp]:
  "guard_pin (s\<lparr>gs_call_count := n\<rparr>) = guard_pin s" "guard_pin (s\<lparr>gs_destroying := b\<rparr>) = guard_pin s"
  "guard_pin (s\<lparr>gs_terminal := b\<rparr>) = guard_pin s" "guard_pin (s\<lparr>gs_exec_receipt := r\<rparr>) = guard_pin s"
  by (simp_all add: guard_pin_def)

text \<open>The ways a claim ends.\<close>

definition guard_current :: "guard_state option \<Rightarrow> run_claims \<Rightarrow> guard_state" where
  "guard_current cur c = (case cur of Some s \<Rightarrow> s | None \<Rightarrow> initial_state c)"

lemma exact_identity: "state_matches_claims s c \<Longrightarrow> state_matches_run_identity s c"
  by (simp add: state_matches_claims_def state_matches_run_identity_def)

lemma claim_cases [consumes 0, case_names refused observed destroy charged]:
  fixes cur c
  defines "s \<equiv> guard_current cur c"
  assumes "\<And>code t. P (guard_refuse s code t, s)"
    and "operation = Op_status \<or> operation = Op_destroy \<and> gs_terminal s \<Longrightarrow>
      state_matches_run_identity s c \<Longrightarrow> P (guard_allow s, s)"
    and "operation = Op_destroy \<Longrightarrow> \<not> gs_destroying s \<Longrightarrow> \<not> gs_terminal s \<Longrightarrow>
      state_matches_run_identity s c \<Longrightarrow> P (guard_allow s, s\<lparr>gs_destroying := True\<rparr>)"
    and "\<And>s'. s' = s\<lparr>gs_call_count := gs_call_count s + 1\<rparr> \<Longrightarrow> operation \<noteq> Op_destroy \<Longrightarrow>
      \<not> gs_destroying s \<Longrightarrow> \<not> gs_terminal s \<Longrightarrow> gs_call_count s < gs_max_calls s \<Longrightarrow>
      state_matches_claims s c \<Longrightarrow> P (guard_allow s', s')"
  shows "P (apply_run_guard_claim cur c operation)"
  unfolding apply_run_guard_claim_def Let_def guard_current_def [symmetric] s_def [symmetric]
  using assms(2-5) exact_identity [of s c]
  by (simp only: if_split_eq2 not_le [symmetric] split: if_split) blast

lemma guard_handle_cases [consumes 0, case_names unchanged claim finish abort receipt]:
  assumes "\<And>r. \<not> guard_ok r \<Longrightarrow> P (r, cur)"
    and "\<And>c operation. gq_path q = ''/claim'' \<Longrightarrow> gq_body q = Claim_body c operation \<Longrightarrow>
      P (map_prod Guard_decision Some (apply_run_guard_claim cur c operation))"
    and "\<And>s. cur = Some s \<Longrightarrow> gq_path q = ''/finish-destroy'' \<Longrightarrow>
      P (Guard_no_content, Some (s\<lparr>gs_destroying := False, gs_terminal := True\<rparr>))"
    and "\<And>s. cur = Some s \<Longrightarrow> gq_path q = ''/abort-destroy'' \<Longrightarrow> P (Guard_no_content, Some (s\<lparr>gs_destroying := False\<rparr>))"
    and "\<And>s c r. cur = Some s \<Longrightarrow> state_matches_claims s c \<Longrightarrow> \<not> gs_destroying s \<Longrightarrow> \<not> gs_terminal s \<Longrightarrow>
      receipt_valid r \<Longrightarrow> P (Guard_no_content, Some (s\<lparr>gs_exec_receipt := r\<rparr>))"
  shows "P (handle_run_guard_request cur q)"
proof -
  have ok: "\<not> guard_ok (Guard_error n e)" "\<not> guard_ok Guard_threw" for n e
    by (simp_all add: guard_ok_def)
  show ?thesis
    using assms ok
    by (auto simp: handle_run_guard_request_def map_prod_def split_beta Let_def
        split: guard_body.split option.split)
qed

lemma claim_inv:
  assumes "guard_inv cur" and "1 \<le> rc_max_calls c" and "rc_max_calls c \<le> 64"
  shows "guard_inv (Some (snd (apply_run_guard_claim cur c operation)))"
proof -
  have "guard_inv (Some (guard_current cur c))"
    using assms by (simp add: guard_inv_def guard_current_def initial_state_def split: option.splits)
  then show ?thesis by - (rule claim_cases; simp add: guard_inv_def)
qed

lemma guard_step_inv:
  assumes "guard_inv cur" and "guard_request_ok q"
  shows "guard_inv (guard_step cur q)"
  unfolding guard_step_def
proof (rule guard_handle_cases)
  fix c operation assume "gq_body q = Claim_body c operation"
  then show "guard_inv (snd (map_prod Guard_decision Some (apply_run_guard_claim cur c operation)))"
    using assms claim_inv [of cur c operation] by (simp add: guard_request_ok_def)
qed (use assms in \<open>simp_all add: guard_inv_def\<close>)

lemma guard_step_terminal:
  assumes "guard_terminal cur"
  shows "guard_terminal (guard_step cur q)"
  unfolding guard_step_def
proof (rule guard_handle_cases)
  fix c operation
  have "gs_terminal (guard_current cur c)"
    using assms by (simp add: guard_terminal_def guard_current_def split: option.splits)
  then have "guard_terminal (Some (snd (apply_run_guard_claim cur c operation)))"
    by - (rule claim_cases; simp add: guard_terminal_def)
  then show "guard_terminal (snd (map_prod Guard_decision Some (apply_run_guard_claim cur c operation)))" by simp
qed (use assms in \<open>simp_all add: guard_terminal_def\<close>)

interpretation run_guard: absorbing_machine guard_step guard_request_ok guard_inv guard_terminal
  by unfold_locales (auto intro: guard_step_inv guard_step_terminal)

section \<open>Runs with their responses\<close>

fun guard_run :: "guard_state option \<Rightarrow> guard_request list \<Rightarrow> guard_response list \<times> guard_state option" where
  "guard_run cur [] = ([], cur)"
| "guard_run cur (q # qs) =
     (let (r, s) = handle_run_guard_request cur q; (rs, s') = guard_run s qs in (r # rs, s'))"

text \<open>An allowed call that does work: create, exec or file.\<close>

definition charged :: "guard_request \<times> guard_response \<Rightarrow> bool" where
  "charged x \<longleftrightarrow>
     (case x of (q, r) \<Rightarrow>
        (case (gq_body q, r) of
           (Claim_body c operation, Guard_decision d) \<Rightarrow>
             gd_allowed d \<and> operation \<in> {Op_create, Op_exec, Op_file}
         | _ \<Rightarrow> False))"

definition charged_count :: "guard_request list \<Rightarrow> guard_response list \<Rightarrow> nat" where
  "charged_count qs rs = length (filter charged (zip qs rs))"

definition calls_made :: "guard_state option \<Rightarrow> int" where
  "calls_made s = (case s of None \<Rightarrow> 0 | Some x \<Rightarrow> gs_call_count x)"

lemma guard_run_state: "snd (guard_run cur qs) = foldl guard_step cur qs"
  by (induction qs arbitrary: cur) (simp_all add: guard_step_def split_beta Let_def)

lemma guard_run_length: "length (fst (guard_run cur qs)) = length qs"
  by (induction qs arbitrary: cur) (simp_all add: split_beta Let_def)

lemma refused_not_charged: "\<not> guard_ok r \<Longrightarrow> \<not> charged (q, r)" "\<not> charged (q, Guard_no_content)"
  by (auto simp: charged_def guard_ok_def split: guard_body.splits guard_response.splits)

text \<open>What one request does to the count, the pin and the openness of the object.\<close>

definition guard_open :: "guard_state option \<Rightarrow> bool" where
  "guard_open s \<longleftrightarrow> (case s of None \<Rightarrow> True | Some x \<Rightarrow> \<not> gs_destroying x \<and> \<not> gs_terminal x)"

lemma guard_allow_simps [simp]:
  "gd_allowed (guard_allow s)" "\<not> gd_allowed (guard_refuse s code t)" "gd_call_count (guard_allow s) = gs_call_count s"
  by (simp_all add: guard_allow_def guard_refuse_def)

lemma calls_made_step:
  "calls_made cur + (if charged (q, fst (handle_run_guard_request cur q)) then 1 else 0)
     \<le> calls_made (snd (handle_run_guard_request cur q))"
proof (rule guard_handle_cases)
  fix c operation assume body: "gq_body q = Claim_body c operation"
  have cur: "calls_made cur = gs_call_count (guard_current cur c)"
    by (simp add: calls_made_def guard_current_def initial_state_def split: option.split)
  have "calls_made cur + (if charged (q, Guard_decision (fst x)) then 1 else 0) \<le> gs_call_count (snd x)"
    if "x = apply_run_guard_claim cur c operation" for x
    unfolding that cur by (rule claim_cases; auto simp: charged_def body)
  then show "calls_made cur
      + (if charged (q, fst (map_prod Guard_decision Some (apply_run_guard_claim cur c operation))) then 1 else 0)
    \<le> calls_made (snd (map_prod Guard_decision Some (apply_run_guard_claim cur c operation)))"
    by (simp add: calls_made_def [of "Some _"])
qed (simp_all add: refused_not_charged calls_made_def)

lemma charged_count_bound:
  "calls_made cur + int (charged_count qs (fst (guard_run cur qs))) \<le> calls_made (snd (guard_run cur qs))"
proof (induction qs arbitrary: cur)
  case (Cons q qs)
  show ?case
    using calls_made_step [of cur q] Cons.IH [of "snd (handle_run_guard_request cur q)"]
    by (simp add: charged_count_def split_beta Let_def split: if_splits)
qed (simp add: charged_count_def)

lemma charged_step:
  assumes "charged (q, fst (handle_run_guard_request cur q))"
  obtains c operation s where "gq_body q = Claim_body c operation" "operation \<in> {Op_create, Op_exec, Op_file}"
    "guard_open cur" "snd (handle_run_guard_request cur q) = Some s" "guard_pin s = claims_pin c"
proof -
  have "charged (q, fst x) \<longrightarrow> (\<exists>c operation s. gq_body q = Claim_body c operation \<and>
      operation \<in> {Op_create, Op_exec, Op_file} \<and> guard_open cur \<and> snd x = Some s \<and> guard_pin s = claims_pin c)"
    if "x = handle_run_guard_request cur q" for x
    unfolding that
  proof (rule guard_handle_cases)
    fix c operation assume body: "gq_body q = Claim_body c operation"
    have cur: "guard_open cur \<longleftrightarrow> \<not> gs_destroying (guard_current cur c) \<and> \<not> gs_terminal (guard_current cur c)"
      by (simp add: guard_open_def guard_current_def initial_state_def split: option.split)
    have "charged (q, Guard_decision (fst x)) \<longrightarrow> operation \<in> {Op_create, Op_exec, Op_file} \<and> guard_open cur \<and>
        guard_pin (snd x) = claims_pin c"
      if "x = apply_run_guard_claim cur c operation" for x
      unfolding that cur by (rule claim_cases; auto simp: charged_def body state_matches_claims_pin)
    then show "charged (q, fst (map_prod Guard_decision Some (apply_run_guard_claim cur c operation))) \<longrightarrow>
        (\<exists>c' operation' s. gq_body q = Claim_body c' operation' \<and> operation' \<in> {Op_create, Op_exec, Op_file} \<and>
          guard_open cur \<and> snd (map_prod Guard_decision Some (apply_run_guard_claim cur c operation)) = Some s \<and>
          guard_pin s = claims_pin c')"
      using body by simp
  qed (simp_all add: refused_not_charged)
  then show thesis using assms that by blast
qed

lemma guard_step_pin:
  "guard_step (Some s) q = Some s' \<Longrightarrow> guard_pin s' = guard_pin s" "guard_step (Some s) q \<noteq> None"
proof -
  have "\<exists>s'. snd (handle_run_guard_request (Some s) q) = Some s' \<and> guard_pin s' = guard_pin s"
  proof (rule guard_handle_cases)
    fix c operation
    have "guard_pin (snd (apply_run_guard_claim (Some s) c operation)) = guard_pin (guard_current (Some s) c)"
      by (rule claim_cases; simp)
    then show "\<exists>s'. snd (map_prod Guard_decision Some (apply_run_guard_claim (Some s) c operation)) = Some s' \<and>
        guard_pin s' = guard_pin s" by (simp add: guard_current_def)
  qed simp_all
  then show "guard_step (Some s) q = Some s' \<Longrightarrow> guard_pin s' = guard_pin s" "guard_step (Some s) q \<noteq> None"
    by (auto simp: guard_step_def)
qed

lemma guard_run_pin:
  "\<exists>s'. snd (guard_run (Some s) qs) = Some s' \<and> guard_pin s' = guard_pin s"
proof (induction qs arbitrary: s)
  case (Cons q qs)
  obtain t where "guard_step (Some s) q = Some t" "guard_pin t = guard_pin s"
    using guard_step_pin [of s q] by blast
  with Cons.IH [of t] show ?case by (simp add: guard_step_def split_beta Let_def)
qed simp

lemma charged_pinned:
  assumes "(q, r) \<in> set (zip qs (fst (guard_run cur qs)))" and "charged (q, r)"
    and "gq_body q = Claim_body c operation"
  shows "\<exists>s. snd (guard_run cur qs) = Some s \<and> guard_pin s = claims_pin c"
  using assms(1)
proof (induction qs arbitrary: cur)
  case (Cons q' qs)
  let ?out = "handle_run_guard_request cur q'"
  consider "q' = q" "fst ?out = r" | "(q, r) \<in> set (zip qs (fst (guard_run (snd ?out) qs)))"
    using Cons.prems by (auto simp: split_beta Let_def)
  then show ?case
  proof cases
    case 1
    then obtain s where "snd ?out = Some s" "guard_pin s = claims_pin c"
      using assms(2,3) charged_step [of q cur] by (metis guard_body.inject(1))
    then show ?thesis using guard_run_pin [of s qs] by (simp add: split_beta Let_def)
  next
    case 2
    then show ?thesis using Cons.IH by (simp add: split_beta Let_def)
  qed
qed simp

text \<open>A closed object stays closed until an abort.\<close>

lemma closed_step:
  assumes "\<not> guard_open cur" and "gq_path q \<noteq> ''/abort-destroy''"
  shows "\<not> guard_open (snd (handle_run_guard_request cur q))"
proof (rule guard_handle_cases)
  fix c operation
  have "\<not> guard_open (Some (guard_current cur c))"
    using assms(1) by (simp add: guard_open_def guard_current_def split: option.splits)
  then have "\<not> guard_open (Some (snd (apply_run_guard_claim cur c operation)))"
    by - (rule claim_cases; simp add: guard_open_def)
  then show "\<not> guard_open (snd (map_prod Guard_decision Some (apply_run_guard_claim cur c operation)))" by simp
qed (use assms in \<open>simp_all add: guard_open_def\<close>)

lemma closed_no_work:
  assumes "\<not> guard_open cur" and "list_all (\<lambda>q. gq_path q \<noteq> ''/abort-destroy'') qs"
  shows "charged_count qs (fst (guard_run cur qs)) = 0"
  using assms
proof (induction qs arbitrary: cur)
  case (Cons q qs)
  then have "\<not> charged (q, fst (handle_run_guard_request cur q))" by (meson charged_step)
  with Cons closed_step [of cur q] show ?case
    by (simp add: charged_count_def split_beta Let_def)
qed (simp add: charged_count_def)

lemma terminal_no_work:
  assumes "guard_terminal cur"
  shows "charged_count qs (fst (guard_run cur qs)) = 0"
  using assms
proof (induction qs arbitrary: cur)
  case (Cons q qs)
  then have "\<not> guard_open cur" by (simp add: guard_terminal_def guard_open_def split: option.splits)
  then have "\<not> charged (q, fst (handle_run_guard_request cur q))" by (meson charged_step)
  moreover have "guard_terminal (snd (handle_run_guard_request cur q))"
    using guard_step_terminal [OF Cons.prems, of q] by (simp add: guard_step_def)
  ultimately show ?case using Cons.IH [of "snd (handle_run_guard_request cur q)"]
    by (simp add: charged_count_def split_beta Let_def)
qed (simp add: charged_count_def)

section \<open>Properties\<close>

definition sample_claim :: "guard_operation \<Rightarrow> guard_request" where
  "sample_claim operation = \<lparr>gq_method = ''POST'', gq_path = ''/claim'', gq_body = Claim_body sample_claims operation\<rparr>"

definition sample_finish :: guard_request where
  "sample_finish = \<lparr>gq_method = ''POST'', gq_path = ''/finish-destroy'', gq_body = Empty_body\<rparr>"

definition sample_guard_requests :: "guard_request list" where
  "sample_guard_requests = map sample_claim [Op_create, Op_exec, Op_destroy] @ [sample_finish]"

lemma sample_matches_initial:
  "state_matches_claims (initial_state sample_claims) sample_claims"
  "state_matches_claims ((initial_state sample_claims)\<lparr>gs_call_count := n\<rparr>) sample_claims"
  by (simp_all add: state_matches_claims_pin)

lemma sample_guard_run:
  "snd (guard_run None sample_guard_requests) =
     Some ((initial_state sample_claims)\<lparr>gs_call_count := 2, gs_terminal := True\<rparr>)"
  "charged_count sample_guard_requests (fst (guard_run None sample_guard_requests)) = 2"
proof -
  let ?s = "initial_state sample_claims"
  have s: "\<not> gs_destroying ?s" "\<not> gs_terminal ?s" "gs_call_count ?s = 0" "gs_max_calls ?s = 8"
    by (simp_all add: initial_state_def sample_claims_def)
  have run: "guard_run None sample_guard_requests =
     ([Guard_decision (guard_allow (?s\<lparr>gs_call_count := 1\<rparr>)), Guard_decision (guard_allow (?s\<lparr>gs_call_count := 2\<rparr>)),
       Guard_decision (guard_allow (?s\<lparr>gs_call_count := 2\<rparr>)), Guard_no_content],
      Some (?s\<lparr>gs_call_count := 2, gs_destroying := False, gs_terminal := True\<rparr>))"
    using s sample_matches_initial
    by (simp add: sample_guard_requests_def sample_claim_def sample_finish_def handle_run_guard_request_def
        apply_run_guard_claim_def Let_def)
  moreover have "?s\<lparr>gs_call_count := 2, gs_destroying := False, gs_terminal := True\<rparr> =
      ?s\<lparr>gs_call_count := 2, gs_terminal := True\<rparr>"
    by (simp add: initial_state_def)
  ultimately show "snd (guard_run None sample_guard_requests) =
     Some (?s\<lparr>gs_call_count := 2, gs_terminal := True\<rparr>)" by simp
  show "charged_count sample_guard_requests (fst (guard_run None sample_guard_requests)) = 2"
    unfolding run by (simp add: sample_guard_requests_def sample_claim_def sample_finish_def charged_count_def charged_def)
qed

text \<open>
  Over any sequence of requests to a fresh run guard, whatever their order, bodies and
  paths, the number of create, exec and file calls that were allowed never exceeds the call
  budget pinned by the first claim, which is at most 64.
\<close>

theorem call_budget_respected:
  assumes "list_all guard_request_ok qs" and "guard_run None qs = (rs, Some s)"
  shows "int (charged_count qs rs) \<le> gs_max_calls s \<and> gs_max_calls s \<le> 64"
proof -
  have "guard_inv (Some s)"
    using run_guard.run_inv [of None qs] assms guard_run_state [of None qs] by (simp add: guard_inv_def)
  then show ?thesis
    using charged_count_bound [of None qs] assms(2) by (simp add: calls_made_def guard_inv_def)
qed

theorem call_budget_respected_witness:
  "int (charged_count sample_guard_requests (fst (guard_run None sample_guard_requests)))
     \<le> gs_max_calls ((initial_state sample_claims)\<lparr>gs_call_count := 2, gs_terminal := True\<rparr>) \<and>
   gs_max_calls ((initial_state sample_claims)\<lparr>gs_call_count := 2, gs_terminal := True\<rparr>) \<le> 64"
proof (rule call_budget_respected)
  show "list_all guard_request_ok sample_guard_requests"
    by (simp add: sample_guard_requests_def sample_claim_def sample_finish_def guard_request_ok_def sample_claims_def)
  show "guard_run None sample_guard_requests = (fst (guard_run None sample_guard_requests),
      Some ((initial_state sample_claims)\<lparr>gs_call_count := 2, gs_terminal := True\<rparr>))"
    by (simp add: sample_guard_run(1) [symmetric])
qed

text \<open>
  All calls that do work on one run present one and the same token: in any run of the object,
  two allowed create, exec or file calls carry the same expiry, run id, budget, scopes and
  identity hashes, so a token reissued for the run with a larger budget or more scopes never works.
\<close>

theorem one_token_per_run:
  assumes "guard_run cur qs = (rs, s')"
    and "(q1, r1) \<in> set (zip qs rs)" and "charged (q1, r1)" and "gq_body q1 = Claim_body c1 op1"
    and "(q2, r2) \<in> set (zip qs rs)" and "charged (q2, r2)" and "gq_body q2 = Claim_body c2 op2"
  shows "claims_pin c1 = claims_pin c2"
  using charged_pinned [of q1 r1 qs cur c1 op1] charged_pinned [of q2 r2 qs cur c2 op2] assms by auto

theorem one_token_per_run_witness:
  "claims_pin sample_claims = claims_pin (sample_claims\<lparr>rc_iat := 1700000001\<rparr>)"
proof (rule one_token_per_run)
  let ?s = "initial_state sample_claims"
  let ?d = "sample_claims\<lparr>rc_iat := 1700000001\<rparr>"
  let ?q = "\<lparr>gq_method = ''POST'', gq_path = ''/claim'', gq_body = Claim_body ?d Op_exec\<rparr>"
  have "\<not> gs_destroying ?s" "\<not> gs_terminal ?s" "gs_call_count ?s = 0" "gs_max_calls ?s = 8"
    by (simp_all add: initial_state_def sample_claims_def)
  moreover have "state_matches_claims (?s\<lparr>gs_call_count := 1\<rparr>) ?d"
    by (simp add: state_matches_claims_pin) (simp add: claims_pin_def)
  ultimately show "guard_run None [sample_claim Op_create, ?q] =
      ([Guard_decision (guard_allow (?s\<lparr>gs_call_count := 1\<rparr>)), Guard_decision (guard_allow (?s\<lparr>gs_call_count := 2\<rparr>))],
       Some (?s\<lparr>gs_call_count := 2\<rparr>))"
    using sample_matches_initial
    by (simp add: sample_claim_def handle_run_guard_request_def apply_run_guard_claim_def Let_def)
  show "(sample_claim Op_create, Guard_decision (guard_allow (?s\<lparr>gs_call_count := 1\<rparr>)))
    \<in> set (zip [sample_claim Op_create, ?q]
      [Guard_decision (guard_allow (?s\<lparr>gs_call_count := 1\<rparr>)), Guard_decision (guard_allow (?s\<lparr>gs_call_count := 2\<rparr>))])"
    by simp
  show "(?q, Guard_decision (guard_allow (?s\<lparr>gs_call_count := 2\<rparr>)))
    \<in> set (zip [sample_claim Op_create, ?q]
      [Guard_decision (guard_allow (?s\<lparr>gs_call_count := 1\<rparr>)), Guard_decision (guard_allow (?s\<lparr>gs_call_count := 2\<rparr>))])"
    by simp
qed (simp_all add: charged_def sample_claim_def)

text \<open>
  A destroy excludes work: once a destroy claim was accepted or the run is terminal, no
  create, exec or file call is allowed in any further sequence of requests without an abort;
  a terminal run stays so, and allows none of these calls, even after aborts.
\<close>

theorem destroy_excludes_work:
  assumes "gs_terminal s \<or> gs_destroying s \<and> list_all (\<lambda>q. gq_path q \<noteq> ''/abort-destroy'') qs"
  shows "charged_count qs (fst (guard_run (Some s) qs)) = 0 \<and>
    (gs_terminal s \<longrightarrow> guard_terminal (snd (guard_run (Some s) qs)))"
proof
  show "charged_count qs (fst (guard_run (Some s) qs)) = 0"
    using assms terminal_no_work [of "Some s" qs] closed_no_work [of "Some s" qs]
    by (auto simp: guard_terminal_def guard_open_def)
  have "guard_terminal cur \<Longrightarrow> guard_terminal (foldl guard_step cur qs)" for cur
    by (induction qs arbitrary: cur) (simp_all add: guard_step_terminal)
  then show "gs_terminal s \<longrightarrow> guard_terminal (snd (guard_run (Some s) qs))"
    by (simp add: guard_run_state guard_terminal_def)
qed

theorem destroy_excludes_work_witness:
  "charged_count sample_guard_requests
     (fst (guard_run (Some ((initial_state sample_claims)\<lparr>gs_terminal := True\<rparr>)) sample_guard_requests)) = 0"
  using destroy_excludes_work [of "(initial_state sample_claims)\<lparr>gs_terminal := True\<rparr>" sample_guard_requests]
  by simp

text \<open>
  Two valid claims address the same run guard object exactly when run id, tenant hash and
  user hash agree, although the run id may itself contain the separator; a request under one
  run leaves every other run's state as it was.
\<close>

theorem guard_objects_isolated:
  assumes "valid_run_claims c" and "valid_run_claims c'"
  shows "(guard_object_name c = guard_object_name c' \<longleftrightarrow>
      rc_jti c = rc_jti c' \<and> rc_tenant_hash c = rc_tenant_hash c' \<and> rc_user_hash c = rc_user_hash c') \<and>
    (guard_object_name c \<noteq> guard_object_name c' \<longrightarrow>
      snd (guard_fetch d ns c q) (guard_object_name c') = ns (guard_object_name c'))"
proof
  have "length (rc_tenant_hash c) = length (rc_tenant_hash c')" "length (rc_user_hash c) = length (rc_user_hash c')"
    using assms by (simp_all add: valid_run_claims_def hash_pattern_def)
  then show "guard_object_name c = guard_object_name c' \<longleftrightarrow>
      rc_jti c = rc_jti c' \<and> rc_tenant_hash c = rc_tenant_hash c' \<and> rc_user_hash c = rc_user_hash c'"
    by (auto simp: guard_object_name_def append_eq_append_conv)
  show "guard_object_name c \<noteq> guard_object_name c' \<longrightarrow>
      snd (guard_fetch d ns c q) (guard_object_name c') = ns (guard_object_name c')"
    by (simp add: guard_fetch_def Let_def split_beta split: delivery.split)
qed

theorem guard_objects_isolated_witness:
  "guard_object_name sample_claims \<noteq> guard_object_name (sample_claims\<lparr>rc_jti := ''run-0001:x''\<rparr>)"
proof -
  have "valid_run_claims (sample_claims\<lparr>rc_jti := ''run-0001:x''\<rparr>)"
    using sample_valid
    by (simp add: valid_run_claims_def run_id_pattern_def run_id_char_def is_alnum_def is_lower_def is_digit_def)
  from guard_objects_isolated [OF sample_valid this] show ?thesis by (simp add: sample_claims_def)
qed

end
