(* ===== verification/Sandbox_Contract.thy ===== *)
theory Sandbox_Contract
  imports Lease_Registry Run_Auth
begin

text \<open>
  What the agent runtime fixes for every sandbox backend (\<open>packages/agent-runtime/src/index.ts\<close>
  and \<open>sandbox-access-grant.ts\<close>): runner selection, the access decision, the minting of access
  grants, egress access, workspace paths, and the data of executions and results.

  A value of type \<open>unknown\<close> in the sources is a JSON value here where its shape is inspected.
\<close>

section \<open>Runner selection\<close>

datatype agent_layer = Generic | Research

datatype run_mode = Dry_run | Guarded_live | Runner_remote

record runner_registration =
  rg_enabled :: bool
  rg_family :: string
  rg_runner_id :: string
  rg_supported_modes :: "run_mode list"

definition agent_runner_registry :: "runner_registration list" where
  "agent_runner_registry =
     [\<lparr>rg_enabled = True, rg_family = ''edge'', rg_runner_id = ''edge.worker-v0'',
       rg_supported_modes = [Dry_run, Guarded_live]\<rparr>,
      \<lparr>rg_enabled = True, rg_family = ''fastclaw'', rg_runner_id = ''fastclaw.personal-v0'',
       rg_supported_modes = [Runner_remote]\<rparr>]"

definition agent_executable_run_modes :: "run_mode list" where
  "agent_executable_run_modes = [Dry_run, Runner_remote]"

datatype blocked_reason =
  Blocked_invalid_runner_family | Blocked_runner_disabled | Blocked_runner_activation_required
  | Blocked_runner_mode_incompatible | Runner_required

text \<open>The requested family: absent, a string, or a value of another type.\<close>

datatype family_request = Family_absent | Family_named string | Family_other

record selection_input =
  si_activated_runner_id :: "string option"
  si_mode :: run_mode
  si_requested_family :: family_request

datatype runner_selection =
  Selection_blocked run_mode "string option" blocked_reason
  | Selection_selected run_mode string string

definition select_agent_runner :: "selection_input \<Rightarrow> runner_selection" where
  "select_agent_runner i =
     (let family =
        (case si_requested_family i of
           Family_absent \<Rightarrow> Some ''edge'' | Family_named s \<Rightarrow> Some s | Family_other \<Rightarrow> None);
        blocked = Selection_blocked (si_mode i) family in
      case List.find (\<lambda>r. Some (rg_family r) = family) agent_runner_registry of
        None \<Rightarrow> blocked Blocked_invalid_runner_family
      | Some r \<Rightarrow>
          if \<not> list_ex (\<lambda>m. m = si_mode i) (rg_supported_modes r) then
            blocked Blocked_runner_mode_incompatible
          else if \<not> rg_enabled r then blocked Blocked_runner_disabled
          else if rg_runner_id r = ''fastclaw.personal-v0'' \<and>
              si_activated_runner_id i \<noteq> Some (rg_runner_id r) then
            blocked Blocked_runner_activation_required
          else if si_mode i \<notin> set agent_executable_run_modes then blocked Runner_required
          else Selection_selected (si_mode i) (rg_family r) (rg_runner_id r))"

section \<open>The access decision\<close>

record access_input =
  ai_layer :: agent_layer
  ai_mode :: run_mode
  ai_requested_family :: family_request

datatype access_decision =
  Access_blocked_layer agent_layer
  | Access_blocked_selection runner_selection
  | Access_blocked_family runner_selection

definition evaluate_sandbox_backend_access :: "access_input \<Rightarrow> access_decision" where
  "evaluate_sandbox_backend_access i =
     (if ai_layer i \<noteq> Research then Access_blocked_layer (ai_layer i)
      else
        (let s = select_agent_runner \<lparr>si_activated_runner_id = None, si_mode = ai_mode i,
           si_requested_family = ai_requested_family i\<rparr> in
         case s of
           Selection_blocked _ _ _ \<Rightarrow> Access_blocked_selection s
         | Selection_selected _ _ _ \<Rightarrow> Access_blocked_family s))"

section \<open>Access grants\<close>

text \<open>
  Activations are objects compared by identity; the weak set of authentic ones is the list of
  the identities handed out. No other code adds to it.
\<close>

type_synonym activation = nat

definition create_activation :: "activation list \<Rightarrow> activation \<times> activation list" where
  "create_activation authentic = (length authentic, authentic @ [length authentic])"

definition mint_sandbox_grant ::
  "activation list \<Rightarrow> activation \<Rightarrow> string \<Rightarrow> string \<Rightarrow> string \<Rightarrow> unit + sandbox_grant" where
  "mint_sandbox_grant authentic a run_id tenant_id user_id =
     require (a \<in> set authentic) () (
       Inr \<lparr>ag_layer = ''research'', ag_owner = Owner_run run_id, ag_run_mode = ''runner_remote'',
            ag_runner_family = ''fastclaw'', ag_runner_id = ''fastclaw.personal-v0'',
            ag_contract_version = ''2026-07-10.agent-runner-selection.v0'',
            ag_source = ''agent_runner_selection'', ag_tenant_id = tenant_id, ag_user_id = user_id\<rparr>)"

section \<open>Workspace paths\<close>

definition valid_workspace_path :: "string \<Rightarrow> bool" where
  "valid_workspace_path p \<longleftrightarrow>
     p \<noteq> [] \<and> length p \<le> 1024 \<and> \<not> starts_with ''/'' p \<and> CHR 0x5C \<notin> set p \<and> CHR 0x00 \<notin> set p \<and>
     \<not> list_ex (\<lambda>seg. seg = [] \<or> seg = ''.'' \<or> seg = ''..'') (split_on (CHR ''/'') p)"

text \<open>The parameter is \<open>unknown\<close>: \<open>None\<close> is a value that is no string, \<open>Some p\<close> the string \<open>p\<close>.\<close>

definition validate_sandbox_workspace_path :: "string option \<Rightarrow> string option" where
  "validate_sandbox_workspace_path v =
     (case v of None \<Rightarrow> None | Some p \<Rightarrow> if valid_workspace_path p then Some p else None)"

text \<open>What a file system makes of an absolute path: empty and \<open>.\<close> segments vanish, \<open>..\<close> climbs.\<close>

definition resolve_segment :: "string list \<Rightarrow> string \<Rightarrow> string list" where
  "resolve_segment acc seg =
     (if seg = [] \<or> seg = ''.'' then acc else if seg = ''..'' then butlast acc else acc @ [seg])"

definition resolve_path :: "string \<Rightarrow> string list" where
  "resolve_path p = foldl resolve_segment [] (split_on (CHR ''/'') p)"

section \<open>Egress access\<close>

definition tool_gateway_host :: string where
  "tool_gateway_host = ''tool-gateway.internal''"

definition tool_gateway_url :: string where
  "tool_gateway_url = ''https://tool-gateway.internal/v1/tools/call''"

datatype egress_access = Deny_all | Tool_gateway_access string string

text \<open>\<open>Tool_gateway_access run_id token\<close>; the endpoint is the one constant.\<close>

definition gateway_token_pattern :: "string \<Rightarrow> bool" where
  "gateway_token_pattern t \<longleftrightarrow>
     (case split_on (CHR ''.'') t of [p, s] \<Rightarrow> token_part p \<and> token_part s | _ \<Rightarrow> False)"

definition validate_egress_access :: "json \<Rightarrow> egress_access option" where
  "validate_egress_access access =
     (case access of
        JObj ms \<Rightarrow>
          if map_of ms ''kind'' = Some (JStr ''deny_all'') then
            (if length ms \<noteq> 1 then None else Some Deny_all)
          else
            (case (str_field ms ''run_id'', str_field ms ''token'') of
               (Some run_id, Some token) \<Rightarrow>
                 if map_of ms ''kind'' \<noteq> Some (JStr ''tool_gateway'') \<or>
                   join_with (CHR '','') (sort (map fst ms)) \<noteq> ''endpoint,kind,run_id,token'' \<or>
                   map_of ms ''endpoint'' \<noteq> Some (JStr tool_gateway_url) \<or>
                   length run_id < 1 \<or> 128 < length run_id \<or> js_trim run_id \<noteq> run_id \<or> has_control run_id \<or>
                   4096 < length token \<or> \<not> gateway_token_pattern token
                 then None
                 else Some (Tool_gateway_access run_id token)
             | _ \<Rightarrow> None)
      | _ \<Rightarrow> None)"

section \<open>Executions and results\<close>

datatype kill_reason =
  Client_cancelled | Global_kill | Hard_timeout | Kill_switch | Soft_timeout | Stream_interrupted | Tenant_kill

datatype failure_reason = Backend_failure | Killed_for kill_reason

datatype output_stream = Stderr | Stdout

datatype execution_event =
  Output_event (ee_chunk: string) (ee_sequence: nat) (ee_stream: output_stream)
  | Exit_event (ee_exit_code: int) (ee_sequence: nat)
  | Failed_event (ee_reason: failure_reason) (ee_retryable: bool) (ee_sequence: nat)

definition terminal_event :: "execution_event \<Rightarrow> bool" where
  "terminal_event e \<longleftrightarrow> (case e of Output_event _ _ _ \<Rightarrow> False | _ \<Rightarrow> True)"

datatype create_result = Created sandbox_lease | Create_failed

datatype kill_result =
  Kill_already_terminal string kill_reason
  | Kill_killed string kill_reason
  | Kill_failed string kill_reason bool

datatype destroy_result =
  Destroy_already string
  | Destroy_done string
  | Destroy_failed string bool

section \<open>Properties\<close>

lemma runner_registry_find:
  "List.find (\<lambda>r. Some (rg_family r) = f) agent_runner_registry =
     (if f = Some ''edge'' then Some (agent_runner_registry ! 0)
      else if f = Some ''fastclaw'' then Some (agent_runner_registry ! 1) else None)"
  by (auto simp: agent_runner_registry_def)

text \<open>
  A runner is selected in exactly two situations: the edge runner (asked for by name or
  by default) in a dry run, and the FastClaw runner in remote mode for a request whose
  activated runner id is the registered one. In particular guarded live runs are never executed, and
  a FastClaw selection cannot be obtained without activation.
\<close>

theorem runner_selected_iff:
  "(\<exists>m f r. select_agent_runner i = Selection_selected m f r) \<longleftrightarrow>
     (si_mode i = Dry_run \<and> si_requested_family i \<in> {Family_absent, Family_named ''edge''}) \<or>
     (si_mode i = Runner_remote \<and> si_requested_family i = Family_named ''fastclaw'' \<and>
       si_activated_runner_id i = Some ''fastclaw.personal-v0'')"
  by (cases "si_mode i"; cases "si_requested_family i")
    (auto simp: select_agent_runner_def Let_def runner_registry_find agent_executable_run_modes_def
      agent_runner_registry_def)

lemma resolve_plain:
  assumes "\<not> list_ex (\<lambda>seg. seg = [] \<or> seg = ''.'' \<or> seg = ''..'') segs"
  shows "foldl resolve_segment acc segs = acc @ segs"
  using assms by (induction segs arbitrary: acc) (simp_all add: resolve_segment_def)

text \<open>
  A path the runtime accepts stays inside the workspace: resolved by a file system with
  its \<open>.\<close> and \<open>..\<close> rules, \<open>/workspace/\<close> followed by the path is the workspace directory followed
  by the segments of the path, of which there is at least one.
\<close>

theorem workspace_path_contained:
  assumes "validate_sandbox_workspace_path v = Some p"
  shows "v = Some p \<and> (\<exists>seg segs. split_on (CHR ''/'') p = seg # segs \<and>
    resolve_path (''/workspace/'' @ p) = ''workspace'' # seg # segs)"
proof -
  have p: "v = Some p" "valid_workspace_path p"
    using assms by (auto simp: validate_sandbox_workspace_path_def split: option.splits if_splits)
  obtain seg segs where s: "split_on (CHR ''/'') p = seg # segs"
    using split_on_nonempty by (meson list.exhaust)
  have "split_on (CHR ''/'') (''workspace'' @ CHR ''/'' # p) = ''workspace'' # split_on (CHR ''/'') p"
    by (rule split_on_append) simp
  then have "split_on (CHR ''/'') (''/workspace/'' @ p) = [] # ''workspace'' # seg # segs"
    by (simp add: s)
  moreover have "\<not> list_ex (\<lambda>seg. seg = [] \<or> seg = ''.'' \<or> seg = ''..'') (seg # segs)"
    using p(2) s by (simp add: valid_workspace_path_def)
  ultimately have "resolve_path (''/workspace/'' @ p) = ''workspace'' # seg # segs"
    by (simp add: resolve_path_def resolve_segment_def resolve_plain)
  with p(1) s show ?thesis by blast
qed

theorem workspace_path_contained_witness:
  "resolve_path (''/workspace/'' @ ''a/b.txt'') = [''workspace'', ''a'', ''b.txt''] \<and>
   validate_sandbox_workspace_path (Some ''a/../b'') = None"
proof -
  have "validate_sandbox_workspace_path (Some ''a/b.txt'') = Some ''a/b.txt''"
    by (simp add: validate_sandbox_workspace_path_def valid_workspace_path_def starts_with_def)
  from workspace_path_contained [OF this] show ?thesis
    by (simp add: validate_sandbox_workspace_path_def valid_workspace_path_def starts_with_def del: append.simps)
qed

end
