(* ===== verification/Sandbox_Backend.thy ===== *)
theory Sandbox_Backend
  imports Sandbox_Contract
begin

text \<open>
  The Cloudflare sandbox backend (\<open>apps/sandbox-bridge/src/cloudflare-sandbox-backend.ts\<close>) over the
  modelled lease registry: create, execute, file access, kill and destroy.

  The provider's sandbox is a parameter: what each of its calls comes to (settled, rejected, or later
  than its deadline) is an argument, and the calls that were made are returned as a log. A call to
  the registry is preceded by an arbitrary sequence of requests of others (\<open>meanwhile\<close>) and may
  lose its request or its response, so a property of an operation holds under every
  interleaving at its await points.
\<close>

section \<open>Registry calls among others\<close>

type_synonym others = "(string \<times> registry_request) list"

type_synonym reg_call = "others \<times> delivery"

definition meanwhile :: "others \<Rightarrow> lease_namespace \<Rightarrow> lease_namespace" where
  "meanwhile os ns = foldl (\<lambda>ns (lid, q). ns(lid := cell_step (ns lid) q)) ns os"

definition provider_confirmed :: "'a outcome \<Rightarrow> bool" where
  "provider_confirmed x \<longleftrightarrow> (case x of Settled _ \<Rightarrow> True | _ \<Rightarrow> False)"

datatype provider_call =
  P_create_session string string
  | P_destroy string
  | P_kill string string
  | P_wait string
  | P_remove_outbound string
  | P_set_outbound string string string string string string
  | P_get_session string string
  | P_start string string string bool
  | P_write_file string string bytes
  | P_read_file string string

text \<open>A call and whether it settled in time.\<close>

type_synonym provider_log = "(provider_call \<times> bool) list"

definition backend_id :: string where
  "backend_id = ''cloudflare.sandbox-v0''"

section \<open>Create\<close>

record create_env =
  ce_new_id :: string
  ce_reserve :: reg_call
  ce_session :: "unit outcome"
  ce_ready :: reg_call
  ce_cleanup :: "unit outcome"
  ce_remove :: reg_call

definition new_lease :: "string \<Rightarrow> sandbox_grant \<Rightarrow> sandbox_lease" where
  "new_lease lid g = \<lparr>sl_access_grant = g, sl_backend_id = backend_id, sl_lease_id = lid\<rparr>"

definition new_record :: "string \<Rightarrow> sandbox_grant \<Rightarrow> lease_record" where
  "new_record lid g =
     \<lparr>lr_backend_id = backend_id, lr_binding = snapshot_sandbox_grant g, lr_destroy_resume_status = None,
      lr_kill_requested = False, lr_lease_id = lid, lr_process_id = None, lr_process_state = None,
      lr_provider_id = ''ab-'' @ lid, lr_session_id = ''session-'' @ lid, lr_status = Pending\<rparr>"

text \<open>
  The last component tells whether a late creation is still to be reconciled, and if so
  whether the first cleanup was confirmed.
\<close>

definition backend_create ::
  "create_env \<Rightarrow> sandbox_grant \<Rightarrow> lease_namespace
    \<Rightarrow> create_result \<times> provider_log \<times> bool option \<times> lease_namespace" where
  "backend_create env g ns =
     (let lid = ce_new_id env; lease = new_lease lid g; provider = ''ab-'' @ lid;
          (reserved, ns1) =
            registry_reserve (snd (ce_reserve env)) (meanwhile (fst (ce_reserve env)) ns) (new_record lid g) in
      case reserved of
        Inl _ \<Rightarrow> (Create_failed, [], None, ns1)
      | Inr _ \<Rightarrow>
          (let log = [(P_create_session provider (''session-'' @ lid), provider_confirmed (ce_session env))];
               (created, ns2) =
                 (case ce_session env of
                    Settled _ \<Rightarrow>
                      (let (r, ns2) = registry_mark_ready (snd (ce_ready env)) (meanwhile (fst (ce_ready env)) ns1) lease
                       in (r = Inr (), ns2))
                  | _ \<Rightarrow> (False, ns1)) in
           if created then (Created lease, log, None, ns2)
           else
             (let cleaned = provider_confirmed (ce_cleanup env); log' = log @ [(P_destroy provider, cleaned)] in
              if ce_session env = Timed_out then (Create_failed, log', Some cleaned, ns2)
              else if cleaned then
                (Create_failed, log', None,
                 snd (registry_remove (snd (ce_remove env)) (meanwhile (fst (ce_remove env)) ns2) lease))
              else (Create_failed, log', None, ns2))))"

text \<open>What runs when a creation that had timed out settles or rejects after all.\<close>

definition reconcile_late_create ::
  "bool \<Rightarrow> bool \<Rightarrow> unit outcome \<Rightarrow> reg_call \<Rightarrow> sandbox_lease \<Rightarrow> lease_namespace
    \<Rightarrow> provider_log \<times> lease_namespace" where
  "reconcile_late_create settled cleaned destroyed remove lease ns =
     (let removed = snd (registry_remove (snd remove) (meanwhile (fst remove) ns) lease);
          provider = ''ab-'' @ sl_lease_id lease in
      if settled then
        ([(P_destroy provider, provider_confirmed destroyed)],
         if provider_confirmed destroyed then removed else ns)
      else ([], if cleaned then removed else ns))"

section \<open>Kill and destroy\<close>

record kill_env =
  ke_request :: reg_call
  ke_kill :: "unit outcome"
  ke_finish :: reg_call

definition backend_kill ::
  "kill_env \<Rightarrow> sandbox_lease \<Rightarrow> kill_reason \<Rightarrow> lease_namespace \<Rightarrow> kill_result \<times> provider_log \<times> lease_namespace" where
  "backend_kill env l reason ns =
     (let lid = sl_lease_id l;
          (r, ns1) = registry_request_kill (snd (ke_request env)) (meanwhile (fst (ke_request env)) ns) l in
      case r of
        Inl _ \<Rightarrow> (Kill_failed lid reason True, [], ns1)
      | Inr None \<Rightarrow> (Kill_failed lid reason False, [], ns1)
      | Inr (Some Kr_already_terminal) \<Rightarrow> (Kill_already_terminal lid reason, [], ns1)
      | Inr (Some (Kr_reserved pid provider)) \<Rightarrow>
          (let log = [(P_kill provider pid, provider_confirmed (ke_kill env))] in
           if provider_confirmed (ke_kill env) then
             (let (f, ns2) = registry_finish_kill (snd (ke_finish env)) (meanwhile (fst (ke_finish env)) ns1) l in
              (if f = Inr () then Kill_killed lid reason else Kill_failed lid reason True, log, ns2))
           else (Kill_failed lid reason True, log, ns1)))"

record destroy_env =
  de_begin :: reg_call
  de_destroy :: "unit outcome"
  de_abort :: reg_call
  de_finish :: reg_call

definition backend_destroy ::
  "destroy_env \<Rightarrow> sandbox_lease \<Rightarrow> lease_namespace \<Rightarrow> destroy_result \<times> provider_log \<times> lease_namespace" where
  "backend_destroy env l ns =
     (let lid = sl_lease_id l;
          (r, ns1) = registry_begin_destroy (snd (de_begin env)) (meanwhile (fst (de_begin env)) ns) l in
      case r of
        Inl _ \<Rightarrow> (Destroy_failed lid True, [], ns1)
      | Inr None \<Rightarrow> (Destroy_failed lid False, [], ns1)
      | Inr (Some Dr_already_destroyed) \<Rightarrow> (Destroy_already lid, [], ns1)
      | Inr (Some (Dr_reserved provider recovery)) \<Rightarrow>
          (let log = [(P_destroy provider, provider_confirmed (de_destroy env))] in
           case de_destroy env of
             Settled _ \<Rightarrow>
               (let (f, ns2) = registry_finish_destroy (snd (de_finish env)) (meanwhile (fst (de_finish env)) ns1) l in
                (if f = Inr () then Destroy_done lid else Destroy_failed lid True, log, ns2))
           | Rejected \<Rightarrow>
               (Destroy_failed lid True, log,
                if recovery = Fresh then
                  snd (registry_abort_destroy (snd (de_abort env)) (meanwhile (fst (de_abort env)) ns1) l)
                else ns1)
           | Timed_out \<Rightarrow> (Destroy_failed lid True, log, ns1)))"

section \<open>Files\<close>

definition max_file_bytes :: nat where
  "max_file_bytes = 1048576"

fun collect_bounded :: "nat \<Rightarrow> bytes list \<Rightarrow> bytes option" where
  "collect_bounded seen [] = Some []"
| "collect_bounded seen (chunk # chunks) =
     (if max_file_bytes < seen + length chunk then None
      else map_option ((@) chunk) (collect_bounded (seen + length chunk) chunks))"

datatype write_result = Written nat string string | Write_failed bool

datatype read_result = Read_done bytes string string | Read_failed bool

text \<open>
  The provider's answer to a write is its \<open>success\<close> flag or a rejection, to a read its chunks
  or a rejection (of the call or while streaming).
\<close>

definition backend_write_file ::
  "reg_call \<Rightarrow> bool option \<Rightarrow> sandbox_lease \<Rightarrow> string \<Rightarrow> bytes \<Rightarrow> lease_namespace
    \<Rightarrow> write_result \<times> provider_log \<times> lease_namespace" where
  "backend_write_file call written l path content ns =
     (let (r, ns1) = registry_authorize (snd call) (meanwhile (fst call) ns) l in
      case r of
        Inl _ \<Rightarrow> (Write_failed True, [], ns1)
      | Inr None \<Rightarrow> (Write_failed False, [], ns1)
      | Inr (Some rec) \<Rightarrow>
          if \<not> valid_workspace_path path then (Write_failed False, [], ns1)
          else
            (if written = Some True then Written (length content) (sl_lease_id l) path else Write_failed True,
             [(P_write_file (lr_provider_id rec) (''/workspace/'' @ path) content, written \<noteq> None)], ns1))"

definition backend_read_file ::
  "reg_call \<Rightarrow> bytes list option \<Rightarrow> sandbox_lease \<Rightarrow> string \<Rightarrow> lease_namespace
    \<Rightarrow> read_result \<times> provider_log \<times> lease_namespace" where
  "backend_read_file call chunks l path ns =
     (let (r, ns1) = registry_authorize (snd call) (meanwhile (fst call) ns) l in
      case r of
        Inl _ \<Rightarrow> (Read_failed True, [], ns1)
      | Inr None \<Rightarrow> (Read_failed False, [], ns1)
      | Inr (Some rec) \<Rightarrow>
          if \<not> valid_workspace_path path then (Read_failed False, [], ns1)
          else
            (case Option.bind chunks (collect_bounded 0) of
               Some content \<Rightarrow> Read_done content (sl_lease_id l) path
             | None \<Rightarrow> Read_failed True,
             [(P_read_file (lr_provider_id rec) (''/workspace/'' @ path), chunks \<noteq> None)], ns1))"

section \<open>What a registry call tells its caller\<close>

lemma stub_fetch_Inr:
  "stub_fetch d ns lid path body = (Inr resp, ns') \<Longrightarrow>
   \<exists>cell. handle_sandbox_lease_registry_request (ns lid) ''POST'' path body = (resp, cell) \<and> ns' = ns(lid := cell)"
  by (auto simp: stub_fetch_def split: prod.splits delivery.splits)

lemma bound_request:
  "handle_sandbox_lease_registry_request cur ''POST'' path body =
    (if path = ''/reserve'' then on_reserve cur body
     else case (cur, rb_lease body) of
       (Some c, Some l) \<Rightarrow>
         if record_matches_lease c l then bound_transition c path (rb_process_id body) else (Blocked, cur)
     | _ \<Rightarrow> (Blocked, cur))"
  by (simp add: handle_sandbox_lease_registry_request_def)

lemmas client_defs = registry_mark_ready_def registry_finish_kill_def registry_finish_destroy_def
  registry_abort_destroy_def registry_remove_def registry_clear_process_def

lemma require_no_content_Inr:
  assumes "require_no_content d ns lid path body = (Inr (), ns')" and "path \<noteq> ''/reserve''"
    and "rb_lease body = Some l"
  obtains c resp cell where "ns lid = Some c" "record_matches_lease c l" "response_ok resp"
    "bound_transition c path (rb_process_id body) = (resp, cell)" "ns' = ns(lid := cell)"
proof -
  obtain resp where r: "stub_fetch d ns lid path body = (Inr resp, ns')" "response_ok resp"
    using assms(1) by (auto simp: require_no_content_def split: prod.splits sum.splits if_splits)
  then obtain cell where h: "handle_sandbox_lease_registry_request (ns lid) ''POST'' path body = (resp, cell)"
    "ns' = ns(lid := cell)" using stub_fetch_Inr by blast
  then show thesis using r(2) assms(2,3) that
    by (auto simp: bound_request response_ok_def split: option.splits if_splits)
qed

lemma registry_post_Some:
  assumes "registry_post d ns lid path body = (Inr (Some resp), ns')" and "path \<noteq> ''/reserve''"
    and "rb_lease body = Some l"
  obtains c cell where "ns lid = Some c" "record_matches_lease c l" "response_ok resp"
    "bound_transition c path (rb_process_id body) = (resp, cell)" "ns' = ns(lid := cell)"
proof -
  have r: "stub_fetch d ns lid path body = (Inr resp, ns')" "response_ok resp"
    using assms(1) by (auto simp: registry_post_def split: prod.splits sum.splits if_splits)
  then obtain cell where h: "handle_sandbox_lease_registry_request (ns lid) ''POST'' path body = (resp, cell)"
    "ns' = ns(lid := cell)" using stub_fetch_Inr by blast
  then show thesis using r(2) assms(2,3) that
    by (auto simp: bound_request response_ok_def split: option.splits if_splits)
qed

lemma bodies [simp]:
  "rb_lease (lease_body l) = Some l" "rb_process_id (lease_body l) = None"
  "rb_lease (process_body l p) = Some l" "rb_process_id (process_body l p) = Some p"
  by (simp_all add: lease_body_def process_body_def)

lemma mark_ready_ok:
  assumes "registry_mark_ready d ns l = (Inr (), ns')"
  obtains c where "ns (sl_lease_id l) = Some c" "record_matches_lease c l" "lr_status c = Pending"
    "ns' = ns(sl_lease_id l := Some (c\<lparr>lr_status := Ready\<rparr>))"
  using assms
  by (auto simp: client_defs bound_transition_def on_ready_def response_ok_def
      elim!: require_no_content_Inr split: if_splits)

lemma finish_kill_ok:
  assumes "registry_finish_kill d ns l = (Inr (), ns')"
  obtains c where "ns (sl_lease_id l) = Some c" "record_matches_lease c l" "lr_status c = Ready" "lr_kill_requested c"
    "ns' = ns(sl_lease_id l := Some (c\<lparr>lr_process_id := None, lr_process_state := None, lr_status := Killed\<rparr>))"
  using assms
  by (auto simp: client_defs bound_transition_def on_kill_finish_def response_ok_def
      elim!: require_no_content_Inr split: if_splits)

lemma finish_destroy_ok:
  assumes "registry_finish_destroy d ns l = (Inr (), ns')"
  obtains c where "ns (sl_lease_id l) = Some c" "record_matches_lease c l" "lr_status c = Destroying"
    "ns' = ns(sl_lease_id l := Some (c\<lparr>lr_destroy_resume_status := None, lr_process_id := None,
       lr_process_state := None, lr_kill_requested := True, lr_status := Destroyed\<rparr>))"
  using assms
  by (auto simp: client_defs bound_transition_def on_destroy_finish_def response_ok_def
      elim!: require_no_content_Inr split: if_splits)

lemma request_kill_ok:
  assumes "registry_request_kill d ns l = (Inr (Some res), ns')"
  obtains c where "ns (sl_lease_id l) = Some c" "record_matches_lease c l"
    "res = Kr_already_terminal \<Longrightarrow> (lr_status c = Destroyed \<or> lr_status c = Killed) \<and> ns' = ns"
    "\<And>p q. res = Kr_reserved p q \<Longrightarrow> lr_status c = Ready \<and> lr_process_id c = Some p \<and> q = lr_provider_id c \<and>
       ns' = ns(sl_lease_id l := Some (c\<lparr>lr_kill_requested := True\<rparr>))"
proof -
  obtain resp where post: "registry_post d ns (sl_lease_id l) ''/kill'' (lease_body l) = (Inr (Some resp), ns')"
    and res: "resp = Already_terminal \<and> res = Kr_already_terminal \<or> (\<exists>p q. resp = Kill_reserved p q \<and> res = Kr_reserved p q)"
  proof -
    obtain r where r: "registry_post d ns (sl_lease_id l) ''/kill'' (lease_body l) = (r, ns')"
      using assms by (auto simp: registry_request_kill_def split: prod.splits)
    with assms obtain x where x: "r = Inr x" "(case x of Some Already_terminal \<Rightarrow> Some Kr_already_terminal | Some (Kill_reserved p q) \<Rightarrow> Some (Kr_reserved p q) | _ \<Rightarrow> None) = Some res"
      by (cases r) (auto simp: registry_request_kill_def)
    then obtain resp where "x = Some resp" by (cases x) auto
    with r x that show thesis by (cases resp) auto
  qed
  from post obtain c cell where c: "ns (sl_lease_id l) = Some c" "record_matches_lease c l"
    "bound_transition c ''/kill'' None = (resp, cell)" "ns' = ns(sl_lease_id l := cell)"
    by (rule registry_post_Some [where l = l]) (simp_all only: bodies, auto)
  have k: "on_kill c = (resp, cell)" using c(3) by (simp add: bound_transition_def)
  have same: "cell = Some c \<Longrightarrow> ns' = ns" using c(1,4) by auto
  show thesis
  proof (rule that [OF c(1,2)])
    assume "res = Kr_already_terminal"
    with res k have "(lr_status c = Destroyed \<or> lr_status c = Killed) \<and> cell = Some c"
      by (auto simp: on_kill_def split: if_splits lease_status.splits option.splits process_state.splits)
    with same show "(lr_status c = Destroyed \<or> lr_status c = Killed) \<and> ns' = ns" by blast
  next
    fix p q assume "res = Kr_reserved p q"
    with res k show "lr_status c = Ready \<and> lr_process_id c = Some p \<and> q = lr_provider_id c \<and>
       ns' = ns(sl_lease_id l := Some (c\<lparr>lr_kill_requested := True\<rparr>))"
      unfolding c(4)
      by (auto simp: on_kill_def split: if_splits lease_status.splits option.splits process_state.splits)
  qed
qed

lemma begin_destroy_ok:
  assumes "registry_begin_destroy d ns l = (Inr (Some res), ns')"
  obtains c where "ns (sl_lease_id l) = Some c" "record_matches_lease c l"
    "res = Dr_already_destroyed \<Longrightarrow> lr_status c = Destroyed \<and> ns' = ns"
    "\<And>q rc. res = Dr_reserved q rc \<Longrightarrow> lr_status c \<noteq> Destroyed \<and> q = lr_provider_id c \<and>
       (\<exists>c'. ns' = ns(sl_lease_id l := Some c') \<and> lr_status c' = Destroying \<and> lease_identity c' = lease_identity c \<and>
         (rc = Unknown \<longleftrightarrow> lr_status c = Destroying))"
proof -
  obtain resp where post: "registry_post d ns (sl_lease_id l) ''/destroy/begin'' (lease_body l) = (Inr (Some resp), ns')"
    and res: "resp = Already_destroyed \<and> res = Dr_already_destroyed \<or> (\<exists>p q. resp = Destroy_reserved p q \<and> res = Dr_reserved p q)"
  proof -
    obtain r where r: "registry_post d ns (sl_lease_id l) ''/destroy/begin'' (lease_body l) = (r, ns')"
      using assms by (auto simp: registry_begin_destroy_def split: prod.splits)
    with assms obtain x where x: "r = Inr x" "(case x of Some Already_destroyed \<Rightarrow> Some Dr_already_destroyed | Some (Destroy_reserved p rc) \<Rightarrow> Some (Dr_reserved p rc) | _ \<Rightarrow> None) = Some res"
      by (cases r) (auto simp: registry_begin_destroy_def)
    then obtain resp where "x = Some resp" by (cases x) auto
    with r x that show thesis by (cases resp) auto
  qed
  from post obtain c cell where c: "ns (sl_lease_id l) = Some c" "record_matches_lease c l"
    "bound_transition c ''/destroy/begin'' None = (resp, cell)" "ns' = ns(sl_lease_id l := cell)"
    by (rule registry_post_Some [where l = l]) (simp_all only: bodies, auto)
  have k: "on_destroy_begin c = (resp, cell)" using c(3) by (simp add: bound_transition_def)
  have same: "cell = Some c \<Longrightarrow> ns' = ns" using c(1,4) by auto
  show thesis
  proof (rule that [OF c(1,2)])
    assume "res = Dr_already_destroyed"
    with res k have "lr_status c = Destroyed \<and> cell = Some c"
      by (auto simp: on_destroy_begin_def split: lease_status.splits)
    with same show "lr_status c = Destroyed \<and> ns' = ns" by blast
  next
    fix q rc assume "res = Dr_reserved q rc"
    with res k show "lr_status c \<noteq> Destroyed \<and> q = lr_provider_id c \<and>
       (\<exists>c'. ns' = ns(sl_lease_id l := Some c') \<and> lr_status c' = Destroying \<and> lease_identity c' = lease_identity c \<and>
         (rc = Unknown \<longleftrightarrow> lr_status c = Destroying))"
      unfolding c(4)
      by (cases "lr_status c") (force simp: on_destroy_begin_def lease_identity_def)+
  qed
qed

section \<open>Properties of create, kill and destroy\<close>

lemma meanwhile_other:
  "\<forall>(k, q) \<in> set os. k \<noteq> lid \<Longrightarrow> meanwhile os ns lid = ns lid"
proof (induction os arbitrary: ns)
  case (Cons o' os)
  then show ?case by (cases o') (auto simp: meanwhile_def)
qed (simp add: meanwhile_def)

lemma reserve_result:
  assumes "registry_reserve d ns r = (Inr (), ns')"
  shows "ns (lr_lease_id r) = None \<and> ns' = ns(lr_lease_id r := Some r)"
  using assms
  by (auto simp: registry_reserve_def stub_fetch_def handle_sandbox_lease_registry_request_def on_reserve_def
      response_ok_def split: prod.splits delivery.splits option.splits if_splits)

definition create_reserve :: "create_env \<Rightarrow> sandbox_grant \<Rightarrow> lease_namespace \<Rightarrow> (registry_error + unit) \<times> lease_namespace" where
  "create_reserve env g ns =
     registry_reserve (snd (ce_reserve env)) (meanwhile (fst (ce_reserve env)) ns) (new_record (ce_new_id env) g)"

definition create_ready :: "create_env \<Rightarrow> sandbox_grant \<Rightarrow> lease_namespace \<Rightarrow> (registry_error + unit) \<times> lease_namespace" where
  "create_ready env g ns =
     registry_mark_ready (snd (ce_ready env)) (meanwhile (fst (ce_ready env)) ns) (new_lease (ce_new_id env) g)"

definition create_cleanup :: "create_env \<Rightarrow> sandbox_grant \<Rightarrow> lease_namespace \<Rightarrow> lease_namespace" where
  "create_cleanup env g ns =
     snd (registry_remove (snd (ce_remove env)) (meanwhile (fst (ce_remove env)) ns) (new_lease (ce_new_id env) g))"

lemma backend_create_cases [consumes 1, case_names unreserved created unready rejected late]:
  assumes "backend_create env g ns = (res, log, late, ns')"
    and "\<And>e. create_reserve env g ns = (Inl e, ns') \<Longrightarrow> res = Create_failed \<Longrightarrow> log = [] \<Longrightarrow> late = None \<Longrightarrow> P"
    and "\<And>ns1. create_reserve env g ns = (Inr (), ns1) \<Longrightarrow> ce_session env = Settled () \<Longrightarrow>
      create_ready env g ns1 = (Inr (), ns') \<Longrightarrow> res = Created (new_lease (ce_new_id env) g) \<Longrightarrow> late = None \<Longrightarrow>
      log = [(P_create_session (''ab-'' @ ce_new_id env) (''session-'' @ ce_new_id env), True)] \<Longrightarrow> P"
    and "\<And>ns1 e ns2. create_reserve env g ns = (Inr (), ns1) \<Longrightarrow> ce_session env = Settled () \<Longrightarrow>
      create_ready env g ns1 = (Inl e, ns2) \<Longrightarrow> res = Create_failed \<Longrightarrow> late = None \<Longrightarrow>
      ns' = (if provider_confirmed (ce_cleanup env) then create_cleanup env g ns2 else ns2) \<Longrightarrow> P"
    and "\<And>ns1. create_reserve env g ns = (Inr (), ns1) \<Longrightarrow> ce_session env = Rejected \<Longrightarrow> res = Create_failed \<Longrightarrow>
      late = None \<Longrightarrow> ns' = (if provider_confirmed (ce_cleanup env) then create_cleanup env g ns1 else ns1) \<Longrightarrow> P"
    and "create_reserve env g ns = (Inr (), ns') \<Longrightarrow> ce_session env = Timed_out \<Longrightarrow> res = Create_failed \<Longrightarrow>
      late = Some (provider_confirmed (ce_cleanup env)) \<Longrightarrow> P"
  shows P
proof -
  obtain r ns1 where r: "create_reserve env g ns = (r, ns1)" by force
  note unfold = backend_create_def create_reserve_def [symmetric] create_ready_def [symmetric]
    create_cleanup_def [symmetric] Let_def provider_confirmed_def
  show P
  proof (cases r)
    case (Inl e)
    then show P using assms(1,2) r by (simp add: unfold)
  next
    case (Inr u)
    show P
    proof (cases "ce_session env")
      case (Settled v)
      obtain q ns2 where q: "create_ready env g ns1 = (q, ns2)" by force
      then show P using assms(1,3,4) r Inr Settled by (cases q) (auto simp: unfold split: outcome.splits)
    qed (use assms(1,5,6) r Inr in \<open>auto simp: unfold split: outcome.splits\<close>)
  qed
qed

text \<open>
  A create that answers with a lease answers with the one it made for the grant, and at that
  moment the registry holds a record for exactly this lease and grant that is ready, and the
  provider has confirmed its session: whatever other requests ran at the await points and
  whichever requests were lost.
\<close>

theorem created_lease_is_ready:
  assumes "backend_create env g ns = (Created l, log, late, ns')"
  shows "l = new_lease (ce_new_id env) g \<and> late = None \<and>
    (P_create_session (''ab-'' @ ce_new_id env) (''session-'' @ ce_new_id env), True) \<in> set log \<and>
    (\<exists>c. ns' (sl_lease_id l) = Some c \<and> record_matches_lease c l \<and> lr_status c = Ready)"
  using assms
proof (cases rule: backend_create_cases)
  case (created ns1)
  then have "registry_mark_ready (snd (ce_ready env)) (meanwhile (fst (ce_ready env)) ns1) l = (Inr (), ns')"
    by (simp add: create_ready_def)
  then show ?thesis
    by (rule mark_ready_ok) (use created in \<open>simp add: record_matches_lease_def\<close>)
qed simp_all

definition sample_create_env :: create_env where
  "sample_create_env = \<lparr>ce_new_id = ''l1'', ce_reserve = ([], Delivered), ce_session = Settled (),
     ce_ready = ([], Delivered), ce_cleanup = Settled (), ce_remove = ([], Delivered)\<rparr>"

lemma new_record_matches: "record_matches_lease (new_record lid g) (new_lease lid g)"
  by (simp add: record_matches_lease_def new_record_def new_lease_def binding_matches_iff)

lemma meanwhile_Nil [simp]: "meanwhile [] ns = ns"
  by (simp add: meanwhile_def)

lemma reserve_delivered:
  "ns (lr_lease_id r) = None \<Longrightarrow> registry_reserve Delivered ns r = (Inr (), ns(lr_lease_id r := Some r))"
  by (simp add: registry_reserve_def stub_fetch_def handle_sandbox_lease_registry_request_def on_reserve_def
      response_ok_def)

text \<open>A request on a lease whose record it matches, delivered or with its response lost.\<close>

lemma bound_fetch:
  assumes "ns lid = Some c" and "record_matches_lease c l" and "rb_lease body = Some l" and "path \<noteq> ''/reserve''"
  shows "stub_fetch Delivered ns lid path body =
      (Inr (fst (bound_transition c path (rb_process_id body))),
       ns(lid := snd (bound_transition c path (rb_process_id body))))"
    and "stub_fetch Response_lost ns lid path body =
      (Inl Fetch_rejected, ns(lid := snd (bound_transition c path (rb_process_id body))))"
    and "stub_fetch Request_lost ns lid path body = (Inl Fetch_rejected, ns)"
  using assms by (simp_all add: stub_fetch_def bound_request split_beta)

lemma require_no_content_bound:
  assumes "ns lid = Some c" and "record_matches_lease c l" and "rb_lease body = Some l" and "path \<noteq> ''/reserve''"
    and "bound_transition c path (rb_process_id body) = (resp, cell)"
  shows "require_no_content d ns lid path body =
    (if d \<noteq> Delivered then Inl Fetch_rejected else if response_ok resp then Inr () else Inl Transition_failed,
     if d = Request_lost then ns else ns(lid := cell))"
  using bound_fetch [of ns lid c l body path, OF assms(1-4)] assms(5)
  by (cases d) (simp_all add: require_no_content_def)

lemma fetch_cell:
  assumes "ns lid = Some c" and "record_matches_lease c l" and "rb_lease body = Some l" and "path \<noteq> ''/reserve''"
    and "require_no_content d ns lid path body = (r, ns')"
  shows "ns' lid = (if d = Request_lost then Some c else snd (bound_transition c path (rb_process_id body)))"
proof -
  obtain resp cell where "bound_transition c path (rb_process_id body) = (resp, cell)" by force
  with require_no_content_bound [of ns lid c l body path resp cell d, OF assms(1-4) this] assms(1,5)
  show ?thesis by auto
qed

text \<open>
  A create that fails leaves no usable lease behind: if nobody else addresses the fresh
  lease id, the registry then holds no record for it or one that is still pending, which
  authorises nothing, unless the registry applied the mark-ready request and lost its response;
  only in that case a ready record survives, whose lease was not handed out.
\<close>

theorem failed_create_leaves_no_lease:
  assumes "backend_create env g ns = (Create_failed, log, late, ns')" and "ns (ce_new_id env) = None"
    and "\<forall>(k, q) \<in> set (fst (ce_reserve env) @ fst (ce_ready env) @ fst (ce_remove env)). k \<noteq> ce_new_id env"
  shows "ns' (ce_new_id env) = None \<or> ns' (ce_new_id env) = Some (new_record (ce_new_id env) g) \<or>
    (snd (ce_ready env) = Response_lost \<and>
     ns' (ce_new_id env) = Some ((new_record (ce_new_id env) g)\<lparr>lr_status := Ready\<rparr>))"
proof -
  let ?lid = "ce_new_id env" let ?rec = "new_record ?lid g" let ?lease = "new_lease ?lid g"
  have rec: "lr_lease_id ?rec = ?lid" "sl_lease_id ?lease = ?lid" "lr_status ?rec = Pending"
    by (simp_all add: new_record_def new_lease_def)
  note apart = meanwhile_other [of "fst (ce_reserve env)" ?lid] meanwhile_other [of "fst (ce_ready env)" ?lid]
    meanwhile_other [of "fst (ce_remove env)" ?lid]
  have apart': "meanwhile (fst (ce_reserve env)) m ?lid = m ?lid" "meanwhile (fst (ce_ready env)) m ?lid = m ?lid"
    "meanwhile (fst (ce_remove env)) m ?lid = m ?lid" for m
    using assms(3) apart by auto
  have matches: "record_matches_lease ?rec ?lease" "record_matches_lease (?rec\<lparr>lr_status := Ready\<rparr>) ?lease"
    using new_record_matches [of ?lid g] by (simp_all add: record_matches_lease_def)
  have reserved: "m ?lid = Some ?rec" if "create_reserve env g ns = (Inr (), m)" for m
    using reserve_result [of "snd (ce_reserve env)" "meanwhile (fst (ce_reserve env)) ns" ?rec m] that rec
    by (simp add: create_reserve_def)
  have removed: "create_cleanup env g m ?lid = None \<or> create_cleanup env g m ?lid = m ?lid"
    if "m ?lid = Some c" "record_matches_lease c ?lease" for m c
  proof -
    obtain r m' where q: "require_no_content (snd (ce_remove env)) (meanwhile (fst (ce_remove env)) m) ?lid ''/remove''
        (lease_body ?lease) = (r, m')" by force
    then have "m' ?lid = Some c \<or> m' ?lid = snd (on_remove c)"
      using fetch_cell [where ns = "meanwhile (fst (ce_remove env)) m" and lid = ?lid, OF _ that(2) _ _ q] that(1) apart'
      by (simp add: bound_transition_def)
    then have "m' ?lid = None \<or> m' ?lid = Some c" by (auto simp: on_remove_def split: if_splits)
    then show ?thesis using q that(1) by (simp add: create_cleanup_def registry_remove_def rec(2))
  qed
  from assms(1) show ?thesis
  proof (cases rule: backend_create_cases)
    case (unreserved e)
    then show ?thesis
      using assms(2) apart' rec
      by (auto simp: create_reserve_def registry_reserve_def stub_fetch_def handle_sandbox_lease_registry_request_def
          on_reserve_def response_ok_def split: prod.splits delivery.splits option.splits if_splits)
  next
    case (unready ns1 e ns2)
    then have "ns1 ?lid = Some ?rec" by (intro reserved)
    then have here: "meanwhile (fst (ce_ready env)) ns1 ?lid = Some ?rec" using apart' by simp
    have "bound_transition ?rec ''/ready'' (rb_process_id (lease_body ?lease)) = (No_content, Some (?rec\<lparr>lr_status := Ready\<rparr>))"
      by (simp add: bound_transition_def on_ready_def rec)
    from require_no_content_bound [where ns = "meanwhile (fst (ce_ready env)) ns1" and lid = ?lid,
        OF here matches(1) _ _ this, of "snd (ce_ready env)"] unready(3) here
    have two: "ns2 ?lid = Some ?rec \<or>
        (snd (ce_ready env) = Response_lost \<and> ns2 ?lid = Some (?rec\<lparr>lr_status := Ready\<rparr>))"
      by (cases "snd (ce_ready env)") (auto simp: create_ready_def registry_mark_ready_def rec response_ok_def)
    then have "create_cleanup env g ns2 ?lid = None \<or> create_cleanup env g ns2 ?lid = ns2 ?lid"
      using removed matches by blast
    with two unready show ?thesis by auto
  next
    case (rejected ns1)
    then have "ns1 ?lid = Some ?rec" by (intro reserved)
    with removed [of ns1, OF this matches(1)] rejected(5) show ?thesis by auto
  next
    case late
    then show ?thesis using reserved by simp
  qed simp
qed

theorem failed_create_leaves_no_lease_witness:
  "\<exists>ns'. backend_create (sample_create_env\<lparr>ce_session := Rejected\<rparr>) sample_grant (\<lambda>_. None)
     = (Create_failed, [(P_create_session ''ab-l1'' ''session-l1'', False), (P_destroy ''ab-l1'', True)], None, ns') \<and>
   (ns' ''l1'' = None \<or> ns' ''l1'' = Some (new_record ''l1'' sample_grant))"
proof -
  obtain res log late ns' where c: "backend_create (sample_create_env\<lparr>ce_session := Rejected\<rparr>) sample_grant (\<lambda>_. None)
     = (res, log, late, ns')" by (metis prod_cases4)
  moreover have "res = Create_failed \<and> late = None \<and>
      log = [(P_create_session ''ab-l1'' ''session-l1'', False), (P_destroy ''ab-l1'', True)]"
    using c reserve_delivered [of "\<lambda>_. None" "new_record ''l1'' sample_grant"]
    by (simp add: backend_create_def sample_create_env_def Let_def provider_confirmed_def)
  moreover note failed_create_leaves_no_lease [of "sample_create_env\<lparr>ce_session := Rejected\<rparr>" sample_grant "\<lambda>_. None" log late ns']
  ultimately show ?thesis by (simp add: sample_create_env_def)
qed

theorem created_lease_is_ready_witness:
  "\<exists>c. (snd (snd (snd (backend_create sample_create_env sample_grant (\<lambda>_. None))))) ''l1'' = Some c \<and> lr_status c = Ready"
proof -
  let ?rec = "new_record ''l1'' sample_grant" let ?l = "new_lease ''l1'' sample_grant"
  have id: "lr_lease_id ?rec = ''l1''" "sl_lease_id ?l = ''l1''" "lr_status ?rec = Pending"
    by (simp_all add: new_record_def new_lease_def)
  have "create_reserve sample_create_env sample_grant (\<lambda>_. None) = (Inr (), (\<lambda>_. None)(''l1'' := Some ?rec))"
    using reserve_delivered [of "\<lambda>_. None" ?rec] id by (simp add: create_reserve_def sample_create_env_def)
  moreover obtain m where "create_ready sample_create_env sample_grant ((\<lambda>_. None)(''l1'' := Some ?rec)) = (Inr (), m)"
    using bound_fetch(1) [of "(\<lambda>_. None)(''l1'' := Some ?rec)" "''l1''" ?rec ?l "lease_body ?l" "''/ready''"]
      new_record_matches [of "''l1''" sample_grant] id
    by (simp add: create_ready_def sample_create_env_def registry_mark_ready_def require_no_content_def
        bound_transition_def on_ready_def response_ok_def)
  ultimately obtain log where c: "backend_create sample_create_env sample_grant (\<lambda>_. None) = (Created ?l, log, None, m)"
    by (simp add: backend_create_def create_reserve_def create_ready_def sample_create_env_def Let_def)
  from created_lease_is_ready [OF c] show ?thesis using c id by auto
qed

text \<open>The requests of others, seen from one object.\<close>

lemma meanwhile_cell: "meanwhile os ns lid = foldl cell_step (ns lid) (map snd (filter (\<lambda>x. fst x = lid) os))"
proof (induction os arbitrary: ns)
  case (Cons x os)
  then show ?case by (cases x) (auto simp: meanwhile_def)
qed (simp add: meanwhile_def)

lemma bound_transition_established:
  assumes "lr_status c \<noteq> Pending"
  shows "\<exists>c'. snd (bound_transition c path pid) = Some c' \<and> lr_status c' \<noteq> Pending"
proof -
  have "status_of_resume r \<noteq> Pending" for r by (cases r) (simp_all add: status_of_resume_def)
  then show ?thesis using assms
    by - (rule bound_transition_cases;
      auto simp: op_defs Let_def split: lease_status.splits option.splits process_state.splits)
qed

lemma cell_step_established:
  assumes "lr_status c \<noteq> Pending"
  shows "\<exists>c'. cell_step (Some c) q = Some c' \<and> lr_status c' \<noteq> Pending \<and> lease_identity c' = lease_identity c"
proof -
  obtain meth path body where q: "q = (meth, path, body)" by (cases q)
  have "\<exists>c'. snd (handle_sandbox_lease_registry_request (Some c) meth path body) = Some c' \<and> lr_status c' \<noteq> Pending"
    by (rule handle_cases) (use assms bound_transition_established in auto)
  then show ?thesis using cell_step_identity [of c q] by (auto simp: cell_step_def q)
qed

lemma established_run:
  assumes "lr_status c \<noteq> Pending"
  shows "\<exists>c'. foldl cell_step (Some c) qs = Some c' \<and> lr_status c' \<noteq> Pending \<and> lease_identity c' = lease_identity c"
  using assms
proof (induction qs arbitrary: c)
  case (Cons q qs)
  obtain c' where "cell_step (Some c) q = Some c'" "lr_status c' \<noteq> Pending" "lease_identity c' = lease_identity c"
    using cell_step_established [OF Cons.prems] by blast
  with Cons.IH [of c'] show ?case by auto
qed simp

lemma established_meanwhile:
  assumes "ns lid = Some c" and "lr_status c \<noteq> Pending"
  shows "\<exists>c'. meanwhile os ns lid = Some c' \<and> lr_status c' \<noteq> Pending \<and> lease_identity c' = lease_identity c"
  unfolding meanwhile_cell assms(1) by (rule established_run [OF assms(2)])

lemma identity_matches: "lease_identity c = lease_identity d \<Longrightarrow> record_matches_lease c l = record_matches_lease d l"
  by (simp add: lease_identity_def record_matches_lease_def)

lemma identity_provider: "lease_identity c = lease_identity d \<Longrightarrow> lr_provider_id c = lr_provider_id d"
  by (simp add: lease_identity_def)

definition kill_request :: "kill_env \<Rightarrow> sandbox_lease \<Rightarrow> lease_namespace \<Rightarrow> (registry_error + kill_reservation option) \<times> lease_namespace" where
  "kill_request env l ns = registry_request_kill (snd (ke_request env)) (meanwhile (fst (ke_request env)) ns) l"

definition destroy_begin :: "destroy_env \<Rightarrow> sandbox_lease \<Rightarrow> lease_namespace \<Rightarrow> (registry_error + destroy_reservation option) \<times> lease_namespace" where
  "destroy_begin env l ns = registry_begin_destroy (snd (de_begin env)) (meanwhile (fst (de_begin env)) ns) l"

definition destroy_finish :: "destroy_env \<Rightarrow> sandbox_lease \<Rightarrow> lease_namespace \<Rightarrow> (registry_error + unit) \<times> lease_namespace" where
  "destroy_finish env l ns = registry_finish_destroy (snd (de_finish env)) (meanwhile (fst (de_finish env)) ns) l"

lemma backend_destroy_reserved:
  assumes "destroy_begin env l ns = (Inr (Some (Dr_reserved q rc)), ns1)"
  shows "backend_destroy env l ns =
    (case de_destroy env of
       Settled _ \<Rightarrow>
         (if fst (destroy_finish env l ns1) = Inr () then Destroy_done (sl_lease_id l) else Destroy_failed (sl_lease_id l) True,
          [(P_destroy q, True)], snd (destroy_finish env l ns1))
     | Rejected \<Rightarrow>
         (Destroy_failed (sl_lease_id l) True, [(P_destroy q, False)],
          if rc = Fresh then
            snd (registry_abort_destroy (snd (de_abort env)) (meanwhile (fst (de_abort env)) ns1) l)
          else ns1)
     | Timed_out \<Rightarrow> (Destroy_failed (sl_lease_id l) True, [(P_destroy q, False)], ns1))"
  using assms
  by (simp add: backend_destroy_def destroy_begin_def destroy_finish_def Let_def split_beta provider_confirmed_def
      split: outcome.split)

lemma destroy_truth:
  assumes "backend_destroy env l ns = (res, log, ns')" and "\<forall>b. res \<noteq> Destroy_failed (sl_lease_id l) b"
  shows "\<exists>c. ns' (sl_lease_id l) = Some c \<and> record_matches_lease c l \<and> lr_status c = Destroyed \<and>
    (res = Destroy_done (sl_lease_id l) \<and> log = [(P_destroy (lr_provider_id c), True)] \<or>
     res = Destroy_already (sl_lease_id l) \<and> log = [])"
proof -
  let ?lid = "sl_lease_id l"
  obtain r ns1 where r: "destroy_begin env l ns = (r, ns1)" by force
  note unfold = backend_destroy_def destroy_begin_def [symmetric] destroy_finish_def [symmetric] Let_def
    provider_confirmed_def
  obtain res' where res': "r = Inr (Some res')"
    using assms r by (cases r) (auto simp: unfold split: option.splits)
  with r have "registry_begin_destroy (snd (de_begin env)) (meanwhile (fst (de_begin env)) ns) l = (Inr (Some res'), ns1)"
    by (simp add: destroy_begin_def)
  then obtain c where c: "meanwhile (fst (de_begin env)) ns ?lid = Some c" "record_matches_lease c l"
    "res' = Dr_already_destroyed \<Longrightarrow> lr_status c = Destroyed \<and> ns1 = meanwhile (fst (de_begin env)) ns"
    "\<And>q rc. res' = Dr_reserved q rc \<Longrightarrow> lr_status c \<noteq> Destroyed \<and> q = lr_provider_id c \<and>
       (\<exists>c'. ns1 = (meanwhile (fst (de_begin env)) ns)(?lid := Some c') \<and> lr_status c' = Destroying \<and>
         lease_identity c' = lease_identity c \<and> (rc = Unknown \<longleftrightarrow> lr_status c = Destroying))"
    by (rule begin_destroy_ok) blast
  show ?thesis
  proof (cases res')
    case Dr_already_destroyed
    then show ?thesis using assms(1) r res' c by (simp add: unfold)
  next
    case (Dr_reserved q rc)
    obtain c' where c': "ns1 ?lid = Some c'" "lr_status c' = Destroying" "lease_identity c' = lease_identity c"
      and q: "q = lr_provider_id c" using c(4) [OF Dr_reserved] by auto
    obtain f ns2 where f: "destroy_finish env l ns1 = (f, ns2)" by force
    have "destroy_begin env l ns = (Inr (Some (Dr_reserved q rc)), ns1)" using r res' Dr_reserved by simp
    from backend_destroy_reserved [OF this] assms f
    have ok: "f = Inr () \<and> res = Destroy_done ?lid \<and> log = [(P_destroy q, True)] \<and> ns' = ns2"
      by (auto split: outcome.splits if_splits)
    then have "registry_finish_destroy (snd (de_finish env)) (meanwhile (fst (de_finish env)) ns1) l = (Inr (), ns2)"
      using f by (simp add: destroy_finish_def)
    then obtain d where d: "meanwhile (fst (de_finish env)) ns1 ?lid = Some d" "record_matches_lease d l"
      "ns2 = (meanwhile (fst (de_finish env)) ns1)(?lid := Some (d\<lparr>lr_destroy_resume_status := None, lr_process_id := None,
         lr_process_state := None, lr_kill_requested := True, lr_status := Destroyed\<rparr>))"
      by (rule finish_destroy_ok)
    have "lease_identity d = lease_identity c"
      using established_meanwhile [of ns1 ?lid c' "fst (de_finish env)"] c' d(1) by auto
    then have p: "lr_provider_id d = q" using q identity_provider [of d c] by simp
    define d' where "d' = d\<lparr>lr_destroy_resume_status := None, lr_process_id := None, lr_process_state := None,
      lr_kill_requested := True, lr_status := Destroyed\<rparr>"
    have "record_matches_lease d' l" "lr_status d' = Destroyed" "lr_provider_id d' = q"
      using d(2) p by (simp_all add: d'_def record_matches_lease_def)
    moreover have "ns' ?lid = Some d'" using ok d(3) by (simp only: d'_def fun_upd_same)
    ultimately show ?thesis using ok by blast
  qed
qed

text \<open>
  A destroy that reports success is true: when the backend answers that a lease was destroyed,
  the registry holds the lease as destroyed and the provider has confirmed the destruction
  of the sandbox the lease was bound to; when it answers that it already was, the registry holds it
  as destroyed and the provider was not called. Requests of others at the await points do not matter.
\<close>

theorem destroy_reports_truth:
  assumes "backend_destroy env l ns = (res, log, ns')" and "\<forall>b. res \<noteq> Destroy_failed (sl_lease_id l) b"
  shows "\<exists>c. ns' (sl_lease_id l) = Some c \<and> record_matches_lease c l \<and> lr_status c = Destroyed \<and>
    (res = Destroy_done (sl_lease_id l) \<and> log = [(P_destroy (lr_provider_id c), True)] \<or>
     res = Destroy_already (sl_lease_id l) \<and> log = [])"
  by (rule destroy_truth [OF assms])

definition live_record :: lease_record where
  "live_record = sample_record\<lparr>lr_status := Ready\<rparr>"

definition sample_destroy_env :: destroy_env where
  "sample_destroy_env = \<lparr>de_begin = ([], Delivered), de_destroy = Settled (), de_abort = ([], Delivered),
     de_finish = ([], Delivered)\<rparr>"

lemma live_record_matches: "record_matches_lease live_record sample_lease"
  using sample_matches by (simp add: live_record_def record_matches_lease_def)

lemma registry_post_bound:
  assumes "ns lid = Some c" and "record_matches_lease c l" and "rb_lease body = Some l" and "path \<noteq> ''/reserve''"
    and "bound_transition c path (rb_process_id body) = (resp, cell)"
  shows "registry_post Delivered ns lid path body =
    (Inr (if \<not> response_ok resp \<or> resp = No_content then None else Some resp), ns(lid := cell))"
  using bound_fetch(1) [of ns lid c l body path, OF assms(1-4)] assms(5) by (simp add: registry_post_def)

lemma begin_destroy_delivered:
  assumes "ns (sl_lease_id l) = Some c" and "record_matches_lease c l" and "lr_status c \<noteq> Pending"
  shows "\<exists>res ns'. registry_begin_destroy Delivered ns l = (Inr (Some res), ns')"
proof -
  obtain resp cell where b: "on_destroy_begin c = (resp, cell)" by force
  then have "bound_transition c ''/destroy/begin'' (rb_process_id (lease_body l)) = (resp, cell)"
    by (simp add: bound_transition_def)
  from registry_post_bound [of ns "sl_lease_id l", OF assms(1,2) _ _ this] b assms(3)
  show ?thesis
    by (cases "lr_status c") (auto simp: registry_begin_destroy_def on_destroy_begin_def response_ok_def)
qed

lemma finish_destroy_delivered:
  assumes "ns (sl_lease_id l) = Some c" and "record_matches_lease c l" and "lr_status c = Destroying"
  shows "fst (registry_finish_destroy Delivered ns l) = Inr ()"
proof -
  obtain resp cell where b: "on_destroy_finish c = (resp, cell)" by force
  then have "bound_transition c ''/destroy/finish'' (rb_process_id (lease_body l)) = (resp, cell)"
    by (simp add: bound_transition_def)
  from require_no_content_bound [of ns "sl_lease_id l", OF assms(1,2) _ _ this] b assms(3)
  show ?thesis by (auto simp: registry_finish_destroy_def on_destroy_finish_def response_ok_def)
qed

text \<open>
  A destroy can always be completed: from any state of the lease but a reservation that was
  never confirmed (in particular from the destroying state a crash, a timeout or a lost request left
  behind), one destroy by the owner whose requests arrive and whose provider call settles ends with
  the lease destroyed.
\<close>

theorem destroy_retry_completes:
  assumes "ns (sl_lease_id l) = Some c" and "record_matches_lease c l" and "lr_status c \<noteq> Pending"
    and "de_begin env = ([], Delivered)" and "de_destroy env = Settled ()" and "de_finish env = ([], Delivered)"
  shows "\<exists>d log ns'. backend_destroy env l ns \<in>
      {(Destroy_done (sl_lease_id l), log, ns'), (Destroy_already (sl_lease_id l), log, ns')} \<and>
    ns' (sl_lease_id l) = Some d \<and> lr_status d = Destroyed"
proof -
  obtain res1 ns1 where b: "registry_begin_destroy Delivered ns l = (Inr (Some res1), ns1)"
    using begin_destroy_delivered [of ns l c, OF assms(1-3)] by blast
  then obtain c1 where c1: "ns (sl_lease_id l) = Some c1"
    "res1 = Dr_already_destroyed \<Longrightarrow> lr_status c1 = Destroyed \<and> ns1 = ns"
    "\<And>q rc. res1 = Dr_reserved q rc \<Longrightarrow> lr_status c1 \<noteq> Destroyed \<and> q = lr_provider_id c1 \<and>
       (\<exists>c'. ns1 = ns(sl_lease_id l := Some c') \<and> lr_status c' = Destroying \<and> lease_identity c' = lease_identity c1 \<and>
         (rc = Unknown \<longleftrightarrow> lr_status c1 = Destroying))"
    by (rule begin_destroy_ok) blast
  show ?thesis
  proof (cases res1)
    case Dr_already_destroyed
    then show ?thesis using assms(4) b c1(1) c1(2) by (simp add: backend_destroy_def)
  next
    case (Dr_reserved q rc)
    obtain c' where c': "ns1 = ns(sl_lease_id l := Some c')" "lr_status c' = Destroying" "lease_identity c' = lease_identity c1"
      using c1(3) [OF Dr_reserved] by blast
    moreover have "record_matches_lease c' l" using identity_matches [OF c'(3)] c1(1) assms(1,2) by simp
    ultimately have "fst (registry_finish_destroy Delivered ns1 l) = Inr ()"
      by (intro finish_destroy_delivered) simp_all
    then obtain ns2 where f: "registry_finish_destroy Delivered ns1 l = (Inr (), ns2)" by (metis prod.collapse)
    then obtain d where "ns2 (sl_lease_id l) = Some d" "lr_status d = Destroyed"
      by (rule finish_destroy_ok) simp
    then show ?thesis using assms(4-6) b Dr_reserved f by (simp add: backend_destroy_def)
  qed
qed

theorem destroy_retry_completes_witness:
  "\<exists>d log ns'. backend_destroy sample_destroy_env sample_lease
      ((\<lambda>_. None)(''l1'' := Some (live_record\<lparr>lr_destroy_resume_status := Some Resume_ready, lr_status := Destroying\<rparr>))) \<in>
      {(Destroy_done (sl_lease_id sample_lease), log, ns'), (Destroy_already (sl_lease_id sample_lease), log, ns')} \<and>
    ns' (sl_lease_id sample_lease) = Some d \<and> lr_status d = Destroyed"
  by (rule destroy_retry_completes
      [where c = "live_record\<lparr>lr_destroy_resume_status := Some Resume_ready, lr_status := Destroying\<rparr>"])
    (use live_record_matches in \<open>simp_all add: sample_destroy_env_def record_matches_lease_def\<close>, simp add: sample_lease_def)

lemma sample_destroyed:
  "\<exists>log ns'. backend_destroy sample_destroy_env sample_lease ((\<lambda>_. None)(''l1'' := Some live_record)) = (Destroy_done ''l1'', log, ns')"
proof -
  let ?ns = "(\<lambda>_. None)(''l1'' := Some live_record)"
  have id: "sl_lease_id sample_lease = ''l1''" by (simp add: sample_lease_def)
  let ?c' = "live_record\<lparr>lr_destroy_resume_status := Some Resume_ready, lr_status := Destroying\<rparr>"
  have "bound_transition live_record ''/destroy/begin'' (rb_process_id (lease_body sample_lease)) =
      (Destroy_reserved (lr_provider_id live_record) Fresh, Some ?c')"
    by (simp add: bound_transition_def on_destroy_begin_def) (simp add: live_record_def)
  from registry_post_bound [of ?ns "''l1''" live_record sample_lease, OF _ live_record_matches _ _ this]
  have b: "registry_begin_destroy Delivered ?ns sample_lease =
      (Inr (Some (Dr_reserved (lr_provider_id live_record) Fresh)), ?ns(''l1'' := Some ?c'))"
    by (simp add: registry_begin_destroy_def id response_ok_def)
  have "record_matches_lease ?c' sample_lease"
    using live_record_matches by (simp add: record_matches_lease_def)
  then have "fst (registry_finish_destroy Delivered (?ns(''l1'' := Some ?c')) sample_lease) = Inr ()"
    using finish_destroy_delivered [of "?ns(''l1'' := Some ?c')" sample_lease ?c'] by (simp add: id)
  then obtain ns2 where "registry_finish_destroy Delivered (?ns(''l1'' := Some ?c')) sample_lease = (Inr (), ns2)"
    by (metis prod.collapse)
  with b show ?thesis by (simp add: backend_destroy_def sample_destroy_env_def id)
qed

theorem destroy_reports_truth_witness:
  "\<exists>c log ns'. backend_destroy sample_destroy_env sample_lease ((\<lambda>_. None)(''l1'' := Some live_record)) =
     (Destroy_done ''l1'', log, ns') \<and> ns' ''l1'' = Some c \<and> lr_status c = Destroyed"
proof -
  obtain log ns' where d: "backend_destroy sample_destroy_env sample_lease ((\<lambda>_. None)(''l1'' := Some live_record)) =
      (Destroy_done ''l1'', log, ns')" using sample_destroyed by blast
  from destroy_reports_truth [OF d] d show ?thesis by (auto simp: sample_lease_def)
qed

end
