(* ===== verification/Sandbox_Process.thy ===== *)
theory Sandbox_Process
  imports Sandbox_Backend
begin

text \<open>
  Execution of a command in a sandbox (\<open>AsyncEventQueue\<close> and \<open>runProcess\<close> of
  \<open>apps/sandbox-bridge/src/cloudflare-sandbox-backend.ts\<close>): the bounded event queue, the process
  callbacks, the guarded launch, the failure path and the release of the process slot.

  \<open>runProcess\<close> is a sequence of steps on its local variables (the record \<open>run_state\<close>); a step that throws
  ends the sequence, after which the \<open>catch\<close> and \<open>finally\<close> blocks run on the same variables.
  Callbacks of the provider's process and reads of the consumer come at the await points of
  the code, as arbitrary lists.
\<close>

section \<open>The event queue\<close>

definition max_output_queue_bytes :: nat where
  "max_output_queue_bytes = 1048576"

definition max_output_queue_events :: nat where
  "max_output_queue_events = 1024"

record event_queue =
  eq_ended :: bool
  eq_events :: "(execution_event \<times> nat) list"
  eq_queued_bytes :: nat

definition new_queue :: event_queue where
  "new_queue = \<lparr>eq_ended = False, eq_events = [], eq_queued_bytes = 0\<rparr>"

definition is_output :: "execution_event \<Rightarrow> bool" where
  "is_output e \<longleftrightarrow> \<not> terminal_event e"

definition event_size :: "execution_event \<Rightarrow> nat" where
  "event_size e = (case e of Output_event chunk _ _ \<Rightarrow> utf8_length chunk | _ \<Rightarrow> 0)"

definition queue_push :: "event_queue \<Rightarrow> execution_event \<Rightarrow> bool \<times> event_queue" where
  "queue_push q e =
     (if eq_ended q then (False, q)
      else if is_output e \<and> (max_output_queue_events \<le> length (eq_events q) \<or>
          max_output_queue_bytes < eq_queued_bytes q + event_size e) then (False, q)
      else (True, q\<lparr>eq_events := eq_events q @ [(e, event_size e)], eq_queued_bytes := eq_queued_bytes q + event_size e\<rparr>))"

definition queue_close :: "event_queue \<Rightarrow> event_queue" where
  "queue_close q = q\<lparr>eq_ended := True\<rparr>"

text \<open>One turn of the iterator: the next event, or \<open>None\<close> where it waits (or is done).\<close>

definition queue_shift :: "event_queue \<Rightarrow> execution_event option \<times> event_queue" where
  "queue_shift q =
     (case eq_events q of
        [] \<Rightarrow> (None, q)
      | (e, n) # es \<Rightarrow> (Some e, q\<lparr>eq_events := es, eq_queued_bytes := eq_queued_bytes q - n\<rparr>))"

datatype queue_op = Push execution_event | Shift | Close

definition queue_step :: "event_queue \<Rightarrow> queue_op \<Rightarrow> event_queue" where
  "queue_step q p =
     (case p of Push e \<Rightarrow> snd (queue_push q e) | Shift \<Rightarrow> snd (queue_shift q) | Close \<Rightarrow> queue_close q)"

definition queue_inv :: "event_queue \<Rightarrow> bool" where
  "queue_inv q \<longleftrightarrow>
     list_all (\<lambda>(e, n). n = event_size e) (eq_events q) \<and>
     eq_queued_bytes q = sum_list (map (\<lambda>x. event_size (fst x)) (eq_events q)) \<and>
     eq_queued_bytes q \<le> max_output_queue_bytes \<and>
     length (filter (\<lambda>x. is_output (fst x)) (eq_events q)) \<le> max_output_queue_events"

lemma terminal_size: "\<not> is_output e \<Longrightarrow> event_size e = 0"
  by (cases e) (simp_all add: is_output_def terminal_event_def event_size_def)

lemma queue_step_inv: "queue_inv q \<Longrightarrow> queue_inv (queue_step q p)"
proof (cases p)
  case (Push e)
  assume q: "queue_inv q"
  have "length (filter (\<lambda>x. is_output (fst x)) (eq_events q)) \<le> length (eq_events q)" by simp
  then have "length (eq_events q) < max_output_queue_events \<Longrightarrow>
      length (filter (\<lambda>x. is_output (fst x)) (eq_events q)) < max_output_queue_events"
    by (rule le_less_trans)
  with q Push terminal_size [of e] show ?thesis
    by (auto simp: queue_inv_def queue_step_def queue_push_def not_le not_less Suc_le_eq)
next
  case Shift
  assume "queue_inv q"
  with Shift show ?thesis
    by (auto simp: queue_inv_def queue_step_def queue_shift_def split: list.split if_splits)
qed (simp add: queue_inv_def queue_step_def queue_close_def)

interpretation event_queue: invariant_machine queue_step "\<lambda>_. True" queue_inv
  by unfold_locales (rule queue_step_inv)

section \<open>The variables of a run\<close>

datatype run_error = Provider_timeout | Request_rejected | Output_limit | Other_failure

record execute_input =
  xi_argv :: "string list"
  xi_egress :: json
  xi_lease :: sandbox_lease

record run_state =
  rs_ns :: lease_namespace
  rs_log :: provider_log
  rs_queue :: event_queue
  rs_delivered :: "execution_event list"
  rs_sequence :: nat
  rs_stream :: "(run_error + int) option"
  rs_process :: "string option"
  rs_bound :: bool
  rs_start_attempted :: bool
  rs_start_uncertain :: bool
  rs_terminal_confirmed :: bool
  rs_provider :: "(string \<times> string) option"
  rs_clean :: bool
  rs_config_attempted :: bool
  rs_config_confirmed :: bool
  rs_egress :: egress_access
  rs_released :: bool

text \<open>
  \<open>rs_delivered\<close> (what the consumer has read) and \<open>rs_released\<close> (whether \<open>clearProcess\<close> was called) are
  observations of the model; \<open>rs_provider\<close> holds the provider and session ids once reserved, and with
  them the sandbox handle.
\<close>

definition initial_run :: "lease_namespace \<Rightarrow> run_state" where
  "initial_run ns =
     \<lparr>rs_ns = ns, rs_log = [], rs_queue = new_queue, rs_delivered = [], rs_sequence = 0, rs_stream = None,
      rs_process = None, rs_bound = False, rs_start_attempted = False, rs_start_uncertain = False,
      rs_terminal_confirmed = False, rs_provider = None, rs_clean = False, rs_config_attempted = False,
      rs_config_confirmed = False, rs_egress = Deny_all, rs_released = False\<rparr>"

text \<open>What happens at the await points of a run.\<close>

datatype callback = Cb_output output_stream string | Cb_exit "int option" | Cb_error | Cb_consume

record run_env =
  xe_new_id :: string
  xe_begin :: reg_call
  xe_remove1 :: "unit outcome"
  xe_set :: "unit outcome"
  xe_session :: bool
  xe_cb_start :: "callback list"
  xe_start :: "string outcome"
  xe_running :: reg_call
  xe_kill1 :: "unit outcome"
  xe_finish_kill :: reg_call
  xe_cb_run :: "callback list"
  xe_kill2 :: "unit outcome"
  xe_wait :: "unit outcome"
  xe_cb_catch :: "callback list"
  xe_remove2 :: "unit outcome"
  xe_clear :: reg_call
  xe_cb_finally :: "callback list"

section \<open>Callbacks\<close>

definition settle_stream :: "run_error + int \<Rightarrow> run_state \<Rightarrow> run_state" where
  "settle_stream r s = (if rs_stream s = None then s\<lparr>rs_stream := Some r\<rparr> else s)"

definition on_output :: "output_stream \<Rightarrow> string \<Rightarrow> run_state \<Rightarrow> run_state" where
  "on_output stream data s =
     (let (accepted, q) = queue_push (rs_queue s) (Output_event data (rs_sequence s) stream) in
      if accepted then s\<lparr>rs_queue := q, rs_sequence := rs_sequence s + 1\<rparr>
      else settle_stream (Inl Output_limit) s)"

definition on_exit :: "int option \<Rightarrow> run_state \<Rightarrow> run_state" where
  "on_exit code s =
     (case code of None \<Rightarrow> settle_stream (Inl Other_failure) s | Some c \<Rightarrow> settle_stream (Inr c) s)"

definition on_consume :: "run_state \<Rightarrow> run_state" where
  "on_consume s =
     (let (next, q) = queue_shift (rs_queue s) in
      case next of None \<Rightarrow> s | Some e \<Rightarrow> s\<lparr>rs_queue := q, rs_delivered := rs_delivered s @ [e]\<rparr>)"

definition apply_callback :: "run_state \<Rightarrow> callback \<Rightarrow> run_state" where
  "apply_callback s cb =
     (case cb of
        Cb_output stream data \<Rightarrow> on_output stream data s
      | Cb_exit code \<Rightarrow> on_exit code s
      | Cb_error \<Rightarrow> settle_stream (Inl Other_failure) s
      | Cb_consume \<Rightarrow> on_consume s)"

definition callbacks :: "callback list \<Rightarrow> run_state \<Rightarrow> run_state" where
  "callbacks cbs s = foldl apply_callback s cbs"

section \<open>The steps of the try block\<close>

type_synonym run_step = "run_state \<Rightarrow> run_error option \<times> run_state"

definition then_run :: "run_step \<Rightarrow> run_step \<Rightarrow> run_step" where
  "then_run f g s = (case f s of (None, s') \<Rightarrow> g s' | (Some e, s') \<Rightarrow> (Some e, s'))"

definition provider_step :: "provider_call \<Rightarrow> 'a outcome \<Rightarrow> run_step" where
  "provider_step call result s =
     (case result of Settled _ \<Rightarrow> None | Rejected \<Rightarrow> Some Other_failure | Timed_out \<Rightarrow> Some Provider_timeout,
      s\<lparr>rs_log := rs_log s @ [(call, provider_confirmed result)]\<rparr>)"

definition provider_of :: "run_state \<Rightarrow> string" where
  "provider_of s = (case rs_provider s of Some (p, _) \<Rightarrow> p | None \<Rightarrow> [])"

definition session_of :: "run_state \<Rightarrow> string" where
  "session_of s = (case rs_provider s of Some (_, q) \<Rightarrow> q | None \<Rightarrow> [])"

definition xp_reserve :: "run_env \<Rightarrow> execute_input \<Rightarrow> run_step" where
  "xp_reserve env x s =
     (case validate_egress_access (xi_egress x) of
        None \<Rightarrow> (Some Request_rejected, s)
      | Some access \<Rightarrow>
          (let (r, ns) = registry_begin_process (snd (xe_begin env)) (meanwhile (fst (xe_begin env)) (rs_ns s))
                 (xi_lease x) (xe_new_id env);
               s' = s\<lparr>rs_ns := ns, rs_egress := access\<rparr> in
           case r of
             Inl _ \<Rightarrow> (Some Other_failure, s')
           | Inr None \<Rightarrow> (Some Request_rejected, s')
           | Inr (Some rec) \<Rightarrow>
               (None, s'\<lparr>rs_bound := True, rs_provider := Some (lr_provider_id rec, lr_session_id rec)\<rparr>)))"

definition xp_clean_outbound :: "run_env \<Rightarrow> run_step" where
  "xp_clean_outbound env =
     then_run (\<lambda>s. provider_step (P_remove_outbound (provider_of s)) (xe_remove1 env) s)
       (\<lambda>s. (None, s\<lparr>rs_clean := True\<rparr>))"

definition xp_configure :: "run_env \<Rightarrow> execute_input \<Rightarrow> run_step" where
  "xp_configure env x s =
     (case rs_egress s of
        Deny_all \<Rightarrow> (None, s)
      | Tool_gateway_access run_id token \<Rightarrow>
          (let g = sl_access_grant (xi_lease x) in
           if (case ag_owner g of Owner_run r \<Rightarrow> r \<noteq> run_id | Owner_session _ \<Rightarrow> False) then
             (Some Request_rejected, s)
           else
             then_run
               (provider_step
                  (P_set_outbound (provider_of s) (sl_lease_id (xi_lease x)) run_id (ag_tenant_id g) token (ag_user_id g))
                  (xe_set env))
               (\<lambda>s. (None, s\<lparr>rs_config_confirmed := True\<rparr>))
               (s\<lparr>rs_config_attempted := True, rs_clean := False\<rparr>)))"

definition xp_session :: "run_env \<Rightarrow> run_step" where
  "xp_session env s =
     (if xe_session env then None else Some Other_failure,
      s\<lparr>rs_log := rs_log s @ [(P_get_session (provider_of s) (session_of s), xe_session env)]\<rparr>)"

definition xp_start :: "run_env \<Rightarrow> string \<Rightarrow> run_step" where
  "xp_start env command s =
     (let s1 = callbacks (xe_cb_start env) (s\<lparr>rs_start_attempted := True\<rparr>);
          (e, s2) = provider_step
            (P_start (session_of s) command (xe_new_id env) (rs_egress s \<noteq> Deny_all)) (xe_start env) s1 in
      case xe_start env of
        Settled pid \<Rightarrow> (e, s2\<lparr>rs_process := Some pid\<rparr>)
      | Rejected \<Rightarrow> (e, s2)
      | Timed_out \<Rightarrow> (e, s2\<lparr>rs_start_uncertain := True\<rparr>))"

definition xp_check_id :: "run_env \<Rightarrow> run_step" where
  "xp_check_id env s = (if rs_process s \<noteq> Some (xe_new_id env) then Some Other_failure else None, s)"

definition xp_mark_running :: "run_env \<Rightarrow> execute_input \<Rightarrow> run_step" where
  "xp_mark_running env x s =
     (let (r, ns) = registry_mark_process_running (snd (xe_running env)) (meanwhile (fst (xe_running env)) (rs_ns s))
            (xi_lease x) (xe_new_id env);
          s' = s\<lparr>rs_ns := ns\<rparr> in
      case r of
        Inl _ \<Rightarrow> (Some Other_failure, s')
      | Inr kill_requested \<Rightarrow>
          if kill_requested then
            then_run (provider_step (P_kill (provider_of s) (xe_new_id env)) (xe_kill1 env))
              (\<lambda>s. let (f, ns) = registry_finish_kill (snd (xe_finish_kill env))
                         (meanwhile (fst (xe_finish_kill env)) (rs_ns s)) (xi_lease x) in
                (if f = Inr () then None else Some Other_failure, s\<lparr>rs_ns := ns\<rparr>)) s'
          else (None, s'))"

definition push_terminal :: "(nat \<Rightarrow> execution_event) \<Rightarrow> run_state \<Rightarrow> run_state" where
  "push_terminal e s = s\<lparr>rs_queue := snd (queue_push (rs_queue s) (e (rs_sequence s))), rs_sequence := rs_sequence s + 1\<rparr>"

definition xp_await_exit :: "run_env \<Rightarrow> run_step" where
  "xp_await_exit env s =
     (let s1 = callbacks (xe_cb_run env) s in
      case rs_stream s1 of
        None \<Rightarrow> (Some Provider_timeout, s1)
      | Some (Inl e) \<Rightarrow> (Some e, s1)
      | Some (Inr code) \<Rightarrow> (None, push_terminal (Exit_event code) (s1\<lparr>rs_terminal_confirmed := True\<rparr>)))"

definition run_try :: "run_env \<Rightarrow> (string \<Rightarrow> string) \<Rightarrow> execute_input \<Rightarrow> run_step" where
  "run_try env shell_quote x =
     (let command = join_with (CHR '' '') (map shell_quote (xi_argv x)) in
      then_run (xp_reserve env x)
     (then_run (xp_clean_outbound env)
     (then_run (xp_configure env x)
     (then_run (xp_session env)
     (then_run (xp_start env command)
     (then_run (xp_check_id env)
     (then_run (xp_mark_running env x)
       (xp_await_exit env))))))))"

section \<open>Failure, release\<close>

definition kill_in_catch :: "run_env \<Rightarrow> run_state \<Rightarrow> run_state" where
  "kill_in_catch env s =
     (case rs_process s of
        Some pid \<Rightarrow>
          (let (e, s1) = provider_step (P_kill (provider_of s) pid) (xe_kill2 env) s in
           if e \<noteq> None then s1
           else (let (e', s2) = provider_step (P_wait pid) (xe_wait env) s1 in
             if e' \<noteq> None then s2 else s2\<lparr>rs_terminal_confirmed := True\<rparr>))
      | None \<Rightarrow>
          if rs_start_attempted s \<and> rs_provider s \<noteq> None then
            (let (e, s1) = provider_step (P_kill (provider_of s) (xe_new_id env)) (xe_kill2 env) s in
             if e \<noteq> None then s1 else s1\<lparr>rs_terminal_confirmed := True\<rparr>)
          else s)"

definition failure_of :: "run_error \<Rightarrow> nat \<Rightarrow> execution_event" where
  "failure_of e =
     Failed_event (if e = Provider_timeout then Killed_for Hard_timeout else Backend_failure)
       (e \<noteq> Provider_timeout \<and> e \<noteq> Request_rejected \<and> e \<noteq> Output_limit)"

definition run_catch :: "run_env \<Rightarrow> run_error \<Rightarrow> run_state \<Rightarrow> run_state" where
  "run_catch env e s =
     (let s1 = (if rs_start_attempted s then s else s\<lparr>rs_terminal_confirmed := True\<rparr>) in
      push_terminal (failure_of e) (callbacks (xe_cb_catch env) (kill_in_catch env s1)))"

definition remove_in_finally :: "run_env \<Rightarrow> run_state \<Rightarrow> run_state" where
  "remove_in_finally env s =
     (if rs_provider s \<noteq> None \<and> (rs_config_attempted s \<or> \<not> rs_clean s) then
        (let (e, s1) = provider_step (P_remove_outbound (provider_of s)) (xe_remove2 env) s in
         if e \<noteq> None then s1\<lparr>rs_clean := False\<rparr>
         else if \<not> rs_config_attempted s1 \<or> rs_config_confirmed s1 then s1\<lparr>rs_clean := True\<rparr>
         else s1)
      else s)"

definition run_finally :: "run_env \<Rightarrow> execute_input \<Rightarrow> run_state \<Rightarrow> run_state" where
  "run_finally env x s =
     (let s1 = remove_in_finally env s;
          s2 = (if rs_bound s1 \<and> rs_terminal_confirmed s1 \<and> rs_clean s1 \<and> \<not> rs_start_uncertain s1 then
                  s1\<lparr>rs_released := True,
                     rs_ns := snd (registry_clear_process (snd (xe_clear env))
                       (meanwhile (fst (xe_clear env)) (rs_ns s1)) (xi_lease x) (xe_new_id env))\<rparr>
                else s1);
          s3 = callbacks (xe_cb_finally env) s2 in
      s3\<lparr>rs_queue := queue_close (rs_queue s3)\<rparr>)"

definition run_process :: "run_env \<Rightarrow> (string \<Rightarrow> string) \<Rightarrow> execute_input \<Rightarrow> lease_namespace \<Rightarrow> run_state" where
  "run_process env shell_quote x ns =
     (let (e, s) = run_try env shell_quote x (initial_run ns) in
      run_finally env x (case e of None \<Rightarrow> s | Some err \<Rightarrow> run_catch env err s))"

section \<open>Reasoning about steps\<close>

text \<open>A step from \<open>P\<close> ends normally in \<open>Q\<close> or throws in \<open>R\<close>.\<close>

definition run_valid :: "(run_state \<Rightarrow> bool) \<Rightarrow> run_step \<Rightarrow> (run_state \<Rightarrow> bool) \<Rightarrow> (run_state \<Rightarrow> bool) \<Rightarrow> bool" where
  "run_valid P f Q R \<longleftrightarrow> (\<forall>s. P s \<longrightarrow> (case f s of (None, s') \<Rightarrow> Q s' | (Some e, s') \<Rightarrow> R s'))"

lemma run_validI:
  "(\<And>s s'. P s \<Longrightarrow> f s = (None, s') \<Longrightarrow> Q s') \<Longrightarrow> (\<And>s e s'. P s \<Longrightarrow> f s = (Some e, s') \<Longrightarrow> R s') \<Longrightarrow>
   run_valid P f Q R"
  by (auto simp: run_valid_def split: prod.split option.split)

lemma run_validD:
  "run_valid P f Q R \<Longrightarrow> P s \<Longrightarrow> f s = (e, s') \<Longrightarrow> (if e = None then Q s' else R s')"
  by (fastforce simp: run_valid_def split: option.splits)

lemma then_run_valid: "run_valid P f Q R \<Longrightarrow> run_valid Q g T R \<Longrightarrow> run_valid P (then_run f g) T R"
  by (fastforce simp: run_valid_def then_run_def split: option.split prod.splits)

lemma run_valid_weaken:
  "run_valid P f Q R \<Longrightarrow> (\<And>s. P' s \<Longrightarrow> P s) \<Longrightarrow> (\<And>s. Q s \<Longrightarrow> Q' s) \<Longrightarrow> (\<And>s. R s \<Longrightarrow> R' s) \<Longrightarrow> run_valid P' f Q' R'"
  by (fastforce simp: run_valid_def split: option.splits prod.splits)

lemma run_valid_snd: "(\<And>s. P s \<Longrightarrow> Q (snd (f s))) \<Longrightarrow> run_valid P f Q Q"
  by (fastforce simp: run_valid_def split: option.split prod.split)

section \<open>What callbacks leave alone\<close>

definition run_frame :: "run_state \<Rightarrow> run_state \<Rightarrow> bool" where
  "run_frame s s' \<longleftrightarrow>
     rs_ns s' = rs_ns s \<and> rs_log s' = rs_log s \<and> rs_process s' = rs_process s \<and> rs_bound s' = rs_bound s \<and>
     rs_start_attempted s' = rs_start_attempted s \<and> rs_start_uncertain s' = rs_start_uncertain s \<and>
     rs_terminal_confirmed s' = rs_terminal_confirmed s \<and> rs_provider s' = rs_provider s \<and>
     rs_clean s' = rs_clean s \<and> rs_config_attempted s' = rs_config_attempted s \<and>
     rs_config_confirmed s' = rs_config_confirmed s \<and> rs_egress s' = rs_egress s \<and> rs_released s' = rs_released s"

lemma apply_callback_frame: "run_frame s (apply_callback s cb)"
  by (cases cb)
    (simp_all add: run_frame_def apply_callback_def on_output_def on_exit_def on_consume_def settle_stream_def
      Let_def split_beta split: option.split)

lemma callbacks_frame: "run_frame s (callbacks cbs s)"
proof (induction cbs arbitrary: s)
  case (Cons cb cbs)
  then show ?case using apply_callback_frame [of s cb]
    by (fastforce simp: callbacks_def run_frame_def)
qed (simp add: callbacks_def run_frame_def)

lemmas callbacks_keep [simp] = callbacks_frame [unfolded run_frame_def, THEN conjunct1]
  callbacks_frame [unfolded run_frame_def, THEN conjunct2, THEN conjunct1]

lemma callbacks_keep_more [simp]:
  "rs_process (callbacks cbs s) = rs_process s" "rs_bound (callbacks cbs s) = rs_bound s"
  "rs_start_attempted (callbacks cbs s) = rs_start_attempted s"
  "rs_start_uncertain (callbacks cbs s) = rs_start_uncertain s"
  "rs_terminal_confirmed (callbacks cbs s) = rs_terminal_confirmed s"
  "rs_provider (callbacks cbs s) = rs_provider s" "rs_clean (callbacks cbs s) = rs_clean s"
  "rs_config_attempted (callbacks cbs s) = rs_config_attempted s"
  "rs_config_confirmed (callbacks cbs s) = rs_config_confirmed s" "rs_egress (callbacks cbs s) = rs_egress s"
  "rs_released (callbacks cbs s) = rs_released s"
  using callbacks_frame [of s cbs] by (simp_all add: run_frame_def)

section \<open>The event stream\<close>

definition run_events :: "run_state \<Rightarrow> execution_event list" where
  "run_events s = rs_delivered s @ map fst (eq_events (rs_queue s))"

text \<open>The events so far are numbered in order, \<open>k\<close> of them are terminal, and the queue is open and within bounds.\<close>

definition stream_inv :: "nat \<Rightarrow> run_state \<Rightarrow> bool" where
  "stream_inv k s \<longleftrightarrow>
     map ee_sequence (run_events s) = [0..<rs_sequence s] \<and>
     length (filter terminal_event (run_events s)) = k \<and> \<not> eq_ended (rs_queue s) \<and> queue_inv (rs_queue s)"

lemma queue_push_inv: "queue_inv q \<Longrightarrow> queue_inv (snd (queue_push q e))"
  using queue_step_inv [of q "Push e"] by (simp add: queue_step_def)

lemma queue_shift_inv: "queue_inv q \<Longrightarrow> queue_inv (snd (queue_shift q))"
  using queue_step_inv [of q Shift] by (simp add: queue_step_def)

lemma apply_callback_stream:
  assumes "stream_inv k s"
  shows "stream_inv k (apply_callback s cb)"
proof (cases cb)
  case (Cb_output stream data)
  then show ?thesis using assms queue_push_inv [of "rs_queue s" "Output_event data (rs_sequence s) stream"]
    by (auto simp: apply_callback_def on_output_def stream_inv_def run_events_def queue_push_def settle_stream_def
        terminal_event_def Let_def)
next
  case (Cb_exit code)
  then show ?thesis using assms
    by (simp add: apply_callback_def on_exit_def settle_stream_def stream_inv_def run_events_def split: option.split)
next
  case Cb_error
  then show ?thesis using assms
    by (simp add: apply_callback_def settle_stream_def stream_inv_def run_events_def)
next
  case Cb_consume
  then show ?thesis using assms queue_shift_inv [of "rs_queue s"]
    by (auto simp: apply_callback_def on_consume_def stream_inv_def run_events_def queue_shift_def Let_def
        split: list.split)
qed

lemma callbacks_stream: "stream_inv k s \<Longrightarrow> stream_inv k (callbacks cbs s)"
  unfolding callbacks_def by (induction cbs arbitrary: s) (simp_all add: apply_callback_stream)

lemma push_terminal_stream:
  assumes "stream_inv k s" and "\<And>n. terminal_event (e n)" and "\<And>n. ee_sequence (e n) = n"
  shows "stream_inv (Suc k) (push_terminal e s)"
  using assms queue_push_inv [of "rs_queue s" "e (rs_sequence s)"]
  by (simp add: stream_inv_def run_events_def push_terminal_def queue_push_def is_output_def)

lemma stream_inv_update [simp]:
  "stream_inv k (s\<lparr>rs_ns := a\<rparr>) = stream_inv k s" "stream_inv k (s\<lparr>rs_log := b\<rparr>) = stream_inv k s"
  "stream_inv k (s\<lparr>rs_process := c\<rparr>) = stream_inv k s" "stream_inv k (s\<lparr>rs_bound := d\<rparr>) = stream_inv k s"
  "stream_inv k (s\<lparr>rs_start_attempted := d\<rparr>) = stream_inv k s" "stream_inv k (s\<lparr>rs_start_uncertain := d\<rparr>) = stream_inv k s"
  "stream_inv k (s\<lparr>rs_terminal_confirmed := d\<rparr>) = stream_inv k s" "stream_inv k (s\<lparr>rs_provider := e\<rparr>) = stream_inv k s"
  "stream_inv k (s\<lparr>rs_clean := d\<rparr>) = stream_inv k s" "stream_inv k (s\<lparr>rs_config_attempted := d\<rparr>) = stream_inv k s"
  "stream_inv k (s\<lparr>rs_config_confirmed := d\<rparr>) = stream_inv k s" "stream_inv k (s\<lparr>rs_egress := f\<rparr>) = stream_inv k s"
  "stream_inv k (s\<lparr>rs_released := d\<rparr>) = stream_inv k s"
  by (simp_all add: stream_inv_def run_events_def)

lemma provider_step_stream: "run_valid (stream_inv k) (provider_step call r) (stream_inv k) (stream_inv k)"
  by (rule run_validI) (auto simp: provider_step_def split: outcome.splits)

lemma provider_step_snd [simp]: "stream_inv k (snd (provider_step call r s)) = stream_inv k s"
  by (simp add: provider_step_def)

named_theorems step_stream "the event stream under the steps of the try block"

lemma reserve_stream [step_stream]: "run_valid (stream_inv k) (xp_reserve env x) (stream_inv k) (stream_inv k)"
  by (rule run_validI; auto simp: xp_reserve_def Let_def split: option.splits prod.splits sum.splits)

lemma clean_stream [step_stream]: "run_valid (stream_inv k) (xp_clean_outbound env) (stream_inv k) (stream_inv k)"
  by (rule run_validI; auto simp: xp_clean_outbound_def then_run_def provider_step_def split: outcome.splits)

lemma configure_stream [step_stream]: "run_valid (stream_inv k) (xp_configure env x) (stream_inv k) (stream_inv k)"
  by (rule run_validI; auto simp: xp_configure_def then_run_def provider_step_def Let_def
      split: outcome.splits egress_access.splits if_splits)

lemma session_stream [step_stream]: "run_valid (stream_inv k) (xp_session env) (stream_inv k) (stream_inv k)"
  by (rule run_validI; auto simp: xp_session_def split: if_splits)

lemma start_stream [step_stream]: "run_valid (stream_inv k) (xp_start env cmd) (stream_inv k) (stream_inv k)"
  by (rule run_validI; auto simp: xp_start_def provider_step_def Let_def callbacks_stream split: outcome.splits)

lemma check_stream [step_stream]: "run_valid (stream_inv k) (xp_check_id env) (stream_inv k) (stream_inv k)"
  by (rule run_validI; auto simp: xp_check_id_def split: if_splits)

lemma running_stream [step_stream]: "run_valid (stream_inv k) (xp_mark_running env x) (stream_inv k) (stream_inv k)"
  by (rule run_validI; auto simp: xp_mark_running_def then_run_def provider_step_def Let_def
      split: outcome.splits prod.splits sum.splits if_splits)

lemma await_stream: "run_valid (stream_inv 0) (xp_await_exit env) (stream_inv (Suc 0)) (stream_inv 0)"
proof (rule run_validI)
  fix s s' assume "stream_inv 0 s" "xp_await_exit env s = (None, s')"
  moreover have "stream_inv 0 (callbacks (xe_cb_run env) s)" using calculation(1) by (rule callbacks_stream)
  ultimately show "stream_inv (Suc 0) s'"
    by (auto simp: xp_await_exit_def Let_def terminal_event_def intro!: push_terminal_stream
        split: option.splits sum.splits)
next
  fix s e s' assume "stream_inv 0 s" "xp_await_exit env s = (Some e, s')"
  then show "stream_inv 0 s'"
    by (auto simp: xp_await_exit_def Let_def callbacks_stream split: option.splits sum.splits)
qed

lemma run_try_stream: "run_valid (stream_inv 0) (run_try env quote x) (stream_inv (Suc 0)) (stream_inv 0)"
  unfolding run_try_def Let_def by (rule then_run_valid step_stream await_stream)+

lemma kill_in_catch_stream: "stream_inv k s \<Longrightarrow> stream_inv k (kill_in_catch env s)"
  by (auto simp: kill_in_catch_def Let_def split_beta split: option.split)

lemma run_catch_stream: "stream_inv 0 s \<Longrightarrow> stream_inv (Suc 0) (run_catch env e s)"
  unfolding run_catch_def Let_def
  by (rule push_terminal_stream)
    (simp_all add: callbacks_stream kill_in_catch_stream failure_of_def terminal_event_def)

lemma remove_in_finally_stream: "stream_inv k s \<Longrightarrow> stream_inv k (remove_in_finally env s)"
  by (simp add: remove_in_finally_def Let_def split_beta)

lemma initial_run_stream: "stream_inv 0 (initial_run ns)"
  by (simp add: stream_inv_def initial_run_def run_events_def new_queue_def queue_inv_def)

text \<open>The state before the queue is closed.\<close>

definition run_unclosed :: "run_env \<Rightarrow> (string \<Rightarrow> string) \<Rightarrow> execute_input \<Rightarrow> lease_namespace \<Rightarrow> run_state" where
  "run_unclosed env quote x ns =
     (let (e, s) = run_try env quote x (initial_run ns) in
      case e of None \<Rightarrow> s | Some err \<Rightarrow> run_catch env err s)"

lemma run_process_unclosed: "run_process env quote x ns = run_finally env x (run_unclosed env quote x ns)"
  by (simp add: run_process_def run_unclosed_def split_beta Let_def)

lemma run_unclosed_stream: "stream_inv (Suc 0) (run_unclosed env quote x ns)"
proof -
  obtain e s where t: "run_try env quote x (initial_run ns) = (e, s)" by force
  have "if e = None then stream_inv (Suc 0) s else stream_inv 0 s"
    by (rule run_validD [OF run_try_stream initial_run_stream t])
  then show ?thesis using t by (auto simp: run_unclosed_def run_catch_stream split: option.splits)
qed

text \<open>
  C7: Every execution, whatever the provider, the registry, the callbacks and the consumer do, ends with
  a closed event queue over which the events accepted for the consumer are numbered 0, 1, 2, ... without
  gap or repetition, exactly one of them is terminal (an exit or a failure), and the
  output still queued is within 1024 events and 1048576 bytes.
\<close>

theorem execution_stream_well_formed:
  "let s = run_process env quote x ns; es = run_events s in
     eq_ended (rs_queue s) \<and> map ee_sequence es = [0..<length es] \<and>
     length (filter terminal_event es) = 1 \<and>
     length (filter (\<lambda>e. \<not> terminal_event (fst e)) (eq_events (rs_queue s))) \<le> max_output_queue_events \<and>
     sum_list (map (\<lambda>e. event_size (fst e)) (eq_events (rs_queue s))) \<le> max_output_queue_bytes"
proof -
  let ?s = "run_unclosed env quote x ns"
  obtain s3 where s3: "stream_inv (Suc 0) s3" "run_process env quote x ns = s3\<lparr>rs_queue := queue_close (rs_queue s3)\<rparr>"
  proof -
    have "stream_inv (Suc 0) (remove_in_finally env ?s)" by (intro remove_in_finally_stream run_unclosed_stream)
    then show thesis
      by (intro that) (auto simp: run_process_unclosed run_finally_def Let_def intro!: callbacks_stream)
  qed
  then have "map ee_sequence (run_events s3) = [0..<rs_sequence s3]" by (simp add: stream_inv_def)
  moreover from arg_cong [OF this, of length] have "rs_sequence s3 = length (run_events s3)" by simp
  ultimately show ?thesis using s3
    by (simp add: Let_def stream_inv_def queue_inv_def run_events_def queue_close_def is_output_def)
qed

section \<open>The guarded launch\<close>

definition is_start :: "provider_call \<times> bool \<Rightarrow> bool" where
  "is_start c \<longleftrightarrow> (case fst c of P_start _ _ _ _ \<Rightarrow> True | _ \<Rightarrow> False)"

definition owner_allows :: "execute_input \<Rightarrow> egress_access \<Rightarrow> bool" where
  "owner_allows x a \<longleftrightarrow>
     (case (a, ag_owner (sl_access_grant (xi_lease x))) of
        (Tool_gateway_access run_id _, Owner_run r) \<Rightarrow> r = run_id
      | _ \<Rightarrow> True)"

definition gateway_binding :: "execute_input \<Rightarrow> egress_access \<Rightarrow> string \<Rightarrow> provider_log" where
  "gateway_binding x a p =
     (case a of
        Deny_all \<Rightarrow> []
      | Tool_gateway_access run_id token \<Rightarrow>
          [(P_set_outbound p (sl_lease_id (xi_lease x)) run_id (ag_tenant_id (sl_access_grant (xi_lease x))) token
              (ag_user_id (sl_access_grant (xi_lease x))), True)])"

text \<open>The reservation a run obtained, with the access it asked for.\<close>

definition run_reserved :: "run_env \<Rightarrow> execute_input \<Rightarrow> lease_namespace \<Rightarrow> egress_access \<Rightarrow> lease_record \<Rightarrow> bool" where
  "run_reserved env x ns a rec \<longleftrightarrow>
     validate_egress_access (xi_egress x) = Some a \<and>
     (\<exists>ns'. registry_begin_process (snd (xe_begin env)) (meanwhile (fst (xe_begin env)) ns) (xi_lease x) (xe_new_id env)
        = (Inr (Some rec), ns'))"

definition reserved_with :: "run_env \<Rightarrow> execute_input \<Rightarrow> lease_namespace \<Rightarrow> (egress_access \<Rightarrow> lease_record \<Rightarrow> provider_log) \<Rightarrow> run_state \<Rightarrow> bool" where
  "reserved_with env x ns log s \<longleftrightarrow>
     (\<exists>a rec. run_reserved env x ns a rec \<and> rs_egress s = a \<and>
        rs_provider s = Some (lr_provider_id rec, lr_session_id rec) \<and> rs_log s = log a rec)"

definition unlaunched :: "run_state \<Rightarrow> bool" where
  "unlaunched s \<longleftrightarrow> filter is_start (rs_log s) = []"

definition launched :: "run_env \<Rightarrow> string \<Rightarrow> execute_input \<Rightarrow> lease_namespace \<Rightarrow> run_state \<Rightarrow> bool" where
  "launched env command x ns s \<longleftrightarrow>
     (\<exists>a rec b rest. run_reserved env x ns a rec \<and> owner_allows x a \<and>
        rs_log s = (P_remove_outbound (lr_provider_id rec), True) # gateway_binding x a (lr_provider_id rec) @
          (P_get_session (lr_provider_id rec) (lr_session_id rec), True) #
          (P_start (lr_session_id rec) command (xe_new_id env) (a \<noteq> Deny_all), b) # rest \<and>
        filter is_start rest = [])"

definition launch_ok :: "run_env \<Rightarrow> string \<Rightarrow> execute_input \<Rightarrow> lease_namespace \<Rightarrow> run_state \<Rightarrow> bool" where
  "launch_ok env command x ns s \<longleftrightarrow> unlaunched s \<or> launched env command x ns s"

lemma launched_append:
  "launched env command x ns s \<Longrightarrow> rs_log s' = rs_log s @ l \<Longrightarrow> filter is_start l = [] \<Longrightarrow> launched env command x ns s'"
  by (fastforce simp: launched_def)

lemma launch_ok_append:
  "launch_ok env command x ns s \<Longrightarrow> rs_log s' = rs_log s @ l \<Longrightarrow> filter is_start l = [] \<Longrightarrow> launch_ok env command x ns s'"
  by (auto simp: launch_ok_def unlaunched_def intro: launched_append)

lemma provider_of_Some [simp]: "rs_provider s = Some (p, q) \<Longrightarrow> provider_of s = p \<and> session_of s = q"
  by (simp add: provider_of_def session_of_def)

lemma reserve_launch:
  "run_valid (\<lambda>s. s = initial_run ns) (xp_reserve env x) (reserved_with env x ns (\<lambda>a rec. [])) unlaunched"
  by (rule run_validI; auto simp: xp_reserve_def Let_def initial_run_def reserved_with_def run_reserved_def unlaunched_def
      split: option.splits prod.splits sum.splits)

lemma clean_launch:
  "run_valid (reserved_with env x ns (\<lambda>a rec. [])) (xp_clean_outbound env)
     (reserved_with env x ns (\<lambda>a rec. [(P_remove_outbound (lr_provider_id rec), True)])) unlaunched"
  by (rule run_validI; auto simp: xp_clean_outbound_def then_run_def provider_step_def reserved_with_def unlaunched_def
      is_start_def provider_confirmed_def split: outcome.splits)

lemma configure_launch:
  "run_valid (reserved_with env x ns (\<lambda>a rec. [(P_remove_outbound (lr_provider_id rec), True)])) (xp_configure env x)
     (\<lambda>s. owner_allows x (rs_egress s) \<and> reserved_with env x ns
        (\<lambda>a rec. (P_remove_outbound (lr_provider_id rec), True) # gateway_binding x a (lr_provider_id rec)) s) unlaunched"
  by (rule run_validI; auto simp: xp_configure_def then_run_def provider_step_def reserved_with_def unlaunched_def
      is_start_def provider_confirmed_def Let_def owner_allows_def gateway_binding_def
      split: outcome.splits egress_access.splits sandbox_ownership.splits if_splits)

lemma gateway_no_start [simp]: "filter is_start (gateway_binding x a p) = []"
  by (simp add: gateway_binding_def is_start_def split: egress_access.split)

lemma session_launch:
  "run_valid (\<lambda>s. owner_allows x (rs_egress s) \<and> reserved_with env x ns
        (\<lambda>a rec. (P_remove_outbound (lr_provider_id rec), True) # gateway_binding x a (lr_provider_id rec)) s)
     (xp_session env)
     (\<lambda>s. owner_allows x (rs_egress s) \<and> reserved_with env x ns
        (\<lambda>a rec. (P_remove_outbound (lr_provider_id rec), True) # gateway_binding x a (lr_provider_id rec) @
           [(P_get_session (lr_provider_id rec) (lr_session_id rec), True)]) s) unlaunched"
  by (rule run_validI; auto simp: xp_session_def reserved_with_def unlaunched_def is_start_def split: if_splits)

lemma xp_start_log:
  "rs_log (snd (xp_start env command s)) =
     rs_log s @ [(P_start (session_of s) command (xe_new_id env) (rs_egress s \<noteq> Deny_all), provider_confirmed (xe_start env))]"
  by (auto simp: xp_start_def Let_def provider_step_def session_of_def split: outcome.splits)

lemma start_launch:
  "run_valid (\<lambda>s. owner_allows x (rs_egress s) \<and> reserved_with env x ns
        (\<lambda>a rec. (P_remove_outbound (lr_provider_id rec), True) # gateway_binding x a (lr_provider_id rec) @
           [(P_get_session (lr_provider_id rec) (lr_session_id rec), True)]) s)
     (xp_start env command) (launched env command x ns) (launched env command x ns)"
  (is "run_valid ?P _ _ _")
proof -
  have "launched env command x ns (snd (xp_start env command s))" if "?P s" for s
  proof -
    obtain a rec where r: "run_reserved env x ns a rec" "rs_egress s = a" "owner_allows x a"
      "rs_provider s = Some (lr_provider_id rec, lr_session_id rec)"
      "rs_log s = (P_remove_outbound (lr_provider_id rec), True) # gateway_binding x a (lr_provider_id rec) @
           [(P_get_session (lr_provider_id rec) (lr_session_id rec), True)]"
      using \<open>?P s\<close> by (auto simp: reserved_with_def)
    show ?thesis
      unfolding launched_def
      by (intro exI [of _ a] exI [of _ rec] exI [of _ "provider_confirmed (xe_start env)"] exI [of _ "[]"])
        (use r in \<open>simp add: xp_start_log\<close>)
  qed
  then show ?thesis by (rule run_valid_snd)
qed

lemma check_launch:
  "run_valid (launched env command x ns) (xp_check_id env) (launched env command x ns) (launched env command x ns)"
  by (rule run_validI; auto simp: xp_check_id_def split: if_splits)

lemma running_launch:
  "run_valid (launched env command x ns) (xp_mark_running env x) (launched env command x ns) (launched env command x ns)"
proof -
  have "\<exists>l. rs_log (snd (xp_mark_running env x s)) = rs_log s @ l \<and> filter is_start l = []" for s
    by (auto simp: xp_mark_running_def then_run_def provider_step_def Let_def split_beta is_start_def
        split: outcome.split sum.split)
  then show ?thesis by (intro run_valid_snd) (metis launched_append)
qed

lemma await_launch:
  "run_valid (launched env command x ns) (xp_await_exit env) (launched env command x ns) (launched env command x ns)"
proof -
  have "rs_log (snd (xp_await_exit env s)) = rs_log s @ []" for s
    by (auto simp: xp_await_exit_def Let_def push_terminal_def split: option.split sum.split)
  then show ?thesis by (intro run_valid_snd) (rule launched_append [where l = "[]"], simp_all)
qed

lemma launch_weaken:
  "unlaunched s \<Longrightarrow> launch_ok env command x ns s" "launched env command x ns s \<Longrightarrow> launch_ok env command x ns s"
  by (simp_all add: launch_ok_def)

lemma run_try_launch:
  "run_valid (\<lambda>s. s = initial_run ns) (run_try env quote x)
     (launch_ok env (join_with (CHR '' '') (map quote (xi_argv x))) x ns)
     (launch_ok env (join_with (CHR '' '') (map quote (xi_argv x))) x ns)"
proof -
  let ?c = "join_with (CHR '' '') (map quote (xi_argv x))"
  have late: "run_valid P f Q (launch_ok env ?c x ns)" if "run_valid P f Q (launched env ?c x ns)" for P f Q
    using that by (rule run_valid_weaken) (auto intro: launch_weaken)
  have early: "run_valid P f Q (launch_ok env ?c x ns)" if "run_valid P f Q unlaunched" for P f Q
    using that by (rule run_valid_weaken) (auto intro: launch_weaken)
  have "run_valid (launched env ?c x ns) (xp_await_exit env) (launch_ok env ?c x ns) (launch_ok env ?c x ns)"
    using await_launch by (rule run_valid_weaken) (auto intro: launch_weaken)
  then show ?thesis
    unfolding run_try_def Let_def
    by (intro then_run_valid [OF early [OF reserve_launch]] then_run_valid [OF early [OF clean_launch]]
        then_run_valid [OF early [OF configure_launch]] then_run_valid [OF early [OF session_launch]]
        then_run_valid [OF late [OF start_launch]] then_run_valid [OF late [OF check_launch]]
        then_run_valid [OF late [OF running_launch]])
qed

lemma kill_in_catch_log: "\<exists>l. rs_log (kill_in_catch env s) = rs_log s @ l \<and> filter is_start l = []"
  by (auto simp: kill_in_catch_def provider_step_def Let_def is_start_def split: option.split)

lemma run_catch_log: "\<exists>l. rs_log (run_catch env e s) = rs_log s @ l \<and> filter is_start l = []"
proof -
  have "rs_log (push_terminal f s) = rs_log s" for f s by (simp add: push_terminal_def)
  then show ?thesis
    using kill_in_catch_log [of env "if rs_start_attempted s then s else s\<lparr>rs_terminal_confirmed := True\<rparr>"]
    by (auto simp: run_catch_def Let_def split: if_splits)
qed

lemma run_finally_log: "\<exists>l. rs_log (run_finally env x s) = rs_log s @ l \<and> filter is_start l = []"
proof -
  have "\<exists>l. rs_log (remove_in_finally env s) = rs_log s @ l \<and> filter is_start l = []"
    by (auto simp: remove_in_finally_def provider_step_def Let_def is_start_def)
  then show ?thesis by (simp add: run_finally_def Let_def)
qed

lemma run_process_launch:
  "launch_ok env (join_with (CHR '' '') (map quote (xi_argv x))) x ns (run_process env quote x ns)"
proof -
  let ?ok = "launch_ok env (join_with (CHR '' '') (map quote (xi_argv x))) x ns"
  obtain e s where t: "run_try env quote x (initial_run ns) = (e, s)" by force
  have "?ok s" using run_validD [OF run_try_launch refl t] by (simp split: if_splits)
  moreover have "?ok s \<Longrightarrow> ?ok (run_catch env err s)" for err
    using run_catch_log [of env err s] launch_ok_append by metis
  ultimately have "?ok (run_unclosed env quote x ns)" by (simp add: run_unclosed_def t split: option.split)
  then show ?thesis
    using run_finally_log [of env x "run_unclosed env quote x ns"] launch_ok_append
    unfolding run_process_unclosed by metis
qed

text \<open>
  C5: A process is started at most once per execution, and only behind its guards: the egress access was
  valid, the registry had reserved the process slot of this very lease, the provider had confirmed
  that the outbound route was removed, with gateway access it had then confirmed the route bound to the lease's tenant, user
  and run (a run-owned lease only for its own run), without it no route was set, and
  the session was fetched: whatever the outcomes, callbacks and requests of others.
\<close>

theorem launch_is_guarded:
  assumes "(P_start session command pid gateway, b) \<in> set (rs_log (run_process env quote x ns))"
  shows "\<exists>a rec rest. run_reserved env x ns a rec \<and> owner_allows x a \<and> gateway = (a \<noteq> Deny_all) \<and>
    pid = xe_new_id env \<and> command = join_with (CHR '' '') (map quote (xi_argv x)) \<and>
    rs_log (run_process env quote x ns) =
      (P_remove_outbound (lr_provider_id rec), True) # gateway_binding x a (lr_provider_id rec) @
        [(P_get_session (lr_provider_id rec) session, True), (P_start session command pid gateway, b)] @ rest \<and>
    filter is_start rest = []"
proof -
  let ?s = "run_process env quote x ns" let ?c = "join_with (CHR '' '') (map quote (xi_argv x))"
  have start: "(P_start session command pid gateway, b) \<in> set (filter is_start (rs_log ?s))"
    using assms by (simp add: is_start_def)
  then have "\<not> unlaunched ?s" by (metis unlaunched_def empty_iff list.set(1))
  then have "launched env ?c x ns ?s" using run_process_launch [of env quote x ns] by (simp add: launch_ok_def)
  then obtain a rec b' rest where r: "run_reserved env x ns a rec" "owner_allows x a" "filter is_start rest = []"
    "rs_log ?s = (P_remove_outbound (lr_provider_id rec), True) # gateway_binding x a (lr_provider_id rec) @
          (P_get_session (lr_provider_id rec) (lr_session_id rec), True) #
          (P_start (lr_session_id rec) ?c (xe_new_id env) (a \<noteq> Deny_all), b') # rest"
    unfolding launched_def by blast
  then have "filter is_start (rs_log ?s) = [(P_start (lr_session_id rec) ?c (xe_new_id env) (a \<noteq> Deny_all), b')]"
    by (simp add: is_start_def)
  with start have "session = lr_session_id rec \<and> command = ?c \<and> pid = xe_new_id env \<and> gateway = (a \<noteq> Deny_all) \<and> b = b'"
    by simp
  with r show ?thesis by (intro exI [of _ a] exI [of _ rec] exI [of _ rest]) simp
qed

section \<open>The release of the process slot\<close>

text \<open>After the last route that was set there is a confirmed removal of the route.\<close>

definition outbound_clean :: "provider_log \<Rightarrow> bool" where
  "outbound_clean log \<longleftrightarrow>
     (\<exists>l1 p l2. log = l1 @ (P_remove_outbound p, True) # l2 \<and>
        list_all (\<lambda>c. case fst c of P_set_outbound _ _ _ _ _ _ \<Rightarrow> False | _ \<Rightarrow> True) l2)"

text \<open>The process never began to start, or its end was observed: an exit, or a confirmed kill.\<close>

definition process_ended :: "string \<Rightarrow> run_state \<Rightarrow> bool" where
  "process_ended pid s \<longleftrightarrow>
     filter is_start (rs_log s) = [] \<or> (\<exists>c n. Exit_event c n \<in> set (run_events s)) \<or>
     (\<exists>q. (P_wait q, True) \<in> set (rs_log s)) \<or> (\<exists>p. (P_kill p pid, True) \<in> set (rs_log s))"

lemma outbound_clean_append:
  "outbound_clean log \<Longrightarrow> list_all (\<lambda>c. case fst c of P_set_outbound _ _ _ _ _ _ \<Rightarrow> False | _ \<Rightarrow> True) l \<Longrightarrow> outbound_clean (log @ l)"
  by (fastforce simp: outbound_clean_def)

lemma outbound_clean_removed: "outbound_clean (log @ [(P_remove_outbound p, True)])"
  by (fastforce simp: outbound_clean_def)

definition clean_inv :: "run_state \<Rightarrow> bool" where
  "clean_inv s \<longleftrightarrow> (rs_clean s \<longrightarrow> outbound_clean (rs_log s))"

definition started_inv :: "run_state \<Rightarrow> bool" where
  "started_inv s \<longleftrightarrow> (\<not> rs_start_attempted s \<longrightarrow> filter is_start (rs_log s) = []) \<and> \<not> rs_terminal_confirmed s \<and> \<not> rs_released s"

named_theorems step_clean "the outbound route under the steps of the try block"

lemma reserve_clean [step_clean]: "run_valid clean_inv (xp_reserve env x) clean_inv clean_inv"
  by (rule run_validI; auto simp: clean_inv_def xp_reserve_def Let_def split: option.splits prod.splits sum.splits)

lemma clean_clean [step_clean]: "run_valid clean_inv (xp_clean_outbound env) clean_inv clean_inv"
  by (rule run_validI; auto simp: clean_inv_def xp_clean_outbound_def then_run_def provider_step_def provider_confirmed_def
      outbound_clean_removed intro: outbound_clean_append split: outcome.splits)

lemma configure_clean [step_clean]: "run_valid clean_inv (xp_configure env x) clean_inv clean_inv"
  by (rule run_validI; auto simp: clean_inv_def xp_configure_def then_run_def provider_step_def Let_def
      split: outcome.splits egress_access.splits if_splits)

lemma session_clean [step_clean]: "run_valid clean_inv (xp_session env) clean_inv clean_inv"
  by (rule run_validI; auto simp: clean_inv_def xp_session_def intro: outbound_clean_append split: if_splits)

lemma start_clean [step_clean]: "run_valid clean_inv (xp_start env cmd) clean_inv clean_inv"
  by (rule run_valid_snd) (auto simp: clean_inv_def xp_start_def Let_def provider_step_def intro: outbound_clean_append split: outcome.splits)

lemma check_clean [step_clean]: "run_valid clean_inv (xp_check_id env) clean_inv clean_inv"
  by (rule run_valid_snd) (simp add: xp_check_id_def)

lemma running_clean [step_clean]: "run_valid clean_inv (xp_mark_running env x) clean_inv clean_inv"
  by (rule run_valid_snd) (auto simp: clean_inv_def xp_mark_running_def then_run_def provider_step_def Let_def split_beta
      intro: outbound_clean_append split: outcome.split sum.split)

lemma await_clean [step_clean]: "run_valid clean_inv (xp_await_exit env) clean_inv clean_inv"
  by (rule run_valid_snd) (auto simp: clean_inv_def xp_await_exit_def push_terminal_def Let_def split: option.split sum.split)

lemma run_try_clean: "run_valid clean_inv (run_try env quote x) clean_inv clean_inv"
  unfolding run_try_def Let_def by (rule then_run_valid step_clean)+

lemma kill_in_catch_clean: "clean_inv s \<Longrightarrow> clean_inv (kill_in_catch env s)"
  by (auto simp: clean_inv_def kill_in_catch_def provider_step_def Let_def intro: outbound_clean_append split: option.split)

lemma run_catch_clean: "clean_inv s \<Longrightarrow> clean_inv (run_catch env e s)"
  using kill_in_catch_clean [of "if rs_start_attempted s then s else s\<lparr>rs_terminal_confirmed := True\<rparr>" env]
  by (auto simp: run_catch_def push_terminal_def clean_inv_def Let_def split: if_splits)

lemma remove_in_finally_clean: "clean_inv s \<Longrightarrow> clean_inv (remove_in_finally env s)"
  by (auto simp: clean_inv_def remove_in_finally_def provider_step_def provider_confirmed_def Let_def
      outbound_clean_removed intro: outbound_clean_append split: outcome.splits)

lemma callbacks_events: "set (run_events s) \<subseteq> set (run_events (callbacks cbs s))"
proof (induction cbs arbitrary: s)
  case (Cons cb cbs)
  have "set (run_events s) \<subseteq> set (run_events (apply_callback s cb))"
    by (cases cb)
      (auto simp: apply_callback_def on_output_def on_exit_def on_consume_def settle_stream_def run_events_def
        queue_push_def queue_shift_def Let_def split: option.split list.split)
  then show ?case using Cons.IH [of "apply_callback s cb"] by (auto simp: callbacks_def)
qed (simp add: callbacks_def)

lemma process_ended_mono:
  assumes "process_ended pid s" and "rs_log s' = rs_log s @ l" and "filter is_start l = []"
    and "set (run_events s) \<subseteq> set (run_events s')"
  shows "process_ended pid s'"
  using assms by (auto simp: process_ended_def)

lemma run_events_update [simp]:
  "run_events (s\<lparr>rs_ns := a\<rparr>) = run_events s" "run_events (s\<lparr>rs_log := b\<rparr>) = run_events s"
  "run_events (s\<lparr>rs_terminal_confirmed := d\<rparr>) = run_events s" "run_events (s\<lparr>rs_clean := d\<rparr>) = run_events s"
  "run_events (s\<lparr>rs_released := d\<rparr>) = run_events s"
  by (simp_all add: run_events_def)

named_theorems step_started "the start of the process under the steps of the try block"

lemma reserve_started [step_started]: "run_valid started_inv (xp_reserve env x) started_inv started_inv"
  by (rule run_validI; auto simp: started_inv_def xp_reserve_def Let_def split: option.splits prod.splits sum.splits)

lemma clean_started [step_started]: "run_valid started_inv (xp_clean_outbound env) started_inv started_inv"
  by (rule run_validI; auto simp: started_inv_def is_start_def xp_clean_outbound_def then_run_def provider_step_def
      split: outcome.splits)

lemma configure_started [step_started]: "run_valid started_inv (xp_configure env x) started_inv started_inv"
  by (rule run_validI; auto simp: started_inv_def is_start_def xp_configure_def then_run_def provider_step_def Let_def
      split: outcome.splits egress_access.splits if_splits)

lemma session_started [step_started]: "run_valid started_inv (xp_session env) started_inv started_inv"
  by (rule run_valid_snd) (auto simp: started_inv_def is_start_def xp_session_def)

lemma start_started [step_started]: "run_valid started_inv (xp_start env cmd) started_inv started_inv"
  by (rule run_valid_snd) (auto simp: started_inv_def xp_start_def Let_def provider_step_def split: outcome.splits)

lemma check_started [step_started]: "run_valid started_inv (xp_check_id env) started_inv started_inv"
  by (rule run_valid_snd) (simp add: xp_check_id_def)

lemma running_started [step_started]: "run_valid started_inv (xp_mark_running env x) started_inv started_inv"
  by (rule run_valid_snd) (auto simp: started_inv_def is_start_def xp_mark_running_def then_run_def provider_step_def
      Let_def split_beta split: outcome.split sum.split)

lemma await_started:
  "run_valid (\<lambda>s. stream_inv 0 s \<and> started_inv s) (xp_await_exit env)
     (\<lambda>s. process_ended pid s \<and> \<not> rs_released s) started_inv"
proof (rule run_validI)
  fix s s' assume s: "stream_inv 0 s \<and> started_inv s" and e: "xp_await_exit env s = (None, s')"
  let ?t = "callbacks (xe_cb_run env) s"
  have "\<not> eq_ended (rs_queue ?t)" using callbacks_stream s unfolding stream_inv_def by blast
  moreover obtain code where "s' = push_terminal (Exit_event code) (?t\<lparr>rs_terminal_confirmed := True\<rparr>)"
    using e by (auto simp: xp_await_exit_def Let_def split: option.splits sum.splits)
  ultimately show "process_ended pid s' \<and> \<not> rs_released s'"
    using s by (auto simp: process_ended_def run_events_def push_terminal_def queue_push_def is_output_def
        terminal_event_def started_inv_def)
next
  fix s e s' assume "stream_inv 0 s \<and> started_inv s" "xp_await_exit env s = (Some e, s')"
  then show "started_inv s'"
    by (auto simp: xp_await_exit_def Let_def started_inv_def split: option.splits sum.splits)
qed

lemma run_valid_conj:
  "run_valid P f Q R \<Longrightarrow> run_valid P' f Q' R' \<Longrightarrow> run_valid (\<lambda>s. P s \<and> P' s) f (\<lambda>s. Q s \<and> Q' s) (\<lambda>s. R s \<and> R' s)"
  by (fastforce simp: run_valid_def split: option.splits prod.splits)

lemma run_try_started:
  "run_valid (\<lambda>s. stream_inv 0 s \<and> started_inv s) (run_try env quote x) (\<lambda>s. process_ended pid s \<and> \<not> rs_released s) started_inv"
proof -
  have step: "run_valid (\<lambda>s. stream_inv 0 s \<and> started_inv s) f (\<lambda>s. stream_inv 0 s \<and> started_inv s) started_inv"
    if "run_valid (stream_inv 0) f (stream_inv 0) (stream_inv 0)" "run_valid started_inv f started_inv started_inv" for f
    using run_valid_conj [OF that] by (rule run_valid_weaken) auto
  show ?thesis
    unfolding run_try_def Let_def
    by (rule then_run_valid step step_stream step_started await_started)+
qed

lemma kill_in_catch_ended:
  assumes "rs_start_attempted s \<or> rs_terminal_confirmed s" and "rs_terminal_confirmed s \<longrightarrow> process_ended (xe_new_id env) s"
  shows "rs_terminal_confirmed (kill_in_catch env s) \<longrightarrow> process_ended (xe_new_id env) (kill_in_catch env s)"
  using assms
  by (auto simp: kill_in_catch_def provider_step_def provider_confirmed_def process_ended_def is_start_def Let_def
      split: option.split outcome.splits)

definition ended_inv :: "string \<Rightarrow> run_state \<Rightarrow> bool" where
  "ended_inv pid s \<longleftrightarrow> (rs_terminal_confirmed s \<longrightarrow> process_ended pid s) \<and> \<not> rs_released s"

lemma kill_in_catch_released: "rs_released (kill_in_catch env s) = rs_released s"
  by (simp add: kill_in_catch_def provider_step_def Let_def split: option.split)

lemma push_terminal_keeps [simp]:
  "rs_released (push_terminal e s) = rs_released s" "rs_terminal_confirmed (push_terminal e s) = rs_terminal_confirmed s"
  "rs_log (push_terminal e s) = rs_log s"
  by (simp_all add: push_terminal_def)

lemma push_terminal_events: "set (run_events s) \<subseteq> set (run_events (push_terminal e s))"
  by (auto simp: push_terminal_def run_events_def queue_push_def)

lemma run_catch_ended:
  assumes "started_inv s"
  shows "ended_inv (xe_new_id env) (run_catch env e s)"
proof -
  define s1 where "s1 = (if rs_start_attempted s then s else s\<lparr>rs_terminal_confirmed := True\<rparr>)"
  define s2 where "s2 = kill_in_catch env s1"
  define s3 where "s3 = callbacks (xe_cb_catch env) s2"
  have r: "run_catch env e s = push_terminal (failure_of e) s3"
    by (simp add: run_catch_def s1_def s2_def s3_def Let_def)
  have "rs_terminal_confirmed s2 \<longrightarrow> process_ended (xe_new_id env) s2"
    unfolding s2_def
    by (rule kill_in_catch_ended) (use assms in \<open>auto simp: s1_def started_inv_def process_ended_def\<close>)
  moreover have "process_ended (xe_new_id env) (push_terminal (failure_of e) s3)" if "process_ended (xe_new_id env) s2"
    using that callbacks_events [of s2 "xe_cb_catch env"] push_terminal_events [of s3 "failure_of e"]
    by - (rule process_ended_mono [where s = s2 and l = "[]"], auto simp: s3_def)
  moreover have "\<not> rs_released s2"
    using assms by (simp add: s2_def s1_def kill_in_catch_released started_inv_def)
  ultimately show ?thesis unfolding r by (simp add: ended_inv_def s3_def)
qed

lemma remove_in_finally_keeps:
  "rs_released (remove_in_finally env s) = rs_released s"
  "rs_terminal_confirmed (remove_in_finally env s) = rs_terminal_confirmed s"
  "run_events (remove_in_finally env s) = run_events s"
  "\<exists>l. rs_log (remove_in_finally env s) = rs_log s @ l \<and> filter is_start l = []"
  by (auto simp: remove_in_finally_def provider_step_def Let_def is_start_def run_events_def)

lemma remove_in_finally_ended:
  assumes "ended_inv pid s"
  shows "ended_inv pid (remove_in_finally env s)"
proof -
  obtain l where "rs_log (remove_in_finally env s) = rs_log s @ l" "filter is_start l = []"
    using remove_in_finally_keeps(4) by blast
  then have "process_ended pid s \<Longrightarrow> process_ended pid (remove_in_finally env s)"
    by (rule process_ended_mono [rotated]) (simp_all add: remove_in_finally_keeps(3))
  then show ?thesis using assms by (simp add: ended_inv_def remove_in_finally_keeps(1,2))
qed

lemma initial_run_started: "stream_inv 0 (initial_run ns) \<and> started_inv (initial_run ns) \<and> clean_inv (initial_run ns)"
  by (simp add: initial_run_stream) (simp add: started_inv_def clean_inv_def initial_run_def)

lemma run_unclosed_ended:
  "ended_inv (xe_new_id env) (run_unclosed env quote x ns) \<and> clean_inv (run_unclosed env quote x ns)"
proof -
  obtain e s where t: "run_try env quote x (initial_run ns) = (e, s)" by force
  have a: "if e = None then process_ended (xe_new_id env) s \<and> \<not> rs_released s else started_inv s"
    using initial_run_started by (intro run_validD [OF run_try_started _ t]) simp
  have c: "clean_inv s"
    using run_validD [OF run_try_clean _ t] initial_run_started by (simp split: if_splits)
  show ?thesis
  proof (cases e)
    case None
    with a c t show ?thesis by (simp add: run_unclosed_def ended_inv_def)
  next
    case (Some err)
    with a c t show ?thesis by (simp add: run_unclosed_def run_catch_ended run_catch_clean)
  qed
qed

lemma process_ended_callbacks: "process_ended pid s \<Longrightarrow> process_ended pid (callbacks cbs s)"
  using callbacks_events [of s cbs] by - (rule process_ended_mono [where s = s and l = "[]"], simp_all)

lemma process_ended_update [simp]:
  "process_ended pid (s\<lparr>rs_ns := a\<rparr>) = process_ended pid s"
  "process_ended pid (s\<lparr>rs_released := d\<rparr>) = process_ended pid s"
  "process_ended pid (s\<lparr>rs_queue := queue_close (rs_queue s)\<rparr>) = process_ended pid s"
  by (simp_all add: process_ended_def run_events_def queue_close_def)


section \<open>Sample execution\<close>

definition sample_run_env :: run_env where
  "sample_run_env =
     \<lparr>xe_new_id = ''p1'', xe_begin = ([], Delivered), xe_remove1 = Settled (), xe_set = Settled (), xe_session = True,
      xe_cb_start = [Cb_output Stdout ''hi''], xe_start = Settled ''p1'', xe_running = ([], Delivered),
      xe_kill1 = Settled (), xe_finish_kill = ([], Delivered), xe_cb_run = [Cb_consume, Cb_exit (Some 0)],
      xe_kill2 = Settled (), xe_wait = Settled (), xe_cb_catch = [], xe_remove2 = Settled (),
      xe_clear = ([], Delivered), xe_cb_finally = [Cb_consume]\<rparr>"

definition sample_execute :: execute_input where
  "sample_execute = \<lparr>xi_argv = [''ls'', ''-l''], xi_egress = JObj [(''kind'', JStr ''deny_all'')], xi_lease = sample_lease\<rparr>"

abbreviation sample_leases :: lease_namespace where
  "sample_leases \<equiv> (\<lambda>_. None)(''l1'' := Some live_record)"

abbreviation reserved_record :: lease_record where
  "reserved_record \<equiv> live_record\<lparr>lr_process_id := Some ''p1'', lr_process_state := Some Starting\<rparr>"

lemma live_record_simps [simp]:
  "lr_status live_record = Ready" "lr_process_id live_record = None" "lr_kill_requested live_record = False"
  "lr_provider_id live_record = ''ab-l1''" "lr_session_id live_record = ''session-l1''"
  by (simp_all add: live_record_def sample_record_def)

lemma sample_begin:
  "registry_begin_process Delivered sample_leases sample_lease ''p1'' =
     (Inr (Some reserved_record), sample_leases(''l1'' := Some reserved_record))"
proof -
  have "bound_transition live_record ''/process/begin'' (rb_process_id (process_body sample_lease ''p1'')) =
      (Process_reserved reserved_record, Some reserved_record)"
    by (simp add: bound_transition_def on_process_begin_def process_body_def Let_def)
  from registry_post_bound [of sample_leases "''l1''" live_record sample_lease, OF _ live_record_matches _ _ this]
  show ?thesis by (simp add: registry_begin_process_def process_body_def sample_lease_def response_ok_def)
qed

lemma sample_running:
  "registry_mark_process_running Delivered (sample_leases(''l1'' := Some reserved_record)) sample_lease ''p1'' =
     (Inr False, sample_leases(''l1'' := Some (reserved_record\<lparr>lr_process_state := Some Running\<rparr>)))"
proof -
  have t: "bound_transition reserved_record ''/process/running'' (rb_process_id (process_body sample_lease ''p1'')) =
      (Kill_flag False, Some (reserved_record\<lparr>lr_process_state := Some Running\<rparr>))"
    by (simp add: bound_transition_def on_process_running_def process_body_def)
  have "record_matches_lease reserved_record sample_lease"
    using live_record_matches by (simp add: record_matches_lease_def)
  from registry_post_bound [of "sample_leases(''l1'' := Some reserved_record)" "''l1''" reserved_record sample_lease, OF _ this _ _ t]
  show ?thesis by (simp add: registry_mark_process_running_def process_body_def sample_lease_def response_ok_def)
qed

lemma sample_run_process:
  "rs_log (run_process sample_run_env id sample_execute sample_leases) =
     [(P_remove_outbound ''ab-l1'', True), (P_get_session ''ab-l1'' ''session-l1'', True),
      (P_start ''session-l1'' ''ls -l'' ''p1'' False, True)] \<and>
   rs_released (run_process sample_run_env id sample_execute sample_leases)"
proof -
  let ?e = sample_run_env let ?x = sample_execute
  have a: "validate_egress_access (xi_egress ?x) = Some Deny_all"
    by (simp add: sample_execute_def validate_egress_access_def)
  have r: "xp_reserve ?e ?x (initial_run sample_leases) =
      (None, (initial_run sample_leases)\<lparr>rs_ns := sample_leases(''l1'' := Some reserved_record), rs_egress := Deny_all,
         rs_bound := True, rs_provider := Some (''ab-l1'', ''session-l1'')\<rparr>)"
    using sample_begin by (simp add: xp_reserve_def a) (simp add: sample_run_env_def sample_execute_def meanwhile_def initial_run_def)
  have t: "run_try ?e id ?x (initial_run sample_leases) =
      then_run (xp_clean_outbound ?e) (then_run (xp_configure ?e ?x) (then_run (xp_session ?e) (then_run (xp_start ?e ''ls -l'')
        (then_run (xp_check_id ?e) (then_run (xp_mark_running ?e ?x) (xp_await_exit ?e))))))
      ((initial_run sample_leases)\<lparr>rs_ns := sample_leases(''l1'' := Some reserved_record), rs_egress := Deny_all,
         rs_bound := True, rs_provider := Some (''ab-l1'', ''session-l1'')\<rparr>)"
  proof -
    have c: "join_with (CHR '' '') (map id (xi_argv ?x)) = ''ls -l''" by (simp add: sample_execute_def join_with_def)
    show ?thesis unfolding run_try_def Let_def c by (simp add: then_run_def [of "xp_reserve ?e ?x"] r)
  qed
  show ?thesis
    using sample_running unfolding run_process_def t
    by (simp add: xp_clean_outbound_def xp_configure_def xp_session_def xp_start_def xp_check_id_def xp_mark_running_def
        xp_await_exit_def then_run_def provider_step_def Let_def sample_run_env_def sample_execute_def initial_run_def
        meanwhile_def run_finally_def remove_in_finally_def callbacks_def apply_callback_def on_output_def on_consume_def
        on_exit_def settle_stream_def queue_push_def queue_shift_def new_queue_def event_size_def utf8_length_def
        max_output_queue_events_def max_output_queue_bytes_def is_output_def terminal_event_def push_terminal_def
        provider_of_def session_of_def provider_confirmed_def)
qed

theorem launch_is_guarded_witness:
  "\<exists>a rec rest. run_reserved sample_run_env sample_execute sample_leases a rec \<and> owner_allows sample_execute a \<and>
    False = (a \<noteq> Deny_all) \<and> ''p1'' = xe_new_id sample_run_env \<and>
    ''ls -l'' = join_with (CHR '' '') (map id (xi_argv sample_execute)) \<and>
    rs_log (run_process sample_run_env id sample_execute sample_leases) =
      (P_remove_outbound (lr_provider_id rec), True) # gateway_binding sample_execute a (lr_provider_id rec) @
        [(P_get_session (lr_provider_id rec) ''session-l1'', True), (P_start ''session-l1'' ''ls -l'' ''p1'' False, True)] @ rest \<and>
    filter is_start rest = []"
  by (rule launch_is_guarded) (simp add: sample_run_process)


end
