(* ===== verification/Terminal_Lifecycle.thy ===== *)
theory Terminal_Lifecycle
  imports Sandbox_Contract
begin

text \<open>
  The terminal lifecycle of a sandbox run (\<open>packages/agent-runtime/src/sandbox-terminal-lifecycle.ts\<close>):
  create, execute under a soft and a hard deadline and an external control signal, kill, destroy, and
  exactly one terminal record.

  Time is a number of milliseconds since the lifecycle started. A promise is the instant at which it
  settles, or none; \<open>Promise.race\<close> takes the earliest of its promises, and where several are settled at
  once any of them may win (the argument \<open>pick\<close>), which covers every order of microtasks and
  timers. \<open>Date.now()\<close> is an arbitrary reading of the instant.
\<close>

section \<open>Promises\<close>

text \<open>\<open>race pick now ps\<close>: the instant at which the race settles, from \<open>now\<close> on, and its winner.\<close>

definition race_ready :: "nat \<Rightarrow> (nat option \<times> 'a) list \<Rightarrow> (nat \<times> 'a) list" where
  "race_ready now ps = List.map_filter (\<lambda>(t, x). map_option (\<lambda>i. (max now i, x)) t) ps"

definition race_first :: "(nat \<times> 'a) list \<Rightarrow> nat" where
  "race_first rs = Min (set (map fst rs))"

definition race :: "nat \<Rightarrow> nat \<Rightarrow> (nat option \<times> 'a) list \<Rightarrow> (nat \<times> 'a) option" where
  "race pick now ps =
     (let rs = race_ready now ps; ties = filter (\<lambda>r. fst r = race_first rs) rs in
      if rs = [] then None else Some (ties ! (pick mod length ties)))"

lemma race_ready_iff: "(i, x) \<in> set (race_ready now ps) \<longleftrightarrow> (\<exists>t. (Some t, x) \<in> set ps \<and> i = max now t)"
  by (induction ps) (auto simp: race_ready_def map_filter_simps split: option.splits prod.splits)

lemma race_Some:
  assumes "race pick now ps = Some (i, x)"
  shows "\<exists>t. (Some t, x) \<in> set ps \<and> i = max now t"
    and "(Some t', y) \<in> set ps \<Longrightarrow> i \<le> max now t'"
proof -
  let ?rs = "race_ready now ps" let ?ties = "filter (\<lambda>r. fst r = race_first ?rs) ?rs"
  from assms have ne: "?rs \<noteq> []" and e: "(i, x) = ?ties ! (pick mod length ?ties)"
    by (auto simp: race_def Let_def split: if_splits)
  from ne have "race_first ?rs \<in> set (map fst ?rs)" unfolding race_first_def by (intro Min_in) auto
  then have "?ties \<noteq> []" by (force simp: filter_empty_conv)
  then have "(i, x) \<in> set ?ties" unfolding e by (intro nth_mem) simp
  then have m: "(i, x) \<in> set ?rs" "i = race_first ?rs" by auto
  then show "\<exists>t. (Some t, x) \<in> set ps \<and> i = max now t" by (simp add: race_ready_iff)
  assume "(Some t', y) \<in> set ps"
  then have "(max now t', y) \<in> set ?rs" by (auto simp: race_ready_iff)
  then show "i \<le> max now t'" unfolding m race_first_def by (intro Min_le) force+
qed

lemma race_settles: "(Some t, y) \<in> set ps \<Longrightarrow> race pick now ps \<noteq> None"
  using race_ready_iff [of "max now t" y now ps] by (auto simp: race_def Let_def)

text \<open>\<open>boundedOperation\<close>: an operation that settles after some delay (or never), raced with a deadline.\<close>

type_synonym 'a timed = "nat option \<times> 'a option"

definition bounded_operation :: "nat \<Rightarrow> nat \<Rightarrow> 'a timed \<Rightarrow> nat \<Rightarrow> nat \<times> 'a outcome" where
  "bounded_operation pick now operation ms =
     (case race pick now
        [(map_option (\<lambda>d. now + d) (fst operation), case snd operation of Some v \<Rightarrow> Settled v | None \<Rightarrow> Rejected),
         (Some (now + ms), Timed_out)] of
        Some r \<Rightarrow> r
      | None \<Rightarrow> (now + ms, Timed_out))"

lemma bounded_operation_time: "bounded_operation pick now op ms = (t, r) \<Longrightarrow> now \<le> t \<and> t \<le> now + ms"
proof -
  assume a: "bounded_operation pick now op ms = (t, r)"
  let ?ps = "[(map_option (\<lambda>d. now + d) (fst op), case snd op of Some v \<Rightarrow> Settled v | None \<Rightarrow> Rejected), (Some (now + ms), Timed_out)]"
  have "race pick now ?ps = Some (t, r)"
    using a race_settles [of "now + ms" Timed_out ?ps pick now] by (auto simp: bounded_operation_def)
  from race_Some(1) [OF this] race_Some(2) [OF this, of "now + ms" Timed_out] show ?thesis by auto
qed

lemma bounded_operation_settled:
  assumes "bounded_operation pick now op ms = (t, Settled v)"
  shows "snd op = Some v \<and> fst op \<noteq> None"
proof -
  let ?ps = "[(map_option (\<lambda>d. now + d) (fst op), case snd op of Some v \<Rightarrow> Settled v | None \<Rightarrow> Rejected), (Some (now + ms), Timed_out)]"
  have "race pick now ?ps = Some (t, Settled v)"
    using assms race_settles [of "now + ms" Timed_out ?ps pick now] by (auto simp: bounded_operation_def)
  from race_Some(1) [OF this] show ?thesis by (cases "fst op") (auto split: option.splits)
qed

text \<open>A race with a deadline, which always settles.\<close>

definition race_by :: "nat \<Rightarrow> nat \<Rightarrow> (nat option \<times> 'a) list \<Rightarrow> nat \<Rightarrow> 'a \<Rightarrow> nat \<times> 'a" where
  "race_by pick now ps deadline x =
     (case race pick now (ps @ [(Some deadline, x)]) of Some r \<Rightarrow> r | None \<Rightarrow> (max now deadline, x))"

lemma race_by_result:
  assumes "race_by pick now ps d x = (i, y)"
  shows "now \<le> i" "i \<le> max now d" "y = x \<or> (\<exists>t. (Some t, y) \<in> set ps)"
    "(Some t', z) \<in> set ps \<Longrightarrow> i \<le> max now t'"
proof -
  let ?ps = "ps @ [(Some d, x)]"
  have r: "race pick now ?ps = Some (i, y)"
    using assms race_settles [of d x ?ps pick now] by (auto simp: race_by_def)
  from race_Some(1) [OF r] race_Some(2) [OF r, of d x] race_Some(2) [OF r, of t' z]
  show "now \<le> i" "i \<le> max now d" "y = x \<or> (\<exists>t. (Some t, y) \<in> set ps)" "(Some t', z) \<in> set ps \<Longrightarrow> i \<le> max now t'"
    by auto
qed

lemma race_by_winner:
  assumes "race_by pick now ps d x = (i, y)" and "y \<noteq> x"
  shows "\<exists>t \<le> i. (Some t, y) \<in> set ps"
proof -
  have "race pick now (ps @ [(Some d, x)]) = Some (i, y)"
    using assms(1) race_settles [of d x "ps @ [(Some d, x)]" pick now] by (auto simp: race_by_def)
  from race_Some(1) [OF this] assms(2) show ?thesis by (metis Un_iff empty_iff empty_set insert_iff list.simps(15)
    max.cobounded2 prod.inject set_append)
qed

section \<open>Data\<close>

definition termination_grace_ms :: nat where
  "termination_grace_ms = 15000"

definition create_timeout_ms :: nat where
  "create_timeout_ms = 30000"

definition soft_timeout_ms :: nat where
  "soft_timeout_ms = 180000"

definition hard_timeout_ms :: nat where
  "hard_timeout_ms = 600000"

lemmas deadlines = termination_grace_ms_def create_timeout_ms_def soft_timeout_ms_def hard_timeout_ms_def

datatype control_reason = Ctl_client_cancelled | Ctl_global_kill | Ctl_kill_switch | Ctl_tenant_kill

datatype terminal_state =
  St_client_cancelled | St_completed | St_create_failed | St_execution_failed | St_global_killed | St_hard_timeout
  | St_kill_switch | St_soft_timeout | St_stream_interrupted | St_tenant_killed

datatype terminal_kill_status = Tk_already_terminal | Tk_confirmed | Tk_failed | Tk_not_requested | Tk_unconfirmed

datatype cleanup_status =
  Cl_already_destroyed | Cl_backend_owned_unconfirmed | Cl_destroyed | Cl_failed | Cl_not_required | Cl_unconfirmed

record lifecycle_cleanup =
  lc_execution_closed :: bool
  lc_release_safe :: bool
  lc_status :: cleanup_status

record execution_meter =
  em_output_event_count :: nat
  em_stderr_bytes :: nat
  em_stdout_bytes :: nat

record observed_usage =
  ou_cleanup_wall_clock_ms :: int
  ou_execution_wall_clock_ms :: int
  ou_exit_code :: "int option"
  ou_lifecycle_wall_clock_ms :: int
  ou_meter :: execution_meter

record terminal_record =
  tr_cleanup :: lifecycle_cleanup
  tr_execution_terminal_seen :: bool
  tr_kill_status :: terminal_kill_status
  tr_lease_id :: "string option"
  tr_record_key :: string
  tr_requested_kill_reason :: "kill_reason option"
  tr_run_id :: string
  tr_terminal_state :: terminal_state
  tr_usage :: observed_usage

record execution_observation =
  eo_execution_terminal_seen :: bool
  eo_exit_code :: "int option"
  eo_meter :: execution_meter
  eo_requested_kill_reason :: "kill_reason option"
  eo_terminal_state :: terminal_state

record lifecycle_decision = execution_observation +
  ld_kill_status :: terminal_kill_status

text \<open>The control signal: its reason, and the instant at which it is aborted (0: before the start).\<close>

record lifecycle_input =
  li_access_grant :: sandbox_grant
  li_control :: "(control_reason \<times> nat option) option"
  li_run_id :: string

datatype lifecycle_error = Lifecycle_invalid_input | Terminal_record_failed terminal_record

text \<open>What the iterator of an execution delivers at an instant: an event, its end, or a rejection.\<close>

datatype stream_item = Item_event execution_event | Item_done | Item_throws

datatype execute_outcome = Executes | Iterator_throws | Execute_throws

text \<open>
  The environment of a lifecycle: instants of the creation, the stream and the closing of the
  handle, delays of the kill and destroy calls, whether the record is stored, and the choice among simultaneous
  promises of the n-th race.
\<close>

record lifecycle_env =
  lv_clock :: "nat \<Rightarrow> int"
  lv_pick :: "nat \<Rightarrow> nat"
  lv_create :: "create_result timed"
  lv_execute :: execute_outcome
  lv_stream :: "(nat \<times> stream_item) list"
  lv_closed :: "unit timed"
  lv_kill1 :: "kill_result timed"
  lv_kill2 :: "kill_result timed"
  lv_destroy :: "destroy_result timed"
  lv_recorded :: bool

datatype lifecycle_call =
  Call_create sandbox_grant | Call_execute sandbox_lease | Call_kill sandbox_lease kill_reason
  | Call_destroy sandbox_lease | Late_destroy sandbox_lease | Call_record terminal_record

record lifecycle_run =
  lu_result :: "lifecycle_error + terminal_record"
  lu_calls :: "lifecycle_call list"
  lu_finished :: nat

section \<open>Helpers\<close>

definition valid_run_id :: "string \<Rightarrow> bool" where
  "valid_run_id r \<longleftrightarrow> \<not> (length r = 0 \<or> 128 < length r \<or> js_trim r \<noteq> r \<or> has_control r)"

definition elapsed_since :: "(nat \<Rightarrow> int) \<Rightarrow> nat \<Rightarrow> nat \<Rightarrow> int" where
  "elapsed_since clock started now = max 0 (clock now - clock started)"

fun control_terminal_state :: "control_reason \<Rightarrow> terminal_state" where
  "control_terminal_state Ctl_client_cancelled = St_client_cancelled"
| "control_terminal_state Ctl_global_kill = St_global_killed"
| "control_terminal_state Ctl_kill_switch = St_kill_switch"
| "control_terminal_state Ctl_tenant_kill = St_tenant_killed"

text \<open>The control reasons are the kill reasons of the same names.\<close>

fun control_kill_reason :: "control_reason \<Rightarrow> kill_reason" where
  "control_kill_reason Ctl_client_cancelled = Client_cancelled"
| "control_kill_reason Ctl_global_kill = Global_kill"
| "control_kill_reason Ctl_kill_switch = Kill_switch"
| "control_kill_reason Ctl_tenant_kill = Tenant_kill"

fun execution_failure_terminal_state :: "failure_reason \<Rightarrow> terminal_state" where
  "execution_failure_terminal_state Backend_failure = St_execution_failed"
| "execution_failure_terminal_state (Killed_for Client_cancelled) = St_client_cancelled"
| "execution_failure_terminal_state (Killed_for Global_kill) = St_global_killed"
| "execution_failure_terminal_state (Killed_for Hard_timeout) = St_hard_timeout"
| "execution_failure_terminal_state (Killed_for Kill_switch) = St_kill_switch"
| "execution_failure_terminal_state (Killed_for Soft_timeout) = St_soft_timeout"
| "execution_failure_terminal_state (Killed_for Stream_interrupted) = St_stream_interrupted"
| "execution_failure_terminal_state (Killed_for Tenant_kill) = St_tenant_killed"

definition map_kill_result :: "kill_result outcome \<Rightarrow> terminal_kill_status" where
  "map_kill_result r =
     (case r of
        Timed_out \<Rightarrow> Tk_unconfirmed
      | Rejected \<Rightarrow> Tk_failed
      | Settled (Kill_already_terminal _ _) \<Rightarrow> Tk_already_terminal
      | Settled (Kill_killed _ _) \<Rightarrow> Tk_confirmed
      | Settled (Kill_failed _ _ _) \<Rightarrow> Tk_failed)"

definition request_kill :: "nat \<Rightarrow> nat \<Rightarrow> kill_result timed \<Rightarrow> nat \<times> terminal_kill_status" where
  "request_kill pick now kill = map_prod id map_kill_result (bounded_operation pick now kill termination_grace_ms)"

definition cleanup_of :: "destroy_result outcome \<Rightarrow> lifecycle_cleanup" where
  "cleanup_of r =
     (let (safe, st) =
        (case r of
           Timed_out \<Rightarrow> (False, Cl_unconfirmed)
         | Rejected \<Rightarrow> (False, Cl_failed)
         | Settled (Destroy_done _) \<Rightarrow> (True, Cl_destroyed)
         | Settled (Destroy_already _) \<Rightarrow> (True, Cl_already_destroyed)
         | Settled (Destroy_failed _ _) \<Rightarrow> (False, Cl_failed)) in
      \<lparr>lc_execution_closed = True, lc_release_safe = safe, lc_status = st\<rparr>)"

definition destroy_lease :: "nat \<Rightarrow> nat \<Rightarrow> destroy_result timed \<Rightarrow> nat \<times> lifecycle_cleanup" where
  "destroy_lease pick now d = map_prod id cleanup_of (bounded_operation pick now d termination_grace_ms)"

section \<open>The execution stream\<close>

definition zero_meter :: execution_meter where
  "zero_meter = \<lparr>em_output_event_count = 0, em_stderr_bytes = 0, em_stdout_bytes = 0\<rparr>"

definition count_output :: "execution_meter \<Rightarrow> output_stream \<Rightarrow> string \<Rightarrow> execution_meter" where
  "count_output m stream chunk =
     (let m1 = m\<lparr>em_output_event_count := em_output_event_count m + 1\<rparr> in
      case stream of
        Stdout \<Rightarrow> m1\<lparr>em_stdout_bytes := em_stdout_bytes m + utf8_length chunk\<rparr>
      | Stderr \<Rightarrow> m1\<lparr>em_stderr_bytes := em_stderr_bytes m + utf8_length chunk\<rparr>)"

definition interrupted_observation :: "execution_meter \<Rightarrow> execution_observation" where
  "interrupted_observation m =
     \<lparr>eo_execution_terminal_seen = False, eo_exit_code = None, eo_meter = m,
      eo_requested_kill_reason = Some Stream_interrupted, eo_terminal_state = St_stream_interrupted\<rparr>"

definition empty_observation :: "terminal_state \<Rightarrow> execution_meter \<Rightarrow> execution_observation" where
  "empty_observation st m =
     \<lparr>eo_execution_terminal_seen = False, eo_exit_code = None, eo_meter = m, eo_requested_kill_reason = None,
      eo_terminal_state = st\<rparr>"

fun consume_execution :: "nat \<Rightarrow> (nat \<times> stream_item) list \<Rightarrow> execution_meter \<Rightarrow> (nat \<times> execution_observation) option" where
  "consume_execution now [] m = None"
| "consume_execution now ((t, item) # rest) m =
     (let i = max now t in
      case item of
        Item_done \<Rightarrow> Some (i, interrupted_observation m)
      | Item_throws \<Rightarrow> Some (i, interrupted_observation m)
      | Item_event (Output_event chunk _ stream) \<Rightarrow> consume_execution i rest (count_output m stream chunk)
      | Item_event (Exit_event code _) \<Rightarrow>
          Some (i, \<lparr>eo_execution_terminal_seen = True, eo_exit_code = Some code, eo_meter = m,
            eo_requested_kill_reason = None,
            eo_terminal_state = (if code = 0 then St_completed else St_execution_failed)\<rparr>)
      | Item_event (Failed_event reason _ _) \<Rightarrow>
          Some (i, \<lparr>eo_execution_terminal_seen = True, eo_exit_code = None, eo_meter = m,
            eo_requested_kill_reason = (case reason of Backend_failure \<Rightarrow> None | Killed_for r \<Rightarrow> Some r),
            eo_terminal_state = execution_failure_terminal_state reason\<rparr>))"

text \<open>The meter, a shared object of the code, as it stands at an instant.\<close>

fun meter_at :: "nat \<Rightarrow> nat \<Rightarrow> (nat \<times> stream_item) list \<Rightarrow> execution_meter \<Rightarrow> execution_meter" where
  "meter_at T now [] m = m"
| "meter_at T now ((t, item) # rest) m =
     (case item of
        Item_event (Output_event chunk _ stream) \<Rightarrow>
          if max now t \<le> T then meter_at T (max now t) rest (count_output m stream chunk) else m
      | _ \<Rightarrow> m)"

section \<open>The lifecycle\<close>

datatype race_winner =
  Won_create create_result | Won_create_timeout | Won_control control_reason | Won_execution execution_observation
  | Won_soft_timeout | Won_hard_timeout

definition control_promise :: "(control_reason \<times> nat option) option \<Rightarrow> (nat option \<times> race_winner) list" where
  "control_promise control = (case control of None \<Rightarrow> [] | Some (reason, t) \<Rightarrow> [(t, Won_control reason)])"

definition pre_aborted_reason :: "lifecycle_input \<Rightarrow> control_reason option" where
  "pre_aborted_reason input =
     (case li_control input of Some (reason, Some 0) \<Rightarrow> Some reason | _ \<Rightarrow> None)"

definition create_attempt :: "lifecycle_env \<Rightarrow> nat option \<times> race_winner" where
  "create_attempt env =
     (fst (lv_create env), Won_create (case snd (lv_create env) of Some r \<Rightarrow> r | None \<Rightarrow> Create_failed))"

text \<open>What a creation that outlived its deadline is followed by, in the background.\<close>

definition late_cleanup :: "lifecycle_env \<Rightarrow> lifecycle_call list" where
  "late_cleanup env =
     (case create_attempt env of (Some _, Won_create (Created lease)) \<Rightarrow> [Late_destroy lease] | _ \<Rightarrow> [])"

definition terminal_key :: "string \<Rightarrow> string option \<Rightarrow> string" where
  "terminal_key run_id lease_id =
     run_id @ '':'' @ (case lease_id of None \<Rightarrow> ''no-lease'' | Some l \<Rightarrow> l) @ '':terminal:v0''"

definition record_terminal ::
  "lifecycle_env \<Rightarrow> lifecycle_call list \<Rightarrow> nat \<Rightarrow> terminal_record \<Rightarrow> lifecycle_run" where
  "record_terminal env calls now r =
     \<lparr>lu_result = (if lv_recorded env then Inr r else Inl (Terminal_record_failed r)),
      lu_calls = calls @ [Call_record r], lu_finished = now\<rparr>"

text \<open>The record of a lifecycle without an execution.\<close>

definition unexecuted_record ::
  "lifecycle_env \<Rightarrow> lifecycle_input \<Rightarrow> lifecycle_cleanup \<Rightarrow> string option \<Rightarrow> kill_reason option \<Rightarrow> terminal_state
    \<Rightarrow> int \<Rightarrow> nat \<Rightarrow> terminal_record" where
  "unexecuted_record env input cleanup lease_id reason st cleanup_ms now =
     \<lparr>tr_cleanup = cleanup, tr_execution_terminal_seen = False, tr_kill_status = Tk_not_requested,
      tr_lease_id = lease_id, tr_record_key = terminal_key (li_run_id input) lease_id,
      tr_requested_kill_reason = reason, tr_run_id = li_run_id input, tr_terminal_state = st,
      tr_usage = \<lparr>ou_cleanup_wall_clock_ms = cleanup_ms, ou_execution_wall_clock_ms = 0, ou_exit_code = None,
        ou_lifecycle_wall_clock_ms = elapsed_since (lv_clock env) 0 now, ou_meter = zero_meter\<rparr>\<rparr>"

definition backend_owned :: lifecycle_cleanup where
  "backend_owned = \<lparr>lc_execution_closed = True, lc_release_safe = False, lc_status = Cl_backend_owned_unconfirmed\<rparr>"

definition execution_promise :: "lifecycle_env \<Rightarrow> nat \<Rightarrow> (nat option \<times> race_winner) list" where
  "execution_promise env now =
     (if lv_execute env = Executes then
        (case consume_execution now (lv_stream env) zero_meter of
           None \<Rightarrow> [] | Some (i, ob) \<Rightarrow> [(Some i, Won_execution ob)])
      else [(Some now, Won_execution (empty_observation St_execution_failed zero_meter))])"

definition live_meter :: "lifecycle_env \<Rightarrow> nat \<Rightarrow> nat \<Rightarrow> execution_meter" where
  "live_meter env started now =
     (if lv_execute env = Executes then meter_at now started (lv_stream env) zero_meter else zero_meter)"

definition decided :: "execution_observation \<Rightarrow> terminal_kill_status \<Rightarrow> lifecycle_decision" where
  "decided ob k = execution_observation.extend ob \<lparr>ld_kill_status = k\<rparr>"

text \<open>A decision by the lifecycle itself, after a kill for the reason.\<close>

definition kill_decision ::
  "lifecycle_env \<Rightarrow> nat \<Rightarrow> nat \<Rightarrow> kill_result timed \<Rightarrow> nat \<Rightarrow> terminal_state \<Rightarrow> kill_reason \<Rightarrow> nat \<times> lifecycle_decision" where
  "kill_decision env started pick kill now st reason =
     (let (t, k) = request_kill pick now kill in
      (t, decided ((empty_observation st (live_meter env started now))\<lparr>eo_requested_kill_reason := Some reason\<rparr>) k))"

definition decide_after_soft ::
  "lifecycle_env \<Rightarrow> lifecycle_input \<Rightarrow> sandbox_lease \<Rightarrow> nat \<Rightarrow> nat \<Rightarrow> terminal_kill_status
    \<Rightarrow> nat \<times> lifecycle_decision \<times> lifecycle_call list" where
  "decide_after_soft env input lease started now soft_kill =
     (let (t, first) = race_by (lv_pick env 4) now
            (execution_promise env started @ control_promise (li_control input))
            (started + hard_timeout_ms) Won_hard_timeout in
      case first of
        Won_execution ob \<Rightarrow>
          (t, decided (ob\<lparr>eo_requested_kill_reason := Some Soft_timeout, eo_terminal_state := St_soft_timeout\<rparr>) soft_kill, [])
      | Won_control reason \<Rightarrow>
          (let (t', d) = kill_decision env started (lv_pick env 5) (lv_kill2 env) t (control_terminal_state reason)
                 (control_kill_reason reason) in (t', d, [Call_kill lease (control_kill_reason reason)]))
      | _ \<Rightarrow>
          (let (t', d) = kill_decision env started (lv_pick env 5) (lv_kill2 env) t St_hard_timeout Hard_timeout in
           (t', d, [Call_kill lease Hard_timeout])))"

definition decide ::
  "lifecycle_env \<Rightarrow> lifecycle_input \<Rightarrow> sandbox_lease \<Rightarrow> nat \<Rightarrow> nat \<times> lifecycle_decision \<times> lifecycle_call list" where
  "decide env input lease started =
     (let (t, first) = race_by (lv_pick env 2) started
            (execution_promise env started @ [(Some (started + soft_timeout_ms), Won_soft_timeout)] @
              control_promise (li_control input))
            (started + hard_timeout_ms) Won_hard_timeout in
      case first of
        Won_execution ob \<Rightarrow>
          if eo_terminal_state ob = St_stream_interrupted then
            (let (t', k) = request_kill (lv_pick env 3) t (lv_kill1 env) in
             (t', decided ob k, [Call_kill lease Stream_interrupted]))
          else (t, decided ob Tk_not_requested, [])
      | Won_control reason \<Rightarrow>
          (let (t', d) = kill_decision env started (lv_pick env 3) (lv_kill1 env) t (control_terminal_state reason)
                 (control_kill_reason reason) in (t', d, [Call_kill lease (control_kill_reason reason)]))
      | Won_soft_timeout \<Rightarrow>
          (let (t', k) = request_kill (lv_pick env 3) t (lv_kill1 env) in
           if k = Tk_confirmed \<or> k = Tk_already_terminal then
             (t', decided ((empty_observation St_soft_timeout (live_meter env started t'))
                \<lparr>eo_requested_kill_reason := Some Soft_timeout\<rparr>) k, [Call_kill lease Soft_timeout])
           else
             (let (t'', d, kills) = decide_after_soft env input lease started t' k in
              (t'', d, Call_kill lease Soft_timeout # kills)))
      | _ \<Rightarrow>
          (let (t', d) = kill_decision env started (lv_pick env 3) (lv_kill1 env) t St_hard_timeout Hard_timeout in
           (t', d, [Call_kill lease Hard_timeout])))"

text \<open>\<open>Promise.all\<close> of the closing of the handle and of the consumption.\<close>

definition closed_operation :: "lifecycle_env \<Rightarrow> nat \<Rightarrow> nat \<Rightarrow> unit timed" where
  "closed_operation env started now =
     (case (snd (lv_closed env), execution_promise env started) of
        (Some _, [(Some i, _)]) \<Rightarrow> (map_option (\<lambda>c. max c i - now) (fst (lv_closed env)), Some ())
      | (Some _, _) \<Rightarrow> (None, Some ())
      | (None, _) \<Rightarrow> (map_option (\<lambda>c. c - now) (fst (lv_closed env)), None))"

definition await_stream_closed ::
  "lifecycle_env \<Rightarrow> nat \<Rightarrow> nat \<Rightarrow> lifecycle_cleanup \<Rightarrow> nat \<times> lifecycle_cleanup" where
  "await_stream_closed env started now cleanup =
     (if lv_execute env = Execute_throws then (now, cleanup)
      else
        (let (t, r) = bounded_operation (lv_pick env 7) now (closed_operation env started now) termination_grace_ms in
         (t, if r = Settled () then cleanup else cleanup\<lparr>lc_execution_closed := False, lc_release_safe := False\<rparr>)))"

definition executed_record ::
  "lifecycle_env \<Rightarrow> lifecycle_input \<Rightarrow> sandbox_lease \<Rightarrow> nat \<Rightarrow> nat \<Rightarrow> lifecycle_decision \<Rightarrow> lifecycle_cleanup \<Rightarrow> nat
    \<Rightarrow> terminal_record" where
  "executed_record env input lease started cleanup_started d cleanup now =
     \<lparr>tr_cleanup = cleanup, tr_execution_terminal_seen = eo_execution_terminal_seen d,
      tr_kill_status = ld_kill_status d, tr_lease_id = Some (sl_lease_id lease),
      tr_record_key = terminal_key (li_run_id input) (Some (sl_lease_id lease)),
      tr_requested_kill_reason = eo_requested_kill_reason d, tr_run_id = li_run_id input,
      tr_terminal_state = eo_terminal_state d,
      tr_usage = \<lparr>ou_cleanup_wall_clock_ms = elapsed_since (lv_clock env) cleanup_started now,
        ou_execution_wall_clock_ms = elapsed_since (lv_clock env) started now, ou_exit_code = eo_exit_code d,
        ou_lifecycle_wall_clock_ms = elapsed_since (lv_clock env) 0 now, ou_meter = live_meter env started now\<rparr>\<rparr>"

definition run_lease :: "lifecycle_env \<Rightarrow> lifecycle_input \<Rightarrow> sandbox_lease \<Rightarrow> nat \<Rightarrow> lifecycle_run" where
  "run_lease env input lease started =
     (let (t1, d, kills) = decide env input lease started;
          (t2, cleanup0) = destroy_lease (lv_pick env 6) t1 (lv_destroy env);
          (t3, cleanup) = await_stream_closed env started t2 cleanup0 in
      record_terminal env
        ([Call_create (li_access_grant input), Call_execute lease] @ kills @ [Call_destroy lease]) t3
        (executed_record env input lease started t1 d cleanup t3))"

definition run_control_on_create :: "lifecycle_env \<Rightarrow> lifecycle_input \<Rightarrow> control_reason \<Rightarrow> nat \<Rightarrow> lifecycle_run" where
  "run_control_on_create env input reason now =
     (let (t, settled) = race_by (lv_pick env 1) now [create_attempt env] create_timeout_ms Won_create_timeout;
          created = [Call_create (li_access_grant input)];
          unowned = (\<lambda>calls. record_terminal env (created @ calls) t
            (unexecuted_record env input backend_owned None (Some (control_kill_reason reason))
              (control_terminal_state reason) 0 t)) in
      case settled of
        Won_create (Created lease) \<Rightarrow>
          (let (t', cleanup) = destroy_lease (lv_pick env 6) t (lv_destroy env) in
           record_terminal env (created @ [Call_destroy lease]) t'
             (unexecuted_record env input cleanup (Some (sl_lease_id lease)) (Some (control_kill_reason reason))
               (control_terminal_state reason) (elapsed_since (lv_clock env) t t') t'))
      | Won_create_timeout \<Rightarrow> unowned (late_cleanup env)
      | _ \<Rightarrow> unowned [])"

definition run_terminal_lifecycle :: "lifecycle_env \<Rightarrow> lifecycle_input \<Rightarrow> lifecycle_run" where
  "run_terminal_lifecycle env input =
     (if \<not> valid_run_id (li_run_id input) \<or> ag_owner (li_access_grant input) \<noteq> Owner_run (li_run_id input) then
        \<lparr>lu_result = Inl Lifecycle_invalid_input, lu_calls = [], lu_finished = 0\<rparr>
      else
        case pre_aborted_reason input of
          Some reason \<Rightarrow>
            record_terminal env [] 0
              (unexecuted_record env input
                \<lparr>lc_execution_closed = True, lc_release_safe = True, lc_status = Cl_not_required\<rparr> None
                (Some (control_kill_reason reason)) (control_terminal_state reason) 0 0)
        | None \<Rightarrow>
            (let (t, first) = race_by (lv_pick env 0) 0 (create_attempt env # control_promise (li_control input))
                   create_timeout_ms Won_create_timeout;
                 failed = (\<lambda>calls. record_terminal env (Call_create (li_access_grant input) # calls) t
                   (unexecuted_record env input backend_owned None None St_create_failed 0 t)) in
             case first of
               Won_control reason \<Rightarrow> run_control_on_create env input reason t
             | Won_create (Created lease) \<Rightarrow> run_lease env input lease t
             | Won_create_timeout \<Rightarrow> failed (late_cleanup env)
             | _ \<Rightarrow> failed []))"

section \<open>The decision\<close>

definition observation_ok :: "execution_observation \<Rightarrow> bool" where
  "observation_ok ob \<longleftrightarrow>
     (eo_terminal_state ob = St_completed \<longrightarrow> eo_exit_code ob = Some 0 \<and> eo_execution_terminal_seen ob) \<and>
     (eo_terminal_state ob = St_stream_interrupted \<longrightarrow> eo_requested_kill_reason ob = Some Stream_interrupted)"

definition decision_ok :: "sandbox_lease \<Rightarrow> lifecycle_decision \<Rightarrow> lifecycle_call list \<Rightarrow> bool" where
  "decision_ok lease d kills \<longleftrightarrow>
     (ld_kill_status d = Tk_not_requested \<longleftrightarrow> kills = []) \<and>
     (\<exists>rs. kills = map (Call_kill lease) rs \<and> length rs \<le> 2 \<and>
        (rs \<noteq> [] \<longrightarrow> eo_requested_kill_reason d = Some (last rs))) \<and>
     (eo_terminal_state d = St_completed \<longrightarrow> kills = [] \<and> eo_exit_code d = Some 0 \<and> eo_execution_terminal_seen d)"

lemma decision_okI:
  assumes "kills = map (Call_kill lease) rs" and "length rs \<le> 2"
    and "rs \<noteq> [] \<Longrightarrow> eo_requested_kill_reason d = Some (last rs)" and "ld_kill_status d = Tk_not_requested \<longleftrightarrow> rs = []"
    and "eo_terminal_state d = St_completed \<Longrightarrow> rs = [] \<and> eo_exit_code d = Some 0 \<and> eo_execution_terminal_seen d"
  shows "decision_ok lease d kills"
  using assms by (auto simp: decision_ok_def)

lemma failure_state_not [simp]:
  "execution_failure_terminal_state r \<noteq> St_completed"
  "execution_failure_terminal_state r = St_stream_interrupted \<longleftrightarrow> r = Killed_for Stream_interrupted"
  by (cases r rule: execution_failure_terminal_state.cases; simp)+

lemma control_state_not [simp]:
  "control_terminal_state c \<noteq> St_completed" "control_terminal_state c \<noteq> St_stream_interrupted"
  by (cases c; simp)+

lemma consume_ok: "consume_execution now items m = Some (i, ob) \<Longrightarrow> observation_ok ob"
  by (induction now items m rule: consume_execution.induct)
    (auto simp: Let_def observation_ok_def interrupted_observation_def
      split: stream_item.splits execution_event.splits if_splits)

lemma empty_failed_ok: "observation_ok (empty_observation St_execution_failed m)"
  by (simp add: observation_ok_def empty_observation_def)

lemma execution_promise_ok: "(t, Won_execution ob) \<in> set (execution_promise env now) \<Longrightarrow> observation_ok ob"
  using consume_ok [of now "lv_stream env" zero_meter _ ob, OF sym] empty_failed_ok
  by (auto simp: execution_promise_def split: if_splits option.splits)

lemma execution_promise_kind: "(t, w) \<in> set (execution_promise env now) \<Longrightarrow> \<exists>ob. w = Won_execution ob"
  by (auto simp: execution_promise_def split: if_splits option.splits)

lemma control_promise_kind: "(t, w) \<in> set (control_promise c) \<Longrightarrow> \<exists>r. w = Won_control r"
  by (auto simp: control_promise_def split: option.splits)

lemma map_kill_requested [simp]: "map_kill_result r \<noteq> Tk_not_requested"
  by (simp add: map_kill_result_def split: outcome.split kill_result.split)

lemma request_kill_result:
  assumes "request_kill pick now kill = (t, k)"
  shows "now \<le> t" "t \<le> now + termination_grace_ms" "k \<noteq> Tk_not_requested"
  using assms bounded_operation_time [of pick now kill termination_grace_ms]
  by (auto simp: request_kill_def map_prod_def split: prod.splits)

lemma decided_simps [simp]:
  "ld_kill_status (decided ob k) = k" "eo_terminal_state (decided ob k) = eo_terminal_state ob"
  "eo_exit_code (decided ob k) = eo_exit_code ob" "eo_requested_kill_reason (decided ob k) = eo_requested_kill_reason ob"
  "eo_execution_terminal_seen (decided ob k) = eo_execution_terminal_seen ob" "eo_meter (decided ob k) = eo_meter ob"
  by (simp_all add: decided_def execution_observation.defs)

lemma kill_decision_result:
  assumes "kill_decision env started pick kill now st reason = (t, d)"
  shows "now \<le> t" "t \<le> now + termination_grace_ms" "ld_kill_status d \<noteq> Tk_not_requested"
    "eo_requested_kill_reason d = Some reason" "eo_terminal_state d = st"
  using assms request_kill_result [of pick now kill]
  by (auto simp: kill_decision_def empty_observation_def split: prod.splits)

lemma decide_after_soft_ok:
  assumes "decide_after_soft env input lease started now k = (t, d, kills)" and "k \<noteq> Tk_not_requested"
  shows "decision_ok lease d (Call_kill lease Soft_timeout # kills)"
    and "t \<le> max now (started + hard_timeout_ms) + termination_grace_ms"
proof -
  let ?ps = "execution_promise env started @ control_promise (li_control input)"
  obtain i w where r: "race_by (lv_pick env 4) now ?ps (started + hard_timeout_ms) Won_hard_timeout = (i, w)" by force
  note i = race_by_result(1,2) [OF r]
  have "w = Won_hard_timeout \<or> (\<exists>t. (Some t, w) \<in> set (execution_promise env started)) \<or>
      (\<exists>t. (Some t, w) \<in> set (control_promise (li_control input)))"
    using race_by_result(3) [OF r] by auto
  then have w: "w = Won_hard_timeout \<or> (\<exists>ob. w = Won_execution ob) \<or> (\<exists>c. w = Won_control c)"
    using execution_promise_kind control_promise_kind by metis
  then have "decision_ok lease d (Call_kill lease Soft_timeout # kills) \<and> t \<le> i + termination_grace_ms"
  proof (elim disjE exE)
    assume w: "w = Won_hard_timeout"
    obtain t' d' where e: "kill_decision env started (lv_pick env 5) (lv_kill2 env) i St_hard_timeout Hard_timeout = (t', d')"
      by force
    with assms(1) r w have "t = t'" "d = d'" "kills = [Call_kill lease Hard_timeout]"
      by (simp_all add: decide_after_soft_def)
    with kill_decision_result [OF e] show ?thesis
      by (auto intro: decision_okI [where rs = "[Soft_timeout, Hard_timeout]"])
  next
    fix ob assume w: "w = Won_execution ob"
    with assms r have "t = i" "kills = []"
      "d = decided (ob\<lparr>eo_requested_kill_reason := Some Soft_timeout, eo_terminal_state := St_soft_timeout\<rparr>) k"
      by (simp_all add: decide_after_soft_def)
    with assms(2) show ?thesis by (auto intro: decision_okI [where rs = "[Soft_timeout]"])
  next
    fix c assume w: "w = Won_control c"
    obtain t' d' where e: "kill_decision env started (lv_pick env 5) (lv_kill2 env) i (control_terminal_state c)
        (control_kill_reason c) = (t', d')"
      by force
    with assms(1) r w have "t = t'" "d = d'" "kills = [Call_kill lease (control_kill_reason c)]"
      by (simp_all add: decide_after_soft_def)
    moreover have "decision_ok lease d' [Call_kill lease Soft_timeout, Call_kill lease (control_kill_reason c)]"
      by (rule decision_okI [where rs = "[Soft_timeout, control_kill_reason c]"])
        (use kill_decision_result [OF e] in simp_all)
    ultimately show ?thesis using kill_decision_result(2) [OF e] by simp
  qed
  with i show "decision_ok lease d (Call_kill lease Soft_timeout # kills)"
    "t \<le> max now (started + hard_timeout_ms) + termination_grace_ms" by auto
qed

lemma kill_decision_ok:
  assumes "kill_decision env started pick kill now st reason = (t, d)" and "st \<noteq> St_completed"
  shows "decision_ok lease d [Call_kill lease reason]"
  using kill_decision_result [OF assms(1)] assms(2) by (auto intro: decision_okI [where rs = "[reason]"])

lemma decide_ok:
  assumes "decide env input lease started = (t, d, kills)"
  shows "decision_ok lease d kills \<and> t \<le> started + hard_timeout_ms + termination_grace_ms"
proof -
  let ?ps = "execution_promise env started @ [(Some (started + soft_timeout_ms), Won_soft_timeout)] @
    control_promise (li_control input)"
  obtain i w where r: "race_by (lv_pick env 2) started ?ps (started + hard_timeout_ms) Won_hard_timeout = (i, w)" by force
  have "i \<le> max started (started + soft_timeout_ms)"
    by (rule race_by_result(4) [OF r, where z = Won_soft_timeout]) simp
  then have i: "i \<le> started + soft_timeout_ms" by simp
  have "w = Won_hard_timeout \<or> w = Won_soft_timeout \<or> (\<exists>t. (Some t, w) \<in> set (execution_promise env started)) \<or>
      (\<exists>t. (Some t, w) \<in> set (control_promise (li_control input)))"
    using race_by_result(3) [OF r] by auto
  then consider "w = Won_hard_timeout" | "w = Won_soft_timeout"
    | ob where "w = Won_execution ob" "observation_ok ob" | c where "w = Won_control c"
    using execution_promise_kind execution_promise_ok control_promise_kind by metis
  then show ?thesis
  proof cases
    case 1
    obtain t' d' where e: "kill_decision env started (lv_pick env 3) (lv_kill1 env) i St_hard_timeout Hard_timeout = (t', d')"
      by force
    with assms r 1 have "t = t'" "d = d'" "kills = [Call_kill lease Hard_timeout]" by (simp_all add: decide_def)
    with kill_decision_ok [OF e] kill_decision_result(2) [OF e] i show ?thesis by (simp add: deadlines)
  next
    case 2
    obtain t' k where k: "request_kill (lv_pick env 3) i (lv_kill1 env) = (t', k)" by force
    note k' = request_kill_result [OF k]
    obtain t'' d' kills' where a: "decide_after_soft env input lease started t' k = (t'', d', kills')" by (metis prod_cases3)
    show ?thesis
    proof (cases "k = Tk_confirmed \<or> k = Tk_already_terminal")
      case True
      with assms r 2 k have "t = t' \<and> kills = [Call_kill lease Soft_timeout] \<and>
        d = decided ((empty_observation St_soft_timeout (live_meter env started t'))
          \<lparr>eo_requested_kill_reason := Some Soft_timeout\<rparr>) k"
        by (auto simp: decide_def)
      with k' i show ?thesis
        by (auto simp: empty_observation_def deadlines intro: decision_okI [where rs = "[Soft_timeout]"])
    next
      case False
      with assms r 2 k a have "t = t''" "d = d'" "kills = Call_kill lease Soft_timeout # kills'"
        by (simp_all add: decide_def)
      with decide_after_soft_ok [OF a] k' i show ?thesis by (simp add: deadlines)
    qed
  next
    case (3 ob)
    obtain t' k where k: "request_kill (lv_pick env 3) i (lv_kill1 env) = (t', k)" by force
    note k' = request_kill_result [OF k]
    show ?thesis
    proof (cases "eo_terminal_state ob = St_stream_interrupted")
      case True
      with assms r 3 k have "t = t'" "kills = [Call_kill lease Stream_interrupted]" "d = decided ob k"
        by (simp_all add: decide_def)
      with True 3 k' i show ?thesis
        by (auto simp: observation_ok_def deadlines intro: decision_okI [where rs = "[Stream_interrupted]"])
    next
      case False
      with assms r 3 have "t = i" "kills = []" "d = decided ob Tk_not_requested" by (simp_all add: decide_def)
      with 3 i show ?thesis by (auto simp: observation_ok_def deadlines intro: decision_okI [where rs = "[]"])
    qed
  next
    case (4 c)
    obtain t' d' where e: "kill_decision env started (lv_pick env 3) (lv_kill1 env) i (control_terminal_state c)
        (control_kill_reason c) = (t', d')" by force
    with assms r 4 have "t = t'" "d = d'" "kills = [Call_kill lease (control_kill_reason c)]" by (simp_all add: decide_def)
    with kill_decision_ok [OF e] kill_decision_result(2) [OF e] i show ?thesis by (simp add: deadlines)
  qed
qed

section \<open>The shapes of a lifecycle\<close>

definition valid_lifecycle_input :: "lifecycle_input \<Rightarrow> bool" where
  "valid_lifecycle_input input \<longleftrightarrow>
     valid_run_id (li_run_id input) \<and> ag_owner (li_access_grant input) = Owner_run (li_run_id input)"

lemma create_attempt_winner:
  assumes "race_by pick now (create_attempt env # control_promise c) d Won_create_timeout = (t, Won_create r)"
  shows "fst (create_attempt env) \<noteq> None \<and> snd (create_attempt env) = Won_create r"
proof -
  have "\<exists>t. (Some t, Won_create r) \<in> set (create_attempt env # control_promise c)"
    using race_by_result(3) [OF assms] by simp
  then show ?thesis using control_promise_kind [of _ "Won_create r" c] by auto (metis fst_conv snd_conv)+
qed

lemma late_cleanup_failed: "snd (create_attempt env) = Won_create Create_failed \<Longrightarrow> late_cleanup env = []"
  by (cases "create_attempt env") (auto simp: late_cleanup_def split: option.split)

lemma create_race_kind:
  assumes "race_by pick now (create_attempt env # control_promise c) d Won_create_timeout = (t, w)"
  shows "w = Won_create_timeout \<or> (\<exists>r. w = Won_create r) \<or> (\<exists>r. w = Won_control r)"
proof -
  have "w = Won_create_timeout \<or> (\<exists>t. (Some t, w) \<in> set (create_attempt env # control_promise c))"
    using race_by_result(3) [OF assms] .
  then show ?thesis using control_promise_kind [of _ w c] by (auto simp: create_attempt_def)
qed

definition lease_created :: "lifecycle_env \<Rightarrow> sandbox_lease \<Rightarrow> bool" where
  "lease_created env l \<longleftrightarrow> fst (create_attempt env) \<noteq> None \<and> snd (create_attempt env) = Won_create (Created l)"

lemma control_on_create_cases:
  assumes "now \<le> create_timeout_ms"
  obtains (unowned) t reason' st where "t \<le> create_timeout_ms"
      "run_control_on_create env input reason now =
         record_terminal env (Call_create (li_access_grant input) # late_cleanup env) t
           (unexecuted_record env input backend_owned None reason' st 0 t)" "st \<noteq> St_completed"
  | (destroyed) t t' l cleanup reason' st ms where "t \<le> create_timeout_ms" "lease_created env l"
      "destroy_lease (lv_pick env 6) t (lv_destroy env) = (t', cleanup)" "st \<noteq> St_completed"
      "run_control_on_create env input reason now =
         record_terminal env [Call_create (li_access_grant input), Call_destroy l] t'
           (unexecuted_record env input cleanup (Some (sl_lease_id l)) reason' st ms t')"
proof -
  obtain t w where r: "race_by (lv_pick env 1) now [create_attempt env] create_timeout_ms Won_create_timeout = (t, w)"
    by force
  then have r': "race_by (lv_pick env 1) now (create_attempt env # control_promise None) create_timeout_ms
      Won_create_timeout = (t, w)"
    by (simp add: control_promise_def)
  have t: "t \<le> create_timeout_ms" using race_by_result(2) [OF r] assms by simp
  have w: "w = Won_create_timeout \<or> (\<exists>x. w = Won_create x)"
    using create_race_kind [OF r'] race_by_result(3) [OF r] by (auto simp: create_attempt_def)
  show thesis
  proof (cases "\<exists>l. w = Won_create (Created l)")
    case True
    then obtain l where w: "w = Won_create (Created l)" by blast
    obtain t' cleanup where d: "destroy_lease (lv_pick env 6) t (lv_destroy env) = (t', cleanup)" by force
    have "lease_created env l" using create_attempt_winner [OF r' [unfolded w]] by (simp add: lease_created_def)
    then show thesis
      by (rule destroyed [OF t _ d, where st = "control_terminal_state reason" and reason' = "Some (control_kill_reason reason)"
            and ms = "elapsed_since (lv_clock env) t t'"])
        (simp_all add: run_control_on_create_def r w d del: One_nat_def)
  next
    case False
    with w have "w = Won_create_timeout \<or> w = Won_create Create_failed" by (metis create_result.exhaust)
    moreover have "late_cleanup env = []" if "w = Won_create Create_failed"
      using r' [unfolded that] create_attempt_winner late_cleanup_failed by blast
    ultimately show thesis
      by (intro unowned [OF t, where st = "control_terminal_state reason" and reason' = "Some (control_kill_reason reason)"])
        (auto simp: run_control_on_create_def r simp del: One_nat_def)
  qed
qed

lemma lifecycle_cases:
  assumes "valid_lifecycle_input input"
  obtains (pre_aborted) reason' st where "st \<noteq> St_completed"
      "run_terminal_lifecycle env input = record_terminal env [] 0
         (unexecuted_record env input \<lparr>lc_execution_closed = True, lc_release_safe = True, lc_status = Cl_not_required\<rparr>
           None reason' st 0 0)"
  | (unowned) t reason' st where "t \<le> create_timeout_ms" "st \<noteq> St_completed"
      "run_terminal_lifecycle env input =
         record_terminal env (Call_create (li_access_grant input) # late_cleanup env) t
           (unexecuted_record env input backend_owned None reason' st 0 t)"
  | (destroyed) t t' l cleanup reason' st ms where "t \<le> create_timeout_ms" "lease_created env l"
      "destroy_lease (lv_pick env 6) t (lv_destroy env) = (t', cleanup)" "st \<noteq> St_completed"
      "run_terminal_lifecycle env input =
         record_terminal env [Call_create (li_access_grant input), Call_destroy l] t'
           (unexecuted_record env input cleanup (Some (sl_lease_id l)) reason' st ms t')"
  | (executed) t l where "t \<le> create_timeout_ms" "lease_created env l"
      "run_terminal_lifecycle env input = run_lease env input l t"
proof -
  have v: "\<not> (\<not> valid_run_id (li_run_id input) \<or> ag_owner (li_access_grant input) \<noteq> Owner_run (li_run_id input))"
    using assms by (simp add: valid_lifecycle_input_def)
  show thesis
  proof (cases "pre_aborted_reason input")
    case (Some reason)
    with v show thesis by (intro pre_aborted [of "control_terminal_state reason"]) (simp_all add: run_terminal_lifecycle_def)
  next
    case None
    obtain t w where r: "race_by (lv_pick env 0) 0 (create_attempt env # control_promise (li_control input))
        create_timeout_ms Won_create_timeout = (t, w)" by force
    have t: "t \<le> create_timeout_ms" using race_by_result(2) [OF r] by simp
    note run = run_terminal_lifecycle_def [of env input, unfolded if_not_P [OF v] None option.case r Let_def prod.case]
    consider (timeout) "w = Won_create_timeout" | (failed) "w = Won_create Create_failed"
      | (created) l where "w = Won_create (Created l)" | (control) c where "w = Won_control c"
      using create_race_kind [OF r] create_result.exhaust by metis
    then show thesis
    proof cases
      case timeout
      then show thesis by (intro unowned [OF t, of St_create_failed]) (simp_all add: run)
    next
      case failed
      then have "late_cleanup env = []" using r create_attempt_winner late_cleanup_failed by blast
      with failed show thesis by (intro unowned [OF t, of St_create_failed]) (simp_all add: run)
    next
      case (created l)
      then have "lease_created env l" using r create_attempt_winner unfolding lease_created_def by blast
      with created show thesis by (intro executed [OF t]) (simp_all add: run)
    next
      case (control c)
      then have run': "run_terminal_lifecycle env input = run_control_on_create env input c t" by (simp add: run)
      show thesis
        by (rule control_on_create_cases [OF t, where env = env and input = input and reason = c])
          (use unowned destroyed run' in \<open>simp_all\<close>)
    qed
  qed
qed

lemma run_lease_shape:
  obtains t1 t2 t3 d rs cleanup0 cleanup where
    "decide env input l started = (t1, d, map (Call_kill l) rs)" "decision_ok l d (map (Call_kill l) rs)"
    "destroy_lease (lv_pick env 6) t1 (lv_destroy env) = (t2, cleanup0)"
    "await_stream_closed env started t2 cleanup0 = (t3, cleanup)"
    "run_lease env input l started = record_terminal env
       (Call_create (li_access_grant input) # Call_execute l # map (Call_kill l) rs @ [Call_destroy l]) t3
       (executed_record env input l started t1 d cleanup t3)"
proof -
  obtain t1 d kills where d: "decide env input l started = (t1, d, kills)" by (metis prod_cases3)
  then obtain rs where k: "kills = map (Call_kill l) rs" using decide_ok [OF d] by (auto simp: decision_ok_def)
  obtain t2 c0 where c: "destroy_lease (lv_pick env 6) t1 (lv_destroy env) = (t2, c0)" by force
  obtain t3 c where a: "await_stream_closed env started t2 c0 = (t3, c)" by force
  show thesis
    by (rule that [OF d [unfolded k] _ c a]) (use decide_ok [OF d] k in \<open>simp_all add: run_lease_def d c a\<close>)
qed

lemma executed_record_simps [simp]:
  "tr_cleanup (executed_record env input l t t1 d c t3) = c"
  "tr_lease_id (executed_record env input l t t1 d c t3) = Some (sl_lease_id l)"
  "tr_kill_status (executed_record env input l t t1 d c t3) = ld_kill_status d"
  "tr_terminal_state (executed_record env input l t t1 d c t3) = eo_terminal_state d"
  "tr_requested_kill_reason (executed_record env input l t t1 d c t3) = eo_requested_kill_reason d"
  "tr_execution_terminal_seen (executed_record env input l t t1 d c t3) = eo_execution_terminal_seen d"
  "tr_run_id (executed_record env input l t t1 d c t3) = li_run_id input"
  "tr_record_key (executed_record env input l t t1 d c t3) = terminal_key (li_run_id input) (Some (sl_lease_id l))"
  "ou_meter (tr_usage (executed_record env input l t t1 d c t3)) = live_meter env t t3"
  "ou_exit_code (tr_usage (executed_record env input l t t1 d c t3)) = eo_exit_code d"
  by (simp_all add: executed_record_def)

lemma valid_lifecycle_not [simp]:
  "\<not> valid_lifecycle_input input \<Longrightarrow>
     run_terminal_lifecycle env input = \<lparr>lu_result = Inl Lifecycle_invalid_input, lu_calls = [], lu_finished = 0\<rparr>"
  by (auto simp: valid_lifecycle_input_def run_terminal_lifecycle_def)

lemma record_terminal_simps [simp]:
  "lu_calls (record_terminal env calls t r) = calls @ [Call_record r]" "lu_finished (record_terminal env calls t r) = t"
  "lu_result (record_terminal env calls t r) = (if lv_recorded env then Inr r else Inl (Terminal_record_failed r))"
  by (simp_all add: record_terminal_def)

lemma unexecuted_record_simps [simp]:
  "tr_cleanup (unexecuted_record env input c l q st ms t) = c" "tr_lease_id (unexecuted_record env input c l q st ms t) = l"
  "tr_kill_status (unexecuted_record env input c l q st ms t) = Tk_not_requested"
  "tr_terminal_state (unexecuted_record env input c l q st ms t) = st"
  "tr_run_id (unexecuted_record env input c l q st ms t) = li_run_id input"
  "tr_record_key (unexecuted_record env input c l q st ms t) = terminal_key (li_run_id input) l"
  "ou_meter (tr_usage (unexecuted_record env input c l q st ms t)) = zero_meter"
  by (simp_all add: unexecuted_record_def)

lemma destroy_lease_result:
  assumes "destroy_lease pick now d = (t, c)"
  shows "now \<le> t \<and> t \<le> now + termination_grace_ms" and "lc_execution_closed c"
    and "lc_release_safe c \<Longrightarrow> \<exists>x. snd d = Some (Destroy_done x) \<or> snd d = Some (Destroy_already x)"
proof -
  obtain r where r: "bounded_operation pick now d termination_grace_ms = (t, r)" "c = cleanup_of r"
    using assms by (auto simp: destroy_lease_def map_prod_def split: prod.splits)
  show "now \<le> t \<and> t \<le> now + termination_grace_ms" using bounded_operation_time [OF r(1)] .
  show "lc_execution_closed c" by (simp add: r(2) cleanup_of_def split_beta Let_def)
  assume "lc_release_safe c"
  then obtain v where "r = Settled v" "\<exists>x. v = Destroy_done x \<or> v = Destroy_already x"
    by (auto simp: r(2) cleanup_of_def split: outcome.splits destroy_result.splits)
  then show "\<exists>x. snd d = Some (Destroy_done x) \<or> snd d = Some (Destroy_already x)"
    using bounded_operation_settled r(1) by fastforce
qed

lemma await_stream_closed_result:
  assumes "await_stream_closed env started now c = (t, c')"
  shows "now \<le> t \<and> t \<le> now + termination_grace_ms"
    and "lc_release_safe c' \<Longrightarrow> lc_release_safe c \<and>
      (lv_execute env = Execute_throws \<or> (snd (lv_closed env) = Some () \<and> execution_promise env started \<noteq> []))"
proof -
  show "now \<le> t \<and> t \<le> now + termination_grace_ms"
    using assms bounded_operation_time [of "lv_pick env 7" now "closed_operation env started now" termination_grace_ms]
    by (auto simp: await_stream_closed_def split: if_splits prod.splits)
  assume safe: "lc_release_safe c'"
  show "lc_release_safe c \<and>
      (lv_execute env = Execute_throws \<or> (snd (lv_closed env) = Some () \<and> execution_promise env started \<noteq> []))"
  proof (cases "lv_execute env = Execute_throws")
    case False
    obtain r where r: "bounded_operation (lv_pick env 7) now (closed_operation env started now) termination_grace_ms = (t, r)"
      using assms False by (auto simp: await_stream_closed_def split: prod.splits)
    with assms False safe have s: "r = Settled ()" "c' = c" by (auto simp: await_stream_closed_def split: if_splits)
    from bounded_operation_settled [OF r [unfolded s(1)]] s(2) safe show ?thesis
      by (auto simp: closed_operation_def split: option.splits)
  qed (use assms safe in \<open>simp add: await_stream_closed_def\<close>)
qed

definition is_record_call :: "lifecycle_call \<Rightarrow> bool" where
  "is_record_call c \<longleftrightarrow> (case c of Call_record _ \<Rightarrow> True | _ \<Rightarrow> False)"

definition is_kill_call :: "lifecycle_call \<Rightarrow> bool" where
  "is_kill_call c \<longleftrightarrow> (case c of Call_kill _ _ \<Rightarrow> True | _ \<Rightarrow> False)"

definition destroyed_leases :: "lifecycle_call list \<Rightarrow> sandbox_lease list" where
  "destroyed_leases calls =
     concat (map (\<lambda>c. case c of Call_destroy l \<Rightarrow> [l] | Late_destroy l \<Rightarrow> [l] | _ \<Rightarrow> []) calls)"

lemma late_cleanup_calls [simp]:
  "filter is_record_call (late_cleanup env) = []" "filter is_kill_call (late_cleanup env) = []"
  "Call_record r \<notin> set (late_cleanup env)" "Call_create g \<notin> set (late_cleanup env)"
  "destroyed_leases (late_cleanup env) =
     (case create_attempt env of (Some _, Won_create (Created l)) \<Rightarrow> [l] | _ \<Rightarrow> [])"
  by (auto simp: late_cleanup_def is_record_call_def is_kill_call_def destroyed_leases_def
      split: prod.split option.split race_winner.split create_result.split)

lemma destroyed_leases_simps [simp]:
  "destroyed_leases (Call_create g # cs) = destroyed_leases cs" "destroyed_leases (Call_execute l # cs) = destroyed_leases cs"
  "destroyed_leases (cs @ [Call_record r]) = destroyed_leases cs" "destroyed_leases (cs @ [Call_destroy l]) = destroyed_leases cs @ [l]"
  by (simp_all add: destroyed_leases_def)

lemma kill_calls [simp]:
  "filter is_record_call (map (Call_kill l) rs) = []" "filter is_kill_call (map (Call_kill l) rs) = map (Call_kill l) rs"
  "destroyed_leases (map (Call_kill l) rs @ cs) = destroyed_leases cs"
  by (induction rs) (simp_all add: is_record_call_def is_kill_call_def destroyed_leases_def)

lemma call_kinds [simp]:
  "\<not> is_record_call (Call_create g)" "\<not> is_record_call (Call_execute l)" "\<not> is_record_call (Call_destroy l)"
  "\<not> is_kill_call (Call_create g)" "\<not> is_kill_call (Call_execute l)" "\<not> is_kill_call (Call_destroy l)"
  "\<not> is_kill_call (Call_record r)" "is_record_call (Call_record r)"
  by (simp_all add: is_record_call_def is_kill_call_def)

section \<open>Properties\<close>

text \<open>
  A lifecycle stores exactly one terminal record, as its last call, whatever the backend and the control
  signal do; the record carries the run's id and the key of the run and its lease (or \<open>no-lease\<close>), and the
  lifecycle returns it, or fails with it when it could not be stored. Invalid input makes no call at all.
\<close>

theorem one_terminal_record:
  "let u = run_terminal_lifecycle env input in
     if valid_lifecycle_input input then
       \<exists>calls rec. lu_calls u = calls @ [Call_record rec] \<and> filter is_record_call calls = [] \<and>
         lu_result u = (if lv_recorded env then Inr rec else Inl (Terminal_record_failed rec)) \<and>
         tr_run_id rec = li_run_id input \<and> tr_record_key rec = terminal_key (li_run_id input) (tr_lease_id rec)
     else lu_calls u = [] \<and> lu_result u = Inl Lifecycle_invalid_input"
proof (cases "valid_lifecycle_input input")
  case True
  show ?thesis
  proof (cases rule: lifecycle_cases [OF True, of env, case_names pre_aborted unowned destroyed executed])
    case (executed t l)
    then show ?thesis using True by (rule_tac run_lease_shape [of env input l t]) (simp add: Let_def)
  qed (simp_all add: Let_def True)
qed simp

text \<open>
  C8: Every lease the backend hands over is destroyed exactly once, also one handed over after the
  creation deadline or after the control signal, and nothing else is destroyed.
\<close>

theorem every_lease_destroyed_once:
  "destroyed_leases (lu_calls (run_terminal_lifecycle env input)) =
     (if Call_create (li_access_grant input) \<in> set (lu_calls (run_terminal_lifecycle env input)) then
        (case create_attempt env of (Some _, Won_create (Created l)) \<Rightarrow> [l] | _ \<Rightarrow> [])
      else [])"
proof (cases "valid_lifecycle_input input")
  case True
  have c: "lease_created env l \<Longrightarrow> \<exists>t. create_attempt env = (Some t, Won_create (Created l))" for l
    by (cases "create_attempt env") (auto simp: lease_created_def)
  show ?thesis
  proof (cases rule: lifecycle_cases [OF True, of env, case_names pre_aborted unowned destroyed executed])
    case (executed t l)
    moreover obtain t' where "create_attempt env = (Some t', Won_create (Created l))" using c executed(2) by blast
    moreover have "destroyed_leases (Call_create g # Call_execute l # cs) = destroyed_leases cs" for g cs
      by (simp add: destroyed_leases_def)
    moreover have "destroyed_leases [Call_destroy l, Call_record rec] = [l]" for rec by (simp add: destroyed_leases_def)
    ultimately show ?thesis by (rule_tac run_lease_shape [of env input l t]) simp
  next
    case (destroyed t t' l cl q st ms)
    moreover obtain t'' where "create_attempt env = (Some t'', Won_create (Created l))" using c destroyed(2) by blast
    ultimately show ?thesis by (simp add: destroyed_leases_def)
  next
    case (unowned t q st)
    then show ?thesis by (simp del: append_Cons add: append_Cons [symmetric])
  qed (simp add: destroyed_leases_def)
qed (simp add: destroyed_leases_def)

text \<open>
  C20: A lifecycle has made its terminal record within 675 seconds: 30 for the creation, 600 for the
  execution, and three grace periods of 15 for the kill, the destroy and the closing of the stream, however long the calls
  of the backend take.
\<close>

theorem lifecycle_deadline: "lu_finished (run_terminal_lifecycle env input) \<le> 675000"
proof (cases "valid_lifecycle_input input")
  case True
  show ?thesis
  proof (cases rule: lifecycle_cases [OF True, of env, case_names pre_aborted unowned destroyed executed])
    case (executed t l)
    show ?thesis
    proof (rule run_lease_shape [of env input l t])
      fix t1 t2 t3 d rs c0 c
      assume d: "decide env input l t = (t1, d, map (Call_kill l) rs)"
        and c: "destroy_lease (lv_pick env 6) t1 (lv_destroy env) = (t2, c0)"
        and a: "await_stream_closed env t t2 c0 = (t3, c)"
        and r: "run_lease env input l t = record_terminal env
          (Call_create (li_access_grant input) # Call_execute l # map (Call_kill l) rs @ [Call_destroy l]) t3
          (executed_record env input l t t1 d c t3)"
      show ?thesis
        using decide_ok [OF d] destroy_lease_result(1) [OF c] await_stream_closed_result(1) [OF a] executed(1)
        unfolding executed(3) r by (simp add: deadlines)
    qed
  next
    case (destroyed t t' l cl q st ms)
    then show ?thesis using destroy_lease_result(1) [OF destroyed(3)] by (simp add: deadlines)
  qed (simp_all add: deadlines)
qed simp

text \<open>
  The record tells the truth about kills: its kill status is \<open>not_requested\<close> exactly when the backend was not
  asked to kill, at most two kills are asked for, the recorded reason is the one of the last kill, and
  a run recorded as completed was not killed and saw its process exit with code 0.
\<close>

theorem kill_record_is_true:
  assumes "Call_record rec \<in> set (lu_calls (run_terminal_lifecycle env input))"
  shows "let kills = filter is_kill_call (lu_calls (run_terminal_lifecycle env input)) in
    (tr_kill_status rec = Tk_not_requested \<longleftrightarrow> kills = []) \<and> length kills \<le> 2 \<and>
    (kills \<noteq> [] \<longrightarrow> (\<exists>l r. last kills = Call_kill l r \<and> tr_requested_kill_reason rec = Some r)) \<and>
    (tr_terminal_state rec = St_completed \<longrightarrow>
       kills = [] \<and> ou_exit_code (tr_usage rec) = Some 0 \<and> tr_execution_terminal_seen rec)"
proof (cases "valid_lifecycle_input input")
  case True
  show ?thesis
  proof (cases rule: lifecycle_cases [OF True, of env, case_names pre_aborted unowned destroyed executed])
    case (executed t l)
    show ?thesis
    proof (rule run_lease_shape [of env input l t])
      fix t1 t2 t3 d rs c0 c
      assume d: "decision_ok l d (map (Call_kill l) rs)"
        and r: "run_lease env input l t = record_terminal env
          (Call_create (li_access_grant input) # Call_execute l # map (Call_kill l) rs @ [Call_destroy l]) t3
          (executed_record env input l t t1 d c t3)"
      have "rec = executed_record env input l t t1 d c t3" using assms unfolding executed(3) r by auto
      moreover have "map (Call_kill l) rs = map (Call_kill l) rs' \<Longrightarrow> rs = rs'" for rs'
        by (metis list.inj_map_strong lifecycle_call.inject(3))
      moreover have "rs \<noteq> [] \<Longrightarrow> last (map (Call_kill l) rs) = Call_kill l (last rs)" by (simp add: last_map)
      ultimately show ?thesis using d unfolding executed(3) r by (auto simp: Let_def decision_ok_def)
    qed
  next
    case (destroyed t t' l cl q st ms)
    then show ?thesis using assms by (auto simp: Let_def)
  next
    case (unowned t q st)
    then show ?thesis using assms unowned by (auto simp: Let_def)
  next
    case (pre_aborted q st)
    then show ?thesis using assms by (auto simp: Let_def)
  qed
qed (use assms in simp)

lemma release_safe_record:
  assumes "Call_record rec \<in> set (lu_calls (run_terminal_lifecycle env input))" and "lc_release_safe (tr_cleanup rec)"
  shows "lu_calls (run_terminal_lifecycle env input) = [Call_record rec] \<or>
    (\<exists>l x. lease_created env l \<and> tr_lease_id rec = Some (sl_lease_id l) \<and>
       Call_destroy l \<in> set (lu_calls (run_terminal_lifecycle env input)) \<and>
       (snd (lv_destroy env) = Some (Destroy_done x) \<or> snd (lv_destroy env) = Some (Destroy_already x)) \<and>
       (Call_execute l \<notin> set (lu_calls (run_terminal_lifecycle env input)) \<or> lv_execute env = Execute_throws \<or>
         snd (lv_closed env) = Some () \<and> (\<exists>t. execution_promise env t \<noteq> [])))"
proof (cases "valid_lifecycle_input input")
  case True
  show ?thesis
  proof (cases rule: lifecycle_cases [OF True, of env, case_names pre_aborted unowned destroyed executed])
    case (executed t l)
    show ?thesis
    proof (rule run_lease_shape [of env input l t])
      fix t1 t2 t3 d rs c0 c
      assume c: "destroy_lease (lv_pick env 6) t1 (lv_destroy env) = (t2, c0)"
        and a: "await_stream_closed env t t2 c0 = (t3, c)"
        and r: "run_lease env input l t = record_terminal env
          (Call_create (li_access_grant input) # Call_execute l # map (Call_kill l) rs @ [Call_destroy l]) t3
          (executed_record env input l t t1 d c t3)"
      have rec: "rec = executed_record env input l t t1 d c t3" using assms(1) unfolding executed(3) r by auto
      then have "lc_release_safe c" using assms(2) by simp
      from await_stream_closed_result(2) [OF a this] destroy_lease_result(3) [OF c] executed(2) show ?thesis
        unfolding executed(3) r by (intro disjI2 exI [of _ l]) (auto simp: rec)
    qed
  next
    case (destroyed t t' l cl q st ms)
    then have "rec = unexecuted_record env input cl (Some (sl_lease_id l)) q st ms t'" using assms(1) by auto
    with assms(2) destroy_lease_result(3) [OF destroyed(3)] destroyed(2) show ?thesis
      unfolding destroyed(5) by (intro disjI2 exI [of _ l]) auto
  next
    case (unowned t q st)
    then show ?thesis using assms unowned by (auto simp: backend_owned_def)
  next
    case (pre_aborted q st)
    then show ?thesis using assms by auto
  qed
qed (use assms in simp)

text \<open>
  C9: A record that says the sandbox may be released is right: either no sandbox was ever asked for, or the
  backend confirmed that the run's own lease is destroyed, and the execution, where one was started, was
  closed and its stream read to its end.
\<close>

theorem release_safe_is_true:
  assumes "Call_record rec \<in> set (lu_calls (run_terminal_lifecycle env input))" and "lc_release_safe (tr_cleanup rec)"
  shows "lu_calls (run_terminal_lifecycle env input) = [Call_record rec] \<or>
    (\<exists>l x. lease_created env l \<and> tr_lease_id rec = Some (sl_lease_id l) \<and>
       Call_destroy l \<in> set (lu_calls (run_terminal_lifecycle env input)) \<and>
       (snd (lv_destroy env) = Some (Destroy_done x) \<or> snd (lv_destroy env) = Some (Destroy_already x)) \<and>
       (Call_execute l \<notin> set (lu_calls (run_terminal_lifecycle env input)) \<or> lv_execute env = Execute_throws \<or>
         snd (lv_closed env) = Some () \<and> (\<exists>t. execution_promise env t \<noteq> [])))"
  by (rule release_safe_record [OF assms])

section \<open>Measured usage\<close>

text \<open>The output of a stream up to its first other item.\<close>

fun stream_outputs :: "(nat \<times> stream_item) list \<Rightarrow> (output_stream \<times> string) list" where
  "stream_outputs ((t, Item_event (Output_event chunk _ stream)) # rest) = (stream, chunk) # stream_outputs rest"
| "stream_outputs _ = []"

definition measured :: "(output_stream \<times> string) list \<Rightarrow> execution_meter" where
  "measured outs =
     \<lparr>em_output_event_count = length outs,
      em_stderr_bytes = sum_list (map (\<lambda>(s, chunk). if s = Stderr then utf8_length chunk else 0) outs),
      em_stdout_bytes = sum_list (map (\<lambda>(s, chunk). if s = Stdout then utf8_length chunk else 0) outs)\<rparr>"

lemma count_fold:
  "foldl (\<lambda>m (s, chunk). count_output m s chunk) m outs =
     \<lparr>em_output_event_count = em_output_event_count m + em_output_event_count (measured outs),
      em_stderr_bytes = em_stderr_bytes m + em_stderr_bytes (measured outs),
      em_stdout_bytes = em_stdout_bytes m + em_stdout_bytes (measured outs)\<rparr>"
  by (induction outs arbitrary: m) (auto simp: measured_def count_output_def Let_def split: output_stream.split)

lemma count_fold_zero: "foldl (\<lambda>m (s, chunk). count_output m s chunk) zero_meter outs = measured outs"
  by (simp add: count_fold) (simp add: zero_meter_def measured_def)

lemma meter_at_prefix:
  "\<exists>k. meter_at T now items m = foldl (\<lambda>m (s, chunk). count_output m s chunk) m (take k (stream_outputs items))"
proof (induction T now items m rule: meter_at.induct)
  case (2 T now t item rest m)
  show ?case
  proof (cases "\<exists>chunk n stream. item = Item_event (Output_event chunk n stream) \<and> max now t \<le> T")
    case True
    then obtain chunk n stream where i: "item = Item_event (Output_event chunk n stream)" "max now t \<le> T" by blast
    then obtain k where "meter_at T (max now t) rest (count_output m stream chunk) =
        foldl (\<lambda>m (s, chunk). count_output m s chunk) (count_output m stream chunk) (take k (stream_outputs rest))"
      using 2 [of _ chunk n stream] by blast
    with i show ?thesis by (intro exI [of _ "Suc k"]) simp
  next
    case False
    then show ?thesis by (intro exI [of _ 0]) (auto split: stream_item.split execution_event.split)
  qed
qed simp

lemma consume_later: "consume_execution now items m = Some (i, ob) \<Longrightarrow> now \<le> i"
  by (induction now items m rule: consume_execution.induct)
    (auto simp: Let_def split: stream_item.splits execution_event.splits)

lemma consume_meter:
  assumes "consume_execution now items m = Some (i, ob)" and "i \<le> T"
  shows "meter_at T now items m = foldl (\<lambda>m (s, chunk). count_output m s chunk) m (stream_outputs items)"
  using assms
proof (induction now items m rule: consume_execution.induct)
  case (2 now t item rest m)
  show ?case
  proof (cases "\<exists>chunk n stream. item = Item_event (Output_event chunk n stream)")
    case True
    then obtain chunk n stream where e: "item = Item_event (Output_event chunk n stream)" by blast
    have c: "consume_execution (max now t) rest (count_output m stream chunk) = Some (i, ob)" using 2(2) e by (simp add: Let_def)
    have "max now t \<le> T" using consume_later [OF c] 2(3) by simp
    then show ?thesis using 2(1) [OF refl e refl c 2(3)] e by simp
  next
    case False
    then show ?thesis by (auto split: stream_item.split execution_event.split)
  qed
qed simp

text \<open>A decision that saw the end of the execution came after it.\<close>

lemma execution_promise_seen:
  assumes "(Some t, Won_execution ob) \<in> set (execution_promise env started)" and "eo_execution_terminal_seen ob"
  shows "lv_execute env = Executes \<and> consume_execution started (lv_stream env) zero_meter = Some (t, ob)"
  using assms by (auto simp: execution_promise_def empty_observation_def split: if_splits option.splits)

lemma kill_decision_unseen: "kill_decision env started pick kill now st reason = (t, d) \<Longrightarrow> \<not> eo_execution_terminal_seen d"
  by (auto simp: kill_decision_def empty_observation_def split: prod.splits)

lemma control_not_execution: "(t, Won_execution ob) \<notin> set (control_promise c)"
  by (auto simp: control_promise_def split: option.splits)

lemma decide_after_soft_seen:
  assumes "decide_after_soft env input lease started now k = (t, d, kills)" and "eo_execution_terminal_seen d"
  shows "lv_execute env = Executes \<and> (\<exists>i \<le> t. \<exists>ob. consume_execution started (lv_stream env) zero_meter = Some (i, ob))"
proof -
  let ?ps = "execution_promise env started @ control_promise (li_control input)"
  obtain i w where r: "race_by (lv_pick env 4) now ?ps (started + hard_timeout_ms) Won_hard_timeout = (i, w)" by force
  with assms obtain ob where w: "w = Won_execution ob" "t = i" "eo_execution_terminal_seen ob"
    by (auto simp: decide_after_soft_def dest: kill_decision_unseen split: race_winner.splits prod.splits)
  from race_by_winner [OF r] w obtain t' where "t' \<le> i" "(Some t', Won_execution ob) \<in> set (execution_promise env started)"
    using control_not_execution by auto
  with execution_promise_seen w show ?thesis by blast
qed

lemma decide_seen:
  assumes "decide env input lease started = (t, d, kills)" and "eo_execution_terminal_seen d"
  shows "lv_execute env = Executes \<and> (\<exists>i \<le> t. \<exists>ob. consume_execution started (lv_stream env) zero_meter = Some (i, ob))"
proof -
  let ?ps = "execution_promise env started @ [(Some (started + soft_timeout_ms), Won_soft_timeout)] @
    control_promise (li_control input)"
  obtain i w where r: "race_by (lv_pick env 2) started ?ps (started + hard_timeout_ms) Won_hard_timeout = (i, w)" by force
  obtain t' k where k: "request_kill (lv_pick env 3) i (lv_kill1 env) = (t', k)" by force
  consider ob where "w = Won_execution ob" "i \<le> t" "eo_execution_terminal_seen ob"
    | t'' kills' where "decide_after_soft env input lease started t' k = (t, d, kills')"
    using assms r k request_kill_result(1) [OF k]
    by (cases w) (auto simp: decide_def empty_observation_def dest: kill_decision_unseen split: if_splits prod.splits)
  then show ?thesis
  proof cases
    case (1 ob)
    from race_by_winner [OF r] 1 obtain t' where "t' \<le> i" "(Some t', Won_execution ob) \<in> set (execution_promise env started)"
      using control_not_execution by auto
    with execution_promise_seen 1 show ?thesis by (meson order_trans)
  qed (use assms(2) decide_after_soft_seen in blast)
qed

text \<open>
  The recorded usage is measured: its event count and its byte counts are those of an initial part of the
  output the execution delivered (UTF-8 bytes, by stream), and of all of it when the record says the
  end of the execution was seen.
\<close>

theorem usage_is_measured:
  assumes "Call_record rec \<in> set (lu_calls (run_terminal_lifecycle env input))"
  shows "\<exists>k. ou_meter (tr_usage rec) = measured (take k (stream_outputs (lv_stream env))) \<and>
    (tr_execution_terminal_seen rec \<longrightarrow> length (stream_outputs (lv_stream env)) \<le> k)"
proof (cases "valid_lifecycle_input input")
  case True
  have zero: "zero_meter = measured (take 0 (stream_outputs (lv_stream env)))" by (simp add: zero_meter_def measured_def)
  have unseen: "\<not> tr_execution_terminal_seen (unexecuted_record env input c l q st ms t)" for c l q st ms t
    by (simp add: unexecuted_record_def)
  show ?thesis
  proof (cases rule: lifecycle_cases [OF True, of env, case_names pre_aborted unowned destroyed executed])
    case (executed t l)
    show ?thesis
    proof (rule run_lease_shape [of env input l t])
      fix t1 t2 t3 d rs c0 c
      assume d: "decide env input l t = (t1, d, map (Call_kill l) rs)"
        and c: "destroy_lease (lv_pick env 6) t1 (lv_destroy env) = (t2, c0)"
        and a: "await_stream_closed env t t2 c0 = (t3, c)"
        and r: "run_lease env input l t = record_terminal env
          (Call_create (li_access_grant input) # Call_execute l # map (Call_kill l) rs @ [Call_destroy l]) t3
          (executed_record env input l t t1 d c t3)"
      have rec: "rec = executed_record env input l t t1 d c t3" using assms unfolding executed(3) r by auto
      have t13: "t1 \<le> t3" using destroy_lease_result(1) [OF c] await_stream_closed_result(1) [OF a] by simp
      show ?thesis
      proof (cases "eo_execution_terminal_seen d")
        case True
        from decide_seen [OF d True] obtain i ob where e: "lv_execute env = Executes" "i \<le> t1"
          "consume_execution t (lv_stream env) zero_meter = Some (i, ob)" by blast
        then have "live_meter env t t3 = measured (stream_outputs (lv_stream env))"
          using consume_meter [OF e(3), of t3] t13 by (simp add: live_meter_def count_fold_zero)
        then show ?thesis by (intro exI [of _ "length (stream_outputs (lv_stream env))"]) (simp add: rec)
      next
        case False
        obtain k where "live_meter env t t3 = measured (take k (stream_outputs (lv_stream env)))"
          using meter_at_prefix [of t3 t "lv_stream env" zero_meter] zero unfolding count_fold_zero
          by (metis live_meter_def)
        then show ?thesis using False by (intro exI [of _ k]) (simp add: rec)
      qed
    qed
  next
    case (pre_aborted q st)
    with assms unseen have "\<not> tr_execution_terminal_seen rec \<and> ou_meter (tr_usage rec) = zero_meter" by auto
    then show ?thesis using zero by metis
  next
    case (unowned t q st)
    with assms unseen have "\<not> tr_execution_terminal_seen rec \<and> ou_meter (tr_usage rec) = zero_meter" by auto
    then show ?thesis using zero by metis
  next
    case (destroyed t t' l cl q st ms)
    with assms unseen have "\<not> tr_execution_terminal_seen rec \<and> ou_meter (tr_usage rec) = zero_meter" by auto
    then show ?thesis using zero by metis
  qed
qed (use assms in simp)

section \<open>Sample lifecycle\<close>

definition sample_lifecycle_input :: lifecycle_input where
  "sample_lifecycle_input =
     \<lparr>li_access_grant = \<lparr>ag_layer = ''research'', ag_owner = Owner_run ''run-1'', ag_run_mode = ''runner_remote'',
        ag_runner_family = ''fastclaw'', ag_runner_id = ''fastclaw.personal-v0'',
        ag_contract_version = ''2026-07-10.agent-runner-selection.v0'',
        ag_source = ''agent_runner_selection'', ag_tenant_id = ''t1'', ag_user_id = ''u1''\<rparr>,
      li_control = Some (Ctl_tenant_kill, None), li_run_id = ''run-1''\<rparr>"

definition sample_lifecycle_env :: lifecycle_env where
  "sample_lifecycle_env =
     \<lparr>lv_clock = int, lv_pick = (\<lambda>_. 0),
      lv_create = (Some 100, Some (Created \<lparr>sl_access_grant = li_access_grant sample_lifecycle_input,
        sl_backend_id = ''cloudflare.sandbox-v0'', sl_lease_id = ''l1''\<rparr>)),
      lv_execute = Executes,
      lv_stream = [(200, Item_event (Output_event ''hi'' 0 Stdout)), (250, Item_event (Exit_event 0 1))],
      lv_closed = (Some 260, Some ()), lv_kill1 = (None, None), lv_kill2 = (None, None),
      lv_destroy = (Some 40, Some (Destroy_done ''l1'')), lv_recorded = True\<rparr>"

definition sample_terminal_record :: terminal_record where
  "sample_terminal_record = projr (lu_result (run_terminal_lifecycle sample_lifecycle_env sample_lifecycle_input))"

lemmas race_defs = race_by_def race_def race_ready_def race_first_def map_filter_simps bounded_operation_def Let_def

lemmas lifecycle_defs = run_terminal_lifecycle_def valid_run_id_def js_trim_def is_ws_def has_control_def is_control_def
  pre_aborted_reason_def create_attempt_def control_promise_def run_lease_def decide_def execution_promise_def
  count_output_def zero_meter_def destroy_lease_def await_stream_closed_def closed_operation_def cleanup_of_def

lemma sample_lifecycle_facts:
  "Call_record sample_terminal_record \<in> set (lu_calls (run_terminal_lifecycle sample_lifecycle_env sample_lifecycle_input)) \<and>
   lc_release_safe (tr_cleanup sample_terminal_record) \<and> tr_terminal_state sample_terminal_record = St_completed"
  by (simp add: sample_terminal_record_def sample_lifecycle_input_def sample_lifecycle_env_def lifecycle_defs race_defs deadlines)

lemmas sample_recorded = sample_lifecycle_facts [THEN conjunct1]

theorem kill_record_is_true_witness:
  "let kills = filter is_kill_call (lu_calls (run_terminal_lifecycle sample_lifecycle_env sample_lifecycle_input)) in
    (tr_kill_status sample_terminal_record = Tk_not_requested \<longleftrightarrow> kills = []) \<and> length kills \<le> 2 \<and>
    (kills \<noteq> [] \<longrightarrow> (\<exists>l r. last kills = Call_kill l r \<and> tr_requested_kill_reason sample_terminal_record = Some r)) \<and>
    (tr_terminal_state sample_terminal_record = St_completed \<longrightarrow>
       kills = [] \<and> ou_exit_code (tr_usage sample_terminal_record) = Some 0 \<and>
       tr_execution_terminal_seen sample_terminal_record)"
  by (rule kill_record_is_true [OF sample_recorded])

theorem release_safe_is_true_witness:
  "lu_calls (run_terminal_lifecycle sample_lifecycle_env sample_lifecycle_input) = [Call_record sample_terminal_record] \<or>
    (\<exists>l x. lease_created sample_lifecycle_env l \<and> tr_lease_id sample_terminal_record = Some (sl_lease_id l) \<and>
       Call_destroy l \<in> set (lu_calls (run_terminal_lifecycle sample_lifecycle_env sample_lifecycle_input)) \<and>
       (snd (lv_destroy sample_lifecycle_env) = Some (Destroy_done x) \<or>
        snd (lv_destroy sample_lifecycle_env) = Some (Destroy_already x)) \<and>
       (Call_execute l \<notin> set (lu_calls (run_terminal_lifecycle sample_lifecycle_env sample_lifecycle_input)) \<or>
         lv_execute sample_lifecycle_env = Execute_throws \<or>
         snd (lv_closed sample_lifecycle_env) = Some () \<and> (\<exists>t. execution_promise sample_lifecycle_env t \<noteq> [])))"
  by (rule release_safe_is_true [OF sample_recorded]) (simp add: sample_lifecycle_facts)

theorem usage_is_measured_witness:
  "\<exists>k. ou_meter (tr_usage sample_terminal_record) = measured (take k (stream_outputs (lv_stream sample_lifecycle_env))) \<and>
    (tr_execution_terminal_seen sample_terminal_record \<longrightarrow> length (stream_outputs (lv_stream sample_lifecycle_env)) \<le> k)"
  by (rule usage_is_measured [OF sample_recorded])

end
