(* ===== verification/Js_Date.thy ===== *)
theory Js_Date
  imports Js_Codec
begin

text \<open>
  Dates as the sources use them: a time value is a number of milliseconds since 1970 (an \<open>int\<close>),
  \<open>Date.prototype.toISOString\<close> is \<open>iso_text\<close>, and \<open>Date.parse\<close> on a string of the sources' pattern
  \<open>YYYY-MM-DDTHH:mm:ss(.sss)?Z\<close> is \<open>iso_value\<close>. The calendar is the one of ECMAScript
  (\<open>DayFromYear\<close>, \<open>MakeDay\<close>); a day of the month up to 31 is accepted in every month and carries over.
\<close>

section \<open>The calendar\<close>

definition day_from_year :: "int \<Rightarrow> int" where
  "day_from_year y = 365 * (y - 1970) + (y - 1969) div 4 - (y - 1901) div 100 + (y - 1601) div 400"

definition leap_year :: "int \<Rightarrow> bool" where
  "leap_year y \<longleftrightarrow> y mod 4 = 0 \<and> y mod 100 \<noteq> 0 \<or> y mod 400 = 0"

definition month_lengths :: "int \<Rightarrow> nat list" where
  "month_lengths y = [31, if leap_year y then 29 else 28, 31, 30, 31, 30, 31, 31, 30, 31, 30, 31]"

definition year_from_day :: "int \<Rightarrow> int" where
  "year_from_day d =
     (let y = 1970 + (400 * d) div 146097 in
      if d < day_from_year y then y - 1 else if day_from_year (y + 1) \<le> d then y + 1 else y)"

text \<open>Month and day of the month from the day of the year.\<close>

fun month_day :: "nat list \<Rightarrow> nat \<Rightarrow> nat \<times> nat" where
  "month_day [] d = (1, d + 1)"
| "month_day (l # ls) d = (if d < l then (1, d + 1) else (let (m, k) = month_day ls (d - l) in (m + 1, k)))"

definition make_day :: "int \<Rightarrow> nat \<Rightarrow> nat \<Rightarrow> int" where
  "make_day y m d = day_from_year y + int (sum_list (take (m - 1) (month_lengths y))) + int d - 1"

lemma div_bounds: "0 < (k::int) \<Longrightarrow> k * (a div k) \<le> a \<and> a < k * (a div k) + k"
  using mult_div_mod_eq [of k a] pos_mod_sign [of k a] pos_mod_bound [of k a] by linarith

lemma div_step: "0 < (k::int) \<Longrightarrow> (a + 1) div k = a div k + (if (a + 1) mod k = 0 then 1 else 0)"
proof -
  assume k: "0 < k"
  let ?q = "a div k" let ?r = "a mod k"
  have a: "a = k * ?q + ?r" "0 \<le> ?r" "?r < k" using k by simp_all
  show ?thesis
  proof (cases "?r = k - 1")
    case True
    then have "a + 1 = k * (?q + 1)" using a(1) by (simp add: distrib_left)
    then show ?thesis using k by simp
  next
    case False
    have e: "a + 1 = k * ?q + (?r + 1)" using a(1) by simp
    moreover have "0 \<le> ?r + 1" "?r + 1 < k" using a False by auto
    ultimately have "(a + 1) div k = ?q" "(a + 1) mod k = ?r + 1" by (rule int_div_pos_eq, rule int_mod_pos_eq)
    then show ?thesis using a(2) by simp
  qed
qed

lemma day_from_year_step: "day_from_year (y + 1) = day_from_year y + (if leap_year y then 366 else 365)"
proof -
  have "(y - 1969 + 1) div 4 = (y - 1969) div 4 + (if y mod 4 = 0 then 1 else 0)"
    using mod_mult_self1 [of y "- 492" 4] by (subst div_step) simp_all
  then have a: "(y + 1 - 1969) div 4 = (y - 1969) div 4 + (if y mod 4 = 0 then 1 else 0)" by (simp add: algebra_simps)
  have "(y - 1901 + 1) div 100 = (y - 1901) div 100 + (if y mod 100 = 0 then 1 else 0)"
    using mod_mult_self1 [of y "- 19" 100] by (subst div_step) simp_all
  then have b: "(y + 1 - 1901) div 100 = (y - 1901) div 100 + (if y mod 100 = 0 then 1 else 0)" by (simp add: algebra_simps)
  have "(y - 1601 + 1) div 400 = (y - 1601) div 400 + (if y mod 400 = 0 then 1 else 0)"
    using mod_mult_self1 [of y "- 4" 400] by (subst div_step) simp_all
  then have c: "(y + 1 - 1601) div 400 = (y - 1601) div 400 + (if y mod 400 = 0 then 1 else 0)" by (simp add: algebra_simps)
  have "y mod 400 = 0 \<Longrightarrow> y mod 100 = 0" using mod_mod_cancel [of 100 400 y] by simp
  moreover have "y mod 100 = 0 \<Longrightarrow> y mod 4 = 0" using mod_mod_cancel [of 4 100 y] by simp
  ultimately show ?thesis
    unfolding day_from_year_def leap_year_def a b c
    by (cases "y mod 4 = 0"; cases "y mod 100 = 0"; cases "y mod 400 = 0"; simp)
qed

lemma day_from_year_bounds:
  "146097 * (y - 1970) - 506 \<le> 400 * day_from_year y \<and> 400 * day_from_year y \<le> 146097 * (y - 1970) + 589"
proof -
  define a b c where "a = (y - 1969) div 4" and "b = (y - 1901) div 100" and "c = (y - 1601) div 400"
  have "4 * a \<le> y - 1969 \<and> y - 1969 < 4 * a + 4" unfolding a_def by (rule div_bounds) simp
  moreover have "100 * b \<le> y - 1901 \<and> y - 1901 < 100 * b + 100" unfolding b_def by (rule div_bounds) simp
  moreover have "400 * c \<le> y - 1601 \<and> y - 1601 < 400 * c + 400" unfolding c_def by (rule div_bounds) simp
  moreover have "day_from_year y = 365 * (y - 1970) + a - b + c" by (simp add: day_from_year_def a_def b_def c_def)
  ultimately show ?thesis by simp
qed

lemma year_from_day_correct: "day_from_year (year_from_day d) \<le> d \<and> d < day_from_year (year_from_day d + 1)"
proof -
  define y where "y = 1970 + (400 * d) div 146097"
  have "146097 * ((400 * d) div 146097) \<le> 400 * d \<and> 400 * d < 146097 * ((400 * d) div 146097) + 146097"
    by (rule div_bounds) simp
  then have y: "146097 * (y - 1970) \<le> 400 * d" "400 * d < 146097 * (y - 1970) + 146097" by (simp_all add: y_def)
  have "day_from_year (y - 1) \<le> d" using y conjunct2 [OF day_from_year_bounds [of "y - 1"]] by simp
  moreover have "d < day_from_year (y + 1 + 1)" using y conjunct1 [OF day_from_year_bounds [of "y + 1 + 1"]] by simp
  ultimately show ?thesis by (auto simp: year_from_day_def Let_def y_def [symmetric])
qed

lemma month_lengths_sum: "int (sum_list (month_lengths y)) = (if leap_year y then 366 else 365)"
  by (simp add: month_lengths_def)

lemma month_day_correct:
  "d < sum_list ls \<Longrightarrow> month_day ls d = (m, k) \<Longrightarrow>
     sum_list (take (m - 1) ls) + k = d + 1 \<and> 1 \<le> m \<and> m \<le> length ls \<and> 1 \<le> k \<and> k \<le> ls ! (m - 1)"
proof (induction ls arbitrary: d m k)
  case (Cons l ls)
  show ?case
  proof (cases "d < l")
    case False
    obtain m' k' where r: "month_day ls (d - l) = (m', k')" by force
    with Cons.prems False have m: "m = m' + 1" "k = k'" by auto
    have "d - l < sum_list ls" using Cons.prems(1) False by simp
    from Cons.IH [OF this r] m False show ?thesis by (cases m') auto
  qed (use Cons.prems in auto)
qed simp

section \<open>Time values and their text\<close>

abbreviation ms_per_day :: int where
  "ms_per_day \<equiv> 86400000"

definition pad_digits :: "nat \<Rightarrow> nat \<Rightarrow> string" where
  "pad_digits k n = replicate (k - length (nat_text n)) (CHR ''0'') @ nat_text n"

definition iso_year :: "int \<Rightarrow> string" where
  "iso_year y =
     (if 0 \<le> y \<and> y \<le> 9999 then pad_digits 4 (nat y)
      else (if y < 0 then CHR ''-'' else CHR ''+'') # pad_digits 6 (nat (abs y)))"

text \<open>The text of a time value; \<open>None\<close> (a \<open>RangeError\<close>) beyond the range of dates.\<close>

definition iso_text :: "int \<Rightarrow> string option" where
  "iso_text t =
     (if abs t \<le> 8640000000000000 then
        (let day = t div ms_per_day; r = nat (t mod ms_per_day); y = year_from_day day;
             (m, d) = month_day (month_lengths y) (nat (day - day_from_year y)) in
         Some (iso_year y @ ''-'' @ pad_digits 2 m @ ''-'' @ pad_digits 2 d @ ''T'' @ pad_digits 2 (r div 3600000) @ '':'' @
           pad_digits 2 (r div 60000 mod 60) @ '':'' @ pad_digits 2 (r div 1000 mod 60) @ ''.'' @
           pad_digits 3 (r mod 1000) @ ''Z''))
      else None)"

text \<open>The patterns, a \<open>d\<close> standing for a digit.\<close>

definition template_match :: "string \<Rightarrow> string \<Rightarrow> bool" where
  "template_match = list_all2 (\<lambda>t c. if t = CHR ''d'' then is_digit c else c = t)"

definition iso_pattern :: "string \<Rightarrow> bool" where
  "iso_pattern s \<longleftrightarrow> template_match ''dddd-dd-ddTdd:dd:ddZ'' s \<or> template_match ''dddd-dd-ddTdd:dd:dd.dddZ'' s"

definition digits_at :: "nat \<Rightarrow> nat \<Rightarrow> string \<Rightarrow> nat" where
  "digits_at i k s = digits_value (take k (drop i s))"

definition iso_value :: "string \<Rightarrow> int option" where
  "iso_value s =
     (if \<not> iso_pattern s then None
      else
        (let mo = digits_at 5 2 s; d = digits_at 8 2 s; h = digits_at 11 2 s; mi = digits_at 14 2 s;
             sec = digits_at 17 2 s; ms = (if length s = 24 then digits_at 20 3 s else 0) in
         if 1 \<le> mo \<and> mo \<le> 12 \<and> 1 \<le> d \<and> d \<le> 31 \<and> mi \<le> 59 \<and> sec \<le> 59 \<and>
           (h \<le> 23 \<or> h = 24 \<and> mi = 0 \<and> sec = 0 \<and> ms = 0)
         then Some (make_day (int (digits_at 0 4 s)) mo d * ms_per_day + int h * 3600000 + int mi * 60000 +
                int sec * 1000 + int ms)
         else None))"

definition is_iso_date :: "string \<Rightarrow> bool" where
  "is_iso_date s \<longleftrightarrow> iso_pattern s \<and> iso_value s \<noteq> None"

text \<open>
  \<open>Date.parse\<close>: the format of \<open>iso_value\<close>, and a date alone, which is its midnight. Any other text, the rarer
  forms of ECMAScript included, is read by the engine, the parameter \<open>legacy\<close>.
\<close>

definition date_parse :: "(string \<Rightarrow> int option) \<Rightarrow> string \<Rightarrow> int option" where
  "date_parse legacy s =
     (if iso_pattern s then iso_value s
      else if template_match ''dddd-dd-dd'' s then iso_value (s @ ''T00:00:00Z'')
      else legacy s)"

text \<open>A \<open>timestamptz\<close> as the database driver returns it: a date, or a text if it is configured so.\<close>

datatype pg_timestamp = Pg_date int | Pg_text string

section \<open>The text of a time value reads as that value\<close>

lemma template_length: "template_match t s \<Longrightarrow> length s = length t"
  by (simp add: template_match_def list_all2_lengthD [symmetric])

lemma template_append: "length t = length s \<Longrightarrow> template_match (t @ t') (s @ s') \<longleftrightarrow> template_match t s \<and> template_match t' s'"
  by (simp add: template_match_def list_all2_append)

lemma template_digits: "list_all is_digit s \<Longrightarrow> template_match (replicate (length s) (CHR ''d'')) s"
  by (induction s) (simp_all add: template_match_def)

lemma pad_digits_digits: "list_all is_digit (pad_digits k n)"
  using nat_text_digits [of n] by (auto simp: pad_digits_def is_digit_def list_all_iff)

lemma nat_text_length: "n < 10 ^ k \<Longrightarrow> 0 < k \<Longrightarrow> length (nat_text n) \<le> k"
proof (induction n arbitrary: k rule: nat_text.induct)
  case (1 n)
  show ?case
  proof (cases "n < 10")
    case False
    then obtain j where k: "k = Suc j" "0 < j" using 1(2,3) by (cases k; cases "k - 1") auto
    then have "n div 10 < 10 ^ j" using 1(2) by (simp add: div_less_iff_less_mult mult.commute)
    with 1(1) [OF False this k(2)] False k show ?thesis by (simp add: nat_text.simps [of n])
  qed (use 1 in \<open>simp add: nat_text.simps [of n]\<close>)
qed

lemma pad_digits_length: "n < 10 ^ k \<Longrightarrow> 0 < k \<Longrightarrow> length (pad_digits k n) = k"
  using nat_text_length [of n k] by (simp add: pad_digits_def)

lemma pad_digits_value: "digits_value (pad_digits k n) = n"
proof -
  have "digits_value (replicate j (CHR ''0'') @ s) = digits_value s" for j s
    by (induction j) (simp_all add: digits_value_def)
  then show ?thesis by (simp add: pad_digits_def nat_text_value)
qed

lemma digits_at_append: "digits_at i k (s @ t) = (if i < length s then digits_value (take k (drop i s @ t)) else digits_at (i - length s) k t)"
  by (simp add: digits_at_def)

lemma mixed_radix:
  "r = 1000 * a + x \<Longrightarrow> a = 60 * b + y \<Longrightarrow> b = 60 * c + z \<Longrightarrow> c * 3600000 + z * 60000 + y * 1000 + x = (r::nat)"
  by simp

lemma time_of_day: "(r::nat) div 3600000 * 3600000 + r div 60000 mod 60 * 60000 + r div 1000 mod 60 * 1000 + r mod 1000 = r"
proof -
  have d: "r div 60000 = r div 1000 div 60" "r div 3600000 = r div 1000 div 60 div 60" by (simp_all add: div_mult2_eq [symmetric])
  show ?thesis unfolding d by (rule mixed_radix [where a = "r div 1000" and b = "r div 1000 div 60"]) (simp_all only: mult_div_mod_eq)
qed

lemma iso_text_value:
  assumes "iso_text t = Some s" and "0 \<le> year_from_day (t div ms_per_day)" and "year_from_day (t div ms_per_day) \<le> 9999"
  shows "iso_value s = Some t"
proof -
  let ?day = "t div ms_per_day" let ?y = "year_from_day ?day" let ?r = "nat (t mod ms_per_day)"
  obtain m d where md: "month_day (month_lengths ?y) (nat (?day - day_from_year ?y)) = (m, d)" by force
  have doy: "0 \<le> ?day - day_from_year ?y" "?day - day_from_year ?y < int (sum_list (month_lengths ?y))"
    using year_from_day_correct [of ?day] unfolding month_lengths_sum day_from_year_step by simp_all
  then have doy': "nat (?day - day_from_year ?y) < sum_list (month_lengths ?y)" by (simp only: nat_less_iff)
  note md' = month_day_correct [OF doy' md]
  have len: "length (month_lengths ?y) = 12" by (simp add: month_lengths_def)
  have "list_all (\<lambda>l. l \<le> 31) (month_lengths ?y)" by (simp add: month_lengths_def)
  then have "month_lengths ?y ! (m - 1) \<le> 31" using md' len by (auto simp: list_all_length)
  with md' have d31: "d \<le> 31" by simp
  define Y M D H I S Z where "Y = pad_digits 4 (nat ?y)" and "M = pad_digits 2 m" and "D = pad_digits 2 d"
    and "H = pad_digits 2 (?r div 3600000)" and "I = pad_digits 2 (?r div 60000 mod 60)"
    and "S = pad_digits 2 (?r div 1000 mod 60)" and "Z = pad_digits 3 (?r mod 1000)"
  have r: "?r < 86400000" by (simp add: nat_less_iff)
  have h: "?r div 3600000 \<le> 23" using r by (simp add: div_le_mono [of ?r 86399999, simplified])
  have q: "q mod 60 < 100" for q :: nat by (rule less_trans [of _ 60]) simp_all
  have L: "length Y = 4" "length M = 2" "length D = 2" "length H = 2" "length I = 2" "length S = 2" "length Z = 3"
    using assms(2,3) md' len d31 h
    by (simp_all add: Y_def M_def D_def H_def I_def S_def Z_def pad_digits_length nat_less_iff q)
  have digits: "list_all is_digit Y" "list_all is_digit M" "list_all is_digit D" "list_all is_digit H"
    "list_all is_digit I" "list_all is_digit S" "list_all is_digit Z"
    unfolding Y_def M_def D_def H_def I_def S_def Z_def by (rule pad_digits_digits)+
  have vals: "digits_value Y = nat ?y" "digits_value M = m" "digits_value D = d" "digits_value H = ?r div 3600000"
    "digits_value I = ?r div 60000 mod 60" "digits_value S = ?r div 1000 mod 60" "digits_value Z = ?r mod 1000"
    by (simp_all add: Y_def M_def D_def H_def I_def S_def Z_def pad_digits_value)
  have s: "s = Y @ ''-'' @ M @ ''-'' @ D @ ''T'' @ H @ '':'' @ I @ '':'' @ S @ ''.'' @ Z @ ''Z''"
    using assms md by (simp add: iso_text_def iso_year_def Let_def Y_def M_def D_def H_def I_def S_def Z_def split: if_splits)
  have at: "digits_at 0 4 s = nat ?y" "digits_at 5 2 s = m" "digits_at 8 2 s = d" "digits_at 11 2 s = ?r div 3600000"
    "digits_at 14 2 s = ?r div 60000 mod 60" "digits_at 17 2 s = ?r div 1000 mod 60" "digits_at 20 3 s = ?r mod 1000"
    unfolding vals [symmetric] s by (simp_all add: digits_at_def L)
  have "template_match (replicate 4 (CHR ''d'') @ ''-'' @ replicate 2 (CHR ''d'') @ ''-'' @ replicate 2 (CHR ''d'') @ ''T'' @
      replicate 2 (CHR ''d'') @ '':'' @ replicate 2 (CHR ''d'') @ '':'' @ replicate 2 (CHR ''d'') @ ''.'' @
      replicate 3 (CHR ''d'') @ ''Z'') s"
    unfolding s using template_digits [OF digits(1)] template_digits [OF digits(2)] template_digits [OF digits(3)]
      template_digits [OF digits(4)] template_digits [OF digits(5)] template_digits [OF digits(6)] template_digits [OF digits(7)]
    by (simp only: L template_append length_replicate length_Cons list.size) (simp add: template_match_def)
  then have pattern: "iso_pattern s" by (simp add: iso_pattern_def numeral_eq_Suc)
  have "int ?r = t mod ms_per_day" by simp
  then have e: "int (?r div 3600000) * 3600000 + int (?r div 60000 mod 60) * 60000 + int (?r div 1000 mod 60) * 1000 +
      int (?r mod 1000) = t mod ms_per_day"
    using arg_cong [OF time_of_day [of ?r], of int] unfolding of_nat_add of_nat_mult by simp
  have day: "make_day (int (nat ?y)) m d = ?day"
  proof -
    have "int (sum_list (take (m - 1) (month_lengths ?y)) + d) = int (nat (?day - day_from_year ?y) + 1)"
      using md' by simp
    then have "int (sum_list (take (m - 1) (month_lengths ?y))) + int d = ?day - day_from_year ?y + 1"
      using doy(1) unfolding of_nat_add by simp
    then show ?thesis using assms(2) unfolding make_day_def by simp
  qed
  have t: "?day * ms_per_day + int (?r div 3600000) * 3600000 + int (?r div 60000 mod 60) * 60000 +
      int (?r div 1000 mod 60) * 1000 + int (?r mod 1000) = t"
    using e div_mult_mod_eq [of t ms_per_day] by linarith
  have q59: "q mod 60 \<le> 59" for q :: nat
    using mod_less_divisor [of 60 q] by simp
  have "length s = 24" using L s by simp
  moreover have "1 \<le> m \<and> m \<le> 12 \<and> 1 \<le> d \<and> d \<le> 31" using md' len d31 by simp
  ultimately show ?thesis
    using pattern h q59 by (simp only: iso_value_def at day Let_def) (simp, rule t)
qed

lemma year_from_day_range:
  assumes "0 \<le> d" and "d \<le> 2932896"
  shows "0 \<le> year_from_day d" and "year_from_day d \<le> 9999"
proof -
  let ?y = "year_from_day d"
  note c = year_from_day_correct [of d]
  show "0 \<le> ?y"
  proof (rule ccontr)
    assume "\<not> 0 \<le> ?y"
    then show False using c assms(1) conjunct2 [OF day_from_year_bounds [of "?y + 1"]] by simp
  qed
  have "?y \<noteq> 10000" using c assms(2) by (auto simp: day_from_year_def)
  moreover have "\<not> 10001 \<le> ?y" using c assms(2) conjunct1 [OF day_from_year_bounds [of ?y]] by simp
  ultimately show "?y \<le> 9999" by linarith
qed

text \<open>A time value from 1970 to 9999 reads back from its text.\<close>

lemma iso_roundtrip:
  assumes "iso_text t = Some s" and "0 \<le> t" and "t \<le> 253402300799999"
  shows "iso_value s = Some t"
proof -
  have "0 \<le> t div ms_per_day" using assms(2) by simp
  moreover have "t div ms_per_day \<le> 253402300799999 div ms_per_day" by (rule zdiv_mono1 [OF assms(3)]) simp
  ultimately show ?thesis using year_from_day_range [of "t div ms_per_day"] by (intro iso_text_value [OF assms(1)]) simp_all
qed

end
