(* ===== verification/Durable_Handoff.thy ===== *)
theory Durable_Handoff
  imports Sandbox_Backend Js_Date
begin

text \<open>
  The durable handoff of memory and artifacts out of a sandbox
  (\<open>packages/agent-runtime/src/durable-memory-artifact-handoff.ts\<close>): validation of the request and of
  the approval set, reading, scanning and storing of each approved candidate with compensation, and the destruction
  of the sandbox on every path.

  SHA-256 is the parameter \<open>sha\<close>. The object store and the record store are maps; each request to them is
  delivered, lost, or applied with its response lost. A record store refuses a second record of an id.
\<close>

section \<open>Data\<close>

definition handoff_contract_version :: string where
  "handoff_contract_version = ''2026-07-11.durable-memory-artifact-handoff.v0''"

definition handoff_max_candidates :: nat where
  "handoff_max_candidates = 16"

definition handoff_memory_max_bytes :: nat where
  "handoff_memory_max_bytes = 65536"

definition handoff_artifact_max_bytes :: nat where
  "handoff_artifact_max_bytes = 10485760"

record handoff_provenance =
  hv_generated_at :: string
  hv_runner_id :: string
  hv_source :: string
  hv_source_run_id :: string
  hv_tool_call_ids :: "string list"

record handoff_candidate =
  hc_candidate_id :: string
  hc_classification :: string
  hc_content_type :: string
  hc_evidence_ids :: "string list"
  hc_kind :: string
  hc_provenance :: handoff_provenance
  hc_retention_policy :: string
  hc_workspace_path :: string

datatype decision_status = Decision_approved | Decision_rejected string

record approval_decision =
  hd_approved_at :: string
  hd_approver :: string
  hd_candidate_id :: string
  hd_decision_id :: string
  hd_status :: decision_status

record approval_set =
  hs_decisions :: "approval_decision list"
  hs_run_id :: string
  hs_tenant_id :: string
  hs_user_id :: string

record clean_scan =
  cs_classification :: string
  cs_engine :: string
  cs_scanned_at :: string
  cs_signature_version :: string

datatype scan_result = Scan_clean clean_scan | Scan_error | Scan_unsafe

record handoff_record =
  hr_approved_at :: string
  hr_approver :: string
  hr_decision_id :: string
  hr_byte_size :: nat
  hr_classification :: string
  hr_content_hash_sha256 :: string
  hr_content_type :: string
  hr_created_at :: string
  hr_deleted_at :: "string option"
  hr_evidence_ids :: "string list"
  hr_expires_at :: "string option"
  hr_id :: string
  hr_kind :: string
  hr_lease_id :: string
  hr_owner_user_id :: string
  hr_provenance :: handoff_provenance
  hr_workspace_path :: string
  hr_retention_policy :: string
  hr_run_id :: string
  hr_scan :: clean_scan
  hr_storage_key :: string
  hr_tenant_id :: string

datatype reject_reason =
  Approval_rejected | Artifact_too_large | Empty_payload | File_read_failed | Memory_too_large | Object_write_failed
  | Record_write_failed | Scan_classification_mismatch | Scan_failed | Unsafe_payload

datatype item_result =
  Item_persisted string handoff_record
  | Item_rejected string reject_reason
  | Item_cleanup_required string string

datatype handoff_cleanup_status = Hc_already_destroyed | Hc_destroy_failed | Hc_destroyed

record handoff_cleanup =
  hk_lease_id :: string
  hk_release_safe :: bool
  hk_status :: handoff_cleanup_status

record handoff_identity =
  hi_run_id :: string
  hi_tenant_id :: string
  hi_user_id :: string

record handoff_result =
  ho_cleanup :: handoff_cleanup
  ho_items :: "item_result list"
  ho_release_safe :: bool
  ho_identity :: handoff_identity

datatype handoff_error =
  Approval_authority_failed handoff_cleanup
  | Approval_contract_invalid handoff_cleanup
  | Handoff_processing_failed handoff_cleanup
  | Handoff_invalid_input handoff_cleanup

section \<open>Validation\<close>

definition safe_segment_char :: "char \<Rightarrow> bool" where
  "safe_segment_char c \<longleftrightarrow> is_alnum c \<or> c \<in> {CHR ''.'', CHR ''_'', CHR ''-''}"

definition is_safe_segment :: "string \<Rightarrow> bool" where
  "is_safe_segment v \<longleftrightarrow>
     1 \<le> length v \<and> length v \<le> 128 \<and> list_all safe_segment_char v \<and> v \<noteq> ''.'' \<and> v \<noteq> ''..''"

definition is_opaque_text :: "string \<Rightarrow> bool" where
  "is_opaque_text v \<longleftrightarrow> 0 < length v \<and> length v \<le> 256 \<and> js_trim v = v \<and> \<not> has_control v"

definition media_char :: "char \<Rightarrow> bool" where
  "media_char c \<longleftrightarrow> is_lower c \<or> is_digit c \<or>
     c \<in> {CHR ''!'', CHR ''#'', CHR ''$'', CHR ''&'', CHR ''^'', CHR ''_'', CHR ''.'', CHR ''+'', CHR ''-''}"

definition media_token :: "string \<Rightarrow> bool" where
  "media_token t \<longleftrightarrow>
     (case t of [] \<Rightarrow> False | c # cs \<Rightarrow> (is_lower c \<or> is_digit c) \<and> list_all media_char cs \<and> length cs \<le> 126)"

definition content_type_pattern :: "string \<Rightarrow> bool" where
  "content_type_pattern v \<longleftrightarrow>
     (case split_on (CHR ''/'') v of [a, b] \<Rightarrow> media_token a \<and> media_token b | _ \<Rightarrow> False)"

definition allowed_kind :: "string \<Rightarrow> bool" where
  "allowed_kind k \<longleftrightarrow> \<not> (k \<noteq> ''artifact'' \<and> k \<noteq> ''memory'')"

definition allowed_classification :: "string \<Rightarrow> bool" where
  "allowed_classification c \<longleftrightarrow>
     \<not> (c \<noteq> ''public_derived'' \<and> c \<noteq> ''tenant_confidential'' \<and> c \<noteq> ''user_private'')"

definition allowed_retention :: "string \<Rightarrow> bool" where
  "allowed_retention r \<longleftrightarrow> \<not> (r \<noteq> ''temporary_30d'' \<and> r \<noteq> ''user_managed'')"

definition valid_candidate :: "handoff_candidate \<Rightarrow> string \<Rightarrow> bool" where
  "valid_candidate c run_id \<longleftrightarrow>
     is_safe_segment (hc_candidate_id c) \<and>
     content_type_pattern (hc_content_type c) \<and> length (hc_content_type c) \<le> 255 \<and>
     allowed_kind (hc_kind c) \<and> allowed_classification (hc_classification c) \<and>
     allowed_retention (hc_retention_policy c) \<and>
     hv_source (hc_provenance c) = ''sandbox'' \<and> hv_runner_id (hc_provenance c) = ''fastclaw.personal-v0'' \<and>
     hv_source_run_id (hc_provenance c) = run_id \<and> is_iso_date (hv_generated_at (hc_provenance c)) \<and>
     list_all is_opaque_text (hv_tool_call_ids (hc_provenance c)) \<and>
     hc_evidence_ids c \<noteq> [] \<and> list_all is_opaque_text (hc_evidence_ids c)"

fun valid_candidates :: "string \<Rightarrow> string list \<Rightarrow> handoff_candidate list \<Rightarrow> bool" where
  "valid_candidates run_id seen [] = True"
| "valid_candidates run_id seen (c # cs) =
     (valid_candidate c run_id \<and> hc_candidate_id c \<notin> set seen \<and> valid_candidates run_id (hc_candidate_id c # seen) cs)"

definition validate_handoff_input :: "sandbox_lease \<Rightarrow> handoff_candidate list \<Rightarrow> handoff_identity option" where
  "validate_handoff_input lease candidates =
     (let g = sl_access_grant lease in
      case ag_owner g of
        Owner_session _ \<Rightarrow> None
      | Owner_run run_id \<Rightarrow>
          if is_safe_segment run_id \<and> is_safe_segment (ag_tenant_id g) \<and> is_safe_segment (ag_user_id g) \<and>
            is_safe_segment (sl_lease_id lease) \<and>
            \<not> (length candidates = 0 \<or> handoff_max_candidates < length candidates) \<and>
            valid_candidates run_id [] candidates
          then Some \<lparr>hi_run_id = run_id, hi_tenant_id = ag_tenant_id g, hi_user_id = ag_user_id g\<rparr>
          else None)"

definition valid_decision :: "string list \<Rightarrow> approval_decision \<Rightarrow> bool" where
  "valid_decision expected d \<longleftrightarrow>
     hd_candidate_id d \<in> set expected \<and> is_opaque_text (hd_approver d) \<and> is_opaque_text (hd_decision_id d) \<and>
     is_iso_date (hd_approved_at d) \<and>
     (case hd_status d of Decision_rejected reason \<Rightarrow> is_opaque_text reason | Decision_approved \<Rightarrow> True)"

fun collect_decisions ::
  "string list \<Rightarrow> (string \<rightharpoonup> approval_decision) \<Rightarrow> approval_decision list \<Rightarrow> (string \<rightharpoonup> approval_decision) option" where
  "collect_decisions expected m [] = Some m"
| "collect_decisions expected m (d # ds) =
     (if valid_decision expected d \<and> m (hd_candidate_id d) = None then
        collect_decisions expected (m(hd_candidate_id d \<mapsto> d)) ds
      else None)"

definition validate_approval_set ::
  "approval_set \<Rightarrow> handoff_identity \<Rightarrow> handoff_candidate list \<Rightarrow> (string \<rightharpoonup> approval_decision) option" where
  "validate_approval_set a i candidates =
     (if hs_run_id a \<noteq> hi_run_id i \<or> hs_tenant_id a \<noteq> hi_tenant_id i \<or> hs_user_id a \<noteq> hi_user_id i \<or>
        length (hs_decisions a) \<noteq> length candidates then None
      else collect_decisions (map hc_candidate_id candidates) Map.empty (hs_decisions a))"

section \<open>Stores\<close>

record handoff_store =
  st_objects :: "string \<rightharpoonup> bytes \<times> string"
  st_records :: "string \<rightharpoonup> handoff_record"

definition object_put :: "delivery \<Rightarrow> string \<Rightarrow> bytes \<Rightarrow> string \<Rightarrow> handoff_store \<Rightarrow> bool \<times> handoff_store" where
  "object_put d key content ctype st =
     (d = Delivered, if d = Request_lost then st else st\<lparr>st_objects := (st_objects st)(key \<mapsto> (content, ctype))\<rparr>)"

definition object_delete :: "delivery \<Rightarrow> string \<Rightarrow> handoff_store \<Rightarrow> bool \<times> handoff_store" where
  "object_delete d key st =
     (d = Delivered, if d = Request_lost then st else st\<lparr>st_objects := (st_objects st)(key := None)\<rparr>)"

definition record_insert :: "delivery \<Rightarrow> handoff_record \<Rightarrow> handoff_store \<Rightarrow> bool \<times> handoff_store" where
  "record_insert d r st =
     (if d = Request_lost \<or> st_records st (hr_id r) \<noteq> None then (False, st)
      else (d = Delivered, st\<lparr>st_records := (st_records st)(hr_id r \<mapsto> r)\<rparr>))"

definition find_active ::
  "(handoff_record \<Rightarrow> bool) \<Rightarrow> string \<Rightarrow> string \<Rightarrow> handoff_store \<Rightarrow> handoff_record option" where
  "find_active expired tenant_id hid st =
     (case st_records st hid of
        Some r \<Rightarrow> if hr_tenant_id r = tenant_id \<and> hr_deleted_at r = None \<and> \<not> expired r then Some r else None
      | None \<Rightarrow> None)"

text \<open>An insertion that was applied, seen from the store.\<close>

interpretation handoff_records: first_write_store st_records hr_id "\<lambda>r st. snd (record_insert Delivered r st)"
  by unfold_locales (auto simp: record_insert_def)

lemma record_insert_applied:
  "snd (record_insert d r st) = (if d = Request_lost then st else snd (record_insert Delivered r st))"
  by (simp add: record_insert_def)

lemma record_insert_keeps: "st_records st k = Some q \<Longrightarrow> st_records (snd (record_insert d r st)) k = Some q"
  by (simp add: record_insert_applied [of d] handoff_records.insert_once_keeps)

section \<open>One candidate\<close>

definition sha256_text :: "(bytes \<Rightarrow> bytes) \<Rightarrow> bytes \<Rightarrow> string" where
  "sha256_text sha content = ''sha256:'' @ bytes_to_hex (sha content)"

definition handoff_storage_key :: "string \<Rightarrow> string \<Rightarrow> string \<Rightarrow> handoff_identity \<Rightarrow> string" where
  "handoff_storage_key hash hid kind i =
     ''agent-handoff/v0/'' @ hi_tenant_id i @ ''/'' @ hi_user_id i @ ''/'' @ hi_run_id i @ ''/'' @ kind @ ''/'' @ hid @ ''-'' @
     drop (length ''sha256:'') hash"

definition expires_at :: "string \<Rightarrow> int \<Rightarrow> string option option" where
  "expires_at policy created_at =
     (if policy = ''temporary_30d'' then map_option Some (iso_text (created_at + 30 * 24 * 60 * 60 * 1000)) else Some None)"

definition max_handoff_bytes :: "string \<Rightarrow> nat" where
  "max_handoff_bytes kind = (if kind = ''memory'' then handoff_memory_max_bytes else handoff_artifact_max_bytes)"

definition handoff_record_id ::
  "(bytes \<Rightarrow> bytes) \<Rightarrow> handoff_identity \<Rightarrow> handoff_candidate \<Rightarrow> approval_decision \<Rightarrow> string \<Rightarrow> string \<Rightarrow> string" where
  "handoff_record_id sha i c d created content_hash =
     ''handoff_'' @ drop (length ''sha256:'') (sha256_text sha (utf8_encode (join_with (CHR 0x00)
       [hi_tenant_id i, hi_user_id i, hi_run_id i, hc_candidate_id c, hc_kind c, hc_classification c, hc_content_type c,
        hc_retention_policy c, hd_decision_id d, created, content_hash])))"

text \<open>The record of a candidate; \<open>None\<close> where a date is out of range and its text throws.\<close>

definition handoff_record_of ::
  "(bytes \<Rightarrow> bytes) \<Rightarrow> sandbox_lease \<Rightarrow> handoff_identity \<Rightarrow> handoff_candidate \<Rightarrow> approval_decision \<Rightarrow> bytes \<Rightarrow> clean_scan
    \<Rightarrow> int \<Rightarrow> handoff_record option" where
  "handoff_record_of sha lease i c d content scan now =
     (case (iso_text now, expires_at (hc_retention_policy c) now) of
        (Some created, Some expires) \<Rightarrow>
          (let hash = sha256_text sha content; hid = handoff_record_id sha i c d created hash in
           Some \<lparr>hr_approved_at = hd_approved_at d, hr_approver = hd_approver d, hr_decision_id = hd_decision_id d,
             hr_byte_size = length content, hr_classification = hc_classification c, hr_content_hash_sha256 = hash,
             hr_content_type = hc_content_type c, hr_created_at = created, hr_deleted_at = None,
             hr_evidence_ids = hc_evidence_ids c, hr_expires_at = expires, hr_id = hid, hr_kind = hc_kind c,
             hr_lease_id = sl_lease_id lease, hr_owner_user_id = hi_user_id i, hr_provenance = hc_provenance c,
             hr_workspace_path = hc_workspace_path c, hr_retention_policy = hc_retention_policy c,
             hr_run_id = hi_run_id i, hr_scan = scan, hr_storage_key = handoff_storage_key hash hid (hc_kind c) i,
             hr_tenant_id = hi_tenant_id i\<rparr>)
      | _ \<Rightarrow> None)"

text \<open>The outcomes of the calls made for a candidate; \<open>None\<close> is a rejected promise.\<close>

record item_env =
  ie_read :: "read_result option"
  ie_scan :: "scan_result option"
  ie_now :: int
  ie_put :: delivery
  ie_put_delete :: delivery
  ie_insert :: delivery
  ie_find :: bool
  ie_expired :: "handoff_record \<Rightarrow> bool"
  ie_delete :: delivery

definition same_handoff :: "handoff_record \<Rightarrow> handoff_record \<Rightarrow> bool" where
  "same_handoff existing r \<longleftrightarrow>
     hr_storage_key existing = hr_storage_key r \<and> hr_content_hash_sha256 existing = hr_content_hash_sha256 r \<and>
     hr_owner_user_id existing = hr_owner_user_id r \<and> hr_run_id existing = hr_run_id r"

definition store_candidate ::
  "item_env \<Rightarrow> string \<Rightarrow> handoff_record \<Rightarrow> bytes \<Rightarrow> handoff_store \<Rightarrow> item_result \<times> handoff_store" where
  "store_candidate env cid r content st =
     (let key = hr_storage_key r; (put, st1) = object_put (ie_put env) key content (hr_content_type r) st in
      if \<not> put then
        (let (deleted, st2) = object_delete (ie_put_delete env) key st1 in
         (if deleted then Item_rejected cid Object_write_failed else Item_cleanup_required cid key, st2))
      else
        (let (inserted, st2) = record_insert (ie_insert env) r st1 in
         if inserted then (Item_persisted cid r, st2)
         else if \<not> ie_find env then (Item_cleanup_required cid key, st2)
         else
           (case find_active (ie_expired env) (hr_tenant_id r) (hr_id r) st2 of
              Some existing \<Rightarrow>
                (if same_handoff existing r then Item_persisted cid existing else Item_cleanup_required cid key, st2)
            | None \<Rightarrow>
                (let (deleted, st3) = object_delete (ie_delete env) key st2 in
                 (if deleted then Item_rejected cid Record_write_failed else Item_cleanup_required cid key, st3)))))"

definition process_approved_candidate ::
  "(bytes \<Rightarrow> bytes) \<Rightarrow> item_env \<Rightarrow> sandbox_lease \<Rightarrow> handoff_identity \<Rightarrow> handoff_candidate \<Rightarrow> approval_decision
    \<Rightarrow> handoff_store \<Rightarrow> item_result option \<times> handoff_store" where
  "process_approved_candidate sha env lease i c d st =
     (let cid = hc_candidate_id c; reject = (\<lambda>reason. (Some (Item_rejected cid reason), st)) in
      case ie_read env of
        Some (Read_done content _ _) \<Rightarrow>
          if length content = 0 then reject Empty_payload
          else if max_handoff_bytes (hc_kind c) < length content then
            reject (if hc_kind c = ''memory'' then Memory_too_large else Artifact_too_large)
          else
            (case ie_scan env of
               None \<Rightarrow> reject Scan_failed
             | Some Scan_error \<Rightarrow> reject Scan_failed
             | Some Scan_unsafe \<Rightarrow> reject Unsafe_payload
             | Some (Scan_clean scan) \<Rightarrow>
                 if cs_classification scan \<noteq> hc_classification c \<or> \<not> is_opaque_text (cs_engine scan) \<or>
                   \<not> is_opaque_text (cs_signature_version scan) \<or> \<not> is_iso_date (cs_scanned_at scan)
                 then reject Scan_classification_mismatch
                 else
                   (case handoff_record_of sha lease i c d content scan (ie_now env) of
                      None \<Rightarrow> (None, st)
                    | Some r \<Rightarrow> map_prod Some id (store_candidate env cid r content st)))
      | _ \<Rightarrow> reject File_read_failed)"

section \<open>The handoff\<close>

record handoff_env =
  he_authority :: "approval_set option"
  he_items :: "nat \<Rightarrow> item_env"
  he_destroy :: "destroy_result option"

definition cleanup_sandbox :: "handoff_env \<Rightarrow> sandbox_lease \<Rightarrow> handoff_cleanup" where
  "cleanup_sandbox env lease =
     (let (safe, status) =
        (case he_destroy env of
           Some (Destroy_done _) \<Rightarrow> (True, Hc_destroyed)
         | Some (Destroy_already _) \<Rightarrow> (True, Hc_already_destroyed)
         | _ \<Rightarrow> (False, Hc_destroy_failed)) in
      \<lparr>hk_lease_id = sl_lease_id lease, hk_release_safe = safe, hk_status = status\<rparr>)"

text \<open>The loop over the candidates; the flag tells whether it threw.\<close>

fun process_candidates ::
  "(bytes \<Rightarrow> bytes) \<Rightarrow> handoff_env \<Rightarrow> sandbox_lease \<Rightarrow> handoff_identity \<Rightarrow> (string \<rightharpoonup> approval_decision) \<Rightarrow> nat
    \<Rightarrow> handoff_candidate list \<Rightarrow> handoff_store \<Rightarrow> bool \<times> item_result list \<times> handoff_store" where
  "process_candidates sha env lease i ds n [] st = (False, [], st)"
| "process_candidates sha env lease i ds n (c # cs) st =
     (case ds (hc_candidate_id c) of
        None \<Rightarrow> (True, [], st)
      | Some d \<Rightarrow>
          (let (r, st1) = (case hd_status d of
                 Decision_rejected _ \<Rightarrow> (Some (Item_rejected (hc_candidate_id c) Approval_rejected), st)
               | Decision_approved \<Rightarrow> process_approved_candidate sha (he_items env n) lease i c d st) in
           case r of
             None \<Rightarrow> (True, [], st1)
           | Some item \<Rightarrow>
               (let (threw, items, st2) = process_candidates sha env lease i ds (n + 1) cs st1 in
                (threw, item # items, st2))))"

definition cleanup_required :: "item_result \<Rightarrow> bool" where
  "cleanup_required item \<longleftrightarrow> (case item of Item_cleanup_required _ _ \<Rightarrow> True | _ \<Rightarrow> False)"

text \<open>With the result, the leases whose destruction was asked for.\<close>

definition handoff_and_destroy_sandbox_outputs ::
  "(bytes \<Rightarrow> bytes) \<Rightarrow> handoff_env \<Rightarrow> sandbox_lease \<Rightarrow> handoff_candidate list \<Rightarrow> handoff_store
    \<Rightarrow> (handoff_error + handoff_result) \<times> sandbox_lease list \<times> handoff_store" where
  "handoff_and_destroy_sandbox_outputs sha env lease candidates st =
     (let cleanup = cleanup_sandbox env lease in
      case validate_handoff_input lease candidates of
        None \<Rightarrow> (Inl (Handoff_invalid_input cleanup), [lease], st)
      | Some i \<Rightarrow>
          (case he_authority env of
             None \<Rightarrow> (Inl (Approval_authority_failed cleanup), [lease], st)
           | Some approval \<Rightarrow>
               (case validate_approval_set approval i candidates of
                  None \<Rightarrow> (Inl (Approval_contract_invalid cleanup), [lease], st)
                | Some ds \<Rightarrow>
                    (let (threw, items, st') = process_candidates sha env lease i ds 0 candidates st in
                     (if threw then Inl (Handoff_processing_failed cleanup)
                      else Inr \<lparr>ho_cleanup = cleanup, ho_items = items,
                        ho_release_safe = (hk_release_safe cleanup \<and> list_all (\<lambda>x. \<not> cleanup_required x) items),
                        ho_identity = i\<rparr>,
                      [lease], st')))))"

section \<open>Reading a handoff\<close>

text \<open>For whatever the record store finds and the object store gets.\<close>

definition read_durable_handoff ::
  "(string \<Rightarrow> string \<Rightarrow> handoff_record option) \<Rightarrow> (string \<Rightarrow> bytes option) \<Rightarrow> string \<Rightarrow> string
    \<Rightarrow> (bytes \<times> handoff_record) option" where
  "read_durable_handoff find_record get tenant_id hid =
     (if \<not> is_safe_segment hid \<or> \<not> is_safe_segment tenant_id then None
      else
        (case find_record tenant_id hid of
           None \<Rightarrow> None
         | Some r \<Rightarrow>
             if hr_tenant_id r \<noteq> tenant_id \<or> \<not> starts_with (''agent-handoff/v0/'' @ tenant_id @ ''/'') (hr_storage_key r) then None
             else map_option (\<lambda>content. (content, r)) (get (hr_storage_key r))))"

section \<open>Storing a candidate\<close>

lemmas store_op_defs = object_put_def object_delete_def record_insert_def find_active_def

lemma store_candidate_outcome:
  "let (item, st') = store_candidate env cid r content st; key = hr_storage_key r in
   case item of
     Item_persisted c r' \<Rightarrow> c = cid \<and> st_objects st' key = Some (content, hr_content_type r) \<and>
       st_records st' (hr_id r) = Some r' \<and> same_handoff r' r
   | Item_rejected c _ \<Rightarrow> c = cid \<and> st_objects st' key = None \<and>
       (st_records st' = st_records st \<or> find_active (ie_expired env) (hr_tenant_id r) (hr_id r) st' = None)
   | Item_cleanup_required c k \<Rightarrow> c = cid \<and> k = key"
proof (cases "ie_put env = Delivered")
  case False
  then show ?thesis by (simp add: store_candidate_def store_op_defs Let_def)
next
  case put: True
  let ?st1 = "st\<lparr>st_objects := (st_objects st)(hr_storage_key r \<mapsto> (content, hr_content_type r))\<rparr>"
  obtain ok st2 where i: "record_insert (ie_insert env) r ?st1 = (ok, st2)" by force
  then have o: "st_objects st2 = st_objects ?st1" by (auto simp: record_insert_def split: if_splits)
  show ?thesis
  proof (cases "ok \<or> \<not> ie_find env")
    case True
    then show ?thesis using put i
      by (auto simp: store_candidate_def object_put_def Let_def same_handoff_def record_insert_def split: if_splits)
  next
    case False
    show ?thesis
    proof (cases "find_active (ie_expired env) (hr_tenant_id r) (hr_id r) st2")
      case None
      with put i False show ?thesis
        by (auto simp: store_candidate_def object_put_def object_delete_def Let_def find_active_def split: option.splits if_splits)
    next
      case (Some existing)
      then have "st_records st2 (hr_id r) = Some existing" by (auto simp: find_active_def split: option.splits if_splits)
      with put i False Some o show ?thesis by (auto simp: store_candidate_def object_put_def Let_def)
    qed
  qed
qed

lemma process_approved_cases:
  assumes "process_approved_candidate sha env lease i c d st = (Some item, st')"
  obtains (rejected) reason where "item = Item_rejected (hc_candidate_id c) reason" "st' = st"
  | (stored) content l p scan r where "ie_read env = Some (Read_done content l p)" "content \<noteq> []"
      "length content \<le> max_handoff_bytes (hc_kind c)" "ie_scan env = Some (Scan_clean scan)"
      "cs_classification scan = hc_classification c" "is_opaque_text (cs_engine scan)" "is_iso_date (cs_scanned_at scan)"
      "handoff_record_of sha lease i c d content scan (ie_now env) = Some r"
      "store_candidate env (hc_candidate_id c) r content st = (item, st')"
  using assms
  by (auto simp: process_approved_candidate_def Let_def not_less map_prod_def
      split: option.splits read_result.splits if_splits scan_result.splits prod.splits)

lemma handoff_record_of_fields:
  assumes "handoff_record_of sha lease i c d content scan now = Some r"
  shows "hr_content_hash_sha256 r = sha256_text sha content" "hr_owner_user_id r = hi_user_id i" "hr_run_id r = hi_run_id i"
    "hr_tenant_id r = hi_tenant_id i" "hr_content_type r = hc_content_type c" "hr_deleted_at r = None"
    "hr_storage_key r = handoff_storage_key (sha256_text sha content) (hr_id r) (hc_kind c) i"
    "\<exists>created. iso_text now = Some created \<and> hr_created_at r = created \<and> expires_at (hc_retention_policy c) now = Some (hr_expires_at r) \<and>
       hr_id r = handoff_record_id sha i c d created (sha256_text sha content)"
  using assms by (auto simp: handoff_record_of_def Let_def split: option.splits)

definition persists :: "(bytes \<Rightarrow> bytes) \<Rightarrow> item_env \<Rightarrow> handoff_identity \<Rightarrow> handoff_candidate \<Rightarrow> handoff_record \<Rightarrow> bool" where
  "persists sha env i c r \<longleftrightarrow>
     (\<exists>content l p scan. ie_read env = Some (Read_done content l p) \<and> content \<noteq> [] \<and>
        length content \<le> max_handoff_bytes (hc_kind c) \<and> ie_scan env = Some (Scan_clean scan) \<and>
        cs_classification scan = hc_classification c \<and> hr_content_hash_sha256 r = sha256_text sha content \<and>
        hr_owner_user_id r = hi_user_id i \<and> hr_run_id r = hi_run_id i)"

lemma process_persists:
  assumes "process_approved_candidate sha env lease i c d st = (Some (Item_persisted cid r), st')"
  shows "cid = hc_candidate_id c \<and> persists sha env i c r"
proof (rule process_approved_cases [OF assms])
  fix content l p scan r'
  assume read: "ie_read env = Some (Read_done content l p)" "content \<noteq> []"
      "length content \<le> max_handoff_bytes (hc_kind c)" "ie_scan env = Some (Scan_clean scan)"
      "cs_classification scan = hc_classification c"
    and r: "handoff_record_of sha lease i c d content scan (ie_now env) = Some r'"
    and s: "store_candidate env (hc_candidate_id c) r' content st = (Item_persisted cid r, st')"
  from store_candidate_outcome [of env "hc_candidate_id c" r' content st] s
  have "cid = hc_candidate_id c" "same_handoff r r'" by (simp_all add: Let_def)
  with handoff_record_of_fields [OF r] read show ?thesis by (auto simp: persists_def same_handoff_def)
qed simp

text \<open>
  C22: Storing a candidate ends in one of three ways, whichever requests or responses of the stores are lost.
  It is reported persisted, and then the object is stored and a record of the same object, hash, owner and run
  exists; or it is reported rejected, and then the object is gone and no active record of its id was added; or its
  key is reported for cleanup. In particular no object is left behind unreported.
\<close>

theorem stored_or_compensated:
  "let (item, st') = store_candidate env cid r content st; key = hr_storage_key r in
   case item of
     Item_persisted c r' \<Rightarrow> c = cid \<and> st_objects st' key = Some (content, hr_content_type r) \<and>
       st_records st' (hr_id r) = Some r' \<and> same_handoff r' r
   | Item_rejected c _ \<Rightarrow> c = cid \<and> st_objects st' key = None \<and>
       (st_records st' = st_records st \<or> find_active (ie_expired env) (hr_tenant_id r) (hr_id r) st' = None)
   | Item_cleanup_required c k \<Rightarrow> c = cid \<and> k = key"
  by (rule store_candidate_outcome)

section \<open>Approval\<close>

lemma collect_decisions_from:
  assumes "collect_decisions expected m ds = Some m'" and "m' cid = Some d"
  shows "m cid = Some d \<or> d \<in> set ds \<and> hd_candidate_id d = cid"
  using assms by (induction expected m ds rule: collect_decisions.induct) (auto split: if_splits)

lemma valid_candidates_all: "valid_candidates run_id seen cs \<Longrightarrow> c \<in> set cs \<Longrightarrow> valid_candidate c run_id"
  by (induction run_id seen cs rule: valid_candidates.induct) auto

lemma valid_candidates_distinct:
  "valid_candidates run_id seen cs \<Longrightarrow> distinct (map hc_candidate_id cs) \<and> set (map hc_candidate_id cs) \<inter> set seen = {}"
  by (induction run_id seen cs rule: valid_candidates.induct) auto

fun item_candidate :: "item_result \<Rightarrow> string" where
  "item_candidate (Item_persisted c _) = c"
| "item_candidate (Item_rejected c _) = c"
| "item_candidate (Item_cleanup_required c _) = c"

lemma process_approved_item:
  assumes "process_approved_candidate sha env lease i c d st = (Some item, st')"
  shows "item_candidate item = hc_candidate_id c"
proof (rule process_approved_cases [OF assms])
  fix content r assume "store_candidate env (hc_candidate_id c) r content st = (item, st')"
  then show ?thesis using store_candidate_outcome [of env "hc_candidate_id c" r content st]
    by (cases item) (simp_all add: Let_def)
qed simp

lemma process_candidates_items:
  assumes "process_candidates sha env lease i ds n cs st = (threw, items, st')"
  shows "map item_candidate items = take (length items) (map hc_candidate_id cs) \<and> (threw \<or> length items = length cs)"
  using assms
proof (induction cs arbitrary: n st items)
  case (Cons c cs)
  show ?case
  proof (cases "ds (hc_candidate_id c)")
    case (Some d)
    obtain x st1 where x: "(case hd_status d of
        Decision_rejected _ \<Rightarrow> (Some (Item_rejected (hc_candidate_id c) Approval_rejected), st)
      | Decision_approved \<Rightarrow> process_approved_candidate sha (he_items env n) lease i c d st) = (x, st1)" by force
    show ?thesis
    proof (cases x)
      case None
      with Cons.prems Some x show ?thesis by (simp add: Let_def)
    next
      case item: (Some item)
      obtain t its st2 where r: "process_candidates sha env lease i ds (n + 1) cs st1 = (t, its, st2)" by (metis prod_cases3)
      with Cons.prems Some x item have items: "items = item # its" "threw = t" "st' = st2" by (simp_all add: Let_def)
      then have r': "process_candidates sha env lease i ds (n + 1) cs st1 = (threw, its, st')" using r by simp
      have "item_candidate item = hc_candidate_id c"
        using x item process_approved_item by (fastforce split: decision_status.splits)
      then show ?thesis using Cons.IH [OF r'] items by simp
    qed
  qed (use Cons.prems in simp)
qed simp

lemma process_candidates_persisted:
  assumes "process_candidates sha env lease i ds n cs st = (threw, items, st')" and "Item_persisted cid r \<in> set items"
  shows "\<exists>k d. k < length cs \<and> cid = hc_candidate_id (cs ! k) \<and> ds cid = Some d \<and> hd_status d = Decision_approved \<and>
    persists sha (he_items env (n + k)) i (cs ! k) r"
  using assms
proof (induction cs arbitrary: n st items)
  case (Cons c cs)
  from Cons.prems obtain d where d: "ds (hc_candidate_id c) = Some d" by (cases "ds (hc_candidate_id c)") auto
  obtain x st1 where x: "(case hd_status d of
      Decision_rejected _ \<Rightarrow> (Some (Item_rejected (hc_candidate_id c) Approval_rejected), st)
    | Decision_approved \<Rightarrow> process_approved_candidate sha (he_items env n) lease i c d st) = (x, st1)" by force
  from Cons.prems d x obtain item where item: "x = Some item" by (cases x) (auto simp: Let_def)
  obtain t its st2 where r: "process_candidates sha env lease i ds (n + 1) cs st1 = (t, its, st2)" by (metis prod_cases3)
  with Cons.prems d x item have items: "items = item # its" "threw = t" "st' = st2" by (simp_all add: Let_def)
  then have r': "process_candidates sha env lease i ds (n + 1) cs st1 = (threw, its, st')" using r by simp
  show ?case
  proof (cases "item = Item_persisted cid r")
    case True
    with x item have "hd_status d = Decision_approved \<and> cid = hc_candidate_id c \<and> persists sha (he_items env n) i c r"
      using process_persists by (fastforce split: decision_status.splits)
    with d show ?thesis by (intro exI [of _ 0] exI [of _ d]) simp
  next
    case False
    with items Cons.prems(2) have "Item_persisted cid r \<in> set its" by simp
    from Cons.IH [OF r' this] obtain k d' where "k < length cs" "cid = hc_candidate_id (cs ! k)"
      "ds cid = Some d'" "hd_status d' = Decision_approved" "persists sha (he_items env (n + 1 + k)) i (cs ! k) r" by blast
    then show ?thesis by (intro exI [of _ "Suc k"] exI [of _ d']) simp
  qed
qed simp

section \<open>The whole handoff\<close>

lemma validate_handoff_input_Some:
  assumes "validate_handoff_input lease candidates = Some i"
  shows "valid_candidates (hi_run_id i) [] candidates \<and> is_safe_segment (hi_tenant_id i) \<and> is_safe_segment (hi_user_id i) \<and>
    is_safe_segment (hi_run_id i)"
  using assms by (auto simp: validate_handoff_input_def Let_def split: sandbox_ownership.splits if_splits)

lemma handoff_Inr:
  assumes "handoff_and_destroy_sandbox_outputs sha env lease candidates st = (Inr res, destroyed, st')"
  obtains a ds where "validate_handoff_input lease candidates = Some (ho_identity res)" "he_authority env = Some a"
    "validate_approval_set a (ho_identity res) candidates = Some ds"
    "process_candidates sha env lease (ho_identity res) ds 0 candidates st = (False, ho_items res, st')"
    "ho_cleanup res = cleanup_sandbox env lease"
    "ho_release_safe res \<longleftrightarrow> hk_release_safe (cleanup_sandbox env lease) \<and> list_all (\<lambda>x. \<not> cleanup_required x) (ho_items res)"
  using assms
  by (auto simp: handoff_and_destroy_sandbox_outputs_def Let_def split: option.splits prod.splits if_splits)


fun handoff_error_cleanup :: "handoff_error \<Rightarrow> handoff_cleanup" where
  "handoff_error_cleanup (Approval_authority_failed k) = k"
| "handoff_error_cleanup (Approval_contract_invalid k) = k"
| "handoff_error_cleanup (Handoff_processing_failed k) = k"
| "handoff_error_cleanup (Handoff_invalid_input k) = k"

text \<open>
  On every path, invalid input and failures of the authority or of the processing included, the sandbox is asked
  to be destroyed exactly once and the caller is told how that ended. A handoff that returns has one item per
  candidate, in their order, and calls itself release-safe exactly when the backend confirmed the destruction
  and no object is left to clean up.
\<close>

theorem handoff_always_destroys:
  "let (result, destroyed, st') = handoff_and_destroy_sandbox_outputs sha env lease candidates st in
     destroyed = [lease] \<and>
     (case result of
        Inl e \<Rightarrow> handoff_error_cleanup e = cleanup_sandbox env lease
      | Inr res \<Rightarrow> ho_cleanup res = cleanup_sandbox env lease \<and>
          map item_candidate (ho_items res) = map hc_candidate_id candidates \<and>
          (ho_release_safe res \<longleftrightarrow>
             (\<exists>l. he_destroy env = Some (Destroy_done l) \<or> he_destroy env = Some (Destroy_already l)) \<and>
             list_all (\<lambda>x. \<not> cleanup_required x) (ho_items res)))"
proof -
  obtain result destroyed st' where h: "handoff_and_destroy_sandbox_outputs sha env lease candidates st = (result, destroyed, st')"
    by (metis prod_cases3)
  have d: "destroyed = [lease]"
    using h by (auto simp: handoff_and_destroy_sandbox_outputs_def Let_def split: option.splits prod.splits)
  have safe: "hk_release_safe (cleanup_sandbox env lease) \<longleftrightarrow>
      (\<exists>l. he_destroy env = Some (Destroy_done l) \<or> he_destroy env = Some (Destroy_already l))"
    by (auto simp: cleanup_sandbox_def Let_def split: option.splits destroy_result.splits)
  show ?thesis
  proof (cases result)
    case (Inl e)
    with h d show ?thesis
      by (auto simp: handoff_and_destroy_sandbox_outputs_def Let_def split: option.splits prod.splits if_splits)
  next
    case (Inr res)
    show ?thesis
    proof (rule handoff_Inr [OF h [unfolded Inr]])
      fix a ds
      assume p: "process_candidates sha env lease (ho_identity res) ds 0 candidates st = (False, ho_items res, st')"
        and c: "ho_cleanup res = cleanup_sandbox env lease"
        and r: "ho_release_safe res \<longleftrightarrow> hk_release_safe (cleanup_sandbox env lease) \<and>
          list_all (\<lambda>x. \<not> cleanup_required x) (ho_items res)"
      from process_candidates_items [OF p] show ?thesis using h Inr d c r safe by (simp add: Let_def)
    qed
  qed
qed

text \<open>No step of a handoff touches a stored record.\<close>

lemma object_ops_records [simp]:
  "st_records (snd (object_put d k x y st)) = st_records st" "st_records (snd (object_delete d k st)) = st_records st"
  by (simp_all add: object_put_def object_delete_def)

lemma store_candidate_keeps:
  "st_records st k = Some q \<Longrightarrow> st_records (snd (store_candidate env cid r content st)) k = Some q"
  by (auto simp: store_candidate_def Let_def split_beta record_insert_keeps split: option.split)

lemma process_approved_keeps:
  "st_records st k = Some q \<Longrightarrow> st_records (snd (process_approved_candidate sha env lease i c d st)) k = Some q"
  by (auto simp: process_approved_candidate_def Let_def store_candidate_keeps split: option.split read_result.split scan_result.split)

lemma process_candidates_keeps:
  "st_records st k = Some q \<Longrightarrow> st_records (snd (snd (process_candidates sha env lease i ds n cs st))) k = Some q"
proof (induction cs arbitrary: n st)
  case (Cons c cs)
  show ?case
  proof (cases "ds (hc_candidate_id c)")
    case (Some d)
    obtain x st1 where x: "(case hd_status d of
        Decision_rejected _ \<Rightarrow> (Some (Item_rejected (hc_candidate_id c) Approval_rejected), st)
      | Decision_approved \<Rightarrow> process_approved_candidate sha (he_items env n) lease i c d st) = (x, st1)" by force
    have "st_records st1 k = Some q"
      using x Cons.prems process_approved_keeps [of st k q sha "he_items env n" lease i c d]
      by (auto split: decision_status.splits)
    then show ?thesis using Some x Cons.IH [of st1 "n + 1"] by (simp add: Let_def split_beta split: option.split)
  qed (use Cons.prems in simp)
qed simp

text \<open>
  A handoff never changes or removes a record that is already stored, whatever it stores itself and
  whichever of its requests fail.
\<close>

theorem stored_records_untouched:
  assumes "st_records st k = Some q"
  shows "st_records (snd (snd (handoff_and_destroy_sandbox_outputs sha env lease candidates st))) k = Some q"
  using assms process_candidates_keeps
  by (fastforce simp: handoff_and_destroy_sandbox_outputs_def Let_def split_beta split: option.split)

section \<open>Reading\<close>

lemma safe_segment_no_slash: "is_safe_segment v \<Longrightarrow> CHR ''/'' \<notin> set v"
  by (auto simp: is_safe_segment_def list_all_iff safe_segment_char_def is_alnum_def is_lower_def is_upper_def is_digit_def)

lemma prefix_same_segment:
  assumes "a @ CHR ''/'' # x = b @ CHR ''/'' # y" and "CHR ''/'' \<notin> set a" and "CHR ''/'' \<notin> set b"
  shows "a = b"
  using assms by (induction a arbitrary: b) (auto simp: Cons_eq_append_conv append_eq_Cons_conv)

text \<open>
  Whatever the record store returns, a handoff read for a tenant belongs to that tenant: its record names
  the tenant and its object lies in the tenant's directory, which no other tenant's key can share; the bytes
  are those of that object.
\<close>

theorem read_is_tenant_scoped:
  assumes "read_durable_handoff find_record get tenant_id hid = Some (content, r)"
  shows "hr_tenant_id r = tenant_id \<and> get (hr_storage_key r) = Some content \<and>
    starts_with (''agent-handoff/v0/'' @ tenant_id @ ''/'') (hr_storage_key r) \<and>
    (\<forall>other. is_safe_segment other \<and> other \<noteq> tenant_id \<longrightarrow>
       \<not> starts_with (''agent-handoff/v0/'' @ other @ ''/'') (hr_storage_key r))"
proof -
  have r: "is_safe_segment tenant_id" "hr_tenant_id r = tenant_id" "get (hr_storage_key r) = Some content"
    "starts_with (''agent-handoff/v0/'' @ tenant_id @ ''/'') (hr_storage_key r)"
    using assms by (auto simp: read_durable_handoff_def split: option.splits if_splits)
  have "other = tenant_id" if o: "is_safe_segment other" "starts_with (''agent-handoff/v0/'' @ other @ ''/'') (hr_storage_key r)" for other
  proof -
    obtain x y where "hr_storage_key r = ''agent-handoff/v0/'' @ tenant_id @ CHR ''/'' # x"
      "hr_storage_key r = ''agent-handoff/v0/'' @ other @ CHR ''/'' # y"
      using r(4) o(2) by (auto simp: starts_with_iff)
    then have "other @ CHR ''/'' # y = tenant_id @ CHR ''/'' # x" by simp
    then show ?thesis using safe_segment_no_slash r(1) o(1) by (blast intro: prefix_same_segment)
  qed
  with r show ?thesis by blast
qed

lemma store_candidate_persisted:
  assumes "store_candidate env cid r content st = (Item_persisted c r', st')"
  shows "hr_tenant_id r' = hr_tenant_id r" and "hr_deleted_at r = None \<Longrightarrow> hr_deleted_at r' = None"
    and "st_records st' = st_records st \<or> st_records st' = (st_records st)(hr_id r \<mapsto> r)"
  using assms
  by (auto simp: store_candidate_def store_op_defs Let_def split: if_splits option.splits)

lemma handoff_id_safe:
  assumes "\<And>x. length (sha x) = 32"
  shows "is_safe_segment (handoff_record_id sha i c d created hash)"
proof -
  let ?hex = "bytes_to_hex (sha (utf8_encode (join_with (CHR 0x00)
       [hi_tenant_id i, hi_user_id i, hi_run_id i, hc_candidate_id c, hc_kind c, hc_classification c, hc_content_type c,
        hc_retention_policy c, hd_decision_id d, created, hash])))"
  have e: "handoff_record_id sha i c d created hash = ''handoff_'' @ ?hex" by (simp add: handoff_record_id_def sha256_text_def)
  have "length ?hex = 64" by (simp only: bytes_to_hex_length assms)
  moreover have "list_all safe_segment_char ?hex"
    using bytes_to_hex_lower by (rule list.pred_mono_strong) (auto simp: is_lower_hex_def safe_segment_char_def is_alnum_def is_lower_def)
  ultimately show ?thesis unfolding e is_safe_segment_def
    by (simp add: safe_segment_char_def is_alnum_def is_lower_def)
qed

text \<open>
  What was persisted reads back: from a record store that keeps every record under its id, a handoff
  reported persisted is found by its tenant and id, unless it has expired, with exactly the bytes read from the
  sandbox.
\<close>

theorem persisted_reads_back:
  assumes "process_approved_candidate sha env lease i c d st = (Some (Item_persisted cid r), st')"
    and "\<And>x. length (sha x) = 32" and "is_safe_segment (hi_tenant_id i)"
    and "\<And>k q. st_records st k = Some q \<Longrightarrow> hr_id q = k" and "\<not> expired r"
  shows "\<exists>content l p. ie_read env = Some (Read_done content l p) \<and>
    read_durable_handoff (\<lambda>t h. find_active expired t h st') (\<lambda>k. map_option fst (st_objects st' k)) (hi_tenant_id i) (hr_id r)
      = Some (content, r)"
proof (rule process_approved_cases [OF assms(1)])
  fix content l p scan r0
  assume read: "ie_read env = Some (Read_done content l p)"
    and r0: "handoff_record_of sha lease i c d content scan (ie_now env) = Some r0"
    and s: "store_candidate env (hc_candidate_id c) r0 content st = (Item_persisted cid r, st')"
  note f = handoff_record_of_fields [OF r0] note k = store_candidate_persisted [OF s]
  from store_candidate_outcome [of env "hc_candidate_id c" r0 content st] s
  have o: "st_objects st' (hr_storage_key r) = Some (content, hc_content_type c)" "st_records st' (hr_id r0) = Some r"
    "hr_storage_key r = hr_storage_key r0"
    by (simp_all add: Let_def same_handoff_def f(5))
  from f(8) obtain created where rid: "hr_id r0 = handoff_record_id sha i c d created (sha256_text sha content)" by (elim exE conjE)
  have "hr_id r = hr_id r0" using k(3) o(2) assms(4) by (auto split: if_splits)
  moreover have "is_safe_segment (hr_id r0)" unfolding rid by (rule handoff_id_safe) (rule assms(2))
  moreover have "starts_with (''agent-handoff/v0/'' @ hi_tenant_id i @ ''/'') (hr_storage_key r)"
    unfolding o(3) f(7) handoff_storage_key_def starts_with_iff by simp
  moreover have "hr_tenant_id r = hi_tenant_id i" "hr_deleted_at r = None" using k(1,2) f(4,6) by simp_all
  ultimately have "read_durable_handoff (\<lambda>t h. find_active expired t h st') (\<lambda>k. map_option fst (st_objects st' k)) (hi_tenant_id i) (hr_id r)
      = Some (content, r)"
    using o(1,2) assms(3,5) by (simp only: read_durable_handoff_def find_active_def option.case option.map fst_conv if_False if_True
      not_True_eq_False not_False_eq_True simp_thms)
  with read show ?thesis by blast
qed simp

section \<open>Sample handoff\<close>

definition sample_handoff_sha :: "bytes \<Rightarrow> bytes" where
  "sample_handoff_sha x = replicate 32 (CHR ''f'')"

definition sample_candidate :: handoff_candidate where
  "sample_candidate =
     \<lparr>hc_candidate_id = ''c1'', hc_classification = ''user_private'', hc_content_type = ''text/plain'', hc_evidence_ids = [''e1''],
      hc_kind = ''memory'',
      hc_provenance = \<lparr>hv_generated_at = ''2026-07-11T00:00:00Z'', hv_runner_id = ''fastclaw.personal-v0'', hv_source = ''sandbox'',
        hv_source_run_id = ''run-1'', hv_tool_call_ids = []\<rparr>,
      hc_retention_policy = ''user_managed'', hc_workspace_path = ''notes.txt''\<rparr>"

definition sample_decision :: approval_decision where
  "sample_decision =
     \<lparr>hd_approved_at = ''2026-07-11T00:00:00Z'', hd_approver = ''u1'', hd_candidate_id = ''c1'', hd_decision_id = ''d1'',
      hd_status = Decision_approved\<rparr>"

definition sample_item_env :: item_env where
  "sample_item_env =
     \<lparr>ie_read = Some (Read_done ''hello'' ''l1'' ''notes.txt''),
      ie_scan = Some (Scan_clean \<lparr>cs_classification = ''user_private'', cs_engine = ''clamav'',
        cs_scanned_at = ''2026-07-11T00:00:00Z'', cs_signature_version = ''1''\<rparr>),
      ie_now = 0, ie_put = Delivered, ie_put_delete = Delivered, ie_insert = Response_lost, ie_find = True,
      ie_expired = (\<lambda>_. False), ie_delete = Delivered\<rparr>"

definition empty_store :: handoff_store where
  "empty_store = \<lparr>st_objects = Map.empty, st_records = Map.empty\<rparr>"

definition sample_handoff_env :: handoff_env where
  "sample_handoff_env =
     \<lparr>he_authority = Some \<lparr>hs_decisions = [sample_decision], hs_run_id = ''run-1'', hs_tenant_id = ''t1'', hs_user_id = ''u1''\<rparr>,
      he_items = (\<lambda>_. sample_item_env), he_destroy = Some (Destroy_done ''l1'')\<rparr>"

definition sample_identity :: handoff_identity where
  "sample_identity = \<lparr>hi_run_id = ''run-1'', hi_tenant_id = ''t1'', hi_user_id = ''u1''\<rparr>"

lemma sample_iso: "is_iso_date ''2026-07-11T00:00:00Z''"
  by (simp add: is_iso_date_def iso_pattern_def template_match_def is_digit_def iso_value_def digits_at_def digits_value_def Let_def)

lemma sample_digits: "nat_text 1970 = ''1970''" "nat_text 0 = ''0''" "nat_text (Suc 0) = ''1''"
  by (simp_all add: nat_text.simps [of 1970] nat_text.simps [of 197] nat_text.simps [of 19] nat_text.simps [of "Suc 0"]
      nat_text.simps [of 0] char_of_def bit_0)

lemma sample_epoch: "year_from_day 0 = 1970 \<and> day_from_year 1970 = 0"
  by (simp add: year_from_day_def day_from_year_def)

lemma sample_iso_text: "iso_text 0 = Some ''1970-01-01T00:00:00.000Z''"
  by (simp add: iso_text_def sample_epoch month_lengths_def leap_year_def iso_year_def pad_digits_def sample_digits Let_def
      numeral_3_eq_3 numeral_2_eq_2)

definition sample_handoff_record :: handoff_record where
  "sample_handoff_record =
     the (handoff_record_of sample_handoff_sha sample_lease sample_identity sample_candidate sample_decision ''hello''
       \<lparr>cs_classification = ''user_private'', cs_engine = ''clamav'', cs_scanned_at = ''2026-07-11T00:00:00Z'', cs_signature_version = ''1''\<rparr> 0)"

lemma sample_processed:
  "\<exists>st'. process_approved_candidate sample_handoff_sha sample_item_env sample_lease sample_identity sample_candidate sample_decision
      empty_store = (Some (Item_persisted ''c1'' sample_handoff_record), st')"
  by (simp add: process_approved_candidate_def sample_item_env_def sample_candidate_def sample_iso max_handoff_bytes_def
      handoff_memory_max_bytes_def is_opaque_text_def js_trim_def is_ws_def has_control_def is_control_def
      sample_handoff_record_def handoff_record_of_def sample_iso_text expires_at_def Let_def store_candidate_def
      store_op_defs empty_store_def same_handoff_def)

lemma sample_validated:
  "validate_handoff_input sample_lease [sample_candidate] = Some sample_identity"
  by (simp add: validate_handoff_input_def sample_lease_def sample_grant_def sample_candidate_def sample_identity_def Let_def
      is_safe_segment_def safe_segment_char_def is_alnum_def is_lower_def is_upper_def is_digit_def valid_candidate_def sample_iso
      content_type_pattern_def media_token_def media_char_def allowed_kind_def allowed_classification_def allowed_retention_def
      is_opaque_text_def js_trim_def is_ws_def has_control_def is_control_def handoff_max_candidates_def)

lemma sample_handoff_run:
  "\<exists>res st'. handoff_and_destroy_sandbox_outputs sample_handoff_sha sample_handoff_env sample_lease [sample_candidate] empty_store =
      (Inr res, [sample_lease], st') \<and> Item_persisted ''c1'' sample_handoff_record \<in> set (ho_items res)"
proof -
  obtain st' where p: "process_approved_candidate sample_handoff_sha sample_item_env sample_lease sample_identity sample_candidate
      sample_decision empty_store = (Some (Item_persisted ''c1'' sample_handoff_record), st')"
    using sample_processed by blast
  have "is_opaque_text ''u1'' \<and> is_opaque_text ''d1''"
    by (simp add: is_opaque_text_def js_trim_def is_ws_def has_control_def is_control_def)
  then have "validate_approval_set \<lparr>hs_decisions = [sample_decision], hs_run_id = ''run-1'', hs_tenant_id = ''t1'', hs_user_id = ''u1''\<rparr>
      sample_identity [sample_candidate] = Some [''c1'' \<mapsto> sample_decision]"
    by (simp add: validate_approval_set_def sample_identity_def valid_decision_def sample_decision_def sample_candidate_def sample_iso)
  then show ?thesis
    using p by (simp add: handoff_and_destroy_sandbox_outputs_def sample_validated sample_handoff_env_def Let_def)
      (simp add: sample_candidate_def sample_decision_def)
qed


theorem persisted_reads_back_witness:
  "\<exists>st' content l p. ie_read sample_item_env = Some (Read_done content l p) \<and>
    read_durable_handoff (\<lambda>t h. find_active (\<lambda>_. False) t h st') (\<lambda>k. map_option fst (st_objects st' k))
      (hi_tenant_id sample_identity) (hr_id sample_handoff_record) = Some (content, sample_handoff_record)"
proof -
  obtain st' where p: "process_approved_candidate sample_handoff_sha sample_item_env sample_lease sample_identity sample_candidate
      sample_decision empty_store = (Some (Item_persisted ''c1'' sample_handoff_record), st')"
    using sample_processed by blast
  have "is_safe_segment (hi_tenant_id sample_identity)"
    by (simp add: sample_identity_def is_safe_segment_def safe_segment_char_def is_alnum_def is_lower_def is_upper_def is_digit_def)
  from persisted_reads_back [OF p _ this, of "\<lambda>_. False"] show ?thesis
    by (auto simp: sample_handoff_sha_def empty_store_def)
qed

theorem read_is_tenant_scoped_witness:
  "\<exists>content r. read_durable_handoff (\<lambda>_ _. Some (sample_handoff_record\<lparr>hr_tenant_id := ''t1'', hr_storage_key := ''agent-handoff/v0/t1/k''\<rparr>))
     (\<lambda>_. Some ''hello'') ''t1'' ''h1'' = Some (content, r) \<and> hr_tenant_id r = ''t1'' \<and>
     \<not> starts_with (''agent-handoff/v0/'' @ ''t2'' @ ''/'') (hr_storage_key r)"
proof -
  let ?r = "sample_handoff_record\<lparr>hr_tenant_id := ''t1'', hr_storage_key := ''agent-handoff/v0/t1/k''\<rparr>"
  have seg: "is_safe_segment ''t1'' \<and> is_safe_segment ''h1'' \<and> is_safe_segment ''t2''"
    by (simp add: is_safe_segment_def safe_segment_char_def is_alnum_def is_lower_def is_upper_def is_digit_def)
  then have r: "read_durable_handoff (\<lambda>_ _. Some ?r) (\<lambda>_. Some ''hello'') ''t1'' ''h1'' = Some (''hello'', ?r)"
    by (simp add: read_durable_handoff_def starts_with_def)
  from read_is_tenant_scoped [OF r] seg have "hr_tenant_id ?r = ''t1''"
    "\<not> starts_with (''agent-handoff/v0/'' @ ''t2'' @ ''/'') (hr_storage_key ?r)" by blast+
  with r show ?thesis by blast
qed

theorem stored_records_untouched_witness:
  "st_records (snd (snd (handoff_and_destroy_sandbox_outputs sample_handoff_sha sample_handoff_env sample_lease [sample_candidate]
     (empty_store\<lparr>st_records := [''old'' \<mapsto> sample_handoff_record]\<rparr>)))) ''old'' = Some sample_handoff_record"
  by (rule stored_records_untouched) simp

end
