(* ===== verification/Handoff_Store.thy ===== *)
theory Handoff_Store
  imports Durable_Handoff
begin

text \<open>
  The worker's record store of durable handoffs (\<open>apps/worker/src/durable-memory-artifact-handoff.ts\<close>): the
  row of the table, the decoding of a row into a record, the insertion and the query of active records.

  The database is a list of rows. A \<open>jsonb\<close> column holds a JSON value, a \<open>timestamptz\<close> column an instant,
  which the driver returns as a date (or, configured so, as a text); a \<open>bigint\<close> is read as its number.
\<close>

section \<open>Rows\<close>

record handoff_row =
  hw_approval :: json
  hw_byte_size :: nat
  hw_classification :: string
  hw_content_hash_sha256 :: string
  hw_content_type :: string
  hw_contract_version :: string
  hw_created_at :: pg_timestamp
  hw_deleted_at :: "pg_timestamp option"
  hw_evidence :: json
  hw_expires_at :: "pg_timestamp option"
  hw_handoff_id :: string
  hw_kind :: string
  hw_lease_id :: string
  hw_owner_account_id :: string
  hw_provenance :: json
  hw_retention_policy :: string
  hw_run_id :: string
  hw_scan :: json
  hw_storage_key :: string
  hw_workspace_id :: string

section \<open>Decoding\<close>

definition row_iso :: "pg_timestamp \<Rightarrow> string option" where
  "row_iso v = (case v of Pg_date t \<Rightarrow> iso_text t | Pg_text s \<Rightarrow> Some s)"

definition row_object :: "json \<Rightarrow> (string \<times> json) list option" where
  "row_object v = (case v of JObj ms \<Rightarrow> Some ms | _ \<Rightarrow> None)"

definition row_string :: "json option \<Rightarrow> string option" where
  "row_string v = (case v of Some (JStr s) \<Rightarrow> if length s = 0 then None else Some s | _ \<Rightarrow> None)"

definition row_string_array :: "json option \<Rightarrow> bool \<Rightarrow> string list option" where
  "row_string_array v allow_empty =
     (case v of
        Some (JArr xs) \<Rightarrow>
          if \<not> allow_empty \<and> length xs = 0 \<or> list_ex (\<lambda>x. row_string (Some x) = None) xs then None
          else Some (map (\<lambda>x. the (row_string (Some x))) xs)
      | _ \<Rightarrow> None)"

text \<open>A timestamp column that may be null.\<close>

definition row_iso_null :: "pg_timestamp option \<Rightarrow> string option option" where
  "row_iso_null v = (case v of None \<Rightarrow> Some None | Some t \<Rightarrow> map_option Some (row_iso t))"

definition row_violates :: "handoff_row \<Rightarrow> (string \<times> json) list \<Rightarrow> (string \<times> json) list \<Rightarrow> bool" where
  "row_violates row scan provenance \<longleftrightarrow>
     hw_contract_version row \<noteq> handoff_contract_version \<or> \<not> allowed_kind (hw_kind row) \<or>
     \<not> allowed_classification (hw_classification row) \<or> \<not> allowed_retention (hw_retention_policy row) \<or>
     map_of scan ''status'' \<noteq> Some (JStr ''clean'') \<or>
     map_of scan ''classification'' \<noteq> Some (JStr (hw_classification row)) \<or>
     map_of provenance ''source'' \<noteq> Some (JStr ''sandbox'') \<or>
     map_of provenance ''runner_id'' \<noteq> Some (JStr ''fastclaw.personal-v0'') \<or>
     map_of provenance ''source_run_id'' \<noteq> Some (JStr (hw_run_id row))"

text \<open>The record of a row; \<open>None\<close> where the row is malformed and the decoder throws.\<close>

definition to_record :: "handoff_row \<Rightarrow> handoff_record option" where
  "to_record row =
     Option.bind (row_object (hw_approval row)) (\<lambda>approval.
     Option.bind (row_object (hw_evidence row)) (\<lambda>evidence.
     Option.bind (row_object (hw_provenance row)) (\<lambda>provenance.
     Option.bind (row_object (hw_scan row)) (\<lambda>scan.
     if row_violates row scan provenance then None else
     Option.bind (row_string (map_of approval ''approved_at'')) (\<lambda>approved_at.
     Option.bind (row_string (map_of approval ''approver'')) (\<lambda>approver.
     Option.bind (row_string (map_of approval ''decision_id'')) (\<lambda>decision_id.
     Option.bind (row_iso (hw_created_at row)) (\<lambda>created_at.
     Option.bind (row_iso_null (hw_deleted_at row)) (\<lambda>deleted_at.
     Option.bind (row_string_array (map_of evidence ''evidence_ids'') False) (\<lambda>evidence_ids.
     Option.bind (row_iso_null (hw_expires_at row)) (\<lambda>expires.
     Option.bind (row_string (map_of provenance ''generated_at'')) (\<lambda>generated_at.
     Option.bind (row_string_array (map_of provenance ''tool_call_ids'') True) (\<lambda>tool_call_ids.
     Option.bind (row_string (map_of provenance ''workspace_path'')) (\<lambda>workspace_path.
     Option.bind (row_string (map_of scan ''engine'')) (\<lambda>engine.
     Option.bind (row_string (map_of scan ''scanned_at'')) (\<lambda>scanned_at.
     Option.bind (row_string (map_of scan ''signature_version'')) (\<lambda>signature_version.
     Some \<lparr>hr_approved_at = approved_at, hr_approver = approver, hr_decision_id = decision_id,
       hr_byte_size = hw_byte_size row, hr_classification = hw_classification row,
       hr_content_hash_sha256 = hw_content_hash_sha256 row, hr_content_type = hw_content_type row,
       hr_created_at = created_at, hr_deleted_at = deleted_at, hr_evidence_ids = evidence_ids, hr_expires_at = expires,
       hr_id = hw_handoff_id row, hr_kind = hw_kind row, hr_lease_id = hw_lease_id row,
       hr_owner_user_id = hw_owner_account_id row,
       hr_provenance = \<lparr>hv_generated_at = generated_at, hv_runner_id = ''fastclaw.personal-v0'', hv_source = ''sandbox'',
         hv_source_run_id = hw_run_id row, hv_tool_call_ids = tool_call_ids\<rparr>,
       hr_workspace_path = workspace_path, hr_retention_policy = hw_retention_policy row, hr_run_id = hw_run_id row,
       hr_scan = \<lparr>cs_classification = hw_classification row, cs_engine = engine, cs_scanned_at = scanned_at,
         cs_signature_version = signature_version\<rparr>,
       hr_storage_key = hw_storage_key row, hr_tenant_id = hw_workspace_id row\<rparr>)))))))))))))))))"

section \<open>Queries\<close>

text \<open>The row an insertion stores; \<open>None\<close> where a timestamp is no instant and the database refuses it.\<close>

definition timestamp_param :: "string \<Rightarrow> pg_timestamp option" where
  "timestamp_param s = map_option Pg_date (iso_value s)"

definition timestamp_param_null :: "string option \<Rightarrow> pg_timestamp option option" where
  "timestamp_param_null v = (case v of None \<Rightarrow> Some None | Some s \<Rightarrow> map_option Some (timestamp_param s))"

definition insert_row :: "handoff_record \<Rightarrow> handoff_row option" where
  "insert_row r =
     (case (timestamp_param (hr_created_at r), timestamp_param_null (hr_deleted_at r), timestamp_param_null (hr_expires_at r)) of
        (Some created, Some deleted, Some expires) \<Rightarrow>
          Some \<lparr>hw_approval = JObj [(''approved_at'', JStr (hr_approved_at r)), (''approver'', JStr (hr_approver r)),
              (''decision_id'', JStr (hr_decision_id r))],
            hw_byte_size = hr_byte_size r, hw_classification = hr_classification r,
            hw_content_hash_sha256 = hr_content_hash_sha256 r, hw_content_type = hr_content_type r,
            hw_contract_version = handoff_contract_version, hw_created_at = created, hw_deleted_at = deleted,
            hw_evidence = JObj [(''evidence_ids'', JArr (map JStr (hr_evidence_ids r)))],
            hw_expires_at = expires, hw_handoff_id = hr_id r, hw_kind = hr_kind r, hw_lease_id = hr_lease_id r,
            hw_owner_account_id = hr_owner_user_id r,
            hw_provenance = JObj [(''generated_at'', JStr (hv_generated_at (hr_provenance r))),
              (''runner_id'', JStr (hv_runner_id (hr_provenance r))), (''source'', JStr (hv_source (hr_provenance r))),
              (''source_run_id'', JStr (hv_source_run_id (hr_provenance r))),
              (''tool_call_ids'', JArr (map JStr (hv_tool_call_ids (hr_provenance r)))),
              (''workspace_path'', JStr (hr_workspace_path r))],
            hw_retention_policy = hr_retention_policy r, hw_run_id = hr_run_id r,
            hw_scan = JObj [(''classification'', JStr (cs_classification (hr_scan r))), (''engine'', JStr (cs_engine (hr_scan r))),
              (''scanned_at'', JStr (cs_scanned_at (hr_scan r))),
              (''signature_version'', JStr (cs_signature_version (hr_scan r))), (''status'', JStr ''clean'')],
            hw_storage_key = hr_storage_key r, hw_workspace_id = hr_tenant_id r\<rparr>
      | _ \<Rightarrow> None)"

definition row_active :: "int \<Rightarrow> string \<Rightarrow> string \<Rightarrow> handoff_row \<Rightarrow> bool" where
  "row_active now tenant_id hid row \<longleftrightarrow>
     hw_workspace_id row = tenant_id \<and> hw_handoff_id row = hid \<and> hw_deleted_at row = None \<and>
     (case hw_expires_at row of None \<Rightarrow> True | Some (Pg_date t) \<Rightarrow> now < t | Some (Pg_text s) \<Rightarrow> (case iso_value s of Some t \<Rightarrow> now < t | None \<Rightarrow> False))"

text \<open>\<open>Inl ()\<close> is the error of a malformed row.\<close>

definition find_active_by_id :: "int \<Rightarrow> handoff_row list \<Rightarrow> string \<Rightarrow> string \<Rightarrow> unit + handoff_record option" where
  "find_active_by_id now rows tenant_id hid =
     (case List.find (row_active now tenant_id hid) rows of
        None \<Rightarrow> Inr None
      | Some row \<Rightarrow> (case to_record row of None \<Rightarrow> Inl () | Some r \<Rightarrow> Inr (Some r)))"

section \<open>A stored record reads back\<close>

lemma row_string_array_strings:
  "list_all (\<lambda>s. s \<noteq> []) ss \<Longrightarrow> allow \<or> ss \<noteq> [] \<Longrightarrow> row_string_array (Some (JArr (map JStr ss))) allow = Some ss"
  by (auto simp: row_string_array_def row_string_def list_ex_iff list_all_iff intro: map_idI)

lemma row_string_nonempty [simp]: "s \<noteq> [] \<Longrightarrow> row_string (Some (JStr s)) = Some s"
  by (simp add: row_string_def)

lemma opaque_nonempty: "is_opaque_text s \<Longrightarrow> s \<noteq> []"
  by (auto simp: is_opaque_text_def)

lemma iso_nonempty: "is_iso_date s \<Longrightarrow> s \<noteq> []"
  by (auto simp: is_iso_date_def iso_pattern_def template_match_def)

definition thirty_days :: int where
  "thirty_days = 30 * 24 * 60 * 60 * 1000"

lemma expires_row:
  assumes "expires_at policy now = Some e" and "0 \<le> now" and "now + thirty_days \<le> 253402300799999"
  shows "\<exists>x. timestamp_param_null e = Some x \<and> row_iso_null x = Some e"
proof (cases "policy = ''temporary_30d''")
  case True
  then obtain s where s: "iso_text (now + thirty_days) = Some s" "e = Some s"
    using assms(1) by (auto simp: expires_at_def thirty_days_def)
  then have "iso_value s = Some (now + thirty_days)" using assms(2,3) by (intro iso_roundtrip) (simp_all add: thirty_days_def)
  with s show ?thesis by (simp add: timestamp_param_null_def timestamp_param_def row_iso_null_def row_iso_def)
qed (use assms(1) in \<open>simp add: expires_at_def timestamp_param_null_def row_iso_null_def\<close>)

text \<open>
  The record of a validated candidate survives the database: it is accepted for insertion, and the row it
  becomes decodes to that very record, dates, lists and nested metadata included (for instants up to the year 9999).
\<close>

theorem stored_record_decodes:
  assumes "handoff_record_of sha lease i c d content scan now = Some r"
    and "valid_candidate c (hi_run_id i)" and "valid_decision expected d" and "hc_workspace_path c \<noteq> []"
    and "cs_classification scan = hc_classification c" and "is_opaque_text (cs_engine scan)"
    and "is_opaque_text (cs_signature_version scan)" and "is_iso_date (cs_scanned_at scan)"
    and "0 \<le> now" and "now + thirty_days \<le> 253402300799999"
  shows "\<exists>row. insert_row r = Some row \<and> to_record row = Some r"
proof -
  obtain created expires where e: "iso_text now = Some created" "expires_at (hc_retention_policy c) now = Some expires"
    using assms(1) by (auto simp: handoff_record_of_def split: option.splits)
  have "iso_value created = Some now" using e(1) assms(9,10) by (intro iso_roundtrip) (simp_all add: thirty_days_def)
  moreover obtain x where "timestamp_param_null expires = Some x" "row_iso_null x = Some expires"
    using expires_row [OF e(2) assms(9,10)] by blast
  moreover have "list_all (\<lambda>s. s \<noteq> []) (hc_evidence_ids c)" "list_all (\<lambda>s. s \<noteq> []) (hv_tool_call_ids (hc_provenance c))"
    using assms(2) by (auto simp: valid_candidate_def list_all_iff is_opaque_text_def)
  moreover have "hd_approver d \<noteq> []" "hd_decision_id d \<noteq> []" "hd_approved_at d \<noteq> []"
    using assms(3) by (auto simp: valid_decision_def is_opaque_text_def iso_nonempty)
  moreover have n: "cs_engine scan \<noteq> []" "cs_signature_version scan \<noteq> []" "cs_scanned_at scan \<noteq> []"
    "hv_generated_at (hc_provenance c) \<noteq> []"
    using assms(2,6-8) by (auto simp: valid_candidate_def is_opaque_text_def iso_nonempty)
  have p: "\<lparr>hv_generated_at = hv_generated_at (hc_provenance c), hv_runner_id = ''fastclaw.personal-v0'', hv_source = ''sandbox'',
      hv_source_run_id = hi_run_id i, hv_tool_call_ids = hv_tool_call_ids (hc_provenance c)\<rparr> = hc_provenance c"
    using assms(2) by (simp add: valid_candidate_def)
  have q: "\<lparr>cs_classification = hc_classification c, cs_engine = cs_engine scan, cs_scanned_at = cs_scanned_at scan,
      cs_signature_version = cs_signature_version scan\<rparr> = scan"
    using assms(5) by simp
  have "r = \<lparr>hr_approved_at = hd_approved_at d, hr_approver = hd_approver d, hr_decision_id = hd_decision_id d,
      hr_byte_size = length content, hr_classification = hc_classification c,
      hr_content_hash_sha256 = hr_content_hash_sha256 r, hr_content_type = hc_content_type c, hr_created_at = created,
      hr_deleted_at = None, hr_evidence_ids = hc_evidence_ids c, hr_expires_at = expires, hr_id = hr_id r, hr_kind = hc_kind c,
      hr_lease_id = sl_lease_id lease, hr_owner_user_id = hi_user_id i, hr_provenance = hc_provenance c,
      hr_workspace_path = hc_workspace_path c, hr_retention_policy = hc_retention_policy c, hr_run_id = hi_run_id i,
      hr_scan = scan, hr_storage_key = hr_storage_key r, hr_tenant_id = hi_tenant_id i\<rparr>"
    using assms(1) e by (auto simp: handoff_record_of_def Let_def)
  then obtain hash hid key where r: "r = \<lparr>hr_approved_at = hd_approved_at d, hr_approver = hd_approver d,
      hr_decision_id = hd_decision_id d, hr_byte_size = length content, hr_classification = hc_classification c,
      hr_content_hash_sha256 = hash, hr_content_type = hc_content_type c, hr_created_at = created,
      hr_deleted_at = None, hr_evidence_ids = hc_evidence_ids c, hr_expires_at = expires, hr_id = hid, hr_kind = hc_kind c,
      hr_lease_id = sl_lease_id lease, hr_owner_user_id = hi_user_id i, hr_provenance = hc_provenance c,
      hr_workspace_path = hc_workspace_path c, hr_retention_policy = hc_retention_policy c, hr_run_id = hi_run_id i,
      hr_scan = scan, hr_storage_key = key, hr_tenant_id = hi_tenant_id i\<rparr>" by blast
  ultimately show ?thesis
    using assms(2,4,5) n unfolding r
    by (simp add: insert_row_def timestamp_param_def timestamp_param_null_def [of None] to_record_def
        row_object_def row_violates_def valid_candidate_def row_string_array_strings row_iso_def row_iso_null_def [of None]
        e(1) p q)
qed

theorem stored_record_decodes_witness:
  "\<exists>row. insert_row sample_handoff_record = Some row \<and> to_record row = Some sample_handoff_record"
proof (rule stored_record_decodes)
  show "handoff_record_of sample_handoff_sha sample_lease sample_identity sample_candidate sample_decision ''hello''
       \<lparr>cs_classification = ''user_private'', cs_engine = ''clamav'', cs_scanned_at = ''2026-07-11T00:00:00Z'', cs_signature_version = ''1''\<rparr> 0
     = Some sample_handoff_record"
    by (simp add: sample_handoff_record_def handoff_record_of_def sample_iso_text expires_at_def sample_candidate_def Let_def)
  show "valid_candidate sample_candidate (hi_run_id sample_identity)"
    using validate_handoff_input_Some [OF sample_validated] by simp
  show "valid_decision [''c1''] sample_decision"
    by (simp add: valid_decision_def sample_decision_def sample_iso is_opaque_text_def js_trim_def is_ws_def has_control_def
        is_control_def)
qed (simp_all add: sample_candidate_def is_opaque_text_def js_trim_def is_ws_def has_control_def is_control_def sample_iso
    thirty_days_def)

end
