(* ===== verification/Artifact_Scanner.thy ===== *)
theory Artifact_Scanner
  imports Durable_Handoff
begin

text \<open>
  The authoritative artifact scanner: the endpoint of the bridge (\<open>apps/sandbox-bridge/src/artifact-scanner.ts\<close>)
  with its authentication by a shared key, the validation of the scan request and the call of the scanner container, and
  the worker's client of it (\<open>apps/worker/src/fastclaw-artifact-scanner.ts\<close>), which is the live implementation of the
  scanner port of the handoff. SHA-256 is the parameter \<open>sha\<close>; which texts \<open>Date.parse\<close> reads is the parameter \<open>date_parses\<close>.
\<close>

unbundle bit_operations_syntax

section \<open>Data\<close>

definition artifact_scanner_contract_version :: string where
  "artifact_scanner_contract_version = ''2026-07-11.authoritative-clamav.v0''"

definition artifact_scanner_max_bytes :: nat where
  "artifact_scanner_max_bytes = 10485760"

definition scanner_classifications :: "string list" where
  "scanner_classifications = [''public_derived'', ''tenant_confidential'', ''user_private'']"

definition scanner_kinds :: "string list" where
  "scanner_kinds = [''artifact'', ''memory'']"

record scan_request =
  sq_path :: string
  sq_method :: string
  sq_header :: "string \<Rightarrow> string option"
  sq_body :: bytes

record upstream_response =
  up_status :: nat
  up_content_type :: "string option"
  up_json :: "json option"

text \<open>
  The container: the first scan, the readiness probes, the second scan; \<open>None\<close> is a rejected request, a body
  that is no JSON is \<open>None\<close> in \<open>up_json\<close>.
\<close>

record scanner_env =
  sn_shared_key :: string
  sn_scan :: "upstream_response option"
  sn_health :: "nat \<Rightarrow> bool option"
  sn_rescan :: "upstream_response option"

datatype scan_response = Scan_problem nat string | Scan_answer "(string \<times> json) list"

section \<open>Helpers\<close>

definition opaque_text :: "json option \<Rightarrow> nat \<Rightarrow> bool" where
  "opaque_text v max_length =
     (case v of Some (JStr s) \<Rightarrow> 0 < length s \<and> length s \<le> max_length \<and> \<not> has_control s | _ \<Rightarrow> False)"

definition sha256_hex_pattern :: "string \<Rightarrow> bool" where
  "sha256_hex_pattern s \<longleftrightarrow> length s = 64 \<and> list_all is_lower_hex s"

text \<open>The comparison of two digests, byte by byte without an early exit.\<close>

definition digest_difference :: "bytes \<Rightarrow> bytes \<Rightarrow> nat" where
  "digest_difference left right =
     foldl (\<lambda>d (l, r). d OR (code_unit l XOR code_unit r)) 0 (zip left right)"

definition authenticated :: "(bytes \<Rightarrow> bytes) \<Rightarrow> string option \<Rightarrow> string \<Rightarrow> bool" where
  "authenticated sha provided expected =
     (case provided of
        None \<Rightarrow> False
      | Some p \<Rightarrow> if length expected < 32 \<or> length p = 0 then False
          else digest_difference (sha (utf8_encode p)) (sha (utf8_encode expected)) = 0)"

definition parse_scanner_response :: "(string \<Rightarrow> bool) \<Rightarrow> json option \<Rightarrow> (string \<times> json) list option" where
  "parse_scanner_response date_parses v =
     (case v of
        Some (JObj ms) \<Rightarrow>
          (let status = map_of ms ''status'' in
           if status \<noteq> Some (JStr ''clean'') \<and> status \<noteq> Some (JStr ''unsafe'') \<or> \<not> opaque_text (map_of ms ''engine'') 128 \<or>
             \<not> opaque_text (map_of ms ''signature_version'') 256 \<or>
             \<not> (case map_of ms ''scanned_at'' of Some (JStr s) \<Rightarrow> date_parses s | _ \<Rightarrow> False) then None
           else if status = Some (JStr ''unsafe'') \<and> map_of ms ''reason_code'' \<noteq> Some (JStr ''malware_detected'') then None
           else if status = Some (JStr ''clean'') \<and> map_of ms ''reason_code'' \<noteq> None then None
           else Some ms)
      | _ \<Rightarrow> None)"

section \<open>The request\<close>

text \<open>The readiness probes, at most \<open>k\<close> from the n-th on: \<open>None\<close> where one is rejected, else whether one succeeded.\<close>

fun await_ready :: "(nat \<Rightarrow> bool option) \<Rightarrow> nat \<Rightarrow> nat \<Rightarrow> bool option" where
  "await_ready health n 0 = Some False"
| "await_ready health n (Suc k) =
     (case health n of
        None \<Rightarrow> None
      | Some ok \<Rightarrow> if ok then Some True else await_ready health (n + 1) k)"

definition health_attempts :: nat where
  "health_attempts = 120"

text \<open>The scan: a response, or \<open>None\<close> where the scanner is unavailable.\<close>

definition scan_upstream :: "scanner_env \<Rightarrow> upstream_response option" where
  "scan_upstream env =
     (case sn_scan env of
        None \<Rightarrow> None
      | Some up \<Rightarrow>
          if up_status up = 503 then
            (if await_ready (sn_health env) 0 health_attempts = Some True then sn_rescan env else None)
          else Some up)"

definition response_is_ok :: "upstream_response \<Rightarrow> bool" where
  "response_is_ok up \<longleftrightarrow> 200 \<le> up_status up \<and> up_status up \<le> 299"

definition header_or :: "scan_request \<Rightarrow> string \<Rightarrow> string \<Rightarrow> string" where
  "header_or req name absent = (case sq_header req name of Some v \<Rightarrow> v | None \<Rightarrow> absent)"

definition scan_validated ::
  "(bytes \<Rightarrow> bytes) \<Rightarrow> (string \<Rightarrow> bool) \<Rightarrow> scanner_env \<Rightarrow> scan_request \<Rightarrow> scan_response" where
  "scan_validated sha date_parses env req =
     (if bytes_to_hex (sha (sq_body req)) \<noteq> header_or req ''x-aiphabee-content-sha256'' [] then
        Scan_problem 409 ''SCAN_HASH_MISMATCH''
      else
        (case scan_upstream env of
           None \<Rightarrow> Scan_problem 503 ''SCANNER_UNAVAILABLE''
         | Some up \<Rightarrow>
             if \<not> response_is_ok up \<or>
               \<not> (case up_content_type up of Some t \<Rightarrow> starts_with ''application/json'' t | None \<Rightarrow> False) then
               Scan_problem 503 ''SCANNER_UNAVAILABLE''
             else
               (case parse_scanner_response date_parses (up_json up) of
                  None \<Rightarrow> Scan_problem 502 ''SCANNER_PROTOCOL_ERROR''
                | Some ms \<Rightarrow> Scan_answer ms)))"

definition handle_artifact_scanner_request ::
  "(bytes \<Rightarrow> bytes) \<Rightarrow> (string \<Rightarrow> bool) \<Rightarrow> scanner_env \<Rightarrow> scan_request \<Rightarrow> scan_response" where
  "handle_artifact_scanner_request sha date_parses env req =
     (if sq_path req \<noteq> ''/internal/artifact-scan'' then Scan_problem 404 ''NOT_FOUND''
      else if sq_method req \<noteq> ''POST'' then Scan_problem 405 ''METHOD_NOT_ALLOWED''
      else if \<not> authenticated sha (sq_header req ''x-aiphabee-scanner-key'') (sn_shared_key env) then
        Scan_problem 401 ''SCANNER_AUTH_REJECTED''
      else if sq_header req ''x-aiphabee-scanner-contract'' \<noteq> Some artifact_scanner_contract_version then
        Scan_problem 400 ''SCANNER_CONTRACT_MISMATCH''
      else
        (let classification = header_or req ''x-aiphabee-classification'' []; kind = header_or req ''x-aiphabee-kind'' [];
             claimed = header_or req ''x-aiphabee-content-sha256'' [];
             content_type = header_or req ''x-aiphabee-content-type'' [];
             content_length = content_length_of (header_or req ''content-length'' ''0'') in
         if classification \<notin> set scanner_classifications \<or> kind \<notin> set scanner_kinds then
           Scan_problem 400 ''INVALID_SCAN_METADATA''
         else if \<not> sha256_hex_pattern claimed \<or> \<not> opaque_text (Some (JStr content_type)) 255 then
           Scan_problem 400 ''INVALID_SCAN_METADATA''
         else if (case content_length of Some n \<Rightarrow> artifact_scanner_max_bytes < n | None \<Rightarrow> False) then
           Scan_problem 413 ''SCAN_PAYLOAD_TOO_LARGE''
         else if length (sq_body req) = 0 then Scan_problem 400 ''EMPTY_SCAN_PAYLOAD''
         else if artifact_scanner_max_bytes < length (sq_body req) then Scan_problem 413 ''SCAN_PAYLOAD_TOO_LARGE''
         else scan_validated sha date_parses env req))"

section \<open>The worker's client\<close>

record scan_input =
  si_bytes :: bytes
  si_classification :: string
  si_content_hash_sha256 :: string
  si_content_type :: string
  si_kind :: string

datatype client_error = Client_invalid_config | Client_scan_rejected string | Client_protocol_error | Client_fetch_failed

definition client_request :: "string \<Rightarrow> scan_input \<Rightarrow> scan_request" where
  "client_request shared_key x =
     \<lparr>sq_path = ''/internal/artifact-scan'', sq_method = ''POST'',
      sq_header = map_of
        [(''content-type'', ''application/octet-stream''), (''x-aiphabee-classification'', si_classification x),
         (''x-aiphabee-content-sha256'', si_content_hash_sha256 x), (''x-aiphabee-content-type'', si_content_type x),
         (''x-aiphabee-kind'', si_kind x), (''x-aiphabee-scanner-contract'', artifact_scanner_contract_version),
         (''x-aiphabee-scanner-key'', shared_key)],
      sq_body = si_bytes x\<rparr>"

definition provider_code_char :: "char \<Rightarrow> bool" where
  "provider_code_char c \<longleftrightarrow> is_upper c \<or> is_digit c \<or> c = CHR ''_''"

text \<open>The code of an error body, where it is a safe one.\<close>

definition safe_provider_code :: "json option \<Rightarrow> string" where
  "safe_provider_code body =
     (case body of
        Some (JObj ms) \<Rightarrow>
          (case map_of ms ''error'' of
             Some (JObj es) \<Rightarrow>
               (case map_of es ''code'' of
                  Some (JStr code) \<Rightarrow>
                    if 1 \<le> length code \<and> length code \<le> 120 \<and> list_all provider_code_char code then code else ''UNCLASSIFIED''
                | _ \<Rightarrow> ''UNCLASSIFIED'')
           | _ \<Rightarrow> ''UNCLASSIFIED'')
      | _ \<Rightarrow> ''UNCLASSIFIED'')"

definition client_verdict ::
  "(string \<Rightarrow> bool) \<Rightarrow> scan_input \<Rightarrow> json option \<Rightarrow> client_error + scan_result" where
  "client_verdict date_parses x v =
     (case v of
        Some (JObj ms) \<Rightarrow>
          (case (map_of ms ''status'', map_of ms ''engine'', map_of ms ''signature_version'', map_of ms ''scanned_at'') of
             (Some (JStr status), Some (JStr engine), Some (JStr signature), Some (JStr scanned_at)) \<Rightarrow>
               if status \<noteq> ''clean'' \<and> status \<noteq> ''unsafe'' \<or> \<not> opaque_text (Some (JStr engine)) 128 \<or>
                 \<not> opaque_text (Some (JStr signature)) 256 \<or> \<not> date_parses scanned_at then Inl Client_protocol_error
               else if status = ''unsafe'' then
                 (if map_of ms ''reason_code'' \<noteq> Some (JStr ''malware_detected'') then Inl Client_protocol_error
                  else Inr Scan_unsafe)
               else if map_of ms ''reason_code'' \<noteq> None then Inl Client_protocol_error
               else Inr (Scan_clean \<lparr>cs_classification = si_classification x, cs_engine = engine, cs_scanned_at = scanned_at,
                 cs_signature_version = signature\<rparr>)
           | _ \<Rightarrow> Inl Client_protocol_error)
      | _ \<Rightarrow> Inl Client_protocol_error)"

text \<open>\<open>fetch\<close> is the service binding; \<open>None\<close> is a rejected request.\<close>

definition client_scan ::
  "(string \<Rightarrow> bool) \<Rightarrow> (scan_request \<Rightarrow> upstream_response option) \<Rightarrow> string \<Rightarrow> scan_input \<Rightarrow> client_error + scan_result" where
  "client_scan date_parses fetch shared_key x =
     (if length shared_key < 32 then Inl Client_invalid_config
      else if \<not> sha256_hex_pattern (si_content_hash_sha256 x) then Inl Client_protocol_error
      else
        (case fetch (client_request shared_key x) of
           None \<Rightarrow> Inl Client_fetch_failed
         | Some response \<Rightarrow>
             if \<not> response_is_ok response \<or>
               \<not> (case up_content_type response of Some t \<Rightarrow> starts_with ''application/json'' t | None \<Rightarrow> False) then
               Inl (Client_scan_rejected (''SCAN_REJECTED_'' @ nat_text (up_status response) @ ''_'' @ safe_provider_code (up_json response)))
             else client_verdict date_parses x (up_json response)))"

text \<open>The endpoint as the service binding serves it; \<open>Response.json\<close> sets the content type.\<close>

definition endpoint_service ::
  "(bytes \<Rightarrow> bytes) \<Rightarrow> (string \<Rightarrow> bool) \<Rightarrow> scanner_env \<Rightarrow> scan_request \<Rightarrow> upstream_response option" where
  "endpoint_service sha date_parses env req =
     (case handle_artifact_scanner_request sha date_parses env req of
        Scan_problem status code \<Rightarrow> Some \<lparr>up_status = status, up_content_type = Some ''application/json'',
          up_json = Some (JObj [(''error'', JObj [(''code'', JStr code)])])\<rparr>
      | Scan_answer ms \<Rightarrow> Some \<lparr>up_status = 200, up_content_type = Some ''application/json'', up_json = Some (JObj ms)\<rparr>)"

text \<open>The scan the handoff asks its scanner port for.\<close>

definition handoff_scan_input :: "(bytes \<Rightarrow> bytes) \<Rightarrow> handoff_candidate \<Rightarrow> bytes \<Rightarrow> scan_input" where
  "handoff_scan_input sha c content =
     \<lparr>si_bytes = content, si_classification = hc_classification c, si_content_hash_sha256 = sha256_text sha content,
      si_content_type = hc_content_type c, si_kind = hc_kind c\<rparr>"

section \<open>Properties\<close>

lemma or_fold_zero:
  "foldl (\<lambda>d (l, r). d OR (code_unit l XOR code_unit r)) (d :: nat) ps = 0 \<longleftrightarrow>
     d = 0 \<and> list_all (\<lambda>(l, r). (code_unit l :: nat) = code_unit r) ps"
proof (induction ps arbitrary: d)
  case (Cons p ps)
  obtain l r where p: "p = (l, r)" by force
  have "d OR (code_unit l XOR code_unit r) = 0 \<longleftrightarrow> d = 0 \<and> (code_unit l :: nat) = code_unit r"
    by (auto simp: bit_eq_iff bit_or_iff bit_xor_iff)
  then show ?case by (auto simp: Cons.IH p)
qed simp

lemma digest_difference_zero: "length a = length b \<Longrightarrow> digest_difference a b = 0 \<longleftrightarrow> a = b"
proof -
  assume "length a = length b"
  then have "list_all (\<lambda>(l, r). (code_unit l :: nat) = code_unit r) (zip a b) \<longleftrightarrow> a = b"
    by (induction a b rule: list_induct2) auto
  then show ?thesis by (simp add: digest_difference_def or_fold_zero)
qed

lemma parse_scanner_response_Some:
  assumes "parse_scanner_response date_parses v = Some ms"
  shows "v = Some (JObj ms) \<and> (map_of ms ''status'' = Some (JStr ''clean'') \<and> map_of ms ''reason_code'' = None \<or>
    map_of ms ''status'' = Some (JStr ''unsafe'') \<and> map_of ms ''reason_code'' = Some (JStr ''malware_detected''))"
  using assms by (auto simp: parse_scanner_response_def Let_def split: option.splits json.splits if_splits)

text \<open>
  The endpoint answers a scan only with a verdict of the scanner container itself, and only to a caller whose
  key has the digest of the configured key, of at least 32 characters, over a non-empty payload of at most
  10 MiB whose hash is the claimed one, under known classification and kind; the verdict is clean without a
  reason, or unsafe for malware.
\<close>

theorem scan_answer_is_authoritative:
  assumes "handle_artifact_scanner_request sha date_parses env req = Scan_answer ms"
    and "\<And>x. length (sha x) = 32"
  shows "(\<exists>key. sq_header req ''x-aiphabee-scanner-key'' = Some key \<and> key \<noteq> [] \<and>
       sha (utf8_encode key) = sha (utf8_encode (sn_shared_key env)) \<and> 32 \<le> length (sn_shared_key env)) \<and>
    sq_header req ''x-aiphabee-content-sha256'' = Some (bytes_to_hex (sha (sq_body req))) \<and>
    sq_body req \<noteq> [] \<and> length (sq_body req) \<le> artifact_scanner_max_bytes \<and>
    header_or req ''x-aiphabee-classification'' [] \<in> set scanner_classifications \<and>
    header_or req ''x-aiphabee-kind'' [] \<in> set scanner_kinds \<and>
    (\<exists>up. (sn_scan env = Some up \<or> sn_rescan env = Some up) \<and> response_is_ok up \<and> up_json up = Some (JObj ms)) \<and>
    (map_of ms ''status'' = Some (JStr ''clean'') \<and> map_of ms ''reason_code'' = None \<or>
     map_of ms ''status'' = Some (JStr ''unsafe'') \<and> map_of ms ''reason_code'' = Some (JStr ''malware_detected''))"
proof -
  have a: "authenticated sha (sq_header req ''x-aiphabee-scanner-key'') (sn_shared_key env)"
    "header_or req ''x-aiphabee-classification'' [] \<in> set scanner_classifications"
    "header_or req ''x-aiphabee-kind'' [] \<in> set scanner_kinds"
    "sq_body req \<noteq> []" "length (sq_body req) \<le> artifact_scanner_max_bytes"
    "scan_validated sha date_parses env req = Scan_answer ms"
    using assms(1) by (auto simp: handle_artifact_scanner_request_def Let_def split: if_splits)
  from a(6) obtain up where up: "bytes_to_hex (sha (sq_body req)) = header_or req ''x-aiphabee-content-sha256'' []"
    "scan_upstream env = Some up" "response_is_ok up" "parse_scanner_response date_parses (up_json up) = Some ms"
    by (auto simp: scan_validated_def split: option.splits if_splits)
  have "bytes_to_hex (sha (sq_body req)) \<noteq> []"
    using bytes_to_hex_length [of "sha (sq_body req)"] assms(2) [of "sq_body req"] by (metis list.size(3) mult_eq_0_iff zero_neq_numeral)
  then have "sq_header req ''x-aiphabee-content-sha256'' = Some (bytes_to_hex (sha (sq_body req)))"
    using up(1) by (auto simp: header_or_def split: option.splits)
  moreover obtain key where "sq_header req ''x-aiphabee-scanner-key'' = Some key" "key \<noteq> []" "32 \<le> length (sn_shared_key env)"
    "sha (utf8_encode key) = sha (utf8_encode (sn_shared_key env))"
    using a(1) assms(2) by (auto simp: authenticated_def digest_difference_zero not_less split: option.splits if_splits)
  moreover have "sn_scan env = Some up \<or> sn_rescan env = Some up"
    using up(2) by (auto simp: scan_upstream_def split: option.splits if_splits)
  ultimately show ?thesis using a(2-5) up(3) parse_scanner_response_Some [OF up(4)] by blast
qed

text \<open>
  The live scanner client never scans for the handoff: the handoff passes the hash of a content with its
  \<open>sha256:\<close> prefix, the client accepts only the bare hexadecimal digits and throws before it calls the endpoint,
  so every approved and readable candidate ends rejected as \<open>scan_failed\<close>, whatever the scanner would have said.
\<close>

theorem live_scanner_rejects_handoff:
  assumes "ie_read env = Some (Read_done content l p)" and "content \<noteq> []" and "length content \<le> max_handoff_bytes (hc_kind c)"
    and "ie_scan env =
      (case client_scan date_parses fetch key (handoff_scan_input sha c content) of Inl _ \<Rightarrow> None | Inr verdict \<Rightarrow> Some verdict)"
  shows "process_approved_candidate sha env lease i c d st = (Some (Item_rejected (hc_candidate_id c) Scan_failed), st)"
proof -
  have "\<not> sha256_hex_pattern (sha256_text sha content)"
    by (simp add: sha256_hex_pattern_def sha256_text_def is_lower_hex_def is_digit_def)
  then have "ie_scan env = None" using assms(4) by (simp add: client_scan_def handoff_scan_input_def)
  with assms(1-3) show ?thesis by (simp add: process_approved_candidate_def Let_def)
qed

section \<open>Sample scan\<close>

definition sample_scanner_key :: string where
  "sample_scanner_key = replicate 32 (CHR ''k'')"

definition sample_verdict :: "(string \<times> json) list" where
  "sample_verdict =
     [(''status'', JStr ''clean''), (''engine'', JStr ''clamav''), (''signature_version'', JStr ''1''), (''scanned_at'', JStr ''now'')]"

definition sample_scanner_env :: scanner_env where
  "sample_scanner_env =
     \<lparr>sn_shared_key = sample_scanner_key,
      sn_scan = Some \<lparr>up_status = 503, up_content_type = None, up_json = None\<rparr>,
      sn_health = (\<lambda>n. Some (n = 1)),
      sn_rescan = Some \<lparr>up_status = 200, up_content_type = Some ''application/json'', up_json = Some (JObj sample_verdict)\<rparr>\<rparr>"

definition sample_scan_input :: scan_input where
  "sample_scan_input =
     \<lparr>si_bytes = ''hello'', si_classification = ''user_private'',
      si_content_hash_sha256 = bytes_to_hex (sample_handoff_sha ''hello''), si_content_type = ''text/plain'', si_kind = ''memory''\<rparr>"

lemma sample_hash_hex: "sha256_hex_pattern (bytes_to_hex (sample_handoff_sha x))"
  using bytes_to_hex_lower by (simp add: sha256_hex_pattern_def bytes_to_hex_length sample_handoff_sha_def)

lemma sample_scan_answer:
  "handle_artifact_scanner_request sample_handoff_sha (\<lambda>_. True) sample_scanner_env
     (client_request sample_scanner_key sample_scan_input) = Scan_answer sample_verdict"
proof -
  have "parse_scanner_response (\<lambda>_. True) (Some (JObj sample_verdict)) = Some sample_verdict"
    by (simp add: parse_scanner_response_def sample_verdict_def opaque_text_def has_control_def is_control_def)
  moreover have "await_ready (\<lambda>n. Some (n = 1)) 0 health_attempts = Some True"
    by (simp add: health_attempts_def numeral_eq_Suc)
  ultimately have "scan_validated sample_handoff_sha (\<lambda>_. True) sample_scanner_env (client_request sample_scanner_key sample_scan_input)
      = Scan_answer sample_verdict"
    by (simp add: scan_validated_def header_or_def client_request_def sample_scan_input_def scan_upstream_def sample_scanner_env_def
        response_is_ok_def starts_with_def)
  moreover have "authenticated sample_handoff_sha (Some sample_scanner_key) sample_scanner_key"
    by (simp add: authenticated_def sample_scanner_key_def digest_difference_zero)
  ultimately show ?thesis
    using sample_hash_hex [of "''hello''"]
    by (simp add: handle_artifact_scanner_request_def Let_def)
      (simp add: client_request_def sample_scanner_env_def header_or_def sample_scan_input_def scanner_classifications_def
        scanner_kinds_def opaque_text_def has_control_def is_control_def content_length_of_def is_digit_def digits_value_def
        artifact_scanner_max_bytes_def)
qed

theorem scan_answer_is_authoritative_witness:
  "\<exists>key. sq_header (client_request sample_scanner_key sample_scan_input) ''x-aiphabee-scanner-key'' = Some key \<and> key \<noteq> [] \<and>
    sample_handoff_sha (utf8_encode key) = sample_handoff_sha (utf8_encode (sn_shared_key sample_scanner_env)) \<and>
    32 \<le> length (sn_shared_key sample_scanner_env)"
  using scan_answer_is_authoritative [OF sample_scan_answer] by (simp add: sample_handoff_sha_def)

theorem live_scanner_rejects_handoff_witness:
  "process_approved_candidate sample_handoff_sha
     (sample_item_env\<lparr>ie_scan := (case client_scan (\<lambda>_. True) (endpoint_service sample_handoff_sha (\<lambda>_. True) sample_scanner_env)
        sample_scanner_key (handoff_scan_input sample_handoff_sha sample_candidate ''hello'') of
          Inl _ \<Rightarrow> None | Inr verdict \<Rightarrow> Some verdict)\<rparr>)
     sample_lease sample_identity sample_candidate sample_decision empty_store =
   (Some (Item_rejected (hc_candidate_id sample_candidate) Scan_failed), empty_store)"
  by (rule live_scanner_rejects_handoff [where content = "''hello''" and l = "''l1''" and p = "''notes.txt''" and
        date_parses = "\<lambda>_. True" and key = sample_scanner_key and
        fetch = "endpoint_service sample_handoff_sha (\<lambda>_. True) sample_scanner_env"])
    (simp_all add: sample_item_env_def max_handoff_bytes_def handoff_memory_max_bytes_def handoff_artifact_max_bytes_def)

text \<open>Asked with the bare digits, the client obtains the endpoint's verdict.\<close>

lemma bare_hash_is_scanned:
  "client_scan (\<lambda>_. True) (endpoint_service sample_handoff_sha (\<lambda>_. True) sample_scanner_env) sample_scanner_key sample_scan_input =
     Inr (Scan_clean \<lparr>cs_classification = ''user_private'', cs_engine = ''clamav'', cs_scanned_at = ''now'', cs_signature_version = ''1''\<rparr>)"
proof -
  have "sha256_hex_pattern (si_content_hash_sha256 sample_scan_input)"
    unfolding sample_scan_input_def by (simp add: sample_hash_hex)
  moreover have "length sample_scanner_key = 32" by (simp add: sample_scanner_key_def)
  ultimately have "client_scan (\<lambda>_. True) (endpoint_service sample_handoff_sha (\<lambda>_. True) sample_scanner_env) sample_scanner_key
      sample_scan_input = client_verdict (\<lambda>_. True) sample_scan_input (Some (JObj sample_verdict))"
    by (simp add: client_scan_def endpoint_service_def sample_scan_answer response_is_ok_def starts_with_def)
  then show ?thesis
    by (simp add: client_verdict_def sample_verdict_def sample_scan_input_def opaque_text_def has_control_def is_control_def)
qed

end
