(* ===== verification/Tool_Gateway.thy ===== *)
theory Tool_Gateway
  imports Sandbox_Contract
begin

text \<open>
  The way of a sandboxed process to the tools: the egress handler of the bridge, which a request to the tool-gateway host
  is routed to (\<open>apps/sandbox-bridge/src/tool-gateway-egress.ts\<close> and \<open>ContainerProxy\<close> in its \<open>index.ts\<close>), and the gateway
  endpoint of the worker (\<open>apps/worker/src/sandbox-tool-gateway.ts\<close>) over the modelled gateway tokens.

  A request has its URL parsed; its body is a stream of chunks that may fail after them. The registry of
  executable tools and the execution of a tool are parameters, and the executions asked for are part of the result.
\<close>

section \<open>Requests\<close>

record request_url =
  ru_protocol :: string
  ru_hostname :: string
  ru_port :: string
  ru_pathname :: string
  ru_search :: string
  ru_hash :: string

record body_stream =
  bs_chunks :: "bytes list"
  bs_fails :: bool

record http_request =
  hq_url :: request_url
  hq_method :: string
  hq_header :: "string \<Rightarrow> string option"
  hq_body :: "body_stream option"

definition gateway_max_request_bytes :: nat where
  "gateway_max_request_bytes = 65536"

text \<open>The loop over the reader: \<open>None\<close> where it cancels, or where a read fails.\<close>

fun read_chunks :: "nat \<Rightarrow> bytes list \<Rightarrow> bool \<Rightarrow> bytes option" where
  "read_chunks seen [] fails = (if fails then None else Some [])"
| "read_chunks seen (c # cs) fails =
     (if gateway_max_request_bytes < seen + length c then None
      else map_option ((@) c) (read_chunks (seen + length c) cs fails))"

definition bounded_body :: "http_request \<Rightarrow> bytes option" where
  "bounded_body req =
     (if (case content_length_of (case hq_header req ''content-length'' of Some v \<Rightarrow> v | None \<Rightarrow> ''0'') of
            Some n \<Rightarrow> gateway_max_request_bytes < n | None \<Rightarrow> False) then None
      else
        (case hq_body req of
           None \<Rightarrow> None
         | Some s \<Rightarrow>
             (case read_chunks 0 (bs_chunks s) (bs_fails s) of
                None \<Rightarrow> None
              | Some content \<Rightarrow> if length content = 0 then None else Some content)))"

text \<open>The media type of a content type: the part before the first semicolon, trimmed.\<close>

definition media_type :: "http_request \<Rightarrow> string option" where
  "media_type req = map_option (\<lambda>v. js_trim (hd (split_on (CHR '';'') v))) (hq_header req ''content-type'')"

text \<open>
  A value as \<open>Headers\<close> keeps it: without surrounding HTTP white space, and none (a \<open>TypeError\<close>) where a NUL or a line break
  remains.
\<close>

definition header_ws :: "char \<Rightarrow> bool" where
  "header_ws c \<longleftrightarrow> code_unit c \<in> {9, 10, 13, 32}"

definition header_value :: "string \<Rightarrow> string option" where
  "header_value v =
     (let t = rev (dropWhile header_ws (rev (dropWhile header_ws v))) in
      if list_ex (\<lambda>c. code_unit c \<in> {0, 10, 13}) t then None else Some t)"

section \<open>The egress handler\<close>

record egress_params =
  ep_lease_id :: string
  ep_run_id :: string
  ep_tenant_id :: string
  ep_token :: string
  ep_user_id :: string

datatype egress_refusal = Egress_denied nat string | Egress_threw

definition deny_sandbox_outbound :: egress_refusal where
  "deny_sandbox_outbound = Egress_denied 403 ''SANDBOX_EGRESS_DENIED''"

definition trusted_params :: "json option \<Rightarrow> egress_params option" where
  "trusted_params v =
     (case v of
        Some (JObj ms) \<Rightarrow>
          if join_with (CHR '','') (sort (map fst ms)) \<noteq> ''lease_id,run_id,tenant_id,token,user_id'' then None
          else
            (case (str_field ms ''lease_id'', str_field ms ''run_id'', str_field ms ''tenant_id'', str_field ms ''token'',
                str_field ms ''user_id'') of
               (Some lease_id, Some run_id, Some tenant_id, Some token, Some user_id) \<Rightarrow>
                 if 4096 < length token \<or> \<not> gateway_token_pattern token then None
                 else Some \<lparr>ep_lease_id = lease_id, ep_run_id = run_id, ep_tenant_id = tenant_id, ep_token = token,
                   ep_user_id = user_id\<rparr>
             | _ \<Rightarrow> None)
      | _ \<Rightarrow> None)"

text \<open>The one URL the handler forwards to, and the one it forwards from.\<close>

definition tool_gateway_parts :: request_url where
  "tool_gateway_parts =
     \<lparr>ru_protocol = ''https:'', ru_hostname = tool_gateway_host, ru_port = [], ru_pathname = ''/v1/tools/call'',
      ru_search = [], ru_hash = []\<rparr>"

definition egress_allowed :: "http_request \<Rightarrow> bool" where
  "egress_allowed req \<longleftrightarrow>
     (let url = hq_url req in
      ru_protocol url = ''https:'' \<and> ru_hostname url = tool_gateway_host \<and> ru_port url = [] \<and>
      ru_pathname url = ''/v1/tools/call'' \<and> ru_search url = [] \<and> ru_hash url = [] \<and>
      hq_method req = ''POST'' \<and> media_type req = Some ''application/json'')"

definition forwarded_request :: "egress_params \<Rightarrow> bytes \<Rightarrow> egress_refusal + http_request" where
  "forwarded_request p content =
     with_some (header_value (''Bearer '' @ ep_token p)) Egress_threw (\<lambda>authorization.
     with_some (header_value (ep_lease_id p)) Egress_threw (\<lambda>lease_id.
     with_some (header_value (ep_run_id p)) Egress_threw (\<lambda>run_id.
     with_some (header_value (ep_tenant_id p)) Egress_threw (\<lambda>tenant_id.
     with_some (header_value (ep_user_id p)) Egress_threw (\<lambda>user_id.
       Inr \<lparr>hq_url = tool_gateway_parts, hq_method = ''POST'',
         hq_header = map_of
           [(''authorization'', authorization), (''content-type'', ''application/json''),
            (''x-aiphabee-sandbox-lease-id'', lease_id), (''x-aiphabee-sandbox-run-id'', run_id),
            (''x-aiphabee-tenant-id'', tenant_id), (''x-aiphabee-user-id'', user_id)],
         hq_body = Some \<lparr>bs_chunks = [content], bs_fails = False\<rparr>\<rparr>)))))"

text \<open>\<open>service\<close> is the binding to the gateway, where there is one; a rejected fetch is \<open>None\<close>.\<close>

definition forward_sandbox_tool_gateway_request ::
  "(http_request \<Rightarrow> 'r option) option \<Rightarrow> json option \<Rightarrow> http_request \<Rightarrow> egress_refusal + 'r" where
  "forward_sandbox_tool_gateway_request service params req =
     require (egress_allowed req) deny_sandbox_outbound (
     with_some (trusted_params params) (Egress_denied 503 ''SANDBOX_TOOL_GATEWAY_UNAVAILABLE'') (\<lambda>p.
     with_some service (Egress_denied 503 ''SANDBOX_TOOL_GATEWAY_UNAVAILABLE'') (\<lambda>fetch.
     with_some (bounded_body req) (Egress_denied 400 ''SANDBOX_TOOL_GATEWAY_INVALID_REQUEST'') (\<lambda>content.
     and_then (forwarded_request p content) (\<lambda>forwarded.
     with_some (fetch forwarded) (Egress_denied 502 ''SANDBOX_TOOL_GATEWAY_FAILED'') Inr)))))"

text \<open>
  The proxy of a container: \<open>overrides\<close> are the methods set by host, with their parameters; \<open>fallback\<close> is the
  proxy of the platform.
\<close>

definition tool_gateway_outbound_handler :: string where
  "tool_gateway_outbound_handler = ''toolGateway''"

definition container_proxy_fetch ::
  "(http_request \<Rightarrow> egress_refusal + 'r) \<Rightarrow> (http_request \<Rightarrow> 'r option) option \<Rightarrow> (string \<Rightarrow> (string \<times> json option) option)
    \<Rightarrow> http_request \<Rightarrow> egress_refusal + 'r" where
  "container_proxy_fetch fallback service overrides req =
     (case overrides (ru_hostname (hq_url req)) of
        Some (meth, params) \<Rightarrow>
          if ru_hostname (hq_url req) = tool_gateway_host \<and> meth = tool_gateway_outbound_handler then
            forward_sandbox_tool_gateway_request service params req
          else fallback req
      | None \<Rightarrow> fallback req)"

section \<open>The gateway\<close>

record lease_binding_headers =
  lh_lease_id :: string
  lh_run_id :: string
  lh_tenant_id :: string
  lh_user_id :: string

record tool_execution =
  te_arguments :: "(string \<times> json) list"
  te_claims :: gateway_claims
  te_tool_name :: string

record tool_response =
  tp_status :: nat
  tp_content_type :: "string option"
  tp_request_id :: "string option"
  tp_body :: "bytes option"

datatype gateway_response = Gateway_error nat string | Gateway_response tool_response

record gateway_env =
  ge_secret :: "string option"
  ge_now_ms :: int
  ge_executable :: "string \<Rightarrow> bool"
  ge_execute :: "tool_execution \<Rightarrow> tool_response option"

definition bearer_token :: "http_request \<Rightarrow> string option" where
  "bearer_token req =
     (case hq_header req ''authorization'' of
        None \<Rightarrow> None
      | Some v \<Rightarrow>
          if \<not> starts_with ''Bearer '' v then None
          else (let token = drop 7 v in if 0 < length token \<and> length token \<le> 4096 then Some token else None))"

definition binding_header :: "http_request \<Rightarrow> string \<Rightarrow> string option" where
  "binding_header req name =
     (case hq_header req name of
        None \<Rightarrow> None
      | Some v \<Rightarrow> if length v < 1 \<or> 128 < length v then None else Some v)"

definition trusted_lease_binding :: "http_request \<Rightarrow> lease_binding_headers option" where
  "trusted_lease_binding req =
     (case (binding_header req ''x-aiphabee-sandbox-lease-id'', binding_header req ''x-aiphabee-sandbox-run-id'',
         binding_header req ''x-aiphabee-tenant-id'', binding_header req ''x-aiphabee-user-id'') of
        (Some lease_id, Some run_id, Some tenant_id, Some user_id) \<Rightarrow>
          Some \<lparr>lh_lease_id = lease_id, lh_run_id = run_id, lh_tenant_id = tenant_id, lh_user_id = user_id\<rparr>
      | _ \<Rightarrow> None)"

definition tool_call_of :: "bytes \<Rightarrow> ((string \<times> json) list \<times> string) option" where
  "tool_call_of content =
     (case Option.bind (utf8_decode content) json_parse of
        Some (JObj ms) \<Rightarrow>
          if json_text (JArr (map JStr (sort (map fst ms)))) \<noteq> json_text (JArr (map JStr [''arguments'', ''tool_name''])) then None
          else
            (case (map_of ms ''arguments'', map_of ms ''tool_name'') of
               (Some (JObj arguments), Some (JStr tool_name)) \<Rightarrow> Some (arguments, tool_name)
             | _ \<Rightarrow> None)
      | _ \<Rightarrow> None)"

definition parse_gateway_body :: "http_request \<Rightarrow> ((string \<times> json) list \<times> string) option" where
  "parse_gateway_body req =
     (if media_type req \<noteq> Some ''application/json'' then None else Option.bind (bounded_body req) tool_call_of)"

text \<open>\<open>new Response\<close> throws on a status out of range, and on a body with a status that has none.\<close>

definition bounded_tool_response :: "tool_response \<Rightarrow> tool_response option" where
  "bounded_tool_response r =
     (if tp_status r < 200 \<or> 599 < tp_status r \<or> tp_status r \<in> {204, 205, 304} \<and> tp_body r \<noteq> None then None else Some r)"

definition claims_match_binding :: "gateway_claims \<Rightarrow> lease_binding_headers \<Rightarrow> bool" where
  "claims_match_binding c b \<longleftrightarrow>
     gc_lease_id c = lh_lease_id b \<and> gc_run_id c = lh_run_id b \<and> gc_tenant_id c = lh_tenant_id b \<and> gc_user_id c = lh_user_id b"

text \<open>What the request is authorised for: the guards before the execution.\<close>

definition authorized_execution ::
  "(bytes \<Rightarrow> bytes \<Rightarrow> bytes) \<Rightarrow> gateway_env \<Rightarrow> http_request \<Rightarrow> gateway_response + tool_execution" where
  "authorized_execution hmac env req =
     (let url = hq_url req; unauthorized = Gateway_error 401 ''TOOL_GATEWAY_UNAUTHORIZED'' in
      require (hq_method req = ''POST'' \<and> ru_pathname url = ''/v1/tools/call'' \<and> ru_search url = [] \<and> ru_hash url = [])
        (Gateway_error 404 ''TOOL_GATEWAY_ROUTE_DENIED'') (
      with_some (case ge_secret env of None \<Rightarrow> None | Some s \<Rightarrow> if length s = 0 then None else Some s)
        (Gateway_error 503 ''TOOL_GATEWAY_UNAVAILABLE'') (\<lambda>secret.
      with_some (bearer_token req) unauthorized (\<lambda>token.
      with_some (trusted_lease_binding req) unauthorized (\<lambda>b.
      with_some (parse_gateway_body req) (Gateway_error 400 ''TOOL_GATEWAY_INVALID_REQUEST'') (\<lambda>(arguments, tool_name).
      and_then
        (map_sum (\<lambda>e. if e = Invalid_secret then Gateway_error 503 ''TOOL_GATEWAY_UNAVAILABLE'' else unauthorized) id
          (verify_sandbox_tool_gateway_token hmac token secret (ge_now_ms env) (Some tool_name))) (\<lambda>c.
      require (claims_match_binding c b) unauthorized (
      require (ge_executable env (gc_tool_name c)) (Gateway_error 403 ''TOOL_GATEWAY_TOOL_DENIED'') (
        Inr \<lparr>te_arguments = arguments, te_claims = c, te_tool_name = gc_tool_name c\<rparr>)))))))))"

text \<open>With the response, the execution that was asked for, if any.\<close>

definition handle_sandbox_tool_gateway_request ::
  "(bytes \<Rightarrow> bytes \<Rightarrow> bytes) \<Rightarrow> gateway_env \<Rightarrow> http_request \<Rightarrow> gateway_response \<times> tool_execution option" where
  "handle_sandbox_tool_gateway_request hmac env req =
     (case authorized_execution hmac env req of
        Inl response \<Rightarrow> (response, None)
      | Inr x \<Rightarrow>
          (case Option.bind (ge_execute env x) bounded_tool_response of
             None \<Rightarrow> (Gateway_error 502 ''TOOL_GATEWAY_EXECUTION_FAILED'', Some x)
           | Some r \<Rightarrow> (Gateway_response r, Some x)))"

section \<open>Bodies and headers\<close>

lemma read_chunks_Some: "read_chunks n cs fails = Some content \<Longrightarrow> n \<le> gateway_max_request_bytes \<Longrightarrow>
    content = concat cs \<and> n + length content \<le> gateway_max_request_bytes \<and> \<not> fails"
proof (induction cs arbitrary: n content)
  case (Cons c cs)
  then show ?case by (fastforce split: if_splits)
qed (simp split: if_splits)

lemma bounded_body_Some:
  assumes "bounded_body req = Some content"
  shows "content \<noteq> [] \<and> length content \<le> gateway_max_request_bytes \<and>
    (\<exists>s. hq_body req = Some s \<and> content = concat (bs_chunks s) \<and> \<not> bs_fails s)"
  using assms by (fastforce simp: bounded_body_def split: option.splits if_splits dest: read_chunks_Some)

lemma bounded_body_single [simp]:
  assumes "content \<noteq> []" and "length content \<le> gateway_max_request_bytes" and "hq_header req ''content-length'' = None"
    and "hq_body req = Some \<lparr>bs_chunks = [content], bs_fails = False\<rparr>"
  shows "bounded_body req = Some content"
  using assms by (simp add: bounded_body_def content_length_of_def is_digit_def digits_value_def)

lemma media_type_json [simp]: "hq_header req ''content-type'' = Some ''application/json'' \<Longrightarrow> media_type req = Some ''application/json''"
  by (simp add: media_type_def js_trim_def is_ws_def)

lemma trimmed_header_value:
  assumes "v \<noteq> []" and "\<not> header_ws (hd v)" and "\<not> header_ws (last v)" and "\<not> list_ex (\<lambda>c. code_unit c \<in> {0, 10, 13}) v"
  shows "header_value v = Some v"
proof -
  have "dropWhile header_ws v = v" using assms(1,2) by (simp add: dropWhile_eq_self_iff)
  moreover have "dropWhile header_ws (rev v) = rev v" using assms(1,3) by (simp add: dropWhile_eq_self_iff hd_rev)
  ultimately show ?thesis using assms(4) by (simp add: header_value_def)
qed

lemma header_ws_is_ws: "header_ws c \<Longrightarrow> is_ws c"
  by (auto simp: header_ws_def is_ws_def)

lemma js_trim_ends:
  assumes "js_trim s = s" and "s \<noteq> []"
  shows "\<not> is_ws (hd s) \<and> \<not> is_ws (last s)"
proof -
  let ?t = "dropWhile is_ws s"
  have "length s \<le> length ?t"
    using assms(1) length_dropWhile_le [of is_ws "rev ?t"] by (simp add: js_trim_def) (metis length_rev)
  then have t: "?t = s" using append_take_drop_id [of 0 s] takeWhile_dropWhile_id [of is_ws s]
    by (metis append_Nil length_append length_greater_0_conv less_add_same_cancel2 not_less)
  have "rev (dropWhile is_ws (rev s)) = s" using assms(1) by (simp add: js_trim_def t)
  then have "dropWhile is_ws (rev s) = rev s" by (metis rev_rev_ident)
  with t assms(2) show ?thesis by (simp add: dropWhile_eq_self_iff hd_rev)
qed

lemma gateway_id_header: "valid_gateway_id v \<Longrightarrow> header_value v = Some v"
proof (rule trimmed_header_value)
  assume v: "valid_gateway_id v"
  then show ne: "v \<noteq> []" by (auto simp: valid_gateway_id_def)
  show "\<not> header_ws (hd v)" "\<not> header_ws (last v)"
    using v js_trim_ends [OF _ ne] header_ws_is_ws by (auto simp: valid_gateway_id_def)
  show "\<not> list_ex (\<lambda>c. code_unit c \<in> {0, 10, 13}) v"
    using v by (auto simp: valid_gateway_id_def has_control_def list_ex_iff is_control_def)
qed

lemma split_on_chars: "x \<in> set s \<Longrightarrow> x = d \<or> (\<exists>w \<in> set (split_on d s). x \<in> set w)"
proof (induction s)
  case (Cons c cs)
  obtain w ws where "split_on d cs = w # ws" using split_on_nonempty [of d cs] by (cases "split_on d cs") auto
  with Cons show ?case by auto
qed simp

lemma gateway_token_chars:
  assumes "gateway_token_pattern token"
  shows "token \<noteq> [] \<and> list_all (\<lambda>c. token_part_char c \<or> c = CHR ''.'') token"
proof -
  obtain p s where sp: "split_on (CHR ''.'') token = [p, s]" "token_part p" "token_part s"
    using assms by (auto simp: gateway_token_pattern_def split: list.splits)
  have "\<And>c. c \<in> set token \<Longrightarrow> c = CHR ''.'' \<or> c \<in> set p \<or> c \<in> set s" using split_on_chars sp(1) by fastforce
  moreover have "token \<noteq> []" using sp(1) by auto
  ultimately show ?thesis using sp by (auto simp: token_part_def list_all_iff)
qed

lemma token_char_plain: "token_part_char c \<or> c = CHR ''.'' \<Longrightarrow> \<not> header_ws c \<and> code_unit c \<notin> {0, 10, 13}"
  by (auto simp: token_part_char_def header_ws_def is_alnum_def is_lower_def is_upper_def is_digit_def)

lemma bearer_header: "gateway_token_pattern token \<Longrightarrow> header_value (''Bearer '' @ token) = Some (''Bearer '' @ token)"
proof (rule trimmed_header_value)
  assume "gateway_token_pattern token"
  from gateway_token_chars [OF this] have t: "token \<noteq> []" "\<And>c. c \<in> set token \<Longrightarrow> \<not> header_ws c \<and> code_unit c \<notin> {0, 10, 13}"
    using token_char_plain by (auto simp: list_all_iff)
  show "\<not> header_ws (last (''Bearer '' @ token))" using t by (simp add: last_in_set)
  show "\<not> list_ex (\<lambda>c. code_unit c \<in> {0, 10, 13}) (''Bearer '' @ token)" using t(2) by (auto simp: list_ex_iff)
qed (simp_all add: header_ws_def)

lemma issued_token_pattern:
  assumes "open_token hmac token secret = Inr x"
  shows "gateway_token_pattern token \<and> 0 < length token \<and> length token \<le> 4096"
proof -
  obtain p s where s: "split_on (CHR ''.'') token = [p, s]" "base64url_to_bytes p \<noteq> None" "base64url_to_bytes s \<noteq> None"
    "length token \<le> 4096"
    using assms by (auto simp: open_token_def split: list.splits)
  then have "token_part p \<and> token_part s" by (auto simp: base64url_to_bytes_def split: if_splits)
  with s have "gateway_token_pattern token" by (simp add: gateway_token_pattern_def)
  with gateway_token_chars [OF this] s(4) show ?thesis by simp
qed

section \<open>What is executed\<close>

lemma authorized_execution_Inr:
  assumes "authorized_execution hmac env req = Inr x"
  obtains secret token where "ge_secret env = Some secret" "bearer_token req = Some token"
    "verify_sandbox_tool_gateway_token hmac token secret (ge_now_ms env) (Some (te_tool_name x)) = Inr (te_claims x)"
    "parse_gateway_body req = Some (te_arguments x, te_tool_name x)" "te_tool_name x = gc_tool_name (te_claims x)"
    "trusted_lease_binding req = Some \<lparr>lh_lease_id = gc_lease_id (te_claims x), lh_run_id = gc_run_id (te_claims x),
       lh_tenant_id = gc_tenant_id (te_claims x), lh_user_id = gc_user_id (te_claims x)\<rparr>"
    "ge_executable env (te_tool_name x)"
proof -
  obtain secret token b args tool c where
    c: "ge_secret env = Some secret" "bearer_token req = Some token" "trusted_lease_binding req = Some b"
      "parse_gateway_body req = Some (args, tool)"
      "verify_sandbox_tool_gateway_token hmac token secret (ge_now_ms env) (Some tool) = Inr c"
      "claims_match_binding c b" "ge_executable env (gc_tool_name c)"
    and x: "x = \<lparr>te_arguments = args, te_claims = c, te_tool_name = gc_tool_name c\<rparr>"
    using assms by (auto simp: authorized_execution_def Let_def split: option.splits if_splits)
  have "gc_tool_name c = tool" using c(5) by (fastforce simp: verify_sandbox_tool_gateway_token_def dest: validate_gateway_claims_sound(3))
  with c x that show thesis by (cases b) (simp add: claims_match_binding_def)
qed

lemma handle_gateway_executed:
  "handle_sandbox_tool_gateway_request hmac env req = (response, Some x) \<Longrightarrow> authorized_execution hmac env req = Inr x"
  by (auto simp: handle_sandbox_tool_gateway_request_def split: sum.splits option.splits)

lemma bearer_token_Some: "bearer_token req = Some token \<longleftrightarrow>
    hq_header req ''authorization'' = Some (''Bearer '' @ token) \<and> 0 < length token \<and> length token \<le> 4096"
  by (auto simp: bearer_token_def Let_def starts_with_iff split: option.splits)

lemma binding_header_Some [simp]:
  "binding_header req name = Some v \<longleftrightarrow> hq_header req name = Some v \<and> 1 \<le> length v \<and> length v \<le> 128"
  by (auto simp: binding_header_def not_less Suc_le_eq split: option.splits)

lemma trusted_lease_binding_Some:
  "trusted_lease_binding req = Some b \<longleftrightarrow>
     binding_header req ''x-aiphabee-sandbox-lease-id'' = Some (lh_lease_id b) \<and>
     binding_header req ''x-aiphabee-sandbox-run-id'' = Some (lh_run_id b) \<and>
     binding_header req ''x-aiphabee-tenant-id'' = Some (lh_tenant_id b) \<and>
     binding_header req ''x-aiphabee-user-id'' = Some (lh_user_id b)"
  by (cases b) (auto simp: trusted_lease_binding_def simp del: binding_header_Some split: option.splits)

text \<open>
  C11: The gateway executes a tool only for a request that carries a bearer token which verifies, now and under the
  configured secret, for exactly that tool; the lease, run, tenant and user headers are the ones of the token's
  claims, the tool is executable, and the arguments are read from a complete body of 1 to 65536 bytes.
\<close>

theorem gateway_executes_only_authorized:
  assumes "handle_sandbox_tool_gateway_request hmac env req = (response, Some x)"
  shows "\<exists>secret token content. ge_secret env = Some secret \<and> hq_header req ''authorization'' = Some (''Bearer '' @ token) \<and>
    verify_sandbox_tool_gateway_token hmac token secret (ge_now_ms env) (Some (te_tool_name x)) = Inr (te_claims x) \<and>
    te_tool_name x = gc_tool_name (te_claims x) \<and> ge_executable env (te_tool_name x) \<and>
    hq_header req ''x-aiphabee-sandbox-lease-id'' = Some (gc_lease_id (te_claims x)) \<and>
    hq_header req ''x-aiphabee-sandbox-run-id'' = Some (gc_run_id (te_claims x)) \<and>
    hq_header req ''x-aiphabee-tenant-id'' = Some (gc_tenant_id (te_claims x)) \<and>
    hq_header req ''x-aiphabee-user-id'' = Some (gc_user_id (te_claims x)) \<and>
    bounded_body req = Some content \<and> tool_call_of content = Some (te_arguments x, te_tool_name x) \<and>
    1 \<le> length content \<and> length content \<le> 65536"
proof -
  from handle_gateway_executed [OF assms] obtain secret token where a: "ge_secret env = Some secret" "bearer_token req = Some token"
    "verify_sandbox_tool_gateway_token hmac token secret (ge_now_ms env) (Some (te_tool_name x)) = Inr (te_claims x)"
    "parse_gateway_body req = Some (te_arguments x, te_tool_name x)" "te_tool_name x = gc_tool_name (te_claims x)"
    "trusted_lease_binding req = Some \<lparr>lh_lease_id = gc_lease_id (te_claims x), lh_run_id = gc_run_id (te_claims x),
       lh_tenant_id = gc_tenant_id (te_claims x), lh_user_id = gc_user_id (te_claims x)\<rparr>"
    "ge_executable env (te_tool_name x)" by (rule authorized_execution_Inr)
  from a(4) obtain content where "bounded_body req = Some content" "tool_call_of content = Some (te_arguments x, te_tool_name x)"
    by (auto simp: parse_gateway_body_def bind_eq_Some_conv split: if_splits)
  moreover from bounded_body_Some [OF this(1)] have "1 \<le> length content" "length content \<le> 65536"
    by (auto simp: gateway_max_request_bytes_def Suc_le_eq)
  ultimately show ?thesis using a unfolding bearer_token_Some trusted_lease_binding_Some by auto
qed

text \<open>What the egress handler hands on.\<close>

lemma forward_Inr:
  assumes "forward_sandbox_tool_gateway_request (Some fetch) params req = Inr r"
  obtains p content forwarded where "egress_allowed req" "trusted_params params = Some p" "bounded_body req = Some content"
    "forwarded_request p content = Inr forwarded" "fetch forwarded = Some r"
  using assms that by (auto simp: forward_sandbox_tool_gateway_request_def)

lemma trusted_params_Some:
  "trusted_params v = Some p \<Longrightarrow> gateway_token_pattern (ep_token p) \<and> length (ep_token p) \<le> 4096"
  by (auto simp: trusted_params_def split: option.splits json.splits if_splits)

lemma forwarded_request_Inr:
  assumes "forwarded_request p content = Inr q" and "gateway_token_pattern (ep_token p)"
  shows "hq_header q ''authorization'' = Some (''Bearer '' @ ep_token p)"
    and "hq_header q ''content-length'' = None" and "media_type q = Some ''application/json''"
    and "hq_header q ''x-aiphabee-sandbox-lease-id'' = header_value (ep_lease_id p)"
    and "hq_header q ''x-aiphabee-sandbox-run-id'' = header_value (ep_run_id p)"
    and "hq_header q ''x-aiphabee-tenant-id'' = header_value (ep_tenant_id p)"
    and "hq_header q ''x-aiphabee-user-id'' = header_value (ep_user_id p)"
    and "hq_body q = Some \<lparr>bs_chunks = [content], bs_fails = False\<rparr>"
    and "hq_method q = ''POST''" and "hq_url q = tool_gateway_parts"
  using assms bearer_header [OF assms(2)] by (auto simp: forwarded_request_def)

lemma egress_execution:
  assumes "forward_sandbox_tool_gateway_request (Some (\<lambda>q. Some (handle_sandbox_tool_gateway_request hmac env q)))
      params req = Inr (response, Some x)"
  obtains p secret where "trusted_params params = Some p" "ge_secret env = Some secret"
    "verify_sandbox_tool_gateway_token hmac (ep_token p) secret (ge_now_ms env) (Some (te_tool_name x)) = Inr (te_claims x)"
    "header_value (ep_lease_id p) = Some (gc_lease_id (te_claims x))"
    "header_value (ep_run_id p) = Some (gc_run_id (te_claims x))"
    "header_value (ep_tenant_id p) = Some (gc_tenant_id (te_claims x))"
    "header_value (ep_user_id p) = Some (gc_user_id (te_claims x))"
proof -
  obtain p content q where f: "trusted_params params = Some p" "forwarded_request p content = Inr q"
    "handle_sandbox_tool_gateway_request hmac env q = (response, Some x)"
    using assms by (rule forward_Inr) simp
  note headers = forwarded_request_Inr [OF f(2) trusted_params_Some [OF f(1), THEN conjunct1]]
  from handle_gateway_executed [OF f(3)] obtain secret token where "ge_secret env = Some secret" "bearer_token q = Some token"
    "verify_sandbox_tool_gateway_token hmac token secret (ge_now_ms env) (Some (te_tool_name x)) = Inr (te_claims x)"
    "trusted_lease_binding q = Some \<lparr>lh_lease_id = gc_lease_id (te_claims x), lh_run_id = gc_run_id (te_claims x),
       lh_tenant_id = gc_tenant_id (te_claims x), lh_user_id = gc_user_id (te_claims x)\<rparr>"
    by (rule authorized_execution_Inr)
  with f(1) headers that show thesis by (simp add: bearer_token_Some trusted_lease_binding_Some)
qed

text \<open>
  A sandboxed process cannot choose on whose behalf a tool runs: whatever request it sends, a tool executed through
  the egress handler and the gateway runs for the lease, run, tenant and user of the parameters the backend bound to
  the route, under the token bound with them, and never for identities or tokens that the request names.
\<close>

theorem egress_identity_is_bound:
  assumes "forward_sandbox_tool_gateway_request (Some (\<lambda>q. Some (handle_sandbox_tool_gateway_request hmac env q)))
      params req = Inr (response, Some x)"
  shows "\<exists>p secret. trusted_params params = Some p \<and> ge_secret env = Some secret \<and>
    verify_sandbox_tool_gateway_token hmac (ep_token p) secret (ge_now_ms env) (Some (te_tool_name x)) = Inr (te_claims x) \<and>
    header_value (ep_lease_id p) = Some (gc_lease_id (te_claims x)) \<and>
    header_value (ep_run_id p) = Some (gc_run_id (te_claims x)) \<and>
    header_value (ep_tenant_id p) = Some (gc_tenant_id (te_claims x)) \<and>
    header_value (ep_user_id p) = Some (gc_user_id (te_claims x))"
  using assms by (rule egress_execution) blast

lemma tool_call_end_to_end:
  assumes "issue_sandbox_tool_gateway_token hmac input = Inr (c, token)" and "\<And>k m. length (hmac k m) = 32"
    and "trusted_params params = Some \<lparr>ep_lease_id = ig_lease_id input, ep_run_id = ig_run_id input,
      ep_tenant_id = ig_tenant_id input, ep_token = token, ep_user_id = ig_user_id input\<rparr>"
    and "egress_allowed req" and "bounded_body req = Some content"
    and "tool_call_of content = Some (arguments, ig_tool_name input)"
    and "ge_secret env = Some (ig_secret input)" and "ge_executable env (ig_tool_name input)"
    and "ig_now_ms input div 1000 \<le> ge_now_ms env div 1000 + 30"
    and "ge_now_ms env div 1000 < ig_now_ms input div 1000 + ig_ttl_seconds input"
    and "ge_execute env \<lparr>te_arguments = arguments, te_claims = c, te_tool_name = ig_tool_name input\<rparr> = Some r"
    and "bounded_tool_response r = Some r"
  shows "forward_sandbox_tool_gateway_request (Some (\<lambda>q. Some (handle_sandbox_tool_gateway_request hmac env q))) params req =
    Inr (Gateway_response r, Some \<lparr>te_arguments = arguments, te_claims = c, te_tool_name = ig_tool_name input\<rparr>)"
proof -
  let ?p = "\<lparr>ep_lease_id = ig_lease_id input, ep_run_id = ig_run_id input, ep_tenant_id = ig_tenant_id input,
    ep_token = token, ep_user_id = ig_user_id input\<rparr>"
  note issued = gateway_issued [OF assms(1)]
  have ids: "valid_gateway_id (ig_lease_id input)" "valid_gateway_id (ig_run_id input)" "valid_gateway_id (ig_tenant_id input)"
    "valid_gateway_id (ig_user_id input)" and tool: "gc_tool_name c = ig_tool_name input"
    using issued(1) by (simp_all add: issued(3) valid_gateway_claims_def)
  note opened = verify_issued_gateway [OF issued(2,1) assms(2)]
  have token: "gateway_token_pattern token" "0 < length token" "length token \<le> 4096"
    using issued_token_pattern [OF opened] by simp_all
  obtain q where q: "forwarded_request ?p content = Inr q"
    using ids bearer_header [OF token(1), simplified] by (simp add: forwarded_request_def gateway_id_header)
  note headers = forwarded_request_Inr [OF q, simplified, OF token(1)]
  have "verify_sandbox_tool_gateway_token hmac token (ig_secret input) (ge_now_ms env) (Some (ig_tool_name input)) = Inr c"
    using assms(9,10) tool
    by (simp add: verify_sandbox_tool_gateway_token_def opened validate_gateway_claims_errors [OF issued(1)]) (simp add: issued(3))
  moreover have "bounded_body q = Some content"
    using bounded_body_Some [OF assms(5)] headers by (intro bounded_body_single) auto
  moreover have "ig_secret input \<noteq> []"
    using issued(2) by (auto simp: sign_payload_def import_hmac_key_def utf8_encode_def Let_def)
  moreover have "trusted_lease_binding q = Some \<lparr>lh_lease_id = gc_lease_id c, lh_run_id = gc_run_id c,
      lh_tenant_id = gc_tenant_id c, lh_user_id = gc_user_id c\<rparr>"
    using ids headers by (simp add: trusted_lease_binding_Some gateway_id_header issued(3)) (simp add: valid_gateway_id_def)
  moreover have "bearer_token q = Some token" using headers token by (simp add: bearer_token_Some)
  ultimately have "authorized_execution hmac env q = Inr \<lparr>te_arguments = arguments, te_claims = c, te_tool_name = ig_tool_name input\<rparr>"
    using assms(6-8) headers tool
    by (simp add: authorized_execution_def tool_gateway_parts_def parse_gateway_body_def claims_match_binding_def)
  then have "handle_sandbox_tool_gateway_request hmac env q =
      (Gateway_response r, Some \<lparr>te_arguments = arguments, te_claims = c, te_tool_name = ig_tool_name input\<rparr>)"
    using assms(11,12) by (simp add: handle_sandbox_tool_gateway_request_def)
  with assms(3-5) q show ?thesis by (simp add: forward_sandbox_tool_gateway_request_def)
qed

text \<open>
  The tool call of a sandboxed process arrives: posted to the tool gateway with a body that names the tool of
  an issued token, through a route bound to the ids of that token, inside its window, it executes the tool once with exactly
  its arguments and the issued claims, and the tool's response comes back.
\<close>

theorem tool_call_arrives:
  assumes "issue_sandbox_tool_gateway_token hmac input = Inr (c, token)" and "\<And>k m. length (hmac k m) = 32"
    and "trusted_params params = Some \<lparr>ep_lease_id = ig_lease_id input, ep_run_id = ig_run_id input,
      ep_tenant_id = ig_tenant_id input, ep_token = token, ep_user_id = ig_user_id input\<rparr>"
    and "egress_allowed req" and "bounded_body req = Some content"
    and "tool_call_of content = Some (arguments, ig_tool_name input)"
    and "ge_secret env = Some (ig_secret input)" and "ge_executable env (ig_tool_name input)"
    and "ig_now_ms input div 1000 \<le> ge_now_ms env div 1000 + 30"
    and "ge_now_ms env div 1000 < ig_now_ms input div 1000 + ig_ttl_seconds input"
    and "ge_execute env \<lparr>te_arguments = arguments, te_claims = c, te_tool_name = ig_tool_name input\<rparr> = Some r"
    and "bounded_tool_response r = Some r"
  shows "forward_sandbox_tool_gateway_request (Some (\<lambda>q. Some (handle_sandbox_tool_gateway_request hmac env q))) params req =
    Inr (Gateway_response r, Some \<lparr>te_arguments = arguments, te_claims = c, te_tool_name = ig_tool_name input\<rparr>)"
  using assms by (rule tool_call_end_to_end)

section \<open>A tool call\<close>

lemma tool_call_of_text:
  assumes "json_ok (JObj args)"
  shows "tool_call_of (utf8_encode (json_text (JObj [(''arguments'', JObj args), (''tool_name'', JStr tool)]))) = Some (args, tool)"
proof -
  have "sort [''arguments'', ''tool_name''] = [''arguments'', ''tool_name'']" by code_simp
  moreover have "json_ok (JObj [(''arguments'', JObj args), (''tool_name'', JStr tool)])" using assms by simp
  ultimately show ?thesis
    by (simp add: tool_call_of_def json_roundtrip del: json_text.simps)
qed

definition sample_tool_body :: bytes where
  "sample_tool_body = utf8_encode (json_text (JObj [(''arguments'', JObj [(''symbol'', JStr ''700'')]), (''tool_name'', JStr ''quote'')]))"

definition sample_tool_request :: http_request where
  "sample_tool_request =
     \<lparr>hq_url = tool_gateway_parts, hq_method = ''POST'',
      hq_header = map_of [(''content-type'', ''application/json; charset=utf-8''), (''x-aiphabee-tenant-id'', ''other'')],
      hq_body = Some \<lparr>bs_chunks = [take 9 sample_tool_body, drop 9 sample_tool_body], bs_fails = False\<rparr>\<rparr>"

definition sample_tool_params :: json where
  "sample_tool_params =
     JObj [(''lease_id'', JStr ''lease-1''), (''run_id'', JStr ''run-0001''), (''tenant_id'', JStr ''tenant''),
       (''token'', JStr sample_gateway_token), (''user_id'', JStr ''user'')]"

definition sample_tool_response :: tool_response where
  "sample_tool_response = \<lparr>tp_status = 200, tp_content_type = Some ''application/json'', tp_request_id = None, tp_body = Some ''{}''\<rparr>"

definition sample_gateway_env :: gateway_env where
  "sample_gateway_env =
     \<lparr>ge_secret = Some sample_secret, ge_now_ms = 1700000059000, ge_executable = (\<lambda>t. t = ''quote''),
      ge_execute = (\<lambda>x. Some sample_tool_response)\<rparr>"

definition sample_execution :: tool_execution where
  "sample_execution = \<lparr>te_arguments = [(''symbol'', JStr ''700'')], te_claims = sample_gateway_claims, te_tool_name = ''quote''\<rparr>"

lemma sample_opened: "open_token sample_hmac sample_gateway_token sample_secret =
    Inr (json_text (canonical_gateway_claims sample_gateway_claims), canonical_gateway_claims sample_gateway_claims)"
  by (rule verify_issued_gateway [OF sample_gateway_signed sample_gateway_valid]) (simp add: sample_hmac_def)

lemma sample_params: "trusted_params (Some sample_tool_params) =
    Some \<lparr>ep_lease_id = ''lease-1'', ep_run_id = ''run-0001'', ep_tenant_id = ''tenant'', ep_token = sample_gateway_token,
      ep_user_id = ''user''\<rparr>"
proof -
  have "join_with (CHR '','') (sort [''lease_id'', ''run_id'', ''tenant_id'', ''token'', ''user_id'']) =
      ''lease_id,run_id,tenant_id,token,user_id''" by code_simp
  with issued_token_pattern [OF sample_opened] show ?thesis
    by (simp add: trusted_params_def sample_tool_params_def str_field_def)
qed

lemma sample_body: "bounded_body sample_tool_request = Some sample_tool_body"
proof -
  have "length sample_tool_body = 50" by (simp add: sample_tool_body_def length_utf8_encode utf8_length_def json_string_def json_escape_def Let_def)
  then show ?thesis
    by (auto simp: bounded_body_def sample_tool_request_def content_length_of_def is_digit_def digits_value_def gateway_max_request_bytes_def)
qed

lemma sample_allowed: "egress_allowed sample_tool_request"
  by (simp add: egress_allowed_def sample_tool_request_def tool_gateway_parts_def media_type_def js_trim_def is_ws_def Let_def)

lemma sample_call:
  "forward_sandbox_tool_gateway_request (Some (\<lambda>q. Some (handle_sandbox_tool_gateway_request sample_hmac sample_gateway_env q)))
     (Some sample_tool_params) sample_tool_request = Inr (Gateway_response sample_tool_response, Some sample_execution)"
proof -
  have "tool_call_of sample_tool_body = Some ([(''symbol'', JStr ''700'')], ''quote'')"
    unfolding sample_tool_body_def by (rule tool_call_of_text) simp
  then have "tool_call_of sample_tool_body = Some ([(''symbol'', JStr ''700'')], ig_tool_name sample_gateway_input)"
    by (simp add: sample_gateway_input_def)
  from tool_call_end_to_end [OF sample_gateway_issued _ _ sample_allowed sample_body this,
      where params = "Some sample_tool_params" and env = sample_gateway_env and r = sample_tool_response]
  show ?thesis
    by (simp add: sample_params) (simp add: sample_gateway_input_def sample_gateway_env_def sample_hmac_def sample_execution_def
      bounded_tool_response_def sample_tool_response_def)
qed

theorem tool_call_arrives_witness:
  "forward_sandbox_tool_gateway_request (Some (\<lambda>q. Some (handle_sandbox_tool_gateway_request sample_hmac sample_gateway_env q)))
     (Some sample_tool_params) sample_tool_request = Inr (Gateway_response sample_tool_response, Some sample_execution)"
proof -
  have "tool_call_of sample_tool_body = Some ([(''symbol'', JStr ''700'')], ''quote'')"
    unfolding sample_tool_body_def by (rule tool_call_of_text) simp
  then have "tool_call_of sample_tool_body = Some ([(''symbol'', JStr ''700'')], ig_tool_name sample_gateway_input)"
    by (simp add: sample_gateway_input_def)
  from tool_call_arrives [OF sample_gateway_issued _ _ sample_allowed sample_body this,
      where params = "Some sample_tool_params" and env = sample_gateway_env and r = sample_tool_response]
  show ?thesis
    by (simp add: sample_params) (simp add: sample_gateway_input_def sample_gateway_env_def sample_hmac_def sample_execution_def
      bounded_tool_response_def sample_tool_response_def)
qed

theorem egress_identity_is_bound_witness:
  "gc_lease_id (te_claims sample_execution) = ''lease-1'' \<and> gc_tenant_id (te_claims sample_execution) = ''tenant'' \<and>
   hq_header sample_tool_request ''x-aiphabee-tenant-id'' = Some ''other''"
proof -
  have "header_value ''lease-1'' = Some ''lease-1'' \<and> header_value ''tenant'' = Some ''tenant''"
    by (simp add: header_value_def header_ws_def)
  with egress_identity_is_bound [OF sample_call] show ?thesis
    by (auto simp: sample_params sample_tool_request_def)
qed

theorem gateway_executes_only_authorized_witness:
  "\<exists>req response. handle_sandbox_tool_gateway_request sample_hmac sample_gateway_env req = (response, Some sample_execution) \<and>
     hq_header req ''x-aiphabee-tenant-id'' = Some ''tenant''"
proof -
  obtain req where h: "handle_sandbox_tool_gateway_request sample_hmac sample_gateway_env req =
      (Gateway_response sample_tool_response, Some sample_execution)"
    using sample_call by (rule forward_Inr) simp
  from gateway_executes_only_authorized [OF h] have "hq_header req ''x-aiphabee-tenant-id'' = Some ''tenant''"
    by (auto simp: sample_execution_def sample_gateway_claims_def)
  with h show ?thesis by blast
qed

end
