(* ===== verification/Process_Tools.thy ===== *)
theory Process_Tools
  imports Sandbox_Process Tool_Gateway
begin

text \<open>
  The tools of a sandboxed process: the route to the tool gateway that the backend binds for an execution
  (\<open>setOutboundByHost\<close> in \<open>apps/sandbox-bridge/src/cloudflare-sandbox-backend.ts\<close>), its parameters as the egress handler
  receives them, and what a request of the process can then execute at the gateway.
\<close>

section \<open>The bound route\<close>

text \<open>The parameters the backend binds, as an object.\<close>

definition outbound_params :: "string \<Rightarrow> string \<Rightarrow> string \<Rightarrow> string \<Rightarrow> string \<Rightarrow> json" where
  "outbound_params lease_id run_id tenant_id token user_id =
     JObj [(''lease_id'', JStr lease_id), (''run_id'', JStr run_id), (''tenant_id'', JStr tenant_id), (''token'', JStr token),
       (''user_id'', JStr user_id)]"

text \<open>A bound route is the one of the execution's lease, grant and egress access.\<close>

definition route_bound :: "execute_input \<Rightarrow> provider_call \<times> bool \<Rightarrow> bool" where
  "route_bound x c \<longleftrightarrow>
     (case fst c of
        P_set_outbound p lease_id run_id tenant_id token user_id \<Rightarrow>
          lease_id = sl_lease_id (xi_lease x) \<and> tenant_id = ag_tenant_id (sl_access_grant (xi_lease x)) \<and>
          user_id = ag_user_id (sl_access_grant (xi_lease x)) \<and>
          validate_egress_access (xi_egress x) = Some (Tool_gateway_access run_id token) \<and>
          (case ag_owner (sl_access_grant (xi_lease x)) of Owner_run r \<Rightarrow> r = run_id | Owner_session _ \<Rightarrow> True)
      | _ \<Rightarrow> True)"

definition routes_inv :: "execute_input \<Rightarrow> run_state \<Rightarrow> bool" where
  "routes_inv x s \<longleftrightarrow> list_all (route_bound x) (rs_log s) \<and>
     (rs_egress s = Deny_all \<or> validate_egress_access (xi_egress x) = Some (rs_egress s))"

lemma route_bound_simps [simp]:
  "route_bound x (P_remove_outbound p, b)" "route_bound x (P_get_session p q, b)" "route_bound x (P_start p c q g, b)"
  "route_bound x (P_kill p q, b)" "route_bound x (P_wait p, b)"
  by (simp_all add: route_bound_def)

lemma routes_inv_update [simp]:
  "routes_inv x (s\<lparr>rs_ns := a\<rparr>) = routes_inv x s" "routes_inv x (s\<lparr>rs_process := b\<rparr>) = routes_inv x s"
  "routes_inv x (s\<lparr>rs_start_attempted := c\<rparr>) = routes_inv x s" "routes_inv x (s\<lparr>rs_start_uncertain := c\<rparr>) = routes_inv x s"
  "routes_inv x (s\<lparr>rs_terminal_confirmed := c\<rparr>) = routes_inv x s" "routes_inv x (s\<lparr>rs_clean := c\<rparr>) = routes_inv x s"
  "routes_inv x (s\<lparr>rs_config_attempted := c\<rparr>) = routes_inv x s" "routes_inv x (s\<lparr>rs_config_confirmed := c\<rparr>) = routes_inv x s"
  "routes_inv x (s\<lparr>rs_released := c\<rparr>) = routes_inv x s" "routes_inv x (s\<lparr>rs_queue := d\<rparr>) = routes_inv x s"
  "routes_inv x (s\<lparr>rs_queue := d, rs_sequence := n\<rparr>) = routes_inv x s"
  "routes_inv x (callbacks cbs s) = routes_inv x s"
  by (simp_all add: routes_inv_def)

lemma provider_step_routes:
  "route_bound x (call, provider_confirmed r) \<Longrightarrow> routes_inv x (snd (provider_step call r s)) = routes_inv x s"
  by (simp add: routes_inv_def provider_step_def)

lemmas routes_step = provider_step_routes [OF route_bound_simps(1)] provider_step_routes [OF route_bound_simps(2)]
  provider_step_routes [OF route_bound_simps(3)] provider_step_routes [OF route_bound_simps(4)] provider_step_routes [OF route_bound_simps(5)]

named_theorems step_routes "the bound routes under the steps of the try block"

lemma reserve_routes [step_routes]: "run_valid (routes_inv x) (xp_reserve env x) (routes_inv x) (routes_inv x)"
  by (rule run_validI; auto simp: routes_inv_def xp_reserve_def Let_def split: option.splits prod.splits sum.splits)

lemma clean_routes [step_routes]: "run_valid (routes_inv x) (xp_clean_outbound env) (routes_inv x) (routes_inv x)"
  by (rule run_valid_snd) (auto simp: xp_clean_outbound_def then_run_def provider_step_def routes_inv_def split: outcome.split)

lemma configure_routes [step_routes]: "run_valid (routes_inv x) (xp_configure env x) (routes_inv x) (routes_inv x)"
  by (rule run_valid_snd) (auto simp: xp_configure_def then_run_def provider_step_def routes_inv_def route_bound_def Let_def
      split: outcome.split egress_access.split sandbox_ownership.split)

lemma session_routes [step_routes]: "run_valid (routes_inv x) (xp_session env) (routes_inv x) (routes_inv x)"
  by (rule run_valid_snd) (auto simp: xp_session_def routes_inv_def)

lemma start_routes [step_routes]: "run_valid (routes_inv x) (xp_start env cmd) (routes_inv x) (routes_inv x)"
  by (rule run_valid_snd) (auto simp: xp_start_def Let_def routes_step split_beta split: outcome.split)

lemma check_routes [step_routes]: "run_valid (routes_inv x) (xp_check_id env) (routes_inv x) (routes_inv x)"
  by (rule run_valid_snd) (simp add: xp_check_id_def)

lemma running_routes [step_routes]: "run_valid (routes_inv x) (xp_mark_running env x) (routes_inv x) (routes_inv x)"
  by (rule run_valid_snd) (auto simp: xp_mark_running_def then_run_def provider_step_def routes_inv_def Let_def split_beta
      split: outcome.split sum.split)

lemma await_routes [step_routes]: "run_valid (routes_inv x) (xp_await_exit env) (routes_inv x) (routes_inv x)"
  by (rule run_valid_snd) (auto simp: xp_await_exit_def push_terminal_def Let_def split: option.split sum.split)

lemma run_try_routes: "run_valid (routes_inv x) (run_try env quote x) (routes_inv x) (routes_inv x)"
  unfolding run_try_def Let_def by (rule then_run_valid step_routes)+

lemma kill_in_catch_routes: "routes_inv x s \<Longrightarrow> routes_inv x (kill_in_catch env s)"
  by (auto simp: kill_in_catch_def routes_inv_def provider_step_def Let_def split: option.split)

lemma run_catch_routes: "routes_inv x s \<Longrightarrow> routes_inv x (run_catch env e s)"
  by (auto simp: run_catch_def push_terminal_def Let_def kill_in_catch_routes)

lemma run_finally_routes: "routes_inv x s \<Longrightarrow> routes_inv x (run_finally env x s)"
  by (auto simp: run_finally_def remove_in_finally_def routes_inv_def provider_step_def Let_def)

lemma run_process_routes: "routes_inv x (run_process env quote x ns)"
proof -
  obtain e s where t: "run_try env quote x (initial_run ns) = (e, s)" by force
  have "routes_inv x (initial_run ns)" by (simp add: routes_inv_def initial_run_def)
  then have "routes_inv x s" using run_validD [OF run_try_routes _ t] by (simp split: if_splits)
  then show ?thesis by (auto simp: run_process_def t intro: run_finally_routes run_catch_routes split: option.split)
qed

section \<open>What a process can execute\<close>

lemma trusted_outbound:
  "trusted_params (Some (outbound_params lease_id run_id tenant_id token user_id)) = Some p \<Longrightarrow>
     p = \<lparr>ep_lease_id = lease_id, ep_run_id = run_id, ep_tenant_id = tenant_id, ep_token = token, ep_user_id = user_id\<rparr>"
  by (simp add: trusted_params_def outbound_params_def str_field_def split: if_splits)

text \<open>
  C12: Whatever a sandboxed process sends to the tool gateway, a tool that is executed for it is executed for the lease
  of its execution, for the tenant and the user of the lease's grant, and for the run that owns the lease, under the
  token that its egress access named: no request of the process and no interleaving of the execution changes this.
\<close>

theorem process_tools_act_for_their_lease:
  assumes "(P_set_outbound p lease_id run_id tenant_id token user_id, b) \<in> set (rs_log (run_process env quote input ns))"
    and "forward_sandbox_tool_gateway_request (Some (\<lambda>q. Some (handle_sandbox_tool_gateway_request hmac genv q)))
      (Some (outbound_params lease_id run_id tenant_id token user_id)) req = Inr (response, Some x)"
  shows "header_value (sl_lease_id (xi_lease input)) = Some (gc_lease_id (te_claims x)) \<and>
    header_value (ag_tenant_id (sl_access_grant (xi_lease input))) = Some (gc_tenant_id (te_claims x)) \<and>
    header_value (ag_user_id (sl_access_grant (xi_lease input))) = Some (gc_user_id (te_claims x)) \<and>
    (\<forall>r. ag_owner (sl_access_grant (xi_lease input)) = Owner_run r \<longrightarrow> header_value r = Some (gc_run_id (te_claims x))) \<and>
    (\<exists>secret. ge_secret genv = Some secret \<and> validate_egress_access (xi_egress input) = Some (Tool_gateway_access run_id token) \<and>
      verify_sandbox_tool_gateway_token hmac token secret (ge_now_ms genv) (Some (te_tool_name x)) = Inr (te_claims x))"
proof -
  have "route_bound input (P_set_outbound p lease_id run_id tenant_id token user_id, b)"
    using run_process_routes [of input env quote ns] assms(1) by (auto simp: routes_inv_def list_all_iff)
  with assms(2) show ?thesis
    by - (erule egress_execution, drule trusted_outbound, auto simp: route_bound_def)
qed

section \<open>A process with tools\<close>

definition tool_lease :: sandbox_lease where
  "tool_lease = new_lease ''lease-1'' (sample_grant\<lparr>ag_owner := Owner_run ''run-0001'', ag_tenant_id := ''tenant'', ag_user_id := ''user''\<rparr>)"

definition tool_record :: lease_record where
  "tool_record = (new_record ''lease-1'' (sl_access_grant tool_lease))\<lparr>lr_status := Ready\<rparr>"

abbreviation tool_leases :: lease_namespace where
  "tool_leases \<equiv> (\<lambda>_. None)(''lease-1'' := Some tool_record)"

definition tool_execute :: execute_input where
  "tool_execute = \<lparr>xi_argv = [''agent''],
     xi_egress = JObj [(''endpoint'', JStr tool_gateway_url), (''kind'', JStr ''tool_gateway''), (''run_id'', JStr ''run-0001''),
       (''token'', JStr sample_gateway_token)],
     xi_lease = tool_lease\<rparr>"

text \<open>The route is set, but the answer of the provider is late: the process is not started.\<close>

definition tool_run_env :: run_env where
  "tool_run_env = sample_run_env\<lparr>xe_set := Timed_out\<rparr>"

lemma tool_egress: "validate_egress_access (xi_egress tool_execute) = Some (Tool_gateway_access ''run-0001'' sample_gateway_token)"
proof -
  have "join_with (CHR '','') (sort [''endpoint'', ''kind'', ''run_id'', ''token'']) = ''endpoint,kind,run_id,token''" by code_simp
  moreover have "js_trim ''run-0001'' = ''run-0001'' \<and> \<not> has_control ''run-0001''"
    by (simp add: js_trim_def is_ws_def has_control_def is_control_def)
  ultimately show ?thesis using issued_token_pattern [OF sample_opened]
    by (simp add: validate_egress_access_def tool_execute_def str_field_def)
qed

lemma tool_begin:
  "registry_begin_process Delivered tool_leases tool_lease ''p1'' =
     (Inr (Some (tool_record\<lparr>lr_process_id := Some ''p1'', lr_process_state := Some Starting\<rparr>)),
      tool_leases(''lease-1'' := Some (tool_record\<lparr>lr_process_id := Some ''p1'', lr_process_state := Some Starting\<rparr>)))"
proof -
  have m: "record_matches_lease tool_record tool_lease"
    by (simp add: record_matches_lease_def binding_matches_iff tool_record_def tool_lease_def new_record_def new_lease_def)
  have t: "bound_transition tool_record ''/process/begin'' (rb_process_id (process_body tool_lease ''p1'')) =
      (Process_reserved (tool_record\<lparr>lr_process_id := Some ''p1'', lr_process_state := Some Starting\<rparr>),
       Some (tool_record\<lparr>lr_process_id := Some ''p1'', lr_process_state := Some Starting\<rparr>))"
    by (simp add: bound_transition_def on_process_begin_def process_body_def Let_def tool_record_def new_record_def)
  from registry_post_bound [of tool_leases "''lease-1''" tool_record tool_lease, OF _ m _ _ t]
  show ?thesis by (simp add: registry_begin_process_def process_body_def tool_lease_def new_lease_def response_ok_def)
qed

lemma tool_route_bound:
  "\<exists>b. (P_set_outbound ''ab-lease-1'' ''lease-1'' ''run-0001'' ''tenant'' sample_gateway_token ''user'', b)
     \<in> set (rs_log (run_process tool_run_env id tool_execute tool_leases))"
proof -
  let ?s = "(initial_run tool_leases)\<lparr>rs_ns := snd (registry_begin_process Delivered tool_leases tool_lease ''p1''),
    rs_egress := Tool_gateway_access ''run-0001'' sample_gateway_token, rs_bound := True,
    rs_provider := Some (''ab-lease-1'', ''session-lease-1'')\<rparr>"
  let ?c = "P_set_outbound ''ab-lease-1'' ''lease-1'' ''run-0001'' ''tenant'' sample_gateway_token ''user''"
  have "xp_reserve tool_run_env tool_execute (initial_run tool_leases) = (None, ?s)"
    using tool_begin by (simp add: xp_reserve_def tool_egress)
      (simp add: tool_run_env_def sample_run_env_def tool_execute_def meanwhile_def initial_run_def tool_record_def new_record_def)
  moreover have "\<exists>s1. xp_clean_outbound tool_run_env ?s = (None, s1) \<and> rs_provider s1 = rs_provider ?s \<and> rs_egress s1 = rs_egress ?s"
    by (simp add: xp_clean_outbound_def then_run_def provider_step_def tool_run_env_def sample_run_env_def)
  then obtain s1 where "xp_clean_outbound tool_run_env ?s = (None, s1)" and s1: "rs_provider s1 = rs_provider ?s" "rs_egress s1 = rs_egress ?s"
    by blast
  moreover have "\<exists>s2. xp_configure tool_run_env tool_execute s1 = (Some Provider_timeout, s2) \<and> (?c, False) \<in> set (rs_log s2)"
    using s1 by (simp add: xp_configure_def then_run_def provider_step_def provider_of_def provider_confirmed_def
      tool_run_env_def tool_execute_def tool_lease_def new_lease_def)
  then obtain s2 where "xp_configure tool_run_env tool_execute s1 = (Some Provider_timeout, s2)" and s2: "(?c, False) \<in> set (rs_log s2)"
    by blast
  ultimately have "run_try tool_run_env id tool_execute (initial_run tool_leases) = (Some Provider_timeout, s2)"
    by (simp add: run_try_def Let_def then_run_def)
  then have "run_process tool_run_env id tool_execute tool_leases =
      run_finally tool_run_env tool_execute (run_catch tool_run_env Provider_timeout s2)"
    by (simp add: run_process_def)
  with s2 run_catch_log [of tool_run_env Provider_timeout s2]
    run_finally_log [of tool_run_env tool_execute "run_catch tool_run_env Provider_timeout s2"] show ?thesis by auto
qed

theorem process_tools_act_for_their_lease_witness:
  "gc_lease_id (te_claims sample_execution) = ''lease-1'' \<and> gc_run_id (te_claims sample_execution) = ''run-0001''"
proof -
  obtain b where b: "(P_set_outbound ''ab-lease-1'' ''lease-1'' ''run-0001'' ''tenant'' sample_gateway_token ''user'', b)
     \<in> set (rs_log (run_process tool_run_env id tool_execute tool_leases))" using tool_route_bound by blast
  have h: "header_value ''lease-1'' = Some ''lease-1''" "header_value ''run-0001'' = Some ''run-0001''"
    by (simp_all add: header_value_def header_ws_def)
  have "outbound_params ''lease-1'' ''run-0001'' ''tenant'' sample_gateway_token ''user'' = sample_tool_params"
    by (simp add: outbound_params_def sample_tool_params_def)
  with sample_call process_tools_act_for_their_lease [OF b] have
    "header_value (sl_lease_id (xi_lease tool_execute)) = Some (gc_lease_id (te_claims sample_execution)) \<and>
     (\<forall>r. ag_owner (sl_access_grant (xi_lease tool_execute)) = Owner_run r \<longrightarrow> header_value r = Some (gc_run_id (te_claims sample_execution)))"
    by metis
  with h show ?thesis by (simp add: tool_execute_def tool_lease_def new_lease_def)
qed

end
