(* ===== verification/Sandbox_Bridge.thy ===== *)
theory Sandbox_Bridge
  imports Run_Guard Sandbox_Contract
begin

text \<open>
  The HTTP surface of the sandbox bridge (\<open>apps/sandbox-bridge/src/bridge.ts\<close>) over the modelled run tokens and run guard: the
  routes, the authorisation of a request, its claim on the guard of the run, the calls on the sandbox, and the
  answers.

  The sandbox is a parameter: what each call on it comes to is given, and the calls that were made are returned, with the
  claims and the guard operation they were made under. Guard requests of others may come between any two guard requests of a
  handler, and each may lose its request or its response. The third-party functions \<open>resolveWorkspacePath\<close> and
  \<open>shellQuote\<close> are the parameters \<open>resolve\<close> and \<open>quote\<close>; the acceptance logging is left out.
\<close>

section \<open>Requests and responses\<close>

definition bridge_max_body_bytes :: nat where
  "bridge_max_body_bytes = 1048576"

definition max_command_bytes :: nat where
  "max_command_bytes = 65536"

definition max_exec_timeout_ms :: int where
  "max_exec_timeout_ms = 600000"

text \<open>\<open>bq_text\<close> is the body as text, \<open>None\<close> where reading it is rejected; \<open>bq_query_path\<close> is the search parameter \<open>path\<close>.\<close>

record bridge_request =
  bq_method :: string
  bq_path :: string
  bq_query_path :: "string option"
  bq_authorization :: "string option"
  bq_content_length :: "string option"
  bq_text :: "string option"

record exec_result =
  xr_exit_code :: int
  xr_stderr :: string
  xr_stdout :: string

datatype sandbox_call =
  S_is_running
  | S_destroy
  | S_exec string string int
  | S_read_file string
  | S_write_file string string
  | S_list_files string

datatype bridge_response =
  Br_error nat string
  | Br_health
  | Br_created string string
  | Br_status "exec_receipt option" bool bool
  | Br_no_content
  | Br_killed string
  | Br_exec string
  | Br_file string
  | Br_listing json

text \<open>What ends a handler early: an answer, or an error that its \<open>catch\<close> classifies.\<close>

datatype bridge_throw = Token_threw token_error | Syntax_threw | Body_too_large | Output_too_large | Operation_threw

datatype bridge_exit = Answer bridge_response | Throws bridge_throw

type_synonym guard_others = "(string \<times> guard_request) list"

type_synonym guard_call = "guard_others \<times> delivery"

definition guard_meanwhile :: "guard_others \<Rightarrow> guard_namespace \<Rightarrow> guard_namespace" where
  "guard_meanwhile os ns = foldl (\<lambda>ns (n, q). ns(n := guard_step (ns n) q)) ns os"

record bridge_env =
  bn_secret :: string
  bn_now_ms :: int
  bn_claim :: guard_call
  bn_running :: "bool option"
  bn_instance_hash :: "string option"
  bn_destroy :: "unit outcome"
  bn_finish :: guard_call
  bn_abort :: guard_call
  bn_exec :: "exec_result option"
  bn_record :: guard_call
  bn_read :: "string option"
  bn_write :: bool
  bn_list :: "json option"

section \<open>Routes\<close>

datatype bridge_route =
  R_create
  | R_destroy string
  | R_exec string
  | R_kill string
  | R_files string
  | R_running string
  | R_file string string

text \<open>\<open>decodeURIComponent\<close>: escaped bytes are decoded as UTF-8, other characters stand for themselves.\<close>

fun percent_bytes :: "string \<Rightarrow> bytes option" where
  "percent_bytes [] = Some []"
| "percent_bytes (c # cs) =
     (if c = CHR ''%'' then
        (case cs of
           h # l # r \<Rightarrow>
             (case (hex_value h, hex_value l) of
                (Some a, Some b) \<Rightarrow> map_option ((#) (char_of (16 * a + b))) (percent_bytes r)
              | _ \<Rightarrow> None)
         | _ \<Rightarrow> None)
      else map_option ((@) (utf8_char c)) (percent_bytes cs))"

definition decode_uri_component :: "string \<Rightarrow> string option" where
  "decode_uri_component s = Option.bind (percent_bytes s) utf8_decode_aux"

text \<open>
  The pattern \<open>^/v1/sandbox/([^/]+)(?:/(.*))?$\<close>: the segment after the prefix and the suffix after the next slash, empty
  where there is none. The dot matches no line break.
\<close>

definition sandbox_path :: "string \<Rightarrow> (string \<times> string) option" where
  "sandbox_path path =
     (if \<not> starts_with ''/v1/sandbox/'' path then None
      else
        (let rest = drop 12 path; sid = takeWhile (\<lambda>c. c \<noteq> CHR ''/'') rest; more = dropWhile (\<lambda>c. c \<noteq> CHR ''/'') rest in
         if sid = [] \<or> list_ex (\<lambda>c. code_unit c \<in> {10, 13}) (tl more) then None else Some (sid, tl more)))"

definition route :: "string \<Rightarrow> bridge_route option" where
  "route path =
     (if path = ''/v1/sandbox'' then Some R_create
      else
        (case sandbox_path path of
           None \<Rightarrow> None
         | Some (sid, suffix) \<Rightarrow>
             if suffix = [] then Some (R_destroy sid)
             else if suffix = ''exec'' then Some (R_exec sid)
             else if suffix = ''kill'' then Some (R_kill sid)
             else if suffix = ''files'' then Some (R_files sid)
             else if suffix = ''running'' then Some (R_running sid)
             else if starts_with ''file/'' suffix then map_option (R_file sid) (decode_uri_component (drop 5 suffix))
             else None))"

definition method_allowed :: "bridge_route \<Rightarrow> string \<Rightarrow> bool" where
  "method_allowed r meth =
     (case r of
        R_create \<Rightarrow> meth = ''POST''
      | R_exec _ \<Rightarrow> meth = ''POST''
      | R_kill _ \<Rightarrow> meth = ''POST''
      | R_destroy _ \<Rightarrow> meth = ''DELETE''
      | R_file _ _ \<Rightarrow> meth = ''GET'' \<or> meth = ''PUT''
      | _ \<Rightarrow> meth = ''GET'')"

definition required_scope :: "bridge_route \<Rightarrow> string" where
  "required_scope r =
     (case r of
        R_create \<Rightarrow> ''sandbox:create''
      | R_destroy _ \<Rightarrow> ''sandbox:destroy''
      | R_kill _ \<Rightarrow> ''sandbox:destroy''
      | R_exec _ \<Rightarrow> ''sandbox:exec''
      | R_running _ \<Rightarrow> ''sandbox:status''
      | _ \<Rightarrow> ''sandbox:file'')"

definition route_operation :: "bridge_route \<Rightarrow> guard_operation" where
  "route_operation r =
     (case r of
        R_create \<Rightarrow> Op_create
      | R_destroy _ \<Rightarrow> Op_destroy
      | R_kill _ \<Rightarrow> Op_destroy
      | R_exec _ \<Rightarrow> Op_exec
      | R_running _ \<Rightarrow> Op_status
      | _ \<Rightarrow> Op_file)"

definition route_sandbox :: "bridge_route \<Rightarrow> string option" where
  "route_sandbox r =
     (case r of
        R_create \<Rightarrow> None
      | R_destroy s \<Rightarrow> Some s
      | R_exec s \<Rightarrow> Some s
      | R_kill s \<Rightarrow> Some s
      | R_files s \<Rightarrow> Some s
      | R_running s \<Rightarrow> Some s
      | R_file s _ \<Rightarrow> Some s)"

section \<open>Authorisation\<close>

definition bridge_bearer :: "bridge_request \<Rightarrow> bridge_exit + string" where
  "bridge_bearer req =
     (let authorization = (case bq_authorization req of Some v \<Rightarrow> v | None \<Rightarrow> []) in
      require (starts_with ''Bearer '' authorization \<and> 7 < length authorization) (Throws (Token_threw Invalid_token))
        (Inr (drop 7 authorization)))"

definition authorize ::
  "(bytes \<Rightarrow> bytes \<Rightarrow> bytes) \<Rightarrow> (bytes \<Rightarrow> bytes) \<Rightarrow> bridge_env \<Rightarrow> bridge_request \<Rightarrow> string \<Rightarrow> bridge_exit + run_claims \<times> string" where
  "authorize hmac sha env req scope =
     and_then (bridge_bearer req) (\<lambda>token.
     and_then (map_sum (Throws \<circ> Token_threw) id
       (verify_sandbox_run_token hmac token (bn_secret env) (bn_now_ms env) (Some scope))) (\<lambda>claims.
     and_then (map_sum (Throws \<circ> Token_threw) id (derive_sandbox_id sha claims)) (\<lambda>sandbox_id. Inr (claims, sandbox_id))))"

definition guard_code_text :: "guard_code option \<Rightarrow> string" where
  "guard_code_text code =
     (case code of
        Some Call_budget_exhausted \<Rightarrow> ''CALL_BUDGET_EXHAUSTED''
      | Some Destroy_in_progress \<Rightarrow> ''DESTROY_IN_PROGRESS''
      | Some Token_state_mismatch \<Rightarrow> ''TOKEN_STATE_MISMATCH''
      | None \<Rightarrow> ''RUN_GUARD_REJECTED'')"

definition claim_or_reject ::
  "bridge_env \<Rightarrow> run_claims \<Rightarrow> guard_operation \<Rightarrow> guard_namespace \<Rightarrow> (bridge_exit + guard_decision) \<times> guard_namespace" where
  "claim_or_reject env c operation ns =
     (let (d, ns') = guard_claim (snd (bn_claim env)) (guard_meanwhile (fst (bn_claim env)) ns) c operation in
      (with_some d (Throws Operation_threw) (\<lambda>d.
       require (gd_allowed d)
         (Answer (Br_error (if gd_code d = Some Call_budget_exhausted then 429 else 409) (guard_code_text (gd_code d)))) (Inr d)), ns'))"

section \<open>The operations\<close>

definition bridge_read_body :: "bridge_request \<Rightarrow> bridge_exit + string" where
  "bridge_read_body req =
     require
       (case content_length_of (case bq_content_length req of Some v \<Rightarrow> v | None \<Rightarrow> ''0'') of
          Some n \<Rightarrow> n \<le> bridge_max_body_bytes | None \<Rightarrow> True) (Throws Body_too_large) (
     with_some (bq_text req) (Throws Operation_threw) (\<lambda>body.
     require (utf8_length body \<le> bridge_max_body_bytes) (Throws Body_too_large) (Inr body)))"

definition sse_frame :: "string \<Rightarrow> string \<Rightarrow> string" where
  "sse_frame name payload = ''event: '' @ name @ [CHR 0x0A] @ ''data: '' @ payload @ [CHR 0x0A, CHR 0x0A]"

definition exec_sse :: "exec_result \<Rightarrow> string" where
  "exec_sse x =
     (if 0 < length (xr_stdout x) then sse_frame ''stdout'' (btoa (utf8_encode (xr_stdout x))) else []) @
     (if 0 < length (xr_stderr x) then sse_frame ''stderr'' (btoa (utf8_encode (xr_stderr x))) else []) @
     sse_frame ''exit'' (json_text (JObj [(''exit_code'', JNum (xr_exit_code x))]))"

text \<open>The checks of an exec body: the command line, the working directory and the timeout, with the arguments.\<close>

record exec_command =
  xc_argv :: "string list"
  xc_command :: string
  xc_cwd :: string
  xc_timeout :: int

definition parse_exec ::
  "(string \<Rightarrow> string option) \<Rightarrow> (string \<Rightarrow> string) \<Rightarrow> bridge_request \<Rightarrow> bridge_exit + exec_command" where
  "parse_exec resolve quote req =
     and_then (bridge_read_body req) (\<lambda>text.
     with_some (json_parse text) (Throws Syntax_threw) (\<lambda>input.
     require (input \<noteq> JNull) (Throws Operation_threw) (
     (let ms = (case input of JObj ms \<Rightarrow> ms | _ \<Rightarrow> []) in
      with_some (Option.bind (map_of ms ''argv'') string_list) (Answer (Br_error 400 ''INVALID_ARGV'')) (\<lambda>argv.
      require (argv \<noteq> [] \<and> length argv \<le> 32) (Answer (Br_error 400 ''INVALID_ARGV'')) (
      (let command = join_with (CHR '' '') (map quote argv) in
       require (utf8_length command \<le> max_command_bytes) (Answer (Br_error 413 ''COMMAND_TOO_LARGE'')) (
       with_some (safe_int_field ms ''timeout_ms'') (Answer (Br_error 400 ''INVALID_TIMEOUT'')) (\<lambda>timeout.
       require (1 \<le> timeout \<and> timeout \<le> max_exec_timeout_ms) (Answer (Br_error 400 ''INVALID_TIMEOUT'')) (
       with_some
         (case map_of ms ''cwd'' of
            None \<Rightarrow> resolve ''/workspace''
          | Some (JStr cwd) \<Rightarrow> resolve cwd
          | Some _ \<Rightarrow> None) (Answer (Br_error 400 ''INVALID_CWD'')) (\<lambda>cwd.
         Inr \<lparr>xc_argv = argv, xc_command = command, xc_cwd = cwd, xc_timeout = timeout\<rparr>)))))))))))"

text \<open>Each operation after its claim: its exit, the calls on the sandbox, and the guards afterwards.\<close>

type_synonym bridge_result = "bridge_exit \<times> sandbox_call list \<times> guard_namespace"

definition do_create :: "bridge_env \<Rightarrow> string \<Rightarrow> guard_namespace \<Rightarrow> bridge_result" where
  "do_create env sandbox_id ns =
     (case bn_running env of
        None \<Rightarrow> (Throws Operation_threw, [S_is_running], ns)
      | Some ready \<Rightarrow>
          if \<not> ready then (Answer (Br_error 502 ''SANDBOX_START_FAILED''), [S_is_running], ns)
          else
            (case bn_instance_hash env of
               None \<Rightarrow> (Throws Operation_threw, [S_is_running], ns)
             | Some h \<Rightarrow> (Answer (Br_created sandbox_id h), [S_is_running], ns)))"

definition do_running :: "bridge_env \<Rightarrow> guard_decision \<Rightarrow> guard_namespace \<Rightarrow> bridge_result" where
  "do_running env d ns =
     (if gd_terminal d then (Answer (Br_status (gd_exec_receipt d) False True), [], ns)
      else
        (case bn_running env of
           None \<Rightarrow> (Throws Operation_threw, [S_is_running], ns)
         | Some running \<Rightarrow> (Answer (Br_status (gd_exec_receipt d) running False), [S_is_running], ns)))"

definition do_destroy :: "bridge_env \<Rightarrow> run_claims \<Rightarrow> bool \<Rightarrow> guard_decision \<Rightarrow> guard_namespace \<Rightarrow> bridge_result" where
  "do_destroy env c kill d ns =
     (if gd_terminal d then (Answer (if kill then Br_killed ''already_terminal'' else Br_no_content), [], ns)
      else
        (let (finished, ns1) =
           (case bn_destroy env of
              Settled _ \<Rightarrow> guard_finish_destroy (snd (bn_finish env)) (guard_meanwhile (fst (bn_finish env)) ns) c
            | _ \<Rightarrow> (False, ns)) in
         if finished then (Answer (if kill then Br_killed ''killed'' else Br_no_content), [S_destroy], ns1)
         else
           (let (aborted, ns2) = guard_abort_destroy (snd (bn_abort env)) (guard_meanwhile (fst (bn_abort env)) ns1) c in
            (if aborted then Answer (Br_error 502 (if kill then ''SANDBOX_KILL_FAILED'' else ''SANDBOX_DESTROY_FAILED''))
             else Throws Operation_threw, [S_destroy], ns2))))"

definition exec_receipt_of :: "(bytes \<Rightarrow> bytes) \<Rightarrow> string list \<Rightarrow> exec_result \<Rightarrow> exec_receipt" where
  "exec_receipt_of sha argv x =
     \<lparr>er_argv_sha256 = bytes_to_hex (sha (utf8_encode (json_text (JArr (map JStr argv))))),
      er_exit_code = xr_exit_code x,
      er_stdout_sha256 = bytes_to_hex (sha (utf8_encode (xr_stdout x)))\<rparr>"

definition do_exec ::
  "(bytes \<Rightarrow> bytes) \<Rightarrow> (string \<Rightarrow> string option) \<Rightarrow> (string \<Rightarrow> string) \<Rightarrow> bridge_env \<Rightarrow> bridge_request \<Rightarrow> run_claims
    \<Rightarrow> guard_namespace \<Rightarrow> bridge_result" where
  "do_exec sha resolve quote env req c ns =
     (case parse_exec resolve quote req of
        Inl e \<Rightarrow> (e, [], ns)
      | Inr x \<Rightarrow>
          (let log = [S_exec (xc_command x) (xc_cwd x) (xc_timeout x)] in
           case bn_exec env of
             None \<Rightarrow> (Throws Operation_threw, log, ns)
           | Some r \<Rightarrow>
               if bridge_max_body_bytes < utf8_length (xr_stdout r @ xr_stderr r) then (Throws Output_too_large, log, ns)
               else
                 (let (recorded, ns1) =
                    guard_record_exec (snd (bn_record env)) (guard_meanwhile (fst (bn_record env)) ns) c (exec_receipt_of sha (xc_argv x) r) in
                  (if recorded then Answer (Br_exec (exec_sse r)) else Throws Operation_threw, log, ns1))))"

definition do_file ::
  "(string \<Rightarrow> string option) \<Rightarrow> bridge_env \<Rightarrow> bridge_request \<Rightarrow> string \<Rightarrow> guard_namespace \<Rightarrow> bridge_result" where
  "do_file resolve env req file_path ns =
     (case resolve (CHR ''/'' # file_path) of
        None \<Rightarrow> (Answer (Br_error 400 ''INVALID_PATH''), [], ns)
      | Some path \<Rightarrow>
          if bq_method req = ''GET'' then
            (case bn_read env of
               None \<Rightarrow> (Throws Operation_threw, [S_read_file path], ns)
             | Some content \<Rightarrow>
                 (if bridge_max_body_bytes < utf8_length content then Throws Output_too_large else Answer (Br_file content),
                  [S_read_file path], ns))
          else if bq_method req = ''PUT'' then
            (case bridge_read_body req of
               Inl e \<Rightarrow> (e, [], ns)
             | Inr body \<Rightarrow> (if bn_write env then Answer Br_no_content else Throws Operation_threw, [S_write_file path body], ns))
          else (Answer (Br_error 405 ''METHOD_NOT_ALLOWED''), [], ns))"

definition do_files :: "(string \<Rightarrow> string option) \<Rightarrow> bridge_env \<Rightarrow> bridge_request \<Rightarrow> guard_namespace \<Rightarrow> bridge_result" where
  "do_files resolve env req ns =
     (case resolve (case bq_query_path req of Some p \<Rightarrow> p | None \<Rightarrow> ''/workspace'') of
        None \<Rightarrow> (Answer (Br_error 400 ''INVALID_PATH''), [], ns)
      | Some path \<Rightarrow>
          (case bn_list env of
             None \<Rightarrow> (Throws Operation_threw, [S_list_files path], ns)
           | Some listing \<Rightarrow>
               (if bridge_max_body_bytes < utf8_length (json_text listing) then Throws Output_too_large
                else Answer (Br_listing listing), [S_list_files path], ns)))"

section \<open>The handler\<close>

definition token_error_response :: "token_error \<Rightarrow> bridge_response" where
  "token_error_response e =
     Br_error (if e = Invalid_scope then 403 else 401)
       (case e of
          Invalid_claims \<Rightarrow> ''INVALID_CLAIMS''
        | Invalid_scope \<Rightarrow> ''INVALID_SCOPE''
        | Invalid_secret \<Rightarrow> ''INVALID_SECRET''
        | Invalid_signature \<Rightarrow> ''INVALID_SIGNATURE''
        | Invalid_token \<Rightarrow> ''INVALID_TOKEN''
        | Token_expired \<Rightarrow> ''TOKEN_EXPIRED''
        | Token_not_yet_valid \<Rightarrow> ''TOKEN_NOT_YET_VALID'')"

definition exit_response :: "bridge_exit \<Rightarrow> bridge_response" where
  "exit_response e =
     (case e of
        Answer r \<Rightarrow> r
      | Throws t \<Rightarrow>
          (case t of
             Token_threw te \<Rightarrow> token_error_response te
           | Syntax_threw \<Rightarrow> Br_error 400 ''INVALID_JSON''
           | Body_too_large \<Rightarrow> Br_error 413 ''BODY_TOO_LARGE''
           | Output_too_large \<Rightarrow> Br_error 502 ''OUTPUT_TOO_LARGE''
           | Operation_threw \<Rightarrow> Br_error 502 ''SANDBOX_OPERATION_FAILED''))"

definition route_work ::
  "(bytes \<Rightarrow> bytes) \<Rightarrow> (string \<Rightarrow> string option) \<Rightarrow> (string \<Rightarrow> string) \<Rightarrow> bridge_env \<Rightarrow> bridge_request \<Rightarrow> bridge_route
    \<Rightarrow> run_claims \<Rightarrow> string \<Rightarrow> guard_decision \<Rightarrow> guard_namespace \<Rightarrow> bridge_result" where
  "route_work sha resolve quote env req r c sandbox_id d ns =
     (case r of
        R_create \<Rightarrow> do_create env sandbox_id ns
      | R_running _ \<Rightarrow> do_running env d ns
      | R_destroy _ \<Rightarrow> do_destroy env c False d ns
      | R_kill _ \<Rightarrow> do_destroy env c True d ns
      | R_exec _ \<Rightarrow> do_exec sha resolve quote env req c ns
      | R_file _ file_path \<Rightarrow> do_file resolve env req file_path ns
      | R_files _ \<Rightarrow> do_files resolve env req ns)"

text \<open>A call on a sandbox, with the claims and the operation it was made under and the sandbox it was made on.\<close>

record bridge_call =
  bc_claims :: run_claims
  bc_operation :: guard_operation
  bc_sandbox :: string
  bc_call :: sandbox_call

definition handle_matched ::
  "(bytes \<Rightarrow> bytes \<Rightarrow> bytes) \<Rightarrow> (bytes \<Rightarrow> bytes) \<Rightarrow> (string \<Rightarrow> string option) \<Rightarrow> (string \<Rightarrow> string) \<Rightarrow> bridge_env
    \<Rightarrow> bridge_request \<Rightarrow> bridge_route \<Rightarrow> guard_namespace \<Rightarrow> bridge_exit \<times> bridge_call list \<times> guard_namespace" where
  "handle_matched hmac sha resolve quote env req r ns =
     (case authorize hmac sha env req (required_scope r) of
        Inl e \<Rightarrow> (e, [], ns)
      | Inr (c, sandbox_id) \<Rightarrow>
          if (case route_sandbox r of Some s \<Rightarrow> s \<noteq> sandbox_id | None \<Rightarrow> False) then
            (Answer (Br_error 403 ''SANDBOX_ID_MISMATCH''), [], ns)
          else
            (case claim_or_reject env c (route_operation r) ns of
               (Inl e, ns1) \<Rightarrow> (e, [], ns1)
             | (Inr d, ns1) \<Rightarrow>
                 (let (e, calls, ns2) = route_work sha resolve quote env req r c sandbox_id d ns1 in
                  (e, map (\<lambda>x. \<lparr>bc_claims = c, bc_operation = route_operation r, bc_sandbox = sandbox_id, bc_call = x\<rparr>) calls, ns2))))"

definition handle_bridge_request ::
  "(bytes \<Rightarrow> bytes \<Rightarrow> bytes) \<Rightarrow> (bytes \<Rightarrow> bytes) \<Rightarrow> (string \<Rightarrow> string option) \<Rightarrow> (string \<Rightarrow> string) \<Rightarrow> bridge_env
    \<Rightarrow> bridge_request \<Rightarrow> guard_namespace \<Rightarrow> bridge_response \<times> bridge_call list \<times> guard_namespace" where
  "handle_bridge_request hmac sha resolve quote env req ns =
     (if bq_method req = ''GET'' \<and> bq_path req = ''/health'' then (Br_health, [], ns)
      else
        (case route (bq_path req) of
           None \<Rightarrow> (Br_error 404 ''NOT_FOUND'', [], ns)
         | Some r \<Rightarrow>
             if \<not> method_allowed r (bq_method req) then (Br_error 405 ''METHOD_NOT_ALLOWED'', [], ns)
             else (let (e, calls, ns') = handle_matched hmac sha resolve quote env req r ns in (exit_response e, calls, ns'))))"

section \<open>The guard under a handler\<close>

text \<open>The guard of one run before and after, with at least \<open>k\<close> charged claims between.\<close>

definition metered :: "guard_state option \<Rightarrow> nat \<Rightarrow> guard_state option \<Rightarrow> bool" where
  "metered s k s' \<longleftrightarrow> (guard_inv s \<longrightarrow> guard_inv s') \<and> calls_made s + int k \<le> calls_made s' \<and>
     (\<forall>x. s = Some x \<longrightarrow> (\<exists>y. s' = Some y \<and> guard_pin y = guard_pin x))"

lemma metered_refl [simp, intro]: "metered s 0 s"
  by (simp add: metered_def)

lemma metered_trans: "metered s k t \<Longrightarrow> metered t l u \<Longrightarrow> metered s (k + l) u"
  by (fastforce simp: metered_def)

lemma metered_trans0: "metered s 0 t \<Longrightarrow> metered t k u \<Longrightarrow> metered s k u" "metered s k t \<Longrightarrow> metered t 0 u \<Longrightarrow> metered s k u"
  using metered_trans [of s 0 t k u] metered_trans [of s k t 0 u] by simp_all

lemma metered_step:
  assumes "guard_request_ok q"
  shows "metered s (if charged (q, fst (handle_run_guard_request s q)) then 1 else 0) (guard_step s q)"
proof -
  have "calls_made s + int (if charged (q, fst (handle_run_guard_request s q)) then 1 else 0) \<le> calls_made (guard_step s q)"
    using calls_made_step [of s q] by (simp add: guard_step_def split: if_splits)
  moreover have "\<exists>y. guard_step (Some x) q = Some y \<and> guard_pin y = guard_pin x" for x using guard_step_pin [of x q] by blast
  ultimately show ?thesis using assms guard_step_inv [of s q] by (auto simp: metered_def)
qed

lemma metered_step0: "guard_request_ok q \<Longrightarrow> metered s 0 (guard_step s q)"
  using metered_step [of q s] by (simp add: metered_def split: if_splits)

lemma guard_meanwhile_metered:
  assumes "list_all (guard_request_ok \<circ> snd) os"
  shows "metered (ns n) 0 (guard_meanwhile os ns n)"
  using assms
proof (induction os arbitrary: ns)
  case (Cons o' os)
  obtain m q where o': "o' = (m, q)" by force
  have "metered (ns n) 0 ((ns(m := guard_step (ns m) q)) n)" using Cons.prems by (simp add: o' metered_step0)
  moreover have "metered ((ns(m := guard_step (ns m) q)) n) 0 (guard_meanwhile os (ns(m := guard_step (ns m) q)) n)"
    using Cons.prems by (intro Cons.IH) simp
  moreover have "guard_meanwhile (o' # os) ns = guard_meanwhile os (ns(m := guard_step (ns m) q))"
    by (simp add: o' guard_meanwhile_def)
  ultimately show ?case by (metis metered_trans0(1))
qed (simp add: guard_meanwhile_def)

lemma guard_fetch_state:
  "snd (guard_fetch d ns c q) n = (if n = guard_object_name c \<and> d \<noteq> Request_lost then guard_step (ns n) q else ns n)"
  by (cases d) (simp_all add: guard_fetch_def guard_step_def split_beta Let_def)

lemma guard_fetch_metered: "guard_request_ok q \<Longrightarrow> metered (ns n) 0 (snd (guard_fetch d ns c q) n)"
  by (simp add: guard_fetch_state metered_step0)

lemma guard_client_metered:
  "metered (ns n) 0 (snd (guard_finish_destroy d ns c) n)" "metered (ns n) 0 (snd (guard_abort_destroy d ns c) n)"
  "metered (ns n) 0 (snd (guard_record_exec d ns c receipt) n)"
  by (simp_all add: guard_finish_destroy_def guard_abort_destroy_def guard_record_exec_def split_beta Let_def guard_fetch_metered
    guard_request_ok_def)

definition env_ok :: "bridge_env \<Rightarrow> bool" where
  "env_ok env \<longleftrightarrow> list_all (list_all (guard_request_ok \<circ> snd))
     [fst (bn_claim env), fst (bn_finish env), fst (bn_abort env), fst (bn_record env)]"

definition budgeted :: "guard_operation \<Rightarrow> bool" where
  "budgeted operation \<longleftrightarrow> operation \<in> {Op_create, Op_exec, Op_file}"

text \<open>An allowed claim, and what it leaves behind.\<close>

lemma guard_claim_allowed:
  assumes "guard_claim d ns c operation = (Some x, ns')" and "gd_allowed x" and "1 \<le> rc_max_calls c" "rc_max_calls c \<le> 64"
  shows "metered (ns n) (if n = guard_object_name c \<and> budgeted operation then 1 else 0) (ns' n)"
    and "budgeted operation \<Longrightarrow> \<exists>y. ns' (guard_object_name c) = Some y \<and> guard_pin y = claims_pin c"
proof -
  let ?q = "\<lparr>gq_method = ''POST'', gq_path = ''/claim'', gq_body = Claim_body c operation\<rparr>"
  let ?m = "guard_object_name c"
  have ok: "guard_request_ok ?q" using assms(3,4) by (simp add: guard_request_ok_def)
  have d: "d = Delivered" and r: "fst (handle_run_guard_request (ns ?m) ?q) = Guard_decision x"
    using assms(1) by (auto simp: guard_claim_def guard_fetch_def split_beta Let_def split: delivery.splits option.splits guard_response.splits)
  have ns': "ns' n = snd (guard_fetch d ns c ?q) n" for n using assms(1) by (auto simp: guard_claim_def split_beta Let_def)
  have "charged (?q, fst (handle_run_guard_request (ns ?m) ?q)) \<longleftrightarrow> budgeted operation"
    using assms(2) r by (auto simp: charged_def budgeted_def)
  then show "metered (ns n) (if n = ?m \<and> budgeted operation then 1 else 0) (ns' n)"
    using metered_step [OF ok, of "ns ?m"] by (simp add: ns' guard_fetch_state d)
  assume "budgeted operation"
  then have "charged (?q, fst (handle_run_guard_request (ns ?m) ?q))" using assms(2) r by (auto simp: charged_def budgeted_def)
  then obtain y where "snd (handle_run_guard_request (ns ?m) ?q) = Some y" "guard_pin y = claims_pin c"
    by (rule charged_step) simp
  then show "\<exists>y. ns' ?m = Some y \<and> guard_pin y = claims_pin c"
    by (simp add: ns' guard_fetch_state d guard_step_def)
qed

lemma do_destroy_metered:
  assumes "env_ok env"
  shows "metered (ns n) 0 (snd (snd (do_destroy env c kill d ns)) n)"
proof -
  have os: "list_all (guard_request_ok \<circ> snd) (fst (bn_finish env))" "list_all (guard_request_ok \<circ> snd) (fst (bn_abort env))"
    using assms by (simp_all add: env_ok_def)
  note steps = metered_trans0(1) [OF guard_meanwhile_metered [OF os(1)] guard_client_metered(1)]
    metered_trans0(1) [OF guard_meanwhile_metered [OF os(2)] guard_client_metered(2)]
  show ?thesis
    by (auto simp: do_destroy_def Let_def split_beta intro: steps metered_trans0(1) [OF steps(1) steps(2)] split: outcome.split)
qed

lemma do_exec_metered:
  assumes "env_ok env"
  shows "metered (ns n) 0 (snd (snd (do_exec sha resolve quote env req c ns)) n)"
proof -
  have "list_all (guard_request_ok \<circ> snd) (fst (bn_record env))" using assms by (simp add: env_ok_def)
  note step = metered_trans0(1) [OF guard_meanwhile_metered [OF this] guard_client_metered(3)]
  show ?thesis by (auto simp: do_exec_def Let_def split_beta intro: step split: sum.split option.split)
qed

lemma guards_untouched:
  "snd (snd (do_create env sid ns)) = ns" "snd (snd (do_running env d ns)) = ns"
  "snd (snd (do_file resolve env req path ns)) = ns" "snd (snd (do_files resolve env req ns)) = ns"
  by (simp_all add: do_create_def do_running_def do_file_def do_files_def split: option.split sum.split)

lemma route_work_metered:
  assumes "env_ok env"
  shows "metered (ns n) 0 (snd (snd (route_work sha resolve quote env req r c sid d ns)) n)"
  by (cases r) (simp_all add: route_work_def guards_untouched do_destroy_metered [OF assms] do_exec_metered [OF assms])

lemma one_call:
  "length (fst (snd (do_create env sid ns))) \<le> 1" "length (fst (snd (do_running env d ns))) \<le> 1"
  "length (fst (snd (do_file resolve env req path ns))) \<le> 1" "length (fst (snd (do_files resolve env req ns))) \<le> 1"
  "length (fst (snd (do_destroy env c kill d ns))) \<le> 1" "length (fst (snd (do_exec sha resolve quote env req c ns))) \<le> 1"
  by (simp_all add: do_create_def do_running_def do_file_def do_files_def do_destroy_def do_exec_def Let_def split_beta
    split: option.split sum.split)

lemma route_work_calls:
  "length (fst (snd (route_work sha resolve quote env req r c sid d ns))) \<le> 1"
  unfolding route_work_def by (cases r) (simp_all only: bridge_route.case one_call)

section \<open>The ways of a request\<close>

lemma authorize_Inr:
  assumes "authorize hmac sha env req scope = Inr (c, sid)"
  shows "\<exists>token. bq_authorization req = Some (''Bearer '' @ token) \<and> token \<noteq> [] \<and>
    verify_sandbox_run_token hmac token (bn_secret env) (bn_now_ms env) (Some scope) = Inr c \<and> derive_sandbox_id sha c = Inr sid"
  using assms by (auto simp: authorize_def bridge_bearer_def Let_def starts_with_iff split: option.splits)

lemma verified_claims_valid: "verify_sandbox_run_token hmac token secret now scope = Inr c \<Longrightarrow> valid_run_claims c"
  by (auto simp: verify_sandbox_run_token_def dest: validate_claims_sound(1))

text \<open>A request that passes its claim, with what it comes to.\<close>

definition admitted ::
  "(bytes \<Rightarrow> bytes \<Rightarrow> bytes) \<Rightarrow> (bytes \<Rightarrow> bytes) \<Rightarrow> bridge_env \<Rightarrow> bridge_request \<Rightarrow> guard_namespace \<Rightarrow> bridge_route \<Rightarrow> run_claims
    \<Rightarrow> string \<Rightarrow> guard_decision \<Rightarrow> guard_namespace \<Rightarrow> bool" where
  "admitted hmac sha env req ns r c sid d ns1 \<longleftrightarrow>
     route (bq_path req) = Some r \<and> method_allowed r (bq_method req) \<and>
     authorize hmac sha env req (required_scope r) = Inr (c, sid) \<and> (route_sandbox r = None \<or> route_sandbox r = Some sid) \<and>
     guard_claim (snd (bn_claim env)) (guard_meanwhile (fst (bn_claim env)) ns) c (route_operation r) = (Some d, ns1) \<and>
     gd_allowed d"

lemma throws_is_error: "\<exists>n code. exit_response (Throws t) = Br_error n code"
  by (cases t) (auto simp: exit_response_def token_error_response_def)

lemma refused_is_error:
  "authorize hmac sha env req scope = Inl e \<Longrightarrow> \<exists>n code. exit_response e = Br_error n code"
  "fst (claim_or_reject env c operation ns) = Inl e \<Longrightarrow> \<exists>n code. exit_response e = Br_error n code"
proof -
  assume "authorize hmac sha env req scope = Inl e"
  then have "\<exists>t. e = Throws t"
    by (auto simp: authorize_def bridge_bearer_def throws_iff Let_def)
  then show "\<exists>n code. exit_response e = Br_error n code" using throws_is_error by auto
next
  assume "fst (claim_or_reject env c operation ns) = Inl e"
  then have "e = Throws Operation_threw \<or> (\<exists>n code. e = Answer (Br_error n code))"
    by (auto simp: claim_or_reject_def throws_iff split_beta Let_def)
  then show "\<exists>n code. exit_response e = Br_error n code" using throws_is_error by (auto simp: exit_response_def)
qed

lemma handle_bridge_cases [consumes 1, case_names refused admitted]:
  assumes "handle_bridge_request hmac sha resolve quote env req ns = (resp, calls, ns')"
  obtains "calls = []" "ns' = ns \<or> (\<exists>c operation. valid_run_claims c \<and>
      ns' = snd (guard_claim (snd (bn_claim env)) (guard_meanwhile (fst (bn_claim env)) ns) c operation))"
    "resp \<noteq> Br_no_content" "\<And>x. resp \<noteq> Br_killed x" "\<And>x. resp \<noteq> Br_exec x"
  | r c sid d ns1 e calls0 where "admitted hmac sha env req ns r c sid d ns1"
    "route_work sha resolve quote env req r c sid d ns1 = (e, calls0, ns')" "resp = exit_response e"
    "calls = map (\<lambda>x. \<lparr>bc_claims = c, bc_operation = route_operation r, bc_sandbox = sid, bc_call = x\<rparr>) calls0"
proof -
  note refuse = that(1) and admit = that(2)
  have early: thesis if "calls = []" "ns' = ns \<or> (\<exists>c operation. valid_run_claims c \<and>
      ns' = snd (guard_claim (snd (bn_claim env)) (guard_meanwhile (fst (bn_claim env)) ns) c operation))" "resp = Br_health \<or> (\<exists>n code. resp = Br_error n code)"
    using that by (intro refuse) auto
  show thesis
  proof (cases "\<exists>r. route (bq_path req) = Some r \<and> method_allowed r (bq_method req) \<and> \<not> (bq_method req = ''GET'' \<and> bq_path req = ''/health'')")
    case False
    then show thesis using assms by (intro early) (auto simp: handle_bridge_request_def split: option.splits if_splits)
  next
    case True
    then obtain r e where r: "route (bq_path req) = Some r" "method_allowed r (bq_method req)"
      and h: "handle_matched hmac sha resolve quote env req r ns = (e, calls, ns')" "resp = exit_response e"
      using assms by (auto simp: handle_bridge_request_def split: prod.splits)
    show thesis
    proof (cases "authorize hmac sha env req (required_scope r)")
      case (Inl e')
      then show thesis using h refused_is_error(1) [OF Inl] by (intro early) (auto simp: handle_matched_def)
    next
      case (Inr x)
      obtain c sid where x: "x = (c, sid)" by force
      obtain g ns1 where g: "claim_or_reject env c (route_operation r) ns = (g, ns1)" by force
      show thesis
      proof (cases "(case route_sandbox r of Some s \<Rightarrow> s \<noteq> sid | None \<Rightarrow> False) \<or> (\<exists>e'. g = Inl e')")
        case True
        have "valid_run_claims c" using authorize_Inr verified_claims_valid Inr x by fastforce
        moreover have "ns1 = snd (guard_claim (snd (bn_claim env)) (guard_meanwhile (fst (bn_claim env)) ns) c (route_operation r))"
          using g by (auto simp: claim_or_reject_def split_beta Let_def)
        ultimately have spent: "\<exists>c operation. valid_run_claims c \<and>
            ns1 = snd (guard_claim (snd (bn_claim env)) (guard_meanwhile (fst (bn_claim env)) ns) c operation)" by blast
        show thesis
        proof (cases "case route_sandbox r of Some s \<Rightarrow> s \<noteq> sid | None \<Rightarrow> False")
          case True
          then show thesis using h Inr x by (intro early) (auto simp: handle_matched_def exit_response_def)
        next
          case False
          with \<open>_ \<or> (\<exists>e'. g = Inl e')\<close> obtain e' where e': "g = Inl e'" by blast
          then have "\<exists>n code. exit_response e' = Br_error n code"
            using refused_is_error(2) [of env c "route_operation r" ns e'] g by simp
          moreover have "e = e'" "calls = []" "ns' = ns1"
            using h(1) Inr x g e' False by (simp_all add: handle_matched_def)
          ultimately show thesis using spent h(2) by (intro early) simp_all
        qed
      next
        case False
        then obtain d where d: "g = Inr d" by (cases g) auto
        then have "guard_claim (snd (bn_claim env)) (guard_meanwhile (fst (bn_claim env)) ns) c (route_operation r) = (Some d, ns1)"
            "gd_allowed d"
          using g by (auto simp: claim_or_reject_def split_beta Let_def prod_eq_iff)
        moreover obtain e' calls0 ns'' where w: "route_work sha resolve quote env req r c sid d ns1 = (e', calls0, ns'')"
          by (metis prod_cases3)
        ultimately show thesis using False r h Inr x g d
          by (intro admit [of r c sid d ns1 e' calls0]) (auto simp: admitted_def handle_matched_def split: option.splits)
      qed
    qed
  qed
qed

lemma admitted_claims:
  assumes "admitted hmac sha env req ns r c sid d ns1"
  shows "valid_run_claims c" and "1 \<le> rc_max_calls c \<and> rc_max_calls c \<le> 64"
proof -
  show "valid_run_claims c" using assms authorize_Inr verified_claims_valid by (fastforce simp: admitted_def)
  then show "1 \<le> rc_max_calls c \<and> rc_max_calls c \<le> 64" by (simp add: valid_run_claims_def)
qed

text \<open>The charged calls of one run.\<close>

definition run_calls :: "string \<Rightarrow> bridge_call list \<Rightarrow> bridge_call list" where
  "run_calls n calls = filter (\<lambda>x. guard_object_name (bc_claims x) = n \<and> budgeted (bc_operation x)) calls"

lemma handle_bridge_metered:
  assumes "handle_bridge_request hmac sha resolve quote env req ns = (resp, calls, ns')" and "env_ok env"
  shows "metered (ns n) (length (run_calls n calls)) (ns' n) \<and>
    (\<forall>x \<in> set (run_calls n calls). \<exists>y. ns' n = Some y \<and> guard_pin y = claims_pin (bc_claims x))"
  using assms(1)
proof (cases rule: handle_bridge_cases)
  case refused
  have "metered (ns n) 0 (ns' n)"
    using refused(2)
  proof (elim disjE exE conjE)
    fix c operation assume c: "valid_run_claims c"
      and ns': "ns' = snd (guard_claim (snd (bn_claim env)) (guard_meanwhile (fst (bn_claim env)) ns) c operation)"
    have "guard_request_ok \<lparr>gq_method = ''POST'', gq_path = ''/claim'', gq_body = Claim_body c operation\<rparr>"
      using c by (simp add: guard_request_ok_def valid_run_claims_def)
    from guard_fetch_metered [OF this] have "metered (guard_meanwhile (fst (bn_claim env)) ns n) 0 (ns' n)"
      by (simp add: ns' guard_claim_def split_beta Let_def)
    moreover have "metered (ns n) 0 (guard_meanwhile (fst (bn_claim env)) ns n)"
      using assms(2) by (intro guard_meanwhile_metered) (simp add: env_ok_def)
    ultimately show ?thesis by (rule metered_trans0(1) [rotated])
  qed simp
  then show ?thesis by (simp add: refused(1) run_calls_def)
next
  case (admitted r c sid d ns1 e calls0)
  let ?k = "if n = guard_object_name c \<and> budgeted (route_operation r) then 1 else 0"
  have g: "guard_claim (snd (bn_claim env)) (guard_meanwhile (fst (bn_claim env)) ns) c (route_operation r) = (Some d, ns1)" "gd_allowed d"
    using admitted(1) by (simp_all add: admitted_def)
  note c = admitted_claims(2) [OF admitted(1)]
  have "metered (ns n) 0 (guard_meanwhile (fst (bn_claim env)) ns n)"
    using assms(2) by (intro guard_meanwhile_metered) (simp add: env_ok_def)
  moreover have "metered (guard_meanwhile (fst (bn_claim env)) ns n) ?k (ns1 n)"
    using c by (intro guard_claim_allowed(1) [OF g]) simp_all
  moreover have w: "metered (ns1 n) 0 (ns' n)" using route_work_metered [OF assms(2), of ns1 n] admitted(2) by (metis snd_conv)
  ultimately have m: "metered (ns n) ?k (ns' n)" by (meson metered_trans0)
  have "length calls0 \<le> 1" using route_work_calls [of sha resolve quote env req r c sid d ns1] admitted(2) by simp
  then have l: "length (run_calls n calls) \<le> ?k" by (cases calls0) (auto simp: run_calls_def admitted(4))
  show ?thesis
  proof
    show "metered (ns n) (length (run_calls n calls)) (ns' n)" using m l by (auto simp: metered_def)
    show "\<forall>x \<in> set (run_calls n calls). \<exists>y. ns' n = Some y \<and> guard_pin y = claims_pin (bc_claims x)"
    proof
      fix x assume "x \<in> set (run_calls n calls)"
      then have x: "bc_claims x = c" "guard_object_name c = n" "budgeted (route_operation r)"
        by (auto simp: run_calls_def admitted(4))
      obtain y where y: "ns1 n = Some y" "guard_pin y = claims_pin c" using guard_claim_allowed(2) [OF g] c x(2,3) by auto
      with w obtain y' where "ns' n = Some y'" "guard_pin y' = guard_pin y" by (auto simp: metered_def)
      with y x show "\<exists>y. ns' n = Some y \<and> guard_pin y = claims_pin (bc_claims x)" by simp
    qed
  qed
qed

section \<open>Sequences of requests\<close>

fun bridge_run ::
  "(bytes \<Rightarrow> bytes \<Rightarrow> bytes) \<Rightarrow> (bytes \<Rightarrow> bytes) \<Rightarrow> (string \<Rightarrow> string option) \<Rightarrow> (string \<Rightarrow> string)
    \<Rightarrow> (bridge_env \<times> bridge_request) list \<Rightarrow> guard_namespace \<Rightarrow> bridge_call list \<times> guard_namespace" where
  "bridge_run hmac sha resolve quote [] ns = ([], ns)"
| "bridge_run hmac sha resolve quote ((env, req) # es) ns =
     (let (resp, calls, ns1) = handle_bridge_request hmac sha resolve quote env req ns;
          (calls', ns2) = bridge_run hmac sha resolve quote es ns1 in (calls @ calls', ns2))"

lemma bridge_run_metered:
  assumes "bridge_run hmac sha resolve quote es ns = (calls, ns')" and "list_all (env_ok \<circ> fst) es"
  shows "metered (ns n) (length (run_calls n calls)) (ns' n) \<and>
    (\<forall>x \<in> set (run_calls n calls). \<exists>y. ns' n = Some y \<and> guard_pin y = claims_pin (bc_claims x))"
  using assms
proof (induction es arbitrary: ns calls)
  case Nil
  then show ?case by (simp add: run_calls_def)
next
  case (Cons e es)
  obtain env req where e: "e = (env, req)" by force
  obtain resp calls1 ns1 where h: "handle_bridge_request hmac sha resolve quote env req ns = (resp, calls1, ns1)" by (metis prod_cases3)
  obtain calls2 where r: "bridge_run hmac sha resolve quote es ns1 = (calls2, ns')" and calls: "calls = calls1 @ calls2"
    using Cons.prems(1) h by (auto simp: e split: prod.splits)
  have ok: "env_ok env" "list_all (env_ok \<circ> fst) es" using Cons.prems(2) by (simp_all add: e comp_def)
  note a = handle_bridge_metered [OF h ok(1), of n] and b = Cons.IH [OF r ok(2)]
  have l: "run_calls n calls = run_calls n calls1 @ run_calls n calls2" by (simp add: calls run_calls_def)
  have "metered (ns n) (length (run_calls n calls)) (ns' n)" using a b by (simp add: l) (meson metered_trans)
  moreover have "\<exists>y. ns' n = Some y \<and> guard_pin y = claims_pin (bc_claims x)" if "x \<in> set (run_calls n calls1)" for x
    using a b that by (fastforce simp: metered_def)
  ultimately show ?case using b by (auto simp: l)
qed

section \<open>Properties\<close>

definition call_fits :: "(string \<Rightarrow> string option) \<Rightarrow> bridge_request \<Rightarrow> bridge_route \<Rightarrow> sandbox_call \<Rightarrow> bool" where
  "call_fits resolve req r x \<longleftrightarrow>
     (case x of
        S_is_running \<Rightarrow> r = R_create \<or> (\<exists>s. r = R_running s)
      | S_destroy \<Rightarrow> \<exists>s. r = R_destroy s \<or> r = R_kill s
      | S_exec command cwd timeout \<Rightarrow> (\<exists>s. r = R_exec s) \<and> cwd \<in> {w. \<exists>p. resolve p = Some w} \<and>
          utf8_length command \<le> max_command_bytes \<and> 1 \<le> timeout \<and> timeout \<le> max_exec_timeout_ms
      | S_read_file path \<Rightarrow> bq_method req = ''GET'' \<and> (\<exists>s p. r = R_file s p \<and> resolve (CHR ''/'' # p) = Some path)
      | S_write_file path content \<Rightarrow> bq_method req = ''PUT'' \<and> utf8_length content \<le> bridge_max_body_bytes \<and>
          (\<exists>s p. r = R_file s p \<and> resolve (CHR ''/'' # p) = Some path)
      | S_list_files path \<Rightarrow> \<exists>s. r = R_files s \<and> (\<exists>p. resolve p = Some path))"

lemma parse_exec_Inr:
  assumes "parse_exec resolve quote req = Inr x"
  shows "xc_argv x \<noteq> [] \<and> length (xc_argv x) \<le> 32 \<and> xc_command x = join_with (CHR '' '') (map quote (xc_argv x)) \<and>
    utf8_length (xc_command x) \<le> max_command_bytes \<and> 1 \<le> xc_timeout x \<and> xc_timeout x \<le> max_exec_timeout_ms \<and>
    (\<exists>p. resolve p = Some (xc_cwd x))"
proof -
  have cwd: "\<exists>p. resolve p = Some w"
    if "(case m of None \<Rightarrow> resolve ''/workspace'' | Some (JStr cwd) \<Rightarrow> resolve cwd | Some _ \<Rightarrow> None) = Some w" for m w
    using that by (auto split: option.splits json.splits)
  show ?thesis using assms cwd by (clarsimp simp: parse_exec_def Let_def)
qed

lemma work_fits:
  "x \<in> set (fst (snd (route_work sha resolve quote env req r c sid d ns))) \<Longrightarrow> call_fits resolve req r x"
proof -
  assume x: "x \<in> set (fst (snd (route_work sha resolve quote env req r c sid d ns)))"
  have b: "utf8_length body \<le> bridge_max_body_bytes" if "bridge_read_body req = Inr body" for body
    using that by (simp add: bridge_read_body_def)
  show ?thesis
  proof (cases r)
    case (R_exec s)
    with x show ?thesis
      by (auto simp: route_work_def do_exec_def call_fits_def Let_def split_beta dest!: parse_exec_Inr split: sum.splits option.splits if_splits)
  next
    case (R_file s p)
    with x b show ?thesis
      by (auto simp: route_work_def do_file_def call_fits_def split: sum.splits option.splits if_splits)
  qed (use x in \<open>auto simp: route_work_def do_create_def do_running_def do_destroy_def do_files_def call_fits_def Let_def split_beta
        split: option.splits if_splits\<close>)
qed

text \<open>
  C10: The bridge calls a sandbox only for a caller whose run token verifies, now and under the bridge's key, for the scope of
  the route; the sandbox is the one derived from the token's claims (and the one in the path), the guard of the run allowed
  the operation of the route, and the call is the one of the route: its paths are resolved, its command, time and
  body are bounded.
\<close>

theorem sandbox_calls_are_authorized:
  assumes "handle_bridge_request hmac sha resolve quote env req ns = (resp, calls, ns')" and "x \<in> set calls"
  shows "\<exists>r token d ns1. route (bq_path req) = Some r \<and> method_allowed r (bq_method req) \<and>
    bq_authorization req = Some (''Bearer '' @ token) \<and>
    verify_sandbox_run_token hmac token (bn_secret env) (bn_now_ms env) (Some (required_scope r)) = Inr (bc_claims x) \<and>
    derive_sandbox_id sha (bc_claims x) = Inr (bc_sandbox x) \<and>
    (route_sandbox r = None \<or> route_sandbox r = Some (bc_sandbox x)) \<and> bc_operation x = route_operation r \<and>
    guard_claim (snd (bn_claim env)) (guard_meanwhile (fst (bn_claim env)) ns) (bc_claims x) (bc_operation x) = (Some d, ns1) \<and>
    gd_allowed d \<and> call_fits resolve req r (bc_call x)"
  using assms(1)
proof (cases rule: handle_bridge_cases)
  case refused
  with assms(2) show ?thesis by simp
next
  case (admitted r c sid d ns1 e calls0)
  obtain y where y: "y \<in> set calls0" "x = \<lparr>bc_claims = c, bc_operation = route_operation r, bc_sandbox = sid, bc_call = y\<rparr>"
    using assms(2) admitted(4) by auto
  have "call_fits resolve req r y" using y(1) work_fits [of y sha resolve quote env req r c sid d ns1] admitted(2) by simp
  moreover obtain token where "bq_authorization req = Some (''Bearer '' @ token)"
    "verify_sandbox_run_token hmac token (bn_secret env) (bn_now_ms env) (Some (required_scope r)) = Inr c" "derive_sandbox_id sha c = Inr sid"
    using admitted(1) authorize_Inr by (fastforce simp: admitted_def)
  ultimately show ?thesis using admitted(1) by (intro exI [of _ r] exI [of _ token] exI [of _ d] exI [of _ ns1]) (simp add: admitted_def y(2))
qed


text \<open>The state a guard is in after an allowed claim.\<close>

lemma guard_claim_state:
  assumes "guard_claim d ns c operation = (Some x, ns')" and "gd_allowed x"
  shows "\<exists>s. ns' (guard_object_name c) = Some s \<and> gd_terminal x = gs_terminal s \<and> gd_exec_receipt x = gs_exec_receipt s \<and>
    (operation = Op_destroy \<and> \<not> gs_terminal s \<longrightarrow> gs_destroying s)"
proof -
  let ?m = "guard_object_name c"
  have d: "d = Delivered" and r: "x = fst (apply_run_guard_claim (ns ?m) c operation)"
    and s: "ns' ?m = Some (snd (apply_run_guard_claim (ns ?m) c operation))"
    using assms(1) by (auto simp: guard_claim_def guard_fetch_def handle_run_guard_request_def split_beta Let_def split: delivery.splits)
  have "gd_allowed (fst y) \<longrightarrow> gd_terminal (fst y) = gs_terminal (snd y) \<and> gd_exec_receipt (fst y) = gs_exec_receipt (snd y) \<and>
      (operation = Op_destroy \<and> \<not> gs_terminal (snd y) \<longrightarrow> gs_destroying (snd y))"
    if "y = apply_run_guard_claim (ns ?m) c operation" for y
    unfolding that by (rule claim_cases) (auto simp: guard_allow_def guard_refuse_def)
  with assms(2) r s show ?thesis by blast
qed

lemma parse_refusal:
  "bridge_read_body req = Inl (Answer r) \<Longrightarrow> \<exists>n code. r = Br_error n code"
  "parse_exec resolve quote req = Inl (Answer r) \<Longrightarrow> \<exists>n code. r = Br_error n code"
  by (auto simp: parse_exec_def bridge_read_body_def throws_iff Let_def)

lemma guard_finished:
  "guard_finish_destroy d ns c = (True, ns') \<Longrightarrow> guard_terminal (ns' (guard_object_name c))"
  by (auto simp: guard_finish_destroy_def guard_fetch_def handle_run_guard_request_def guard_ok_def guard_terminal_def split_beta Let_def
      split: delivery.splits option.splits)

lemma guard_recorded:
  "guard_record_exec d ns c receipt = (True, ns') \<Longrightarrow>
     \<exists>s. ns' (guard_object_name c) = Some s \<and> gs_exec_receipt s = Some receipt \<and> guard_pin s = claims_pin c \<and> guard_open (Some s)"
  by (auto simp: guard_record_exec_def guard_fetch_def handle_run_guard_request_def guard_ok_def guard_open_def state_matches_claims_pin
      split_beta Let_def split: delivery.splits option.splits if_splits)

lemma destroy_answered:
  assumes "handle_bridge_request hmac sha resolve quote env req ns = (resp, calls, ns')"
    and "resp = Br_no_content \<and> bq_method req = ''DELETE'' \<or> resp = Br_killed word"
  shows "\<exists>c token. bq_authorization req = Some (''Bearer '' @ token) \<and>
    verify_sandbox_run_token hmac token (bn_secret env) (bn_now_ms env) (Some ''sandbox:destroy'') = Inr c \<and>
    guard_terminal (ns' (guard_object_name c)) \<and>
    (calls = [] \<or> map bc_call calls = [S_destroy] \<and> bn_destroy env = Settled ())"
  using assms(1)
proof (cases rule: handle_bridge_cases)
  case refused
  with assms(2) show ?thesis by auto
next
  case (admitted r c sid d ns1 e calls0)
  note a = admitted(1) [unfolded admitted_def]
  have e: "e = Answer resp"
    using admitted(3) assms(2) by (cases e) (auto simp: exit_response_def token_error_response_def split: bridge_throw.splits)
  have r: "\<exists>s. r = R_destroy s \<or> r = R_kill s"
  proof (rule ccontr)
    assume "\<nexists>s. r = R_destroy s \<or> r = R_kill s"
    with a assms(2) admitted(2) e show False
      by (cases r) (auto simp: method_allowed_def route_work_def do_create_def do_running_def do_exec_def do_files_def do_file_def Let_def split_beta
        dest: parse_refusal split: option.splits sum.splits if_splits)
  qed
  then obtain kill where w: "do_destroy env c kill d ns1 = (e, calls0, ns')" and scope: "required_scope r = ''sandbox:destroy''"
    using admitted(2) by (auto simp: route_work_def required_scope_def)
  obtain s where s: "ns1 (guard_object_name c) = Some s" "gd_terminal d = gs_terminal s"
    using a guard_claim_state by blast
  have "guard_terminal (ns' (guard_object_name c)) \<and> (calls0 = [] \<or> calls0 = [S_destroy] \<and> bn_destroy env = Settled ())"
  proof (cases "gd_terminal d")
    case True
    with w s show ?thesis by (auto simp: do_destroy_def guard_terminal_def)
  next
    case False
    with w e assms(2) guard_finished [of "snd (bn_finish env)" "guard_meanwhile (fst (bn_finish env)) ns1" c] show ?thesis
      by (auto simp: do_destroy_def Let_def split: outcome.splits prod.splits if_splits)
  qed
  moreover obtain token where "bq_authorization req = Some (''Bearer '' @ token)"
    "verify_sandbox_run_token hmac token (bn_secret env) (bn_now_ms env) (Some (required_scope r)) = Inr c"
    using a authorize_Inr by fastforce
  ultimately show ?thesis using admitted(4) by (auto simp: scope comp_def)
qed

text \<open>
  The bridge answers a destroy as done, or a kill as killed, only when the run is then terminal in its guard;
  unless it was so before the request, the sandbox confirmed its destruction.
\<close>

theorem destroy_answer_is_true:
  assumes "handle_bridge_request hmac sha resolve quote env req ns = (resp, calls, ns')"
    and "resp = Br_no_content \<and> bq_method req = ''DELETE'' \<or> resp = Br_killed word"
  shows "\<exists>c token. bq_authorization req = Some (''Bearer '' @ token) \<and>
    verify_sandbox_run_token hmac token (bn_secret env) (bn_now_ms env) (Some ''sandbox:destroy'') = Inr c \<and>
    guard_terminal (ns' (guard_object_name c)) \<and>
    (calls = [] \<or> map bc_call calls = [S_destroy] \<and> bn_destroy env = Settled ())"
  using assms by (rule destroy_answered)

text \<open>
  An exec request is answered with the output of the sandbox only after its receipt was stored: the guard of the
  run then holds the digest of the arguments, the exit code and the digest of the standard output of just this
  execution, of the one command line made of the quoted arguments.
\<close>

theorem exec_answer_is_recorded:
  assumes "handle_bridge_request hmac sha resolve quote env req ns = (Br_exec sse, calls, ns')"
  shows "\<exists>c argv x cwd timeout s. bn_exec env = Some x \<and> sse = exec_sse x \<and>
    map bc_call calls = [S_exec (join_with (CHR '' '') (map quote argv)) cwd timeout] \<and> map bc_claims calls = [c] \<and>
    ns' (guard_object_name c) = Some s \<and> gs_exec_receipt s = Some (exec_receipt_of sha argv x) \<and>
    guard_open (Some s) \<and> guard_pin s = claims_pin c"
  using assms
proof (cases rule: handle_bridge_cases)
  case refused
  then show ?thesis by blast
next
  case (admitted r c sid d ns1 e calls0)
  have e: "e = Answer (Br_exec sse)"
    using admitted(3) by (cases e) (auto simp: exit_response_def token_error_response_def split: bridge_throw.splits)
  have w: "do_exec sha resolve quote env req c ns1 = (Answer (Br_exec sse), calls0, ns')"
    using admitted(2) e
    by (cases r) (auto simp: route_work_def do_create_def do_running_def do_destroy_def do_files_def do_file_def Let_def split_beta
      dest: parse_refusal split: option.splits sum.splits if_splits)
  then obtain y x where y: "parse_exec resolve quote req = Inr y" and x: "bn_exec env = Some x"
    by (auto simp: do_exec_def Let_def dest: parse_refusal split: sum.splits option.splits)
  have rec: "guard_record_exec (snd (bn_record env)) (guard_meanwhile (fst (bn_record env)) ns1) c (exec_receipt_of sha (xc_argv y) x) = (True, ns')"
    and calls0: "calls0 = [S_exec (xc_command y) (xc_cwd y) (xc_timeout y)]" and sse: "sse = exec_sse x"
    using w by (auto simp: do_exec_def y x Let_def split: if_splits prod.splits)
  from guard_recorded [OF rec] parse_exec_Inr [OF y] x calls0 sse admitted(4) show ?thesis by auto
qed

section \<open>A stranded run\<close>

text \<open>No guard requests but the ones of the bridge itself.\<close>

definition quiet :: "bridge_env \<Rightarrow> bool" where
  "quiet env \<longleftrightarrow> fst (bn_claim env) = [] \<and> fst (bn_finish env) = [] \<and> fst (bn_abort env) = [] \<and> fst (bn_record env) = []"

definition stranded :: "guard_state option \<Rightarrow> bool" where
  "stranded s \<longleftrightarrow> (case s of None \<Rightarrow> False | Some x \<Rightarrow> gs_destroying x \<and> \<not> gs_terminal x)"

lemma guard_meanwhile_none [simp]: "guard_meanwhile [] ns = ns"
  by (simp add: guard_meanwhile_def)

lemma stranded_claim:
  assumes "stranded (ns n)"
  shows "snd (guard_claim d ns c operation) n = ns n"
    and "guard_object_name c = n \<Longrightarrow> fst (guard_claim d ns c operation) = Some x \<Longrightarrow> gd_allowed x \<Longrightarrow> operation = Op_status"
proof -
  obtain s where s: "ns n = Some s" "gs_destroying s" "\<not> gs_terminal s"
    using assms by (auto simp: stranded_def split: option.splits)
  have "snd y = s \<and> (gd_allowed (fst y) \<longrightarrow> operation = Op_status)" if "y = apply_run_guard_claim (ns n) c operation" for y
    unfolding that by (rule claim_cases) (use s in \<open>auto simp: guard_current_def\<close>)
  then have a: "snd (apply_run_guard_claim (ns n) c operation) = s"
    "gd_allowed (fst (apply_run_guard_claim (ns n) c operation)) \<Longrightarrow> operation = Op_status" by simp_all
  show "snd (guard_claim d ns c operation) n = ns n"
    using a(1) s(1) by (auto simp: guard_claim_def guard_fetch_state guard_step_def handle_run_guard_request_def split_beta Let_def)
  show "operation = Op_status" if "guard_object_name c = n" "fst (guard_claim d ns c operation) = Some x" "gd_allowed x"
    using that a(2) by (auto simp: guard_claim_def guard_fetch_def handle_run_guard_request_def split_beta Let_def split: delivery.splits)
qed

lemma guard_elsewhere:
  "guard_object_name c \<noteq> n \<Longrightarrow> snd (guard_finish_destroy d ns c) n = ns n"
  "guard_object_name c \<noteq> n \<Longrightarrow> snd (guard_abort_destroy d ns c) n = ns n"
  "guard_object_name c \<noteq> n \<Longrightarrow> snd (guard_record_exec d ns c receipt) n = ns n"
  by (simp_all add: guard_finish_destroy_def guard_abort_destroy_def guard_record_exec_def split_beta Let_def guard_fetch_state)

lemma work_elsewhere:
  assumes "quiet env" and "guard_object_name c \<noteq> n"
  shows "snd (snd (route_work sha resolve quote env req r c sid d ns)) n = ns n"
proof -
  have "snd (snd (do_destroy env c kill d ns)) n = ns n" for kill
    using assms by (simp add: do_destroy_def quiet_def guard_elsewhere split_beta Let_def split: outcome.split)
  moreover have "snd (snd (do_exec sha resolve quote env req c ns)) n = ns n"
    using assms by (simp add: do_exec_def quiet_def guard_elsewhere split_beta Let_def split: sum.split option.split)
  ultimately show ?thesis by (cases r) (simp_all add: route_work_def guards_untouched)
qed

lemma stranded_request:
  assumes "handle_bridge_request hmac sha resolve quote env req ns = (resp, calls, ns')" and "quiet env" and "stranded (ns n)"
  shows "ns' n = ns n \<and> (\<forall>x \<in> set calls. guard_object_name (bc_claims x) = n \<longrightarrow> bc_operation x = Op_status)"
  using assms(1)
proof (cases rule: handle_bridge_cases)
  case refused
  have "snd (guard_claim d ns c operation) n = ns n" for d c operation
    by (rule stranded_claim(1) [where ns = ns and n = n]) (rule assms(3))
  with refused(1,2) assms(2) show ?thesis by (auto simp: quiet_def)
next
  case (admitted r c sid d ns1 e calls0)
  have g: "guard_claim (snd (bn_claim env)) ns c (route_operation r) = (Some d, ns1)" "gd_allowed d"
    using admitted(1) assms(2) by (simp_all add: admitted_def quiet_def)
  have ns1: "ns1 n = ns n"
    using stranded_claim(1) [where ns = ns and n = n and d = "snd (bn_claim env)" and c = c and operation = "route_operation r"]
      assms(3) g(1) by simp
  show ?thesis
  proof (cases "guard_object_name c = n")
    case True
    then have "route_operation r = Op_status"
      using stranded_claim(2) [where ns = ns and n = n and d = "snd (bn_claim env)" and c = c and operation = "route_operation r" and x = d]
        assms(3) g by simp
    then obtain s where "r = R_running s" by (cases r) (simp_all add: route_operation_def)
    with admitted(2) have "ns' = ns1" using guards_untouched(2) [of env d ns1] by (simp add: route_work_def)
    then show ?thesis using ns1 \<open>route_operation r = Op_status\<close> by (simp add: admitted(4))
  next
    case False
    then show ?thesis using work_elsewhere [OF assms(2) False, of sha resolve quote req r sid d ns1] admitted(2) ns1
      by (simp add: admitted(4))
  qed
qed

lemma stranded_run:
  assumes "bridge_run hmac sha resolve quote es ns = (calls, ns')" and "list_all (quiet \<circ> fst) es" and "stranded (ns n)"
  shows "\<forall>x \<in> set calls. guard_object_name (bc_claims x) = n \<longrightarrow> bc_operation x = Op_status"
  using assms
proof (induction es arbitrary: ns calls)
  case (Cons e es)
  obtain env req where e: "e = (env, req)" by force
  obtain resp calls1 ns1 where h: "handle_bridge_request hmac sha resolve quote env req ns = (resp, calls1, ns1)" by (metis prod_cases3)
  obtain calls2 where run: "bridge_run hmac sha resolve quote es ns1 = (calls2, ns')" and calls: "calls = calls1 @ calls2"
    using Cons.prems(1) h by (auto simp: e split: prod.splits)
  have q: "quiet env" "list_all (quiet \<circ> fst) es" using Cons.prems(2) by (simp_all add: e comp_def)
  note first = stranded_request [where n = n, OF h q(1) Cons.prems(3)]
  then have "stranded (ns1 n)" using Cons.prems(3) by simp
  from Cons.IH [OF run q(2) this] first show ?case by (auto simp: calls)
qed simp

text \<open>
  C39: When the sandbox refused or did not confirm its destruction and the bridge's request to abort the destroy is lost, the
  run is stranded: whatever requests follow, for the same run the bridge never calls its sandbox again but to observe it, so no
  retry of the destroy or of a kill reaches the sandbox.
\<close>

theorem lost_abort_strands_run:
  assumes "handle_bridge_request hmac sha resolve quote env req ns = (resp, calls, ns1)" and "quiet env"
    and "x \<in> set calls" and "bc_call x = S_destroy" and "bn_destroy env \<noteq> Settled ()" and "snd (bn_abort env) = Request_lost"
    and "bridge_run hmac sha resolve quote es ns1 = (later, ns2)" and "list_all (quiet \<circ> fst) es"
  shows "resp = Br_error 502 ''SANDBOX_OPERATION_FAILED'' \<and>
    (\<forall>y \<in> set later. guard_object_name (bc_claims y) = guard_object_name (bc_claims x) \<longrightarrow> bc_operation y = Op_status)"
  using assms(1)
proof (cases rule: handle_bridge_cases)
  case refused
  with assms(3) show ?thesis by simp
next
  case (admitted r c sid d ns0 e calls0)
  have x: "bc_claims x = c" "S_destroy \<in> set calls0" using assms(3,4) admitted(4) by auto
  have "call_fits resolve req r S_destroy" using x(2) work_fits [of S_destroy sha resolve quote env req r c sid d ns0] admitted(2) by simp
  then have "route_operation r = Op_destroy" and "\<exists>kill. do_destroy env c kill d ns0 = (e, calls0, ns1)"
    using admitted(2) by (auto simp: call_fits_def route_operation_def route_work_def)
  then obtain kill where w: "do_destroy env c kill d ns0 = (e, calls0, ns1)" and op: "route_operation r = Op_destroy" by blast
  obtain s where s: "ns0 (guard_object_name c) = Some s" "gd_terminal d = gs_terminal s" "\<not> gs_terminal s \<Longrightarrow> gs_destroying s"
    using guard_claim_state [of "snd (bn_claim env)" "guard_meanwhile (fst (bn_claim env)) ns" c "route_operation r" d ns0] admitted(1) op
    by (auto simp: admitted_def)
  have t: "\<not> gd_terminal d" using w x(2) by (auto simp: do_destroy_def split: if_splits)
  have "guard_abort_destroy Request_lost ns0 c = (False, ns0)" by (simp add: guard_abort_destroy_def guard_fetch_def split_beta Let_def)
  with w t assms(2,5,6) have "e = Throws Operation_threw" "ns1 = ns0"
    by (auto simp: do_destroy_def quiet_def Let_def split: outcome.splits)
  then have "stranded (ns1 (guard_object_name c))" using s t by (simp add: stranded_def)
  with stranded_run [OF assms(7,8)] show ?thesis
    using x(1) admitted(3) \<open>e = Throws Operation_threw\<close> by (simp add: exit_response_def)
qed

section \<open>Routes by segments\<close>

text \<open>The routes read off the segments of the path, as a table.\<close>

definition sandbox_segments :: "string \<Rightarrow> string list \<Rightarrow> bridge_route option" where
  "sandbox_segments sid rest =
     (case rest of
        [] \<Rightarrow> Some (R_destroy sid)
      | [w] \<Rightarrow> map_of [([], R_destroy sid), (''exec'', R_exec sid), (''kill'', R_kill sid), (''files'', R_files sid),
          (''running'', R_running sid)] w
      | w # ps \<Rightarrow> if w = ''file'' then map_option (R_file sid) (decode_uri_component (join_with (CHR ''/'') ps)) else None)"

definition route_by_segments :: "string \<Rightarrow> bridge_route option" where
  "route_by_segments path =
     (case split_on (CHR ''/'') path of
        root # version # kind # ids \<Rightarrow>
          if root = [] \<and> version = ''v1'' \<and> kind = ''sandbox'' then
            (case ids of [] \<Rightarrow> Some R_create | sid # rest \<Rightarrow> if sid = [] then None else sandbox_segments sid rest)
          else None
      | _ \<Rightarrow> None)"

lemma split_on_first:
  "split_on d s = takeWhile (\<lambda>c. c \<noteq> d) s # (if d \<in> set s then split_on d (tl (dropWhile (\<lambda>c. c \<noteq> d) s)) else [])"
  by (induction s) auto

lemma split_on_two: "split_on d s = [w] \<longleftrightarrow> d \<notin> set s \<and> w = s"
  by (metis join_split_on join_with_Cons append_Nil2 list.inject list.set_intros(1) split_on_no_sep split_on_parts)

lemma route_suffix:
  assumes "d = CHR ''/''" and "d \<notin> set sid" and "sid \<noteq> []"
  shows "sandbox_segments sid (split_on d suffix) =
    (if suffix = [] then Some (R_destroy sid)
     else if suffix = ''exec'' then Some (R_exec sid)
     else if suffix = ''kill'' then Some (R_kill sid)
     else if suffix = ''files'' then Some (R_files sid)
     else if suffix = ''running'' then Some (R_running sid)
     else if starts_with ''file/'' suffix then map_option (R_file sid) (decode_uri_component (drop 5 suffix))
     else None)"
proof (cases "d \<in> set suffix")
  case False
  then have "\<not> starts_with ''file/'' suffix" by (auto simp: starts_with_iff assms(1))
  with False show ?thesis by (simp add: split_on_no_sep sandbox_segments_def)
next
  case True
  let ?w = "takeWhile (\<lambda>c. c \<noteq> d) suffix" and ?t = "tl (dropWhile (\<lambda>c. c \<noteq> d) suffix)"
  have s: "suffix = ?w @ d # ?t"
    using True by (induction suffix) auto
  have "split_on d suffix = ?w # split_on d ?t" using split_on_first [of d suffix] True by simp
  then have l: "sandbox_segments sid (split_on d suffix) =
      (if ?w = ''file'' then map_option (R_file sid) (decode_uri_component ?t) else None)"
    using split_on_nonempty [of d ?t] join_split_on [of d ?t] by (auto simp: sandbox_segments_def assms(1) [symmetric] split: list.splits)
  have n: "suffix \<notin> {[], ''exec'', ''kill'', ''files'', ''running''}" using True by (auto simp: assms(1))
  have "starts_with ''file/'' suffix \<longleftrightarrow> ?w = ''file''"
  proof
    assume "starts_with ''file/'' suffix"
    then show "?w = ''file''" by (auto simp: starts_with_iff assms(1))
  next
    assume "?w = ''file''"
    with s have "suffix = ''file/'' @ ?t" by (simp add: assms(1))
    then show "starts_with ''file/'' suffix" by (metis starts_with_append)
  qed
  moreover have "drop 5 suffix = ?t" if "?w = ''file''"
  proof -
    from that s have "suffix = ''file/'' @ ?t" by (simp add: assms(1))
    then have "drop 5 suffix = drop 5 (''file/'' @ ?t)" by metis
    then show ?thesis by simp
  qed
  ultimately show ?thesis using l n by simp
qed

text \<open>
  For every path without a line break, the bridge's chain of comparisons over one regular expression gives the route
  that the table gives for the segments between the slashes, and no route where the table gives none: nothing before,
  after or between the segments is tolerated except one empty segment after the sandbox id.
\<close>

theorem route_is_by_segments:
  assumes "\<forall>c \<in> set path. code_unit c \<notin> {10, 13}"
  shows "route path = route_by_segments path"
proof (cases "starts_with ''/v1/sandbox/'' path")
  case False
  have "path = ''/v1/sandbox'' \<or> starts_with ''/v1/sandbox/'' path"
    if "split_on (CHR ''/'') path = [] # ''v1'' # ''sandbox'' # ws" for ws
  proof -
    have "path = join_with (CHR ''/'') ([] # ''v1'' # ''sandbox'' # ws)" by (metis that join_split_on)
    then have "path = ''/v1/sandbox'' \<or> path = ''/v1/sandbox/'' @ join_with (CHR ''/'') ws"
      by (cases ws) (simp_all add: join_with_Cons)
    then show ?thesis by (metis starts_with_append)
  qed
  with False have p: "path = ''/v1/sandbox''" if "split_on (CHR ''/'') path = [] # ''v1'' # ''sandbox'' # ws" for ws
    using that by blast
  show ?thesis
  proof (cases "path = ''/v1/sandbox''")
    case True
    then show ?thesis by (simp add: route_def route_by_segments_def)
  next
    case False
    have "route path = None" using \<open>\<not> starts_with _ path\<close> False by (simp only: route_def sandbox_path_def if_False if_True simp_thms option.case)
    moreover have "route_by_segments path = None"
    proof (rule ccontr)
      assume "route_by_segments path \<noteq> None"
      then obtain ws where "split_on (CHR ''/'') path = [] # ''v1'' # ''sandbox'' # ws"
        by (auto simp only: route_by_segments_def split: list.splits if_splits)
      with p False show False by blast
    qed
    ultimately show ?thesis by (simp only:)
  qed
next
  case True
  then obtain rest where path: "path = ''/v1/sandbox/'' @ rest" by (auto simp: starts_with_iff)
  let ?d = "CHR ''/''"
  let ?sid = "takeWhile (\<lambda>c. c \<noteq> ?d) rest" and ?more = "dropWhile (\<lambda>c. c \<noteq> ?d) rest"
  have b: "\<not> list_ex (\<lambda>c. code_unit c \<in> {10, 13}) (tl ?more)"
  proof -
    have "set (tl ?more) \<subseteq> set rest" by (induction rest) (auto dest: list.set_sel(2) [rotated])
    with assms show ?thesis by (auto simp: path list_ex_iff)
  qed
  have "split_on ?d path = [] # ''v1'' # ''sandbox'' # split_on ?d rest" by (simp add: path)
  then have seg: "route_by_segments path = (if ?sid = [] then None
      else sandbox_segments ?sid (if ?d \<in> set rest then split_on ?d (tl ?more) else []))"
    by (simp add: route_by_segments_def split_on_first [of ?d rest])
  have "?d \<notin> set ?sid" by (auto dest: set_takeWhileD)
  note r = route_suffix [OF refl this]
  show ?thesis
  proof (cases "?sid = []")
    case True
    then show ?thesis by (simp add: seg) (simp add: path route_def sandbox_path_def)
  next
    case False
    have "sandbox_segments ?sid (if ?d \<in> set rest then split_on ?d (tl ?more) else []) = sandbox_segments ?sid (split_on ?d (tl ?more))"
    proof (cases "?d \<in> set rest")
      case False
      then have "?more = []" by (auto simp: dropWhile_eq_Nil_conv)
      then have "split_on ?d (tl ?more) = [[]]" by (simp only: list.sel split_on.simps)
      with False show ?thesis by (simp add: sandbox_segments_def del: dropWhile_eq_Nil_conv)
    qed simp
    with False have "route_by_segments path = sandbox_segments ?sid (split_on ?d (tl ?more))" by (simp only: seg if_False)
    moreover have "sandbox_path path = Some (?sid, tl ?more)" using False b by (simp add: path sandbox_path_def starts_with_def Let_def)
    moreover have "path \<noteq> ''/v1/sandbox''" by (simp add: path)
    ultimately show ?thesis by (simp only: route_def r [OF False, of "tl ?more"] if_False option.case prod.case)
  qed
qed

theorem route_is_by_segments_witness:
  "route ''/v1/sandbox/ab/file/a%20b/c'' = Some (R_file ''ab'' ''a b/c'') \<and>
   route_by_segments ''/v1/sandbox/ab/file/a%20b/c'' = Some (R_file ''ab'' ''a b/c'')"
proof -
  have "\<forall>c \<in> set ''/v1/sandbox/ab/file/a%20b/c''. code_unit c \<notin> {10, 13}" by code_simp
  note route_is_by_segments [OF this]
  moreover have "route ''/v1/sandbox/ab/file/a%20b/c'' = Some (R_file ''ab'' ''a b/c'')" by code_simp
  ultimately show ?thesis by simp
qed

section \<open>Sample requests\<close>

definition sample_bridge_claims :: run_claims where
  "sample_bridge_claims = sample_claims\<lparr>rc_scopes := [''sandbox:create'', ''sandbox:destroy'', ''sandbox:exec'']\<rparr>"

definition sample_bridge_token :: string where
  "sample_bridge_token =
     (let payload = utf8_encode (json_text (canonical_claims sample_bridge_claims)) in
      bytes_to_base64url payload @ CHR ''.'' # bytes_to_base64url (replicate 32 (CHR ''s'')))"

definition sample_bridge_id :: string where
  "sample_bridge_id = ''ab-'' @ replicate 32 (CHR ''6'')"

definition sample_exec_result :: exec_result where
  "sample_exec_result = \<lparr>xr_exit_code = 0, xr_stderr = [], xr_stdout = ''ok''\<rparr>"

definition sample_bridge_env :: "unit outcome \<Rightarrow> bridge_env" where
  "sample_bridge_env destroyed =
     \<lparr>bn_secret = sample_secret, bn_now_ms = 1700000000000, bn_claim = ([], Delivered), bn_running = Some True,
      bn_instance_hash = Some ''sha256:1'', bn_destroy = destroyed, bn_finish = ([], Delivered),
      bn_abort = ([], Request_lost), bn_exec = Some sample_exec_result, bn_record = ([], Delivered), bn_read = None,
      bn_write = False, bn_list = None\<rparr>"

definition sample_exec_body :: json where
  "sample_exec_body = JObj [(''argv'', JArr [JStr ''ls'']), (''timeout_ms'', JNum 1000)]"

definition sample_bridge_request :: "string \<Rightarrow> string \<Rightarrow> bridge_request" where
  "sample_bridge_request meth path =
     \<lparr>bq_method = meth, bq_path = path, bq_query_path = None, bq_authorization = Some (''Bearer '' @ sample_bridge_token),
      bq_content_length = None, bq_text = Some (json_text sample_exec_body)\<rparr>"

definition sample_bridge_path :: "string \<Rightarrow> string" where
  "sample_bridge_path suffix = ''/v1/sandbox/'' @ sample_bridge_id @ suffix"

lemma sample_bridge_verified:
  assumes "scope \<in> set (rc_scopes sample_bridge_claims)"
  shows "verify_sandbox_run_token sample_hmac sample_bridge_token sample_secret 1700000000000 (Some scope) = Inr sample_bridge_claims"
proof -
  have v: "valid_run_claims sample_bridge_claims"
    using sample_valid by (simp add: valid_run_claims_def sample_bridge_claims_def sandbox_run_scopes_def)
  have "open_token sample_hmac sample_bridge_token sample_secret =
      Inr (json_text (canonical_claims sample_bridge_claims), canonical_claims sample_bridge_claims)"
    by (rule verify_issued [OF _ v]) (simp_all add: sample_hmac_def sign_payload_def sample_key sample_bridge_token_def Let_def)
  then show ?thesis using assms
    by (simp add: verify_sandbox_run_token_def validate_claims_errors [OF v] scope_granted_def)
      (simp add: sample_bridge_claims_def sample_claims_def)
qed

lemma sample_bridge_authorized:
  assumes "scope \<in> {''sandbox:create'', ''sandbox:destroy'', ''sandbox:exec''}"
  shows "authorize sample_hmac sample_sha (sample_bridge_env o') (sample_bridge_request m p) scope = Inr (sample_bridge_claims, sample_bridge_id)"
proof -
  have "derive_sandbox_id sample_sha sample_bridge_claims = Inr sample_bridge_id"
    using sample_valid
    by (simp add: derive_sandbox_id_def valid_run_claims_def sample_sha_def sample_hex sample_bridge_claims_def sample_bridge_id_def)
  moreover have "sample_bridge_token \<noteq> []" by (simp add: sample_bridge_token_def Let_def)
  moreover have "scope \<in> set (rc_scopes sample_bridge_claims)" using assms by (simp add: sample_bridge_claims_def)
  ultimately show ?thesis
    by (simp add: authorize_def bridge_bearer_def sample_bridge_request_def sample_bridge_env_def sample_bridge_verified starts_with_def)
qed

lemma sample_routes:
  "route ''/v1/sandbox'' = Some R_create"
  "route (sample_bridge_path ''/exec'') = Some (R_exec sample_bridge_id)"
  "route (sample_bridge_path ''/kill'') = Some (R_kill sample_bridge_id)"
  by code_simp+

lemma sample_exec_parsed:
  "parse_exec Some (\<lambda>x. x) (sample_bridge_request m p) =
     Inr \<lparr>xc_argv = [''ls''], xc_command = ''ls'', xc_cwd = ''/workspace'', xc_timeout = 1000\<rparr>"
proof -
  have "json_ok sample_exec_body" by code_simp
  moreover have "utf8_length (json_text sample_exec_body) \<le> 100" by code_simp
  moreover have "content_length_of ''0'' = Some 0" by code_simp
  ultimately show ?thesis
    by (simp add: parse_exec_def bridge_read_body_def sample_bridge_request_def json_roundtrip bridge_max_body_bytes_def)
      (simp add: sample_exec_body_def string_list_def safe_int_field_def is_safe_integer_def max_safe_integer_def join_with_def
        max_command_bytes_def max_exec_timeout_ms_def utf8_length_def Let_def)
qed

text \<open>The three requests on a run without calls.\<close>

definition sample_handle :: "unit outcome \<Rightarrow> string \<Rightarrow> bridge_response \<times> bridge_call list \<times> guard_namespace" where
  "sample_handle o' path = handle_bridge_request sample_hmac sample_sha Some (\<lambda>x. x) (sample_bridge_env o')
     (sample_bridge_request ''POST'' path) (\<lambda>_. None)"

definition sample_bridge_call :: "guard_operation \<Rightarrow> sandbox_call \<Rightarrow> bridge_call" where
  "sample_bridge_call operation x =
     \<lparr>bc_claims = sample_bridge_claims, bc_operation = operation, bc_sandbox = sample_bridge_id, bc_call = x\<rparr>"

lemma sample_claimed:
  "claim_or_reject (sample_bridge_env o') sample_bridge_claims operation (\<lambda>_. None) =
     (let (d, s) = apply_run_guard_claim None sample_bridge_claims operation in
      (if gd_allowed d then Inr d else Inl (Answer (Br_error (if gd_code d = Some Call_budget_exhausted then 429 else 409) (guard_code_text (gd_code d)))),
       (\<lambda>_. None)(guard_object_name sample_bridge_claims := Some s)))"
  by (simp add: claim_or_reject_def guard_claim_def guard_fetch_def handle_run_guard_request_def sample_bridge_env_def Let_def split_beta
      require_def with_some_def)

lemma sample_initial:
  "apply_run_guard_claim None sample_bridge_claims Op_destroy =
     (guard_allow (initial_state sample_bridge_claims), (initial_state sample_bridge_claims)\<lparr>gs_destroying := True\<rparr>)"
  "operation \<in> {Op_create, Op_exec, Op_file} \<Longrightarrow> apply_run_guard_claim None sample_bridge_claims operation =
     (guard_allow ((initial_state sample_bridge_claims)\<lparr>gs_call_count := 1\<rparr>), (initial_state sample_bridge_claims)\<lparr>gs_call_count := 1\<rparr>)"
  by (auto simp: apply_run_guard_claim_def initial_state_def state_matches_claims_def sample_bridge_claims_def sample_claims_def guard_allow_def Let_def)

lemma sample_parts [simp]:
  "bq_method (sample_bridge_request m p) = m" "bq_path (sample_bridge_request m p) = p"
  "bn_running (sample_bridge_env o') = Some True" "bn_instance_hash (sample_bridge_env o') = Some ''sha256:1''"
  "bn_destroy (sample_bridge_env o') = o'" "bn_finish (sample_bridge_env o') = ([], Delivered)"
  "bn_abort (sample_bridge_env o') = ([], Request_lost)" "bn_exec (sample_bridge_env o') = Some sample_exec_result"
  "bn_record (sample_bridge_env o') = ([], Delivered)"
  by (simp_all add: sample_bridge_request_def sample_bridge_env_def)

lemmas sample_evaluation = sample_handle_def handle_bridge_request_def handle_matched_def sample_routes sample_bridge_authorized
  required_scope_def route_sandbox_def method_allowed_def route_operation_def sample_claimed sample_initial guard_allow_def route_work_def
  sample_bridge_call_def exit_response_def

lemma sample_created:
  "\<exists>ns'. sample_handle o' ''/v1/sandbox'' = (Br_created sample_bridge_id ''sha256:1'', [sample_bridge_call Op_create S_is_running], ns')"
  by (simp add: sample_evaluation do_create_def)

lemma sample_executed:
  "\<exists>ns'. sample_handle o' (sample_bridge_path ''/exec'') =
     (Br_exec (exec_sse sample_exec_result), [sample_bridge_call Op_exec (S_exec ''ls'' ''/workspace'' 1000)], ns')"
proof -
  have "utf8_length (xr_stdout sample_exec_result @ xr_stderr sample_exec_result) \<le> bridge_max_body_bytes"
    by (simp add: sample_exec_result_def utf8_length_def bridge_max_body_bytes_def)
  moreover have "receipt_valid (Some (exec_receipt_of sample_sha [''ls''] sample_exec_result))"
    by (simp add: receipt_valid_def exec_receipt_of_def sample_exec_result_def sample_sha_def sample_hex hash_pattern_def is_lower_hex_def
        is_digit_def list_all_iff is_safe_integer_def max_safe_integer_def)
  moreover have "state_matches_claims ((initial_state sample_bridge_claims)\<lparr>gs_call_count := 1\<rparr>) sample_bridge_claims"
    by (simp add: state_matches_claims_def initial_state_def)
  ultimately show ?thesis
    by (simp add: sample_evaluation do_exec_def sample_exec_parsed guard_record_exec_def guard_fetch_def handle_run_guard_request_def
        guard_meanwhile_none guard_ok_def Let_def initial_state_def)
qed

lemma sample_killed:
  "\<exists>ns'. sample_handle (Settled ()) (sample_bridge_path ''/kill'') = (Br_killed ''killed'', [sample_bridge_call Op_destroy S_destroy], ns')"
  "sample_handle Rejected (sample_bridge_path ''/kill'') =
     (Br_error 502 ''SANDBOX_OPERATION_FAILED'', [sample_bridge_call Op_destroy S_destroy],
      (\<lambda>_. None)(guard_object_name sample_bridge_claims := Some ((initial_state sample_bridge_claims)\<lparr>gs_destroying := True\<rparr>)))"
  by (simp_all add: sample_evaluation do_destroy_def guard_finish_destroy_def guard_abort_destroy_def guard_fetch_def
      handle_run_guard_request_def guard_meanwhile_none guard_ok_def Let_def initial_state_def)

lemma sample_handled: "handle_bridge_request sample_hmac sample_sha Some (\<lambda>x. x) (sample_bridge_env o')
     (sample_bridge_request ''POST'' path) (\<lambda>_. None) = sample_handle o' path"
  by (simp add: sample_handle_def)

theorem sandbox_calls_are_authorized_witness:
  "\<exists>resp ns'. handle_bridge_request sample_hmac sample_sha Some (\<lambda>x. x) (sample_bridge_env (Settled ()))
       (sample_bridge_request ''POST'' (sample_bridge_path ''/exec'')) (\<lambda>_. None) =
       (resp, [sample_bridge_call Op_exec (S_exec ''ls'' ''/workspace'' 1000)], ns') \<and>
     call_fits Some (sample_bridge_request ''POST'' (sample_bridge_path ''/exec'')) (R_exec sample_bridge_id) (S_exec ''ls'' ''/workspace'' 1000)"
proof -
  obtain ns' where h: "handle_bridge_request sample_hmac sample_sha Some (\<lambda>x. x) (sample_bridge_env (Settled ()))
      (sample_bridge_request ''POST'' (sample_bridge_path ''/exec'')) (\<lambda>_. None) =
      (Br_exec (exec_sse sample_exec_result), [sample_bridge_call Op_exec (S_exec ''ls'' ''/workspace'' 1000)], ns')"
    using sample_executed [of "Settled ()"] by (auto simp: sample_handled)
  from sandbox_calls_are_authorized [OF h, of "sample_bridge_call Op_exec (S_exec ''ls'' ''/workspace'' 1000)"] h show ?thesis
    by (auto simp: sample_routes sample_bridge_call_def)
qed


theorem destroy_answer_is_true_witness:
  "\<exists>calls ns'. handle_bridge_request sample_hmac sample_sha Some (\<lambda>x. x) (sample_bridge_env (Settled ()))
       (sample_bridge_request ''POST'' (sample_bridge_path ''/kill'')) (\<lambda>_. None) = (Br_killed ''killed'', calls, ns') \<and>
     map bc_call calls = [S_destroy] \<and> (\<exists>n. guard_terminal (ns' n))"
proof -
  obtain ns' where h: "handle_bridge_request sample_hmac sample_sha Some (\<lambda>x. x) (sample_bridge_env (Settled ()))
      (sample_bridge_request ''POST'' (sample_bridge_path ''/kill'')) (\<lambda>_. None) =
      (Br_killed ''killed'', [sample_bridge_call Op_destroy S_destroy], ns')"
    using sample_killed(1) by (auto simp: sample_handled)
  from destroy_answer_is_true [OF h, of "''killed''"] h show ?thesis by (auto simp: sample_bridge_call_def)
qed

theorem exec_answer_is_recorded_witness:
  "\<exists>calls ns' n s. handle_bridge_request sample_hmac sample_sha Some (\<lambda>x. x) (sample_bridge_env Rejected)
       (sample_bridge_request ''POST'' (sample_bridge_path ''/exec'')) (\<lambda>_. None) = (Br_exec (exec_sse sample_exec_result), calls, ns') \<and>
     ns' n = Some s \<and> gs_exec_receipt s \<noteq> None"
proof -
  obtain calls ns' where h: "handle_bridge_request sample_hmac sample_sha Some (\<lambda>x. x) (sample_bridge_env Rejected)
      (sample_bridge_request ''POST'' (sample_bridge_path ''/exec'')) (\<lambda>_. None) = (Br_exec (exec_sse sample_exec_result), calls, ns')"
    using sample_executed [of Rejected] by (auto simp: sample_handled)
  from exec_answer_is_recorded [OF h] h show ?thesis by auto
qed

definition sample_stranded :: guard_namespace where
  "sample_stranded =
     (\<lambda>_. None)(guard_object_name sample_bridge_claims := Some ((initial_state sample_bridge_claims)\<lparr>gs_destroying := True\<rparr>))"

theorem lost_abort_strands_run_witness:
  "filter (\<lambda>y. guard_object_name (bc_claims y) = guard_object_name sample_bridge_claims \<and> bc_operation y \<noteq> Op_status)
     (fst (bridge_run sample_hmac sample_sha Some (\<lambda>x. x)
       [(sample_bridge_env (Settled ()), sample_bridge_request ''POST'' (sample_bridge_path ''/kill''))] sample_stranded)) = []"
proof -
  have h: "handle_bridge_request sample_hmac sample_sha Some (\<lambda>x. x) (sample_bridge_env Rejected)
      (sample_bridge_request ''POST'' (sample_bridge_path ''/kill'')) (\<lambda>_. None) =
      (Br_error 502 ''SANDBOX_OPERATION_FAILED'', [sample_bridge_call Op_destroy S_destroy], sample_stranded)"
    using sample_killed(2) by (simp add: sample_handled sample_stranded_def)
  have q: "quiet (sample_bridge_env o')" for o' by (simp add: quiet_def sample_bridge_env_def)
  obtain later ns2 where r: "bridge_run sample_hmac sample_sha Some (\<lambda>x. x)
      [(sample_bridge_env (Settled ()), sample_bridge_request ''POST'' (sample_bridge_path ''/kill''))] sample_stranded = (later, ns2)"
    by force
  from lost_abort_strands_run [OF h q _ _ _ _ r, of "sample_bridge_call Op_destroy S_destroy"] have
    "\<forall>y \<in> set later. guard_object_name (bc_claims y) = guard_object_name sample_bridge_claims \<longrightarrow> bc_operation y = Op_status"
    by (simp add: q sample_bridge_call_def)
  then show ?thesis unfolding r fst_conv by (simp add: filter_empty_conv)
qed

end
