(* ===== verification/Agent_Runner.thy ===== *)
theory Agent_Runner
  imports Sandbox_Contract
begin

text \<open>
  The runner of the personal research agent (\<open>packages/agent-runtime/src/fastclaw-agent-runner.ts\<close>): the events it
  yields for a request, over the authority of the dedicated agent, the issuer of sandbox authorisations, the transport with its
  callbacks for progress and tool calls, the tool policy and the final check.

  The transport is a sequence of steps: the callbacks it makes, and the answers of the tool policy to the calls that are
  pending, in any order, followed by how its promise settles. Steps may also come while the final check runs and
  between the events that are yielded at the end.
\<close>

section \<open>Requests, events and failures\<close>

record agent_budget =
  ab_max_parallel_tools :: int
  ab_max_steps :: int
  ab_max_tokens :: int
  ab_max_wall_clock_ms :: int

text \<open>\<open>aq_aborted\<close> is the state of the caller's abort signal when the run starts.\<close>

record agent_request =
  aq_allowed_tools :: "string list"
  aq_budget :: agent_budget
  aq_layer :: agent_layer
  aq_mode :: run_mode
  aq_prompt :: string
  aq_request_id :: string
  aq_run_id :: string
  aq_aborted :: bool
  aq_tenant_id :: string
  aq_user_id :: string

datatype runner_code =
  Runner_invalid_request
  | Dedicated_identity_unavailable
  | Research_entitlement_required
  | Sandbox_authorization_failed
  | Runner_cancelled
  | Runner_timeout
  | Runner_budget_exceeded
  | Runner_tool_denied
  | Runner_transport_failed
  | Post_check_denied

datatype agent_event_type = Ae_requested | Ae_started | Ae_completed | Ae_blocked | Ae_failed

text \<open>An instance of \<open>FastClawRunnerFailure\<close>.\<close>

record runner_failure =
  rf_code :: runner_code
  rf_retryable :: bool
  rf_terminal :: agent_event_type

definition runner_failed :: "runner_code \<Rightarrow> bool \<Rightarrow> runner_failure" where
  "runner_failed code retryable = \<lparr>rf_code = code, rf_retryable = retryable, rf_terminal = Ae_failed\<rparr>"

definition runner_blocked :: "runner_code \<Rightarrow> bool \<Rightarrow> runner_failure" where
  "runner_blocked code retryable = \<lparr>rf_code = code, rf_retryable = retryable, rf_terminal = Ae_blocked\<rparr>"

datatype progress_phase = Remote_accepted | Policy_check | Tool_completed | Final_check

record transport_usage =
  us_input_tokens :: int
  us_output_tokens :: int
  us_steps :: int

datatype event_payload =
  Pl_requested run_mode string
  | Pl_started string
  | Pl_phase progress_phase string
  | Pl_failure runner_code bool
  | Pl_completed string string transport_usage

record agent_event =
  ae_created_at_ms :: int
  ae_index :: nat
  ae_type :: agent_event_type
  ae_layer :: agent_layer
  ae_payload :: event_payload
  ae_run_id :: string
  ae_visible :: bool

definition runner_id :: string where
  "runner_id = ''fastclaw.personal-v0''"

definition valid_agent_request :: "agent_request \<Rightarrow> bool" where
  "valid_agent_request req \<longleftrightarrow>
     (let b = aq_budget req in
      aq_layer req = Research \<and> aq_mode req = Runner_remote \<and>
      js_trim (aq_prompt req) \<noteq> [] \<and> js_trim (aq_run_id req) \<noteq> [] \<and> js_trim (aq_request_id req) \<noteq> [] \<and>
      js_trim (aq_tenant_id req) \<noteq> [] \<and> js_trim (aq_user_id req) \<noteq> [] \<and>
      is_safe_integer (ab_max_wall_clock_ms b) \<and> 1 \<le> ab_max_wall_clock_ms b \<and> ab_max_wall_clock_ms b \<le> 600000 \<and>
      is_safe_integer (ab_max_tokens b) \<and> 1 \<le> ab_max_tokens b \<and> ab_max_tokens b \<le> 8000 \<and>
      is_safe_integer (ab_max_steps b) \<and> 1 \<le> ab_max_steps b \<and> ab_max_steps b \<le> 8 \<and>
      is_safe_integer (ab_max_parallel_tools b) \<and> 1 \<le> ab_max_parallel_tools b \<and> ab_max_parallel_tools b \<le> 3)"

section \<open>The services of the runner\<close>

record agent_identity =
  an_external_user_identity :: string
  an_agent_id :: string
  an_user_id :: string
  an_profile_id :: string
  an_tenant_id :: string
  an_owner_id :: string

datatype authority_decision =
  Authority_allowed agent_identity
  | Authority_blocked runner_code bool

record sandbox_authorization =
  sz_authorization :: string
  sz_expires_at :: string

text \<open>A call of the transport on the tool callback; \<open>None\<close> is a value that is no string.\<close>

record transport_tool_call =
  tc_call_id :: "string option"
  tc_name :: "string option"
  tc_input :: json

datatype policy_reply = Policy_completed | Policy_denied | Policy_threw

text \<open>
  The steps that reach the runner from outside: a progress callback with a phase (\<open>None\<close> is an unknown one), a tool call,
  and the answer of the tool policy to the call that is at a position among the pending ones.
\<close>

datatype transport_step =
  Progress "progress_phase option"
  | Tool_call transport_tool_call
  | Policy_answer nat policy_reply

text \<open>
  How the transport settles: with a raw answer and a usage (\<open>None\<close> where the value has not the type), with an error, which
  may be one that a callback threw before (by its position), or not before the run is aborted.
\<close>

datatype abort_kind = Abort_cancelled | Abort_timeout

datatype transport_end =
  Transport_resolved "string option" "transport_usage option"
  | Transport_rejected "nat option"
  | Transport_aborted abort_kind

datatype check_decision = Check_approved string | Check_denied | Check_malformed

text \<open>A promise of a service raced against the abort signal.\<close>

datatype 'a reply = Replied 'a | Threw | Aborted abort_kind

record runner_env =
  rn_now_ms :: int
  rn_event_time :: "nat \<Rightarrow> int"
  rn_date_parse :: "string \<Rightarrow> int option"
  rn_authority :: "string \<Rightarrow> string \<Rightarrow> authority_decision reply"
  rn_issue :: "sandbox_grant \<Rightarrow> agent_budget \<Rightarrow> sandbox_authorization reply"
  rn_callbacks :: "transport_step list"
  rn_transport :: transport_end
  rn_checking :: "transport_step list"
  rn_check :: "string \<Rightarrow> transport_usage \<Rightarrow> check_decision reply"
  rn_late :: "nat \<Rightarrow> transport_step list"

definition abort_failure :: "abort_kind \<Rightarrow> runner_failure" where
  "abort_failure k =
     (case k of Abort_cancelled \<Rightarrow> runner_failed Runner_cancelled False | Abort_timeout \<Rightarrow> runner_failed Runner_timeout True)"

definition run_with_abort :: "'a reply \<Rightarrow> runner_failure \<Rightarrow> runner_failure + 'a" where
  "run_with_abort r threw =
     (case r of Replied x \<Rightarrow> Inr x | Threw \<Rightarrow> Inl threw | Aborted k \<Rightarrow> Inl (abort_failure k))"

lemma run_with_abort_iff [simp]:
  "run_with_abort r threw = Inr x \<longleftrightarrow> r = Replied x"
  "run_with_abort r threw = Inl f \<longleftrightarrow> r = Threw \<and> f = threw \<or> (\<exists>k. r = Aborted k \<and> f = abort_failure k)"
  by (cases r; auto simp: run_with_abort_def)+

section \<open>Before the transport\<close>

definition identity_matches :: "agent_request \<Rightarrow> agent_identity \<Rightarrow> bool" where
  "identity_matches req a \<longleftrightarrow>
     an_tenant_id a = aq_tenant_id req \<and> an_owner_id a = aq_user_id req \<and>
     js_trim (an_external_user_identity a) \<noteq> [] \<and> js_trim (an_agent_id a) \<noteq> [] \<and>
     js_trim (an_user_id a) \<noteq> [] \<and> js_trim (an_profile_id a) \<noteq> []"

definition authorize_run ::
  "activation list \<Rightarrow> activation \<Rightarrow> runner_env \<Rightarrow> agent_request \<Rightarrow> runner_failure + agent_identity \<times> string" where
  "authorize_run authentic activation env req =
     require (valid_agent_request req) (runner_blocked Runner_invalid_request False) (
     require (\<not> aq_aborted req) (runner_failed Runner_cancelled False) (
     and_then (run_with_abort (rn_authority env (aq_tenant_id req) (aq_user_id req)) (runner_failed Runner_transport_failed True)) (\<lambda>d.
     and_then (case d of Authority_blocked code retryable \<Rightarrow> Inl (runner_blocked code retryable) | Authority_allowed a \<Rightarrow> Inr a) (\<lambda>a.
     require (identity_matches req a) (runner_blocked Dedicated_identity_unavailable False) (
     and_then (map_sum (\<lambda>_. runner_failed Runner_transport_failed True) id
       (mint_sandbox_grant authentic activation (aq_run_id req) (aq_tenant_id req) (aq_user_id req))) (\<lambda>grant.
     and_then (run_with_abort (rn_issue env grant (aq_budget req)) (runner_failed Sandbox_authorization_failed True)) (\<lambda>issued.
     require
       (js_trim (sz_authorization issued) \<noteq> [] \<and>
        (case rn_date_parse env (sz_expires_at issued) of None \<Rightarrow> False | Some t \<Rightarrow> rn_now_ms env < t))
       (runner_failed Sandbox_authorization_failed False)
       (Inr (a, sz_authorization issued)))))))))"

section \<open>The callbacks\<close>

text \<open>
  The variables that the callbacks share; \<open>rw_pending\<close> holds the calls whose tool policy has not answered,
  \<open>rw_executed\<close> all calls the tool policy was asked to execute, and \<open>rw_thrown\<close> what the callbacks threw at the transport.
\<close>

record runner_state =
  rw_phases :: "progress_phase list"
  rw_accepting :: bool
  rw_active :: int
  rw_failure :: "runner_failure option"
  rw_count :: int
  rw_seen :: "string list"
  rw_pending :: "transport_tool_call list"
  rw_executed :: "transport_tool_call list"
  rw_thrown :: "runner_failure list"

definition runner_start :: runner_state where
  "runner_start =
     \<lparr>rw_phases = [], rw_accepting = True, rw_active = 0, rw_failure = None, rw_count = 0, rw_seen = [], rw_pending = [],
      rw_executed = [], rw_thrown = []\<rparr>"

definition callback_throws :: "runner_failure \<Rightarrow> runner_state \<Rightarrow> runner_state" where
  "callback_throws f s = s\<lparr>rw_failure := Some f, rw_thrown := rw_thrown s @ [f]\<rparr>"

definition on_progress :: "agent_request \<Rightarrow> progress_phase option \<Rightarrow> runner_state \<Rightarrow> runner_state" where
  "on_progress req phase s =
     (case rw_failure s of
        Some f \<Rightarrow> callback_throws f s
      | None \<Rightarrow>
          (case phase of
             None \<Rightarrow> callback_throws (runner_failed Runner_transport_failed False) s
           | Some p \<Rightarrow>
               if \<not> rw_accepting s then callback_throws (runner_failed Runner_transport_failed False) s
               else if ab_max_steps (aq_budget req) * 4 + 4 \<le> int (length (rw_phases s)) then
                 callback_throws (runner_failed Runner_budget_exceeded False) s
               else s\<lparr>rw_phases := rw_phases s @ [p]\<rparr>))"

definition call_permitted :: "agent_request \<Rightarrow> transport_tool_call \<Rightarrow> runner_state \<Rightarrow> bool" where
  "call_permitted req call s \<longleftrightarrow>
     (case (tc_call_id call, tc_name call) of
        (Some i, Some n) \<Rightarrow> js_trim i \<noteq> [] \<and> i \<notin> set (rw_seen s) \<and> n \<in> set (aq_allowed_tools req)
      | _ \<Rightarrow> False)"

definition on_tool_call :: "agent_request \<Rightarrow> transport_tool_call \<Rightarrow> runner_state \<Rightarrow> runner_state" where
  "on_tool_call req call s =
     (case rw_failure s of
        Some f \<Rightarrow> callback_throws f s
      | None \<Rightarrow>
          if \<not> rw_accepting s then callback_throws (runner_failed Runner_cancelled False) s
          else
            (let s1 = s\<lparr>rw_phases := rw_phases s @ [Policy_check], rw_count := rw_count s + 1, rw_active := rw_active s + 1\<rparr> in
             if \<not> call_permitted req call s1 then
               callback_throws (runner_blocked Runner_tool_denied False) (s1\<lparr>rw_active := rw_active s1 - 1\<rparr>)
             else
               (let s2 = s1\<lparr>rw_seen := (case tc_call_id call of Some i \<Rightarrow> rw_seen s1 @ [i] | None \<Rightarrow> rw_seen s1)\<rparr> in
                if ab_max_steps (aq_budget req) < rw_count s2 \<or> ab_max_parallel_tools (aq_budget req) < rw_active s2 then
                  callback_throws (runner_failed Runner_budget_exceeded False) (s2\<lparr>rw_active := rw_active s2 - 1\<rparr>)
                else s2\<lparr>rw_pending := rw_pending s2 @ [call], rw_executed := rw_executed s2 @ [call]\<rparr>)))"

definition on_policy_answer :: "nat \<Rightarrow> policy_reply \<Rightarrow> runner_state \<Rightarrow> runner_state" where
  "on_policy_answer i reply s =
     (if length (rw_pending s) \<le> i then s
      else
        (let s1 = s\<lparr>rw_pending := take i (rw_pending s) @ drop (Suc i) (rw_pending s), rw_active := rw_active s - 1\<rparr> in
         case reply of
           Policy_completed \<Rightarrow> s1\<lparr>rw_phases := rw_phases s1 @ [Tool_completed]\<rparr>
         | Policy_denied \<Rightarrow> callback_throws (runner_blocked Runner_tool_denied False) s1
         | Policy_threw \<Rightarrow> callback_throws (runner_blocked Runner_tool_denied True) s1))"

definition runner_step :: "agent_request \<Rightarrow> runner_state \<Rightarrow> transport_step \<Rightarrow> runner_state" where
  "runner_step req s step =
     (case step of
        Progress phase \<Rightarrow> on_progress req phase s
      | Tool_call call \<Rightarrow> on_tool_call req call s
      | Policy_answer i reply \<Rightarrow> on_policy_answer i reply s)"

section \<open>The run\<close>

definition usage_acceptable :: "agent_request \<Rightarrow> transport_usage \<Rightarrow> bool" where
  "usage_acceptable req u \<longleftrightarrow>
     is_safe_integer (us_output_tokens u) \<and> is_safe_integer (us_input_tokens u) \<and> is_safe_integer (us_steps u) \<and>
     0 \<le> us_output_tokens u \<and> 0 \<le> us_input_tokens u \<and> 0 \<le> us_steps u \<and>
     us_output_tokens u \<le> ab_max_tokens (aq_budget req) \<and> us_steps u \<le> ab_max_steps (aq_budget req)"

definition check_result :: "check_decision \<Rightarrow> runner_failure + string" where
  "check_result d =
     (case d of
        Check_approved answer \<Rightarrow> require (js_trim answer \<noteq> []) (runner_blocked Post_check_denied False) (Inr answer)
      | _ \<Rightarrow> Inl (runner_blocked Post_check_denied False))"

text \<open>The transport and the final check: what is thrown or completed, and the state the callbacks left.\<close>

definition run_transport :: "runner_env \<Rightarrow> agent_request \<Rightarrow> (runner_failure + string \<times> transport_usage) \<times> runner_state" where
  "run_transport env req =
     (let s1 = foldl (runner_step req) runner_start (rn_callbacks env) in
      case rn_transport env of
        Transport_aborted k \<Rightarrow> (Inl (abort_failure k), s1)
      | Transport_rejected w \<Rightarrow>
          (Inl (case w of
             Some i \<Rightarrow> if i < length (rw_thrown s1) then rw_thrown s1 ! i else runner_failed Runner_transport_failed True
           | None \<Rightarrow> runner_failed Runner_transport_failed True), s1)
      | Transport_resolved raw usage \<Rightarrow>
          (let s2 = s1\<lparr>rw_accepting := False\<rparr> in
           case rw_failure s2 of
             Some f \<Rightarrow> (Inl f, s2)
           | None \<Rightarrow>
               (case (raw, usage) of
                  (Some answer, Some u) \<Rightarrow>
                    if \<not> usage_acceptable req u then (Inl (runner_failed Runner_budget_exceeded False), s2)
                    else
                      (let s3 = s2\<lparr>rw_phases := rw_phases s2 @ [Final_check]\<rparr>;
                           s4 = foldl (runner_step req) s3 (rn_checking env) in
                       (and_then (run_with_abort (rn_check env answer u) (runner_blocked Post_check_denied True)) (\<lambda>d.
                        and_then (check_result d) (\<lambda>final_answer. Inr (final_answer, u))), s4))
                | _ \<Rightarrow> (Inl (runner_failed Runner_budget_exceeded False), s2))))"

text \<open>
  The loop over the phases goes over the live array: before the event of position \<open>k\<close> further steps may add to it. The
  callbacks are no longer accepted.
\<close>

lemma on_policy_answer_room:
  "length (rw_phases (on_policy_answer i reply s)) + length (rw_pending (on_policy_answer i reply s))
     \<le> length (rw_phases s) + length (rw_pending s)"
  "rw_accepting (on_policy_answer i reply s) = rw_accepting s"
  by (auto simp: on_policy_answer_def callback_throws_def Let_def split: policy_reply.split)

lemma runner_step_room:
  assumes "\<not> rw_accepting s"
  shows "length (rw_phases (runner_step req s x)) + length (rw_pending (runner_step req s x))
      \<le> length (rw_phases s) + length (rw_pending s)"
    and "\<not> rw_accepting (runner_step req s x)"
  using assms on_policy_answer_room
  by (auto simp: runner_step_def on_progress_def on_tool_call_def callback_throws_def split: transport_step.split option.split)

lemma runner_steps_room:
  "\<not> rw_accepting s \<Longrightarrow>
     length (rw_phases (foldl (runner_step req) s xs)) + length (rw_pending (foldl (runner_step req) s xs))
       \<le> length (rw_phases s) + length (rw_pending s) \<and> \<not> rw_accepting (foldl (runner_step req) s xs)"
proof (induction xs arbitrary: s)
  case (Cons x xs)
  from Cons.IH [OF runner_step_room(2) [OF Cons.prems, of req x]] runner_step_room(1) [OF Cons.prems, of req x] show ?case
    by simp
qed simp

function emitted_phases :: "agent_request \<Rightarrow> (nat \<Rightarrow> transport_step list) \<Rightarrow> nat \<Rightarrow> runner_state \<Rightarrow> progress_phase list" where
  "emitted_phases req late k s =
     (if length (rw_phases s) \<le> k then []
      else rw_phases s ! k # emitted_phases req late (Suc k) (foldl (runner_step req) (s\<lparr>rw_accepting := False\<rparr>) (late k)))"
  by auto

termination
proof (relation "measure (\<lambda>(req, late, k, s). length (rw_phases s) + length (rw_pending s) - k)")
  fix req :: agent_request and late :: "nat \<Rightarrow> transport_step list" and k and s :: runner_state
  assume "\<not> length (rw_phases s) \<le> k"
  moreover note runner_steps_room [of "s\<lparr>rw_accepting := False\<rparr>" req "late k"]
  ultimately show "((req, late, Suc k, foldl (runner_step req) (s\<lparr>rw_accepting := False\<rparr>) (late k)), (req, late, k, s))
      \<in> measure (\<lambda>(req, late, k, s). length (rw_phases s) + length (rw_pending s) - k)"
    by auto
qed simp

declare emitted_phases.simps [simp del]

definition event_of ::
  "runner_env \<Rightarrow> agent_request \<Rightarrow> nat \<Rightarrow> agent_event_type \<Rightarrow> event_payload \<Rightarrow> bool \<Rightarrow> agent_event" where
  "event_of env req index type payload visible =
     \<lparr>ae_created_at_ms = rn_event_time env index, ae_index = index, ae_type = type, ae_layer = aq_layer req,
      ae_payload = payload, ae_run_id = aq_run_id req, ae_visible = visible\<rparr>"

fun phase_events :: "runner_env \<Rightarrow> agent_request \<Rightarrow> nat \<Rightarrow> progress_phase list \<Rightarrow> agent_event list" where
  "phase_events env req index [] = []"
| "phase_events env req index (p # ps) =
     event_of env req index Ae_started (Pl_phase p runner_id) False # phase_events env req (Suc index) ps"

definition terminal_agent_event ::
  "runner_env \<Rightarrow> agent_request \<Rightarrow> nat \<Rightarrow> runner_failure + string \<times> transport_usage \<Rightarrow> agent_event" where
  "terminal_agent_event env req index r =
     (case r of
        Inl f \<Rightarrow> event_of env req index (rf_terminal f) (Pl_failure (rf_code f) (rf_retryable f)) True
      | Inr (answer, u) \<Rightarrow> event_of env req index Ae_completed (Pl_completed answer runner_id u) True)"

text \<open>All events of a run, and the calls that the tool policy was asked to execute.\<close>

definition run_agent ::
  "activation list \<Rightarrow> activation \<Rightarrow> runner_env \<Rightarrow> agent_request \<Rightarrow> agent_event list \<times> transport_tool_call list" where
  "run_agent authentic activation env req =
     (let requested = event_of env req 0 Ae_requested (Pl_requested (aq_mode req) runner_id) False in
      case authorize_run authentic activation env req of
        Inl f \<Rightarrow> ([requested, terminal_agent_event env req 1 (Inl f)], [])
      | Inr (a, authorization) \<Rightarrow>
          (let started = event_of env req 1 Ae_started (Pl_started runner_id) False;
               (r, s) = run_transport env req;
               phases = emitted_phases req (rn_late env) 0 s in
           ([requested, started] @ phase_events env req 2 phases @ [terminal_agent_event env req (2 + length phases) r],
            rw_executed s)))"

section \<open>Activation\<close>

text \<open>The input of an activation: the contract of the transport, and whether the four services are functions.\<close>

record runner_activation_input =
  ra_contract_version :: string
  ra_tool_interception :: string
  ra_services :: bool

datatype activation_error = Activation_invalid | Selection_not_executable

definition activate_agent_runner ::
  "activation list \<Rightarrow> runner_activation_input \<Rightarrow> activation_error + activation \<times> activation list" where
  "activate_agent_runner authentic i =
     require
       (ra_contract_version i = ''2026-07-11.aiphabee-tool-callback.v1'' \<and>
        ra_tool_interception i = ''callback_before_execution'' \<and> ra_services i) Activation_invalid (
     (case select_agent_runner \<lparr>si_activated_runner_id = Some ''fastclaw.personal-v0'', si_mode = Runner_remote,
         si_requested_family = Family_named ''fastclaw''\<rparr> of
        Selection_selected _ _ selected \<Rightarrow>
          require (selected = ''fastclaw.personal-v0'') Selection_not_executable (Inr (create_activation authentic))
      | Selection_blocked _ _ _ \<Rightarrow> Inl Selection_not_executable))"

text \<open>An activated runner can mint grants, and the registry lets no activation fail at the selection.\<close>

lemma activated_mints:
  "activate_agent_runner authentic i = Inr (a, authentic') \<Longrightarrow>
     \<exists>g. mint_sandbox_grant authentic' a run_id tenant_id user_id = Inr g \<and> ag_owner g = Owner_run run_id \<and>
       ag_tenant_id g = tenant_id \<and> ag_user_id g = user_id"
  by (auto simp: activate_agent_runner_def create_activation_def mint_sandbox_grant_def split: runner_selection.splits)

lemma activation_selects: "activate_agent_runner authentic i \<noteq> Inl Selection_not_executable"
  by (simp add: activate_agent_runner_def select_agent_runner_def agent_runner_registry_def agent_executable_run_modes_def Let_def
      throws_iff)

section \<open>The invariant of the callbacks\<close>

definition failure_ends :: "runner_failure \<Rightarrow> bool" where
  "failure_ends f \<longleftrightarrow> rf_terminal f = Ae_blocked \<or> rf_terminal f = Ae_failed"

lemma failure_ends [simp]:
  "failure_ends (runner_failed code retryable)" "failure_ends (runner_blocked code retryable)" "failure_ends (abort_failure k)"
  by (simp_all add: failure_ends_def runner_failed_def runner_blocked_def abort_failure_def split: abort_kind.split)

definition policy_call :: "agent_request \<Rightarrow> transport_tool_call \<Rightarrow> bool" where
  "policy_call req c \<longleftrightarrow>
     (\<exists>i n. tc_call_id c = Some i \<and> js_trim i \<noteq> [] \<and> tc_name c = Some n \<and> n \<in> set (aq_allowed_tools req))"

text \<open>Who was asked to execute what.\<close>

definition calls_inv :: "agent_request \<Rightarrow> runner_state \<Rightarrow> bool" where
  "calls_inv req s \<longleftrightarrow>
     distinct (map tc_call_id (rw_executed s)) \<and> tc_call_id ` set (rw_executed s) \<subseteq> Some ` set (rw_seen s) \<and>
     list_all (policy_call req) (rw_executed s)"

text \<open>The counters, and the room that is left for phases.\<close>

definition counters_inv :: "agent_request \<Rightarrow> runner_state \<Rightarrow> bool" where
  "counters_inv req s \<longleftrightarrow>
     (let m = ab_max_steps (aq_budget req) in
      rw_active s = int (length (rw_pending s)) \<and> length (rw_pending s) \<le> length (rw_executed s) \<and>
      int (length (rw_pending s)) \<le> ab_max_parallel_tools (aq_budget req) \<and>
      int (length (rw_executed s)) \<le> rw_count s \<and> int (length (rw_executed s)) \<le> m \<and> rw_count s \<le> m + 1 \<and>
      (rw_failure s = None \<longrightarrow> rw_count s \<le> m) \<and>
      int (length (rw_phases s)) + int (length (rw_pending s)) \<le> m * 4 + 4 + rw_count s + int (length (rw_executed s)))"

definition failures_inv :: "runner_state \<Rightarrow> bool" where
  "failures_inv s \<longleftrightarrow> list_all failure_ends (rw_thrown s) \<and> (\<forall>f. rw_failure s = Some f \<longrightarrow> failure_ends f)"

definition runner_inv :: "agent_request \<Rightarrow> runner_state \<Rightarrow> bool" where
  "runner_inv req s \<longleftrightarrow> calls_inv req s \<and> counters_inv req s \<and> failures_inv s"

lemmas runner_step_defs = runner_step_def on_progress_def on_tool_call_def on_policy_answer_def callback_throws_def Let_def

lemma step_calls: "calls_inv req s \<Longrightarrow> calls_inv req (runner_step req s x)"
  by (cases x) (auto simp: runner_step_defs calls_inv_def policy_call_def call_permitted_def split: option.split option.split_asm policy_reply.split)

lemma step_failures: "failures_inv s \<Longrightarrow> failures_inv (runner_step req s x)"
  by (cases x) (auto simp: runner_step_defs failures_inv_def split: option.split policy_reply.split)

lemma step_counters:
  assumes "counters_inv req s" shows "counters_inv req (runner_step req s x)"
proof (cases x)
  case (Policy_answer i reply)
  have "length (take i xs @ drop (Suc i) xs) = length xs - 1" if "i < length xs" for xs :: "transport_tool_call list"
    using that by simp
  with assms Policy_answer show ?thesis
    by (cases reply) (auto simp: runner_step_defs counters_inv_def)
next
  case (Tool_call call)
  with assms show ?thesis by (auto simp: runner_step_defs counters_inv_def split: option.split)
next
  case (Progress p)
  with assms show ?thesis by (auto simp: runner_step_defs counters_inv_def split: option.split)
qed

interpretation callbacks: invariant_machine "runner_step req" "\<lambda>_. True" "runner_inv req" for req
  by unfold_locales (simp add: runner_inv_def step_calls step_failures step_counters)

lemma start_inv: "valid_agent_request req \<Longrightarrow> runner_inv req runner_start"
  by (simp add: runner_inv_def calls_inv_def counters_inv_def failures_inv_def runner_start_def valid_agent_request_def Let_def)

lemma callbacks_inv:
  "valid_agent_request req \<Longrightarrow> runner_inv req (foldl (runner_step req) runner_start xs)"
  by (rule callbacks.run_inv) (simp_all add: start_inv list_all_iff)

lemma closed_executed:
  "\<not> rw_accepting s \<Longrightarrow> rw_executed (foldl (runner_step req) s xs) = rw_executed s"
proof (induction xs arbitrary: s)
  case (Cons x xs)
  have "rw_executed (runner_step req s x) = rw_executed s"
    using Cons.prems by (cases x) (auto simp: runner_step_defs split: option.split policy_reply.split)
  then show ?case using Cons.IH [of "runner_step req s x"] Cons.prems runner_step_room(2) by simp
qed simp

text \<open>A run of callbacks without failure: the tool policy was asked for each call the transport made, and denied none.\<close>

definition tool_calls :: "transport_step list \<Rightarrow> transport_tool_call list" where
  "tool_calls xs = concat (map (\<lambda>x. case x of Tool_call c \<Rightarrow> [c] | _ \<Rightarrow> []) xs)"

lemma failure_stays: "rw_failure (runner_step req s x) = None \<Longrightarrow> rw_failure s = None"
  by (cases x) (auto simp: runner_step_defs split: option.splits policy_reply.splits if_splits)

lemma unfailed_calls:
  "rw_failure (foldl (runner_step req) s xs) = None \<Longrightarrow>
     rw_executed (foldl (runner_step req) s xs) = rw_executed s @ tool_calls xs"
proof (induction xs rule: rev_induct)
  case (snoc x xs)
  let ?t = "foldl (runner_step req) s xs"
  have n: "rw_failure (runner_step req ?t x) = None" using snoc.prems by simp
  then have "rw_executed (runner_step req ?t x) = rw_executed ?t @ tool_calls [x]"
    by (cases x) (auto simp: runner_step_defs tool_calls_def split: option.splits policy_reply.splits if_splits)
  then show ?case using snoc.IH failure_stays [OF n] by (simp add: tool_calls_def)
qed (simp add: tool_calls_def)

section \<open>What the transport leaves\<close>

lemma run_transport_cases [consumes 1, case_names stopped checked]:
  assumes "run_transport env req = (r, s)"
  obtains f s1 where "s1 = foldl (runner_step req) runner_start (rn_callbacks env)" "r = Inl f" "s = s1 \<or> s = s1\<lparr>rw_accepting := False\<rparr>"
      "failures_inv s1 \<Longrightarrow> failure_ends f"
  | s1 s3 answer u where "s1 = foldl (runner_step req) runner_start (rn_callbacks env)"
      "s3 = s1\<lparr>rw_accepting := False, rw_phases := rw_phases s1 @ [Final_check]\<rparr>" "s = foldl (runner_step req) s3 (rn_checking env)"
      "rn_transport env = Transport_resolved (Some answer) (Some u)" "usage_acceptable req u" "rw_failure s1 = None"
      "r = and_then (run_with_abort (rn_check env answer u) (runner_blocked Post_check_denied True)) (\<lambda>d.
             and_then (check_result d) (\<lambda>final_answer. Inr (final_answer, u)))"
proof -
  note stop = that(1) and checked = that(2)
  let ?s1 = "foldl (runner_step req) runner_start (rn_callbacks env)"
  have h: "run_transport env req = (r, s)" by (rule assms)
  show thesis
  proof (cases "rn_transport env")
    case (Transport_aborted k)
    with h show thesis by (intro stop [of ?s1 "abort_failure k"]) (auto simp: run_transport_def)
  next
    case (Transport_rejected w)
    with h show thesis
      by (intro stop [of ?s1 "case r of Inl f \<Rightarrow> f"])
        (auto simp: run_transport_def Let_def failures_inv_def list_all_length split: option.splits if_splits)
  next
    case (Transport_resolved raw usage)
    show thesis
    proof (cases "rw_failure ?s1 = None \<and> (\<exists>answer u. raw = Some answer \<and> usage = Some u \<and> usage_acceptable req u)")
      case True
      then obtain answer u where "raw = Some answer" "usage = Some u" "usage_acceptable req u" "rw_failure ?s1 = None" by blast
      with h Transport_resolved show thesis
        by (intro checked [of ?s1]) (auto simp: run_transport_def Let_def)
    next
      case False
      with h Transport_resolved show thesis
        by (intro stop [of ?s1 "case r of Inl f \<Rightarrow> f"])
          (auto simp: run_transport_def Let_def failures_inv_def split: option.splits if_splits)
    qed
  qed
qed

lemma check_result_iff:
  "check_result d = Inr answer \<longleftrightarrow> d = Check_approved answer \<and> js_trim answer \<noteq> []"
  "check_result d = Inl f \<Longrightarrow> f = runner_blocked Post_check_denied False"
  by (cases d; auto simp: check_result_def throws_iff)+

lemma decided_iff:
  "(case d of Authority_blocked code retryable \<Rightarrow> Inl (runner_blocked code retryable) | Authority_allowed a \<Rightarrow> Inr a) = Inr a'
     \<longleftrightarrow> d = Authority_allowed a'"
  "(case d of Authority_blocked code retryable \<Rightarrow> Inl (runner_blocked code retryable) | Authority_allowed a \<Rightarrow> Inr a) = Inl f
     \<longleftrightarrow> (\<exists>code retryable. d = Authority_blocked code retryable \<and> f = runner_blocked code retryable)"
  by (cases d; auto)+

lemma checked_failure:
  assumes "and_then (run_with_abort c (runner_blocked Post_check_denied True)) (\<lambda>d.
    and_then (check_result d) (\<lambda>final_answer. Inr (final_answer, u))) = Inl f"
  shows "failure_ends f"
  using assms by (auto simp: throws_iff dest: check_result_iff(2))

lemma checked_answer:
  assumes "and_then (run_with_abort c (runner_blocked Post_check_denied True)) (\<lambda>d.
    and_then (check_result d) (\<lambda>final_answer. Inr (final_answer, u))) = Inr (answer, u')"
  shows "c = Replied (Check_approved answer) \<and> js_trim answer \<noteq> [] \<and> u' = u"
  using assms by (auto simp: check_result_iff(1))

lemma run_transport_ends:
  assumes "run_transport env req = (r, s)" and "valid_agent_request req"
  shows "\<And>f. r = Inl f \<Longrightarrow> failure_ends f"
    and "rw_executed s = rw_executed (foldl (runner_step req) runner_start (rn_callbacks env))"
    and "int (length (rw_phases s) + length (rw_pending s)) \<le> 6 * ab_max_steps (aq_budget req) + 6"
proof -
  have i: "runner_inv req (foldl (runner_step req) runner_start (rn_callbacks env))" by (rule callbacks_inv) (rule assms(2))
  have room: "int (length (rw_phases s1) + length (rw_pending s1)) \<le> 6 * ab_max_steps (aq_budget req) + 5" if "runner_inv req s1" for s1
    using that by (simp add: runner_inv_def counters_inv_def Let_def)
  show "\<And>f. r = Inl f \<Longrightarrow> failure_ends f"
    using assms(1) i by (cases rule: run_transport_cases) (auto simp: runner_inv_def checked_failure)
  show "rw_executed s = rw_executed (foldl (runner_step req) runner_start (rn_callbacks env))"
    using assms(1) by (cases rule: run_transport_cases) (auto simp: closed_executed)
  show "int (length (rw_phases s) + length (rw_pending s)) \<le> 6 * ab_max_steps (aq_budget req) + 6"
    using assms(1)
  proof (cases rule: run_transport_cases)
    case (stopped f s1)
    with room [OF i] show ?thesis by auto
  next
    case (checked s1 s3 answer u)
    have "length (rw_phases s) + length (rw_pending s) \<le> length (rw_phases s3) + length (rw_pending s3)"
      using runner_steps_room [of s3 req "rn_checking env"] by (simp add: checked(2,3))
    with room [OF i] show ?thesis by (simp add: checked(1,2))
  qed
qed

lemma emitted_phases_length:
  "length (emitted_phases req late k s) \<le> length (rw_phases s) + length (rw_pending s) - k"
proof (induction req late k s rule: emitted_phases.induct)
  case (1 req late k s)
  show ?case
  proof (cases "length (rw_phases s) \<le> k")
    case True
    then show ?thesis by (simp add: emitted_phases.simps)
  next
    case False
    with 1 [OF False] runner_steps_room [of "s\<lparr>rw_accepting := False\<rparr>" req "late k"] show ?thesis
      by (subst emitted_phases.simps) auto
  qed
qed

section \<open>The stream of events\<close>

definition hidden_event :: "agent_event \<Rightarrow> bool" where
  "hidden_event e \<longleftrightarrow> ae_type e \<in> {Ae_requested, Ae_started} \<and> \<not> ae_visible e"

definition final_event :: "agent_event \<Rightarrow> bool" where
  "final_event e \<longleftrightarrow> ae_type e \<in> {Ae_completed, Ae_blocked, Ae_failed} \<and> ae_visible e"

definition agent_stream_ok :: "agent_request \<Rightarrow> agent_event list \<Rightarrow> bool" where
  "agent_stream_ok req es \<longleftrightarrow>
     map ae_index es = [0..<length es] \<and> es \<noteq> [] \<and> ae_type (hd es) = Ae_requested \<and>
     list_all hidden_event (butlast es) \<and> final_event (last es) \<and>
     list_all (\<lambda>e. ae_run_id e = aq_run_id req \<and> ae_layer e = aq_layer req) es"

lemma phase_events_facts:
  "map ae_index (phase_events env req i ps) = [i..<i + length ps]"
  "list_all hidden_event (phase_events env req i ps)"
  "list_all (\<lambda>e. ae_run_id e = aq_run_id req \<and> ae_layer e = aq_layer req) (phase_events env req i ps)"
  "length (phase_events env req i ps) = length ps"
  by (induction ps arbitrary: i) (simp_all add: event_of_def hidden_event_def upt_rec)

lemma terminal_event_facts:
  assumes "\<And>f. r = Inl f \<Longrightarrow> failure_ends f"
  shows "final_event (terminal_agent_event env req i r)" "ae_index (terminal_agent_event env req i r) = i"
    "ae_run_id (terminal_agent_event env req i r) = aq_run_id req" "ae_layer (terminal_agent_event env req i r) = aq_layer req"
  using assms by (cases r; auto simp: terminal_agent_event_def event_of_def final_event_def failure_ends_def)+

lemma authorize_fails: "authorize_run authentic activation env req = Inl f \<Longrightarrow> failure_ends f"
  by (auto simp: authorize_run_def throws_iff decided_iff)

lemma authorize_valid: "authorize_run authentic activation env req = Inr x \<Longrightarrow> valid_agent_request req"
  by (simp add: authorize_run_def)

text \<open>
  C21: However the services, the transport and its callbacks behave, a run yields a well-formed stream: the events are numbered
  without a gap from 0, the first is the request, exactly the last one is terminal and visible to the user, all are of the run and
  its layer, and there are at most 57 of them.
\<close>

theorem agent_stream_well_formed:
  "agent_stream_ok req (fst (run_agent authentic activation env req)) \<and> length (fst (run_agent authentic activation env req)) \<le> 57"
proof (cases "authorize_run authentic activation env req")
  case (Inl f)
  show ?thesis using authorize_fails [OF Inl] terminal_event_facts [of "Inl f" env req 1]
    by (simp add: run_agent_def Inl agent_stream_ok_def event_of_def hidden_event_def)
next
  case (Inr x)
  obtain a authorization where x: "x = (a, authorization)" by force
  obtain r s where t: "run_transport env req = (r, s)" by force
  note v = authorize_valid [OF Inr]
  let ?ps = "emitted_phases req (rn_late env) 0 s"
  let ?es = "[event_of env req 0 Ae_requested (Pl_requested (aq_mode req) runner_id) False,
    event_of env req 1 Ae_started (Pl_started runner_id) False] @ phase_events env req 2 ?ps"
  have e: "fst (run_agent authentic activation env req) = ?es @ [terminal_agent_event env req (2 + length ?ps) r]"
    by (simp add: run_agent_def Inr x t Let_def)
  note f = terminal_event_facts [of r env req "2 + length ?ps", OF run_transport_ends(1) [OF t v]]
  have "map ae_index (?es @ [terminal_agent_event env req (2 + length ?ps) r]) = [0..<2 + length ?ps + 1]"
  proof -
    have "[0..<2 + length ?ps + 1] = [0, 1] @ [2..<2 + length ?ps] @ [2 + length ?ps]"
      using upt_add_eq_append [of 0 2 "length ?ps"] by (simp add: upt_conv_Cons)
    then show ?thesis using f(2) by (simp add: phase_events_facts event_of_def)
  qed
  then have "agent_stream_ok req (?es @ [terminal_agent_event env req (2 + length ?ps) r])"
    using f
    by (simp add: agent_stream_ok_def event_of_def hidden_event_def phase_events_facts butlast_append)
  moreover have "int (length ?ps) \<le> 54"
    using emitted_phases_length [of req "rn_late env" 0 s] run_transport_ends(3) [OF t v] v
    by (simp add: valid_agent_request_def Let_def)
  ultimately show ?thesis by (simp add: e phase_events_facts)
qed

section \<open>Authorised tool calls and approved answers\<close>

text \<open>What the services had to say for a run to reach the transport.\<close>

definition run_authorized ::
  "activation list \<Rightarrow> activation \<Rightarrow> runner_env \<Rightarrow> agent_request \<Rightarrow> agent_identity \<Rightarrow> sandbox_authorization \<Rightarrow> bool" where
  "run_authorized authentic activation env req a z \<longleftrightarrow>
     valid_agent_request req \<and> \<not> aq_aborted req \<and>
     rn_authority env (aq_tenant_id req) (aq_user_id req) = Replied (Authority_allowed a) \<and> identity_matches req a \<and>
     (\<exists>grant. mint_sandbox_grant authentic activation (aq_run_id req) (aq_tenant_id req) (aq_user_id req) = Inr grant \<and>
        rn_issue env grant (aq_budget req) = Replied z) \<and>
     js_trim (sz_authorization z) \<noteq> [] \<and> (\<exists>t. rn_date_parse env (sz_expires_at z) = Some t \<and> rn_now_ms env < t)"

lemma authorize_run_Inr:
  "authorize_run authentic activation env req = Inr (a, authorization) \<Longrightarrow>
     \<exists>z. run_authorized authentic activation env req a z \<and> sz_authorization z = authorization"
  by (auto simp: authorize_run_def run_authorized_def decided_iff split: option.splits)

lemma run_agent_Inr:
  assumes "run_agent authentic activation env req = (es, calls)" and "calls \<noteq> [] \<or> (\<exists>e \<in> set es. ae_type e = Ae_completed)"
  obtains a z r s where "run_authorized authentic activation env req a z" "run_transport env req = (r, s)" "calls = rw_executed s"
    "last es = terminal_agent_event env req (length es - 1) r"
    "\<And>e. e \<in> set es \<Longrightarrow> ae_type e = Ae_completed \<Longrightarrow> e = last es"
proof -
  note result = that
  have "\<exists>x. authorize_run authentic activation env req = Inr x"
  proof (rule ccontr)
    assume "\<nexists>x. authorize_run authentic activation env req = Inr x"
    then obtain f where f: "authorize_run authentic activation env req = Inl f" by (cases "authorize_run authentic activation env req") auto
    with assms authorize_fails [OF f] show False
      by (auto simp: run_agent_def terminal_agent_event_def event_of_def failure_ends_def)
  qed
  then obtain a authorization where i: "authorize_run authentic activation env req = Inr (a, authorization)" by force
  obtain r s where t: "run_transport env req = (r, s)" by force
  obtain z where z: "run_authorized authentic activation env req a z" using authorize_run_Inr [OF i] by blast
  let ?ps = "emitted_phases req (rn_late env) 0 s"
  have e: "es = [event_of env req 0 Ae_requested (Pl_requested (aq_mode req) runner_id) False,
      event_of env req 1 Ae_started (Pl_started runner_id) False] @ phase_events env req 2 ?ps @
      [terminal_agent_event env req (2 + length ?ps) r]" and c: "calls = rw_executed s"
    using assms(1) by (auto simp: run_agent_def i t Let_def)
  have "length es - 1 = 2 + length ?ps" by (simp add: e phase_events_facts)
  then have "last es = terminal_agent_event env req (length es - 1) r" by (simp add: e)
  moreover have "x = last es" if "x \<in> set es" "ae_type x = Ae_completed" for x
    using that phase_events_facts(2) [of env req 2 ?ps] by (auto simp: e event_of_def list_all_iff hidden_event_def)
  ultimately show thesis using result [OF z t c] by blast
qed

text \<open>
  C16: The tool policy is asked to execute a call only in a run that the authority allowed for this tenant and user and whose sandbox
  authorisation was issued for its grant and is not expired. However the transport calls back, the executed calls have
  distinct, non-blank ids and names among the allowed tools, there are at most \<open>max_steps\<close> of them, and at no moment
  more than \<open>max_parallel_tools\<close> are in progress.
\<close>

theorem tools_within_policy:
  assumes "run_agent authentic activation env req = (es, calls)" and "c \<in> set calls"
  shows "(\<exists>a z. run_authorized authentic activation env req a z) \<and> policy_call req c \<and> distinct (map tc_call_id calls) \<and>
    int (length calls) \<le> ab_max_steps (aq_budget req) \<and>
    int (length (rw_pending (foldl (runner_step req) runner_start (take k (rn_callbacks env))))) \<le> ab_max_parallel_tools (aq_budget req)"
proof -
  obtain a z r s where a: "run_authorized authentic activation env req a z" and t: "run_transport env req = (r, s)" and c: "calls = rw_executed s"
    using assms by (auto elim: run_agent_Inr)
  have v: "valid_agent_request req" using a by (simp add: run_authorized_def)
  have "runner_inv req (foldl (runner_step req) runner_start (rn_callbacks env))"
    "runner_inv req (foldl (runner_step req) runner_start (take k (rn_callbacks env)))"
    using callbacks_inv [OF v] by blast+
  then show ?thesis using a assms(2)
    by (auto simp: c run_transport_ends(2) [OF t v] runner_inv_def calls_inv_def counters_inv_def Let_def list_all_iff)
qed

lemma answer_approved:
  assumes "run_agent authentic activation env req = (es, calls)" and "e \<in> set es" and "ae_type e = Ae_completed"
  shows "\<exists>a z raw u answer. run_authorized authentic activation env req a z \<and> e = last es \<and>
    ae_payload e = Pl_completed answer runner_id u \<and> rn_transport env = Transport_resolved (Some raw) (Some u) \<and>
    rn_check env raw u = Replied (Check_approved answer) \<and> js_trim answer \<noteq> [] \<and> usage_acceptable req u \<and>
    calls = tool_calls (rn_callbacks env) \<and> rw_failure (foldl (runner_step req) runner_start (rn_callbacks env)) = None"
proof -
  have "calls \<noteq> [] \<or> (\<exists>e \<in> set es. ae_type e = Ae_completed)" using assms(2,3) by blast
  from run_agent_Inr [OF assms(1) this] obtain a z r s where a: "run_authorized authentic activation env req a z" and t: "run_transport env req = (r, s)"
    and c: "calls = rw_executed s" and l: "last es = terminal_agent_event env req (length es - 1) r"
    and only: "\<And>e. e \<in> set es \<Longrightarrow> ae_type e = Ae_completed \<Longrightarrow> e = last es"
    by metis
  have v: "valid_agent_request req" using a by (simp add: run_authorized_def)
  have e: "e = last es" using only assms(2,3) by blast
  have "\<nexists>f. r = Inl f" using assms(3) run_transport_ends(1) [OF t v]
    by (auto simp: e l terminal_agent_event_def event_of_def failure_ends_def)
  then obtain answer u' where r: "r = Inr (answer, u')" by (cases r) auto
  from t show ?thesis
  proof (cases rule: run_transport_cases)
    case (checked s1 s3 raw u)
    have k: "rn_check env raw u = Replied (Check_approved answer)" "js_trim answer \<noteq> []" "u' = u"
      using checked_answer [OF trans [OF sym [OF checked(7)] r]] by blast+
    have "calls = tool_calls (rn_callbacks env)"
      using run_transport_ends(2) [OF t v] unfailed_calls [of req runner_start "rn_callbacks env"] checked(1,6)
      by (simp add: c runner_start_def)
    moreover have "ae_payload e = Pl_completed answer runner_id u"
      by (simp add: e l r k(3) terminal_agent_event_def event_of_def)
    ultimately show ?thesis using a k(1,2) e checked(1,4,5,6) by blast
  qed (simp add: r)
qed

text \<open>
  C17: A run completes only with an answer that the final check approved for the very raw answer and usage the transport
  returned, within the token and step budgets. By then every tool call the transport had made was executed under the
  tool policy, and none was refused or denied, whatever the transport did with the refusals.
\<close>

theorem answer_is_approved:
  assumes "run_agent authentic activation env req = (es, calls)" and "e \<in> set es" and "ae_type e = Ae_completed"
  shows "\<exists>a z raw u answer. run_authorized authentic activation env req a z \<and> e = last es \<and>
    ae_payload e = Pl_completed answer runner_id u \<and> rn_transport env = Transport_resolved (Some raw) (Some u) \<and>
    rn_check env raw u = Replied (Check_approved answer) \<and> js_trim answer \<noteq> [] \<and> usage_acceptable req u \<and>
    calls = tool_calls (rn_callbacks env) \<and> rw_failure (foldl (runner_step req) runner_start (rn_callbacks env)) = None"
  using assms by (rule answer_approved)

section \<open>A sample run\<close>

definition sample_agent_request :: agent_request where
  "sample_agent_request =
     \<lparr>aq_allowed_tools = [''quote''], aq_budget = \<lparr>ab_max_parallel_tools = 1, ab_max_steps = 2, ab_max_tokens = 100, ab_max_wall_clock_ms = 60000\<rparr>,
      aq_layer = Research, aq_mode = Runner_remote, aq_prompt = ''why'', aq_request_id = ''r'', aq_run_id = ''run-0001'',
      aq_aborted = False, aq_tenant_id = ''tenant'', aq_user_id = ''user''\<rparr>"

definition sample_agent_identity :: agent_identity where
  "sample_agent_identity =
     \<lparr>an_external_user_identity = ''e'', an_agent_id = ''a'', an_user_id = ''u'', an_profile_id = ''p'', an_tenant_id = ''tenant'',
      an_owner_id = ''user''\<rparr>"

definition sample_tool_call :: transport_tool_call where
  "sample_tool_call = \<lparr>tc_call_id = Some ''c1'', tc_name = Some ''quote'', tc_input = JNull\<rparr>"

definition sample_usage :: transport_usage where
  "sample_usage = \<lparr>us_input_tokens = 5, us_output_tokens = 7, us_steps = 1\<rparr>"

definition sample_runner_env :: runner_env where
  "sample_runner_env =
     \<lparr>rn_now_ms = 0, rn_event_time = (\<lambda>i. 0), rn_date_parse = (\<lambda>s. Some 60000), rn_authority = (\<lambda>t u. Replied (Authority_allowed sample_agent_identity)),
      rn_issue = (\<lambda>g b. Replied \<lparr>sz_authorization = ''token'', sz_expires_at = ''later''\<rparr>),
      rn_callbacks = [Progress (Some Remote_accepted), Tool_call sample_tool_call, Policy_answer 0 Policy_completed],
      rn_transport = Transport_resolved (Some ''raw'') (Some sample_usage), rn_checking = [],
      rn_check = (\<lambda>raw u. Replied (Check_approved (raw @ ''!''))), rn_late = (\<lambda>k. [])\<rparr>"

lemma sample_agent_run:
  "\<exists>es. run_agent [0] 0 sample_runner_env sample_agent_request = (es, [sample_tool_call]) \<and> length es = 7 \<and>
     last es = event_of sample_runner_env sample_agent_request 6 Ae_completed (Pl_completed ''raw!'' runner_id sample_usage) True"
proof -
  have v: "valid_agent_request sample_agent_request"
    by (simp add: valid_agent_request_def sample_agent_request_def js_trim_def is_ws_def is_safe_integer_def max_safe_integer_def)
  have "identity_matches sample_agent_request sample_agent_identity"
    by (simp add: identity_matches_def sample_agent_request_def sample_agent_identity_def js_trim_def is_ws_def)
  moreover have "js_trim ''token'' \<noteq> []" by (simp add: js_trim_def is_ws_def)
  moreover have "\<not> aq_aborted sample_agent_request" by (simp add: sample_agent_request_def)
  ultimately have a: "authorize_run [0] 0 sample_runner_env sample_agent_request = Inr (sample_agent_identity, ''token'')"
    using v by (simp add: authorize_run_def mint_sandbox_grant_def decided_iff) (simp add: sample_runner_env_def)
  let ?s1 = "\<lparr>rw_phases = [Remote_accepted, Policy_check, Tool_completed], rw_accepting = True, rw_active = 0, rw_failure = None,
    rw_count = 1, rw_seen = [''c1''], rw_pending = [], rw_executed = [sample_tool_call], rw_thrown = []\<rparr>"
  have s1: "foldl (runner_step sample_agent_request) runner_start (rn_callbacks sample_runner_env) = ?s1"
    by (simp add: sample_runner_env_def runner_step_defs runner_start_def call_permitted_def sample_tool_call_def sample_agent_request_def
        js_trim_def is_ws_def)
  have "usage_acceptable sample_agent_request sample_usage"
    by (simp add: usage_acceptable_def sample_usage_def sample_agent_request_def is_safe_integer_def max_safe_integer_def)
  moreover have "js_trim ''raw!'' \<noteq> []" by (simp add: js_trim_def is_ws_def)
  ultimately have t: "run_transport sample_runner_env sample_agent_request =
      (Inr (''raw!'', sample_usage), ?s1\<lparr>rw_accepting := False, rw_phases := [Remote_accepted, Policy_check, Tool_completed, Final_check]\<rparr>)"
    unfolding run_transport_def s1 by (simp add: Let_def) (simp add: sample_runner_env_def run_with_abort_def check_result_def)
  have l: "rn_late sample_runner_env = (\<lambda>k. [])" by (simp add: sample_runner_env_def)
  show ?thesis by (simp add: run_agent_def a t l Let_def emitted_phases.simps terminal_agent_event_def eval_nat_numeral)
qed

theorem tools_within_policy_witness:
  "\<exists>es calls. run_agent [0] 0 sample_runner_env sample_agent_request = (es, calls) \<and> sample_tool_call \<in> set calls \<and>
     policy_call sample_agent_request sample_tool_call"
proof -
  obtain es where r: "run_agent [0] 0 sample_runner_env sample_agent_request = (es, [sample_tool_call])" using sample_agent_run by blast
  from tools_within_policy [OF r, of sample_tool_call 0] r show ?thesis by simp
qed

theorem answer_is_approved_witness:
  "\<exists>es calls. run_agent [0] 0 sample_runner_env sample_agent_request = (es, calls) \<and>
     ae_payload (last es) = Pl_completed ''raw!'' runner_id sample_usage \<and> calls = tool_calls (rn_callbacks sample_runner_env)"
proof -
  obtain es where r: "run_agent [0] 0 sample_runner_env sample_agent_request = (es, [sample_tool_call])" "length es = 7"
    "last es = event_of sample_runner_env sample_agent_request 6 Ae_completed (Pl_completed ''raw!'' runner_id sample_usage) True"
    using sample_agent_run by blast
  have "last es \<in> set es" using r(2) by (intro last_in_set) auto
  moreover have "ae_type (last es) = Ae_completed" by (simp add: r(3) event_of_def)
  moreover have "ae_payload (last es) = Pl_completed ''raw!'' runner_id sample_usage" by (simp add: r(3) event_of_def)
  moreover note answer_is_approved [OF r(1), of "last es"]
  ultimately have "[sample_tool_call] = tool_calls (rn_callbacks sample_runner_env)" by blast
  then show ?thesis using r(1) \<open>ae_payload (last es) = _\<close> by blast
qed

end
