(* ===== verification/Runner_Authority.thy ===== *)
theory Runner_Authority
  imports Agent_Runner Js_Date Sandbox_Bridge
begin

text \<open>
  What the API worker gives to the agent runner (\<open>apps/worker/src/fastclaw-agent-runner.ts\<close>): the authority over the profile row of
  the database, the lock that serialises the transactions on one shared client, and the issuer of sandbox authorisations,
  composed with the runner on one side and with the authorisation of the bridge on the other.

  The database is a parameter: the row the query returns and which statements fail.
\<close>

section \<open>The authority\<close>

record runner_profile_row =
  pr_account_status :: "string option"
  pr_account_id :: "string option"
  pr_desired_state :: "string option"
  pr_entitlement_approved :: bool
  pr_external_identity :: "string option"
  pr_agent_id :: "string option"
  pr_fastclaw_user_id :: "string option"
  pr_lifecycle_status :: "string option"
  pr_membership_active :: bool
  pr_product_access_active :: bool
  pr_profile_id :: "string option"
  pr_subscription_active :: bool
  pr_workspace_id :: "string option"
  pr_workspace_status :: "string option"

definition activate_allowed :: "runner_profile_row \<Rightarrow> bool" where
  "activate_allowed p \<longleftrightarrow>
     pr_account_status p = Some ''active'' \<and> pr_workspace_status p = Some ''active'' \<and> pr_membership_active p \<and>
     pr_subscription_active p \<and> pr_product_access_active p \<and> pr_entitlement_approved p"

definition decide_authority :: "runner_profile_row \<Rightarrow> string \<Rightarrow> string \<Rightarrow> authority_decision" where
  "decide_authority p tenant_id user_id =
     (if \<not> pr_entitlement_approved p then Authority_blocked Research_entitlement_required False
      else if \<not> activate_allowed p then Authority_blocked Dedicated_identity_unavailable False
      else if pr_workspace_id p \<noteq> Some tenant_id \<or> pr_account_id p \<noteq> Some user_id \<or>
        pr_desired_state p \<noteq> Some ''active'' \<or> pr_lifecycle_status p \<noteq> Some ''active'' then
        Authority_blocked Dedicated_identity_unavailable True
      else
        (case (pr_profile_id p, pr_external_identity p, pr_fastclaw_user_id p, pr_agent_id p) of
           (Some pid, Some e, Some u, Some a) \<Rightarrow>
             if e = [] \<or> u = [] \<or> a = [] then Authority_blocked Dedicated_identity_unavailable True
             else Authority_allowed \<lparr>an_external_user_identity = e, an_agent_id = a, an_user_id = u, an_profile_id = pid,
               an_tenant_id = tenant_id, an_owner_id = user_id\<rparr>
         | _ \<Rightarrow> Authority_blocked Dedicated_identity_unavailable True))"

text \<open>The statements on the client, and which of them succeed; \<open>ad_rows\<close> is \<open>None\<close> where the query fails.\<close>

datatype authority_statement =
  Sql_begin
  | Sql_set_account string
  | Sql_select string string
  | Sql_commit
  | Sql_rollback

record authority_db =
  ad_begin :: bool
  ad_set_account :: bool
  ad_rows :: "runner_profile_row list option"
  ad_commit :: bool

definition resolve_authority :: "authority_db \<Rightarrow> string \<Rightarrow> string \<Rightarrow> authority_decision option \<times> authority_statement list" where
  "resolve_authority db tenant_id user_id =
     (if \<not> ad_begin db then (None, [Sql_begin])
      else if \<not> ad_set_account db then (None, [Sql_begin, Sql_set_account user_id, Sql_rollback])
      else
        (let log = [Sql_begin, Sql_set_account user_id, Sql_select user_id tenant_id] in
         case ad_rows db of
           Some (row # _) \<Rightarrow>
             if ad_commit db then (Some (decide_authority row tenant_id user_id), log @ [Sql_commit])
             else (None, log @ [Sql_commit, Sql_rollback])
         | _ \<Rightarrow> (None, log @ [Sql_rollback])))"

definition authority_service :: "authority_db \<Rightarrow> string \<Rightarrow> string \<Rightarrow> authority_decision reply" where
  "authority_service db tenant_id user_id =
     (case fst (resolve_authority db tenant_id user_id) of Some d \<Rightarrow> Replied d | None \<Rightarrow> Threw)"

lemma decide_allowed:
  "decide_authority p tenant_id user_id = Authority_allowed a \<longleftrightarrow>
     activate_allowed p \<and> pr_workspace_id p = Some tenant_id \<and> pr_account_id p = Some user_id \<and>
     pr_desired_state p = Some ''active'' \<and> pr_lifecycle_status p = Some ''active'' \<and>
     pr_profile_id p = Some (an_profile_id a) \<and> pr_external_identity p = Some (an_external_user_identity a) \<and>
     pr_fastclaw_user_id p = Some (an_user_id a) \<and> pr_agent_id p = Some (an_agent_id a) \<and>
     an_external_user_identity a \<noteq> [] \<and> an_user_id a \<noteq> [] \<and> an_agent_id a \<noteq> [] \<and>
     an_tenant_id a = tenant_id \<and> an_owner_id a = user_id"
  by (cases a) (auto simp: decide_authority_def activate_allowed_def split: option.splits)

lemma authority_service_allowed:
  "authority_service db tenant_id user_id = Replied (Authority_allowed a) \<Longrightarrow>
     \<exists>row rest. ad_rows db = Some (row # rest) \<and> decide_authority row tenant_id user_id = Authority_allowed a \<and>
       snd (resolve_authority db tenant_id user_id) =
         [Sql_begin, Sql_set_account user_id, Sql_select user_id tenant_id, Sql_commit]"
  by (auto simp: authority_service_def resolve_authority_def Let_def split: option.splits list.splits if_splits)

text \<open>
  C25: With the database authority, a run executes tools and completes only for an owner whose profile row, read under the
  owner's account in a committed transaction, is of this tenant and user, with both states active, the research entitlement approved, and account,
  workspace, membership, subscription and product access active; the run acts as the agent of that row.
\<close>

theorem run_acts_for_active_owner:
  assumes "rn_authority env = authority_service db" and "run_agent authentic activation env req = (es, calls)"
    and "calls \<noteq> [] \<or> (\<exists>e \<in> set es. ae_type e = Ae_completed)"
  shows "\<exists>row a z. run_authorized authentic activation env req a z \<and> ad_rows db \<noteq> Some [] \<and>
    Option.bind (ad_rows db) (\<lambda>rows. Some (hd rows)) = Some row \<and> activate_allowed row \<and>
    pr_workspace_id row = Some (aq_tenant_id req) \<and> pr_account_id row = Some (aq_user_id req) \<and>
    pr_desired_state row = Some ''active'' \<and> pr_lifecycle_status row = Some ''active'' \<and>
    pr_agent_id row = Some (an_agent_id a) \<and> pr_fastclaw_user_id row = Some (an_user_id a) \<and>
    snd (resolve_authority db (aq_tenant_id req) (aq_user_id req)) =
      [Sql_begin, Sql_set_account (aq_user_id req), Sql_select (aq_user_id req) (aq_tenant_id req), Sql_commit]"
proof -
  obtain a z where a: "run_authorized authentic activation env req a z" using assms(2,3) by (rule run_agent_Inr)
  then have "authority_service db (aq_tenant_id req) (aq_user_id req) = Replied (Authority_allowed a)"
    by (simp add: run_authorized_def assms(1))
  from authority_service_allowed [OF this] obtain row rest where r: "ad_rows db = Some (row # rest)"
    "decide_authority row (aq_tenant_id req) (aq_user_id req) = Authority_allowed a"
    "snd (resolve_authority db (aq_tenant_id req) (aq_user_id req)) =
      [Sql_begin, Sql_set_account (aq_user_id req), Sql_select (aq_user_id req) (aq_tenant_id req), Sql_commit]" by blast
  show ?thesis using a r by (intro exI [of _ row] exI [of _ a] exI [of _ z]) (simp add: decide_allowed)
qed

section \<open>The lock of a client\<close>

text \<open>
  \<open>withFastClawPostgresClientLock\<close>: an operation waits for the promise that the map holds for the client when it arrives and
  puts its own promise \<open>queued\<close> there, which resolves when the one before has and the operation has released. A released operation
  whose promise is still in the map removes it. An operation is known by its number of arrival.
\<close>

datatype lock_phase = Lock_waiting | Lock_running | Lock_released

record client_lock =
  lk_queued :: "nat option"
  lk_operations :: "(nat option \<times> lock_phase) list"

function queued_resolved :: "(nat option \<times> lock_phase) list \<Rightarrow> nat \<Rightarrow> bool" where
  "queued_resolved ops n \<longleftrightarrow>
     n < length ops \<and> snd (ops ! n) = Lock_released \<and>
     (case fst (ops ! n) of None \<Rightarrow> True | Some p \<Rightarrow> if p < n then queued_resolved ops p else False)"
  by auto

termination by (relation "measure snd") auto

declare queued_resolved.simps [simp del]

definition lock_arrive :: "client_lock \<Rightarrow> client_lock" where
  "lock_arrive s = s\<lparr>lk_queued := Some (length (lk_operations s)), lk_operations := lk_operations s @ [(lk_queued s, Lock_waiting)]\<rparr>"

definition lock_can_start :: "client_lock \<Rightarrow> nat \<Rightarrow> bool" where
  "lock_can_start s n \<longleftrightarrow>
     n < length (lk_operations s) \<and> snd (lk_operations s ! n) = Lock_waiting \<and>
     (case fst (lk_operations s ! n) of None \<Rightarrow> True | Some p \<Rightarrow> queued_resolved (lk_operations s) p)"

definition lock_start :: "nat \<Rightarrow> client_lock \<Rightarrow> client_lock" where
  "lock_start n s = s\<lparr>lk_operations := (lk_operations s)[n := (fst (lk_operations s ! n), Lock_running)]\<rparr>"

definition lock_finish :: "nat \<Rightarrow> client_lock \<Rightarrow> client_lock" where
  "lock_finish n s = s\<lparr>lk_queued := (if lk_queued s = Some n then None else lk_queued s),
     lk_operations := (lk_operations s)[n := (fst (lk_operations s ! n), Lock_released)]\<rparr>"

inductive lock_reachable :: "client_lock \<Rightarrow> bool" where
  initial: "lock_reachable \<lparr>lk_queued = None, lk_operations = []\<rparr>"
| arrive: "lock_reachable s \<Longrightarrow> lock_reachable (lock_arrive s)"
| start: "lock_reachable s \<Longrightarrow> lock_can_start s n \<Longrightarrow> lock_reachable (lock_start n s)"
| finish: "lock_reachable s \<Longrightarrow> n < length (lk_operations s) \<Longrightarrow> snd (lk_operations s ! n) = Lock_running \<Longrightarrow>
    lock_reachable (lock_finish n s)"

definition released_before :: "client_lock \<Rightarrow> nat \<Rightarrow> bool" where
  "released_before s n \<longleftrightarrow> (\<forall>m < n. snd (lk_operations s ! m) = Lock_released)"

definition lock_inv :: "client_lock \<Rightarrow> bool" where
  "lock_inv s \<longleftrightarrow>
     (\<forall>n < length (lk_operations s).
        (case fst (lk_operations s ! n) of None \<Rightarrow> released_before s n | Some p \<Rightarrow> Suc p = n) \<and>
        (snd (lk_operations s ! n) \<noteq> Lock_waiting \<longrightarrow> released_before s n)) \<and>
     (case lk_queued s of None \<Rightarrow> released_before s (length (lk_operations s)) | Some p \<Rightarrow> Suc p = length (lk_operations s))"

lemma queued_resolved_released: "queued_resolved ops p \<Longrightarrow> p < length ops \<and> snd (ops ! p) = Lock_released"
  by (simp add: queued_resolved.simps [of ops p])

lemma lock_inv_reachable: "lock_reachable s \<Longrightarrow> lock_inv s"
proof (induction rule: lock_reachable.induct)
  case initial
  then show ?case by (simp add: lock_inv_def released_before_def)
next
  case (arrive s)
  have "released_before (lock_arrive s) n = released_before s n" if "n \<le> length (lk_operations s)" for n
    using that by (auto simp: released_before_def lock_arrive_def nth_append)
  with arrive.IH show ?case
    by (auto simp: lock_inv_def lock_arrive_def nth_append less_Suc_eq split: option.splits)
next
  case (start s n)
  have n: "n < length (lk_operations s)" "snd (lk_operations s ! n) = Lock_waiting"
    using start.hyps(2) by (simp_all add: lock_can_start_def)
  have later: "k \<le> n" if "released_before s k" for k
    using that n(2) by (cases "n < k") (auto simp: released_before_def)
  have before: "released_before s n"
  proof (cases "fst (lk_operations s ! n)")
    case None
    with start.IH n(1) show ?thesis by (auto simp: lock_inv_def)
  next
    case (Some p)
    then have p: "Suc p = n" "snd (lk_operations s ! p) = Lock_released"
      using start.IH n(1) start.hyps(2) queued_resolved_released by (auto simp: lock_inv_def lock_can_start_def)
    then have "released_before s p" using start.IH n(1) by (auto simp: lock_inv_def)
    with p show ?thesis by (auto simp: released_before_def less_Suc_eq)
  qed
  have same: "released_before (lock_start n s) k" if "released_before s k" for k
    using that later [OF that] by (auto simp: released_before_def lock_start_def nth_list_update)
  have keep: "length (lk_operations (lock_start n s)) = length (lk_operations s)" "lk_queued (lock_start n s) = lk_queued s"
    "\<And>k. fst (lk_operations (lock_start n s) ! k) = fst (lk_operations s ! k)"
    "\<And>k. k \<noteq> n \<Longrightarrow> snd (lk_operations (lock_start n s) ! k) = snd (lk_operations s ! k)"
    using n(1) by (simp_all add: lock_start_def nth_list_update)
  show ?case unfolding lock_inv_def keep(1,2,3)
  proof (intro conjI allI impI)
    fix k assume k: "k < length (lk_operations s)"
    then show "case fst (lk_operations s ! k) of None \<Rightarrow> released_before (lock_start n s) k | Some p \<Rightarrow> Suc p = k"
      using start.IH same by (auto simp: lock_inv_def split: option.splits)
    assume "snd (lk_operations (lock_start n s) ! k) \<noteq> Lock_waiting"
    then show "released_before (lock_start n s) k"
      using start.IH k same before keep(4) [of k] by (cases "k = n") (auto simp: lock_inv_def)
  next
    show "case lk_queued s of None \<Rightarrow> released_before (lock_start n s) (length (lk_operations s)) | Some p \<Rightarrow> Suc p = length (lk_operations s)"
      using start.IH same by (auto simp: lock_inv_def split: option.splits)
  qed
next
  case (finish s n)
  have more: "released_before (lock_finish n s) k" if "released_before s k" for k
    using that finish.hyps(2) by (auto simp: released_before_def lock_finish_def nth_list_update)
  have n: "released_before s n" using finish.IH finish.hyps by (auto simp: lock_inv_def)
  have keep: "length (lk_operations (lock_finish n s)) = length (lk_operations s)"
    "\<And>k. fst (lk_operations (lock_finish n s) ! k) = fst (lk_operations s ! k)"
    "\<And>k. k \<noteq> n \<Longrightarrow> snd (lk_operations (lock_finish n s) ! k) = snd (lk_operations s ! k)"
    "snd (lk_operations (lock_finish n s) ! n) = Lock_released"
    using finish.hyps(2) by (simp_all add: lock_finish_def nth_list_update)
  show ?case unfolding lock_inv_def keep(1,2)
  proof (intro conjI allI impI)
    fix k assume k: "k < length (lk_operations s)"
    then show "case fst (lk_operations s ! k) of None \<Rightarrow> released_before (lock_finish n s) k | Some p \<Rightarrow> Suc p = k"
      using finish.IH more by (auto simp: lock_inv_def split: option.splits)
    assume "snd (lk_operations (lock_finish n s) ! k) \<noteq> Lock_waiting"
    then show "released_before (lock_finish n s) k"
      using finish.IH k more n keep(3) [of k] by (cases "k = n") (auto simp: lock_inv_def)
  next
    have "released_before (lock_finish n s) (Suc n)"
      using more [OF n] keep(4) by (auto simp: released_before_def less_Suc_eq)
    then show "case lk_queued (lock_finish n s) of None \<Rightarrow> released_before (lock_finish n s) (length (lk_operations s))
        | Some p \<Rightarrow> Suc p = length (lk_operations s)"
      using finish.IH more by (auto simp: lock_inv_def lock_finish_def [of n s] split: option.splits)
  qed
qed

lemma lock_inv_queue: "lock_inv s \<Longrightarrow> n < length (lk_operations s) \<Longrightarrow> fst (lk_operations s ! n) = Some p \<Longrightarrow> Suc p = n"
  by (auto simp: lock_inv_def split: option.splits)

lemma released_resolved:
  assumes "lock_inv s"
  shows "n < length (lk_operations s) \<Longrightarrow> released_before s (Suc n) \<Longrightarrow> queued_resolved (lk_operations s) n"
proof (induction n)
  case 0
  have "fst (lk_operations s ! 0) = None" using lock_inv_queue [OF assms 0(1)] by (cases "fst (lk_operations s ! 0)") auto
  with 0 show ?case by (subst queued_resolved.simps) (simp add: released_before_def)
next
  case (Suc n)
  have "queued_resolved (lk_operations s) n" using Suc by (simp add: released_before_def)
  moreover have "fst (lk_operations s ! Suc n) = None \<or> fst (lk_operations s ! Suc n) = Some n"
    using lock_inv_queue [OF assms Suc.prems(1)] by (cases "fst (lk_operations s ! Suc n)") auto
  ultimately show ?case using Suc.prems by (subst queued_resolved.simps) (auto simp: released_before_def)
qed

text \<open>
  Under every interleaving of arrivals, starts and ends the lock lets one operation of a client run at a time and in the order
  of arrival, so that the statements of two transactions never mix; and it never blocks: while no operation runs, the first that waits
  can start.
\<close>

theorem client_lock_serializes:
  assumes "lock_reachable s" and "n < length (lk_operations s)"
  shows "(snd (lk_operations s ! n) = Lock_running \<longrightarrow>
      (\<forall>m < length (lk_operations s). m < n \<longrightarrow> snd (lk_operations s ! m) = Lock_released) \<and>
      (\<forall>m < length (lk_operations s). n < m \<longrightarrow> snd (lk_operations s ! m) = Lock_waiting)) \<and>
    (snd (lk_operations s ! n) = Lock_waiting \<and> (\<forall>m < n. snd (lk_operations s ! m) \<noteq> Lock_waiting) \<and>
     (\<forall>m < n. snd (lk_operations s ! m) \<noteq> Lock_running) \<longrightarrow> lock_can_start s n)"
proof -
  note i = lock_inv_reachable [OF assms(1)]
  have after: "snd (lk_operations s ! m) = Lock_waiting"
    if "snd (lk_operations s ! n) = Lock_running" "m < length (lk_operations s)" "n < m" for m
  proof (rule ccontr)
    assume "snd (lk_operations s ! m) \<noteq> Lock_waiting"
    with i that(2) have "released_before s m" by (simp add: lock_inv_def)
    with that(1,3) show False by (auto simp: released_before_def)
  qed
  have before: "released_before s n" if "snd (lk_operations s ! n) = Lock_running"
    using i assms(2) that by (simp add: lock_inv_def)
  have free: "lock_can_start s n"
    if w: "snd (lk_operations s ! n) = Lock_waiting" and "\<forall>m < n. snd (lk_operations s ! m) \<noteq> Lock_waiting"
      "\<forall>m < n. snd (lk_operations s ! m) \<noteq> Lock_running"
  proof -
    have r: "released_before s n" unfolding released_before_def using that(2,3) lock_phase.exhaust by blast
    show ?thesis
    proof (cases "fst (lk_operations s ! n)")
      case None
      then show ?thesis using assms(2) w by (simp add: lock_can_start_def)
    next
      case (Some p)
      then have "Suc p = n" using i assms(2) by (auto simp: lock_inv_def)
      with r released_resolved [OF i, of p] assms(2) w Some show ?thesis by (simp add: lock_can_start_def)
    qed
  qed
  show ?thesis using after before free unfolding released_before_def by blast
qed

section \<open>The issuer of sandbox authorisations\<close>

definition fastclaw_run_input :: "string \<Rightarrow> int \<Rightarrow> string \<Rightarrow> sandbox_grant \<Rightarrow> agent_budget \<Rightarrow> issue_run_input" where
  "fastclaw_run_input secret now_ms run_id grant budget =
     \<lparr>ir_max_calls = min 64 (max 4 (ab_max_steps budget * 4)), ir_now_ms = now_ms, ir_run_id = run_id,
      ir_scopes = [''sandbox:create'', ''sandbox:destroy'', ''sandbox:exec'', ''sandbox:file'', ''sandbox:status''],
      ir_secret = secret, ir_tenant_id = ag_tenant_id grant,
      ir_ttl_seconds = min 600 (max 1 ((ab_max_wall_clock_ms budget + 999) div 1000 + 30)), ir_user_id = ag_user_id grant\<rparr>"

definition fastclaw_authorization ::
  "(bytes \<Rightarrow> bytes \<Rightarrow> bytes) \<Rightarrow> (bytes \<Rightarrow> bytes) \<Rightarrow> string \<Rightarrow> int \<Rightarrow> sandbox_grant \<Rightarrow> agent_budget \<Rightarrow> sandbox_authorization reply" where
  "fastclaw_authorization hmac sha secret now_ms grant budget =
     (case ag_owner grant of
        Owner_session _ \<Rightarrow> Threw
      | Owner_run run_id \<Rightarrow>
          (case issue_sandbox_run_token hmac sha (fastclaw_run_input secret now_ms run_id grant budget) of
             Inl _ \<Rightarrow> Threw
           | Inr issued \<Rightarrow>
               (case iso_text (rc_exp (it_claims issued) * 1000) of
                  None \<Rightarrow> Threw
                | Some expires_at \<Rightarrow> Replied \<lparr>sz_authorization = it_token issued, sz_expires_at = expires_at\<rparr>)))"

lemma fastclaw_issued:
  assumes "run_authorized authentic activation env req a z" and "rn_issue env = fastclaw_authorization hmac sha secret now_ms"
  obtains grant issued where "ag_tenant_id grant = aq_tenant_id req" "ag_user_id grant = aq_user_id req"
    "issue_sandbox_run_token hmac sha (fastclaw_run_input secret now_ms (aq_run_id req) grant (aq_budget req)) = Inr issued"
    "sz_authorization z = it_token issued" "iso_text (rc_exp (it_claims issued) * 1000) = Some (sz_expires_at z)"
proof -
  note result = that
  obtain grant where g: "mint_sandbox_grant authentic activation (aq_run_id req) (aq_tenant_id req) (aq_user_id req) = Inr grant"
    "fastclaw_authorization hmac sha secret now_ms grant (aq_budget req) = Replied z"
    using assms by (auto simp: run_authorized_def)
  have o: "ag_owner grant = Owner_run (aq_run_id req)" "ag_tenant_id grant = aq_tenant_id req" "ag_user_id grant = aq_user_id req"
    using g(1) by (auto simp: mint_sandbox_grant_def)
  with g(2) show thesis using result [of grant]
    by (auto simp: fastclaw_authorization_def split: sum.splits option.splits)
qed

lemma issued_opens:
  assumes "issue_sandbox_run_token hmac sha input = Inr r" and "\<And>k m. length (hmac k m) = 32"
    and "ir_now_ms input div 1000 \<le> t div 1000 + 30" and "t div 1000 < ir_now_ms input div 1000 + ir_ttl_seconds input"
    and "scope \<in> set (ir_scopes input)"
  shows "verify_sandbox_run_token hmac (it_token r) (ir_secret input) t (Some scope) = Inr (it_claims r)"
proof -
  note c = issued_run_token [OF assms(1)]
  show ?thesis using assms(3-5)
    by (simp add: verify_sandbox_run_token_def verify_issued [OF c(2,1) assms(2)] validate_claims_errors [OF c(1)] c(3,4,7) scope_granted_def
        del: validate_claims_def)
qed

text \<open>
  The sandbox authorisation of a run opens the bridge for it: under the same key the bridge authorises the bearer for every scope, from
  30 seconds before the issue until the wall clock of the run is over (599 seconds at most), with claims of this run and a budget
  of four calls per step, and derives a sandbox id.
\<close>

theorem run_authorization_opens_bridge:
  assumes "run_authorized authentic activation env req a z" and "rn_issue env = fastclaw_authorization hmac sha secret now_ms"
    and "\<And>k m. length (hmac k m) = 32" and "bn_secret benv = secret" and "bq_authorization q = Some (''Bearer '' @ sz_authorization z)"
    and "scope \<in> set sandbox_run_scopes" and "now_ms \<le> bn_now_ms benv + 29000"
    and "bn_now_ms benv \<le> now_ms + min (ab_max_wall_clock_ms (aq_budget req)) 599000"
  shows "\<exists>c sid. authorize hmac sha benv q scope = Inr (c, sid) \<and> rc_jti c = aq_run_id req \<and>
    rc_max_calls c = 4 * ab_max_steps (aq_budget req) \<and> rc_max_calls c \<le> 32"
proof -
  obtain grant issued where i: "issue_sandbox_run_token hmac sha (fastclaw_run_input secret now_ms (aq_run_id req) grant (aq_budget req)) = Inr issued"
    and z: "sz_authorization z = it_token issued"
    using assms(1,2) by (rule fastclaw_issued)
  let ?input = "fastclaw_run_input secret now_ms (aq_run_id req) grant (aq_budget req)"
  let ?w = "ab_max_wall_clock_ms (aq_budget req)"
  have b: "1 \<le> ?w" "1 \<le> ab_max_steps (aq_budget req)" "ab_max_steps (aq_budget req) \<le> 8"
    using assms(1) by (simp_all add: run_authorized_def valid_agent_request_def Let_def)
  have p: "ir_secret ?input = secret" "ir_now_ms ?input = now_ms" "ir_scopes ?input = sandbox_run_scopes"
    "ir_ttl_seconds ?input = min 600 (max 1 ((?w + 999) div 1000 + 30))"
    by (simp_all add: fastclaw_run_input_def sandbox_run_scopes_def)
  have "ir_now_ms ?input div 1000 \<le> bn_now_ms benv div 1000 + 30" using assms(7) unfolding p by linarith
  moreover have "bn_now_ms benv div 1000 < ir_now_ms ?input div 1000 + ir_ttl_seconds ?input"
    using assms(8) b(1) unfolding p by linarith
  moreover have "scope \<in> set (ir_scopes ?input)" using assms(6) unfolding p .
  ultimately have v: "verify_sandbox_run_token hmac (sz_authorization z) (bn_secret benv) (bn_now_ms benv) (Some scope) = Inr (it_claims issued)"
    using issued_opens [OF i assms(3)] unfolding z assms(4) p(1) by blast
  note c = issued_run_token [OF i]
  have "sz_authorization z \<noteq> []" using assms(1) by (auto simp: run_authorized_def js_trim_def)
  moreover obtain sid where "derive_sandbox_id sha (it_claims issued) = Inr sid"
    using c(1) by (auto simp: derive_sandbox_id_def valid_run_claims_def)
  ultimately have "authorize hmac sha benv q scope = Inr (it_claims issued, sid)"
    using v by (simp add: authorize_def bridge_bearer_def assms(5) starts_with_def)
  then show ?thesis using c(5,6) b(2,3) by (simp add: fastclaw_run_input_def)
qed

section \<open>Samples\<close>

definition sample_row :: runner_profile_row where
  "sample_row =
     \<lparr>pr_account_status = Some ''active'', pr_account_id = Some ''user'', pr_desired_state = Some ''active'', pr_entitlement_approved = True,
      pr_external_identity = Some ''e'', pr_agent_id = Some ''a'', pr_fastclaw_user_id = Some ''u'', pr_lifecycle_status = Some ''active'',
      pr_membership_active = True, pr_product_access_active = True, pr_profile_id = Some ''p'', pr_subscription_active = True,
      pr_workspace_id = Some ''tenant'', pr_workspace_status = Some ''active''\<rparr>"

definition sample_authority_db :: authority_db where
  "sample_authority_db = \<lparr>ad_begin = True, ad_set_account = True, ad_rows = Some [sample_row], ad_commit = True\<rparr>"

definition sample_worker_env :: runner_env where
  "sample_worker_env = sample_runner_env\<lparr>rn_authority := authority_service sample_authority_db,
     rn_issue := fastclaw_authorization sample_hmac sample_sha sample_secret 1700000000000\<rparr>"

definition sample_worker_claims :: run_claims where
  "sample_worker_claims = sample_claims\<lparr>rc_exp := 1700000090, rc_scopes := sandbox_run_scopes\<rparr>"

lemma sample_worker_issue:
  assumes "ag_tenant_id grant = ''tenant''" and "ag_user_id grant = ''user''"
  shows "\<exists>token sid. issue_sandbox_run_token sample_hmac sample_sha
      (fastclaw_run_input sample_secret 1700000000000 ''run-0001'' grant (aq_budget sample_agent_request)) =
    Inr \<lparr>it_claims = sample_worker_claims, it_sandbox_id = sid, it_token = token\<rparr> \<and> token \<noteq> [] \<and> js_trim token \<noteq> []"
proof -
  have v: "valid_run_claims sample_worker_claims"
    using sample_valid by (simp add: valid_run_claims_def sample_worker_claims_def sample_claims_def sandbox_run_scopes_def
        is_safe_integer_def max_safe_integer_def)
  have scopes: "normalize_scopes [''sandbox:create'', ''sandbox:destroy'', ''sandbox:exec'', ''sandbox:file'', ''sandbox:status''] =
      Inr sandbox_run_scopes"
    by (simp add: normalize_scopes_def sandbox_run_scopes_def)
  have c: "validate_claims (canonical_claims sample_worker_claims) 1700000000 None = Inr sample_worker_claims"
    using v by (rule validate_claims_complete) (simp_all add: run_claims_current_def scope_granted_def sample_worker_claims_def sample_claims_def)
  obtain sid where sid: "derive_sandbox_id sample_sha sample_worker_claims = Inr sid"
    using v by (auto simp: derive_sandbox_id_def valid_run_claims_def)
  let ?token = "bytes_to_base64url (utf8_encode (json_text (canonical_claims sample_worker_claims))) @ CHR ''.'' #
    bytes_to_base64url (replicate 32 (CHR ''s''))"
  have s: "sign_payload sample_hmac sample_secret (canonical_claims sample_worker_claims) = Inr ?token"
    by (simp add: sign_payload_def sample_key sample_hmac_def Let_def)
  have "\<not> is_ws (CHR ''.'')" by (simp add: is_ws_def)
  then have "js_trim ?token \<noteq> []" by (auto simp: js_trim_def dropWhile_append dest: set_dropWhileD)
  with c sid s scopes assms show ?thesis
    by (simp add: issue_sandbox_run_token_def fastclaw_run_input_def sample_agent_request_def sample_hash is_safe_integer_def
        max_safe_integer_def js_trim_def is_ws_def canonical_claims_def sample_worker_claims_def sample_claims_def)
qed

lemma sample_worker_authorized:
  obtains a z where "run_authorized [0] 0 sample_worker_env sample_agent_request a z"
    "authorize_run [0] 0 sample_worker_env sample_agent_request = Inr (a, sz_authorization z)"
proof -
  note result = that
  let ?req = sample_agent_request
  have v: "valid_agent_request ?req" "\<not> aq_aborted ?req"
    by (simp_all add: valid_agent_request_def sample_agent_request_def js_trim_def is_ws_def is_safe_integer_def max_safe_integer_def)
  have id: "aq_tenant_id ?req = ''tenant''" "aq_user_id ?req = ''user''" "aq_run_id ?req = ''run-0001''"
    by (simp_all add: sample_agent_request_def)
  have a: "rn_authority sample_worker_env ''tenant'' ''user'' = Replied (Authority_allowed sample_agent_identity)"
    by (simp add: sample_worker_env_def authority_service_def resolve_authority_def sample_authority_db_def sample_row_def
        decide_authority_def activate_allowed_def sample_agent_identity_def)
  have m: "identity_matches ?req sample_agent_identity"
    by (simp add: identity_matches_def sample_agent_request_def sample_agent_identity_def js_trim_def is_ws_def)
  obtain grant where g: "mint_sandbox_grant [0] 0 ''run-0001'' ''tenant'' ''user'' = Inr grant" "ag_owner grant = Owner_run ''run-0001''"
    "ag_tenant_id grant = ''tenant''" "ag_user_id grant = ''user''"
    by (simp add: mint_sandbox_grant_def)
  obtain token sid where t: "issue_sandbox_run_token sample_hmac sample_sha
      (fastclaw_run_input sample_secret 1700000000000 ''run-0001'' grant (aq_budget ?req)) =
      Inr \<lparr>it_claims = sample_worker_claims, it_sandbox_id = sid, it_token = token\<rparr>" "js_trim token \<noteq> []"
    using sample_worker_issue [OF g(3,4)] by blast
  obtain expiry where "iso_text (rc_exp sample_worker_claims * 1000) = Some expiry"
    by (auto simp: sample_worker_claims_def iso_text_def Let_def split_beta)
  with t g(2) have i: "rn_issue sample_worker_env grant (aq_budget ?req) = Replied \<lparr>sz_authorization = token, sz_expires_at = expiry\<rparr>"
    by (simp add: sample_worker_env_def fastclaw_authorization_def)
  have p: "rn_date_parse sample_worker_env expiry = Some 60000" "rn_now_ms sample_worker_env = 0"
    by (simp_all add: sample_worker_env_def sample_runner_env_def)
  have "run_authorized [0] 0 sample_worker_env ?req sample_agent_identity \<lparr>sz_authorization = token, sz_expires_at = expiry\<rparr>"
    using v a m g(1) i p t(2) by (simp add: run_authorized_def id)
  moreover have "authorize_run [0] 0 sample_worker_env ?req = Inr (sample_agent_identity, token)"
    using v a m g(1) i p t(2) by (simp add: authorize_run_def id decided_iff)
  ultimately show thesis
    using result [of sample_agent_identity "\<lparr>sz_authorization = token, sz_expires_at = expiry\<rparr>"] by simp
qed

theorem run_acts_for_active_owner_witness:
  "\<exists>es calls. run_agent [0] 0 sample_worker_env sample_agent_request = (es, calls) \<and> calls \<noteq> [] \<and>
     Option.bind (ad_rows sample_authority_db) (\<lambda>rows. Some (hd rows)) = Some sample_row \<and> activate_allowed sample_row"
proof -
  obtain a z where a: "run_authorized [0] 0 sample_worker_env sample_agent_request a z"
    "authorize_run [0] 0 sample_worker_env sample_agent_request = Inr (a, sz_authorization z)"
    by (rule sample_worker_authorized)
  obtain r s where t: "run_transport sample_worker_env sample_agent_request = (r, s)" by force
  have "valid_agent_request sample_agent_request" using a(1) by (simp add: run_authorized_def)
  from run_transport_ends(2) [OF t this] have "rw_executed s = [sample_tool_call]"
    by (simp add: sample_worker_env_def sample_runner_env_def runner_step_defs runner_start_def call_permitted_def sample_tool_call_def
        sample_agent_request_def js_trim_def is_ws_def)
  then obtain es where r: "run_agent [0] 0 sample_worker_env sample_agent_request = (es, [sample_tool_call])"
    by (simp add: run_agent_def a(2) t Let_def)
  have "rn_authority sample_worker_env = authority_service sample_authority_db" by (simp add: sample_worker_env_def)
  from run_acts_for_active_owner [OF this r] have "activate_allowed sample_row" by (auto simp: sample_authority_db_def)
  with r show ?thesis by (simp add: sample_authority_db_def)
qed

theorem run_authorization_opens_bridge_witness:
  "\<exists>token c sid. authorize sample_hmac sample_sha (sample_bridge_env Rejected)
     \<lparr>bq_method = ''POST'', bq_path = ''/v1/sandbox'', bq_query_path = None, bq_authorization = Some (''Bearer '' @ token),
      bq_content_length = None, bq_text = None\<rparr> ''sandbox:create'' = Inr (c, sid) \<and> rc_jti c = ''run-0001'' \<and> rc_max_calls c = 8"
proof -
  obtain a z where a: "run_authorized [0] 0 sample_worker_env sample_agent_request a z" by (rule sample_worker_authorized)
  have i: "rn_issue sample_worker_env = fastclaw_authorization sample_hmac sample_sha sample_secret 1700000000000"
    by (simp add: sample_worker_env_def)
  let ?q = "\<lparr>bq_method = ''POST'', bq_path = ''/v1/sandbox'', bq_query_path = None,
    bq_authorization = Some (''Bearer '' @ sz_authorization z), bq_content_length = None, bq_text = None\<rparr>"
  have e: "bn_secret (sample_bridge_env Rejected) = sample_secret" "bn_now_ms (sample_bridge_env Rejected) = 1700000000000"
    by (simp_all add: sample_bridge_env_def)
  have b: "ab_max_wall_clock_ms (aq_budget sample_agent_request) = 60000" "ab_max_steps (aq_budget sample_agent_request) = 2"
    "aq_run_id sample_agent_request = ''run-0001''" by (simp_all add: sample_agent_request_def)
  have "''sandbox:create'' \<in> set sandbox_run_scopes" by (simp add: sandbox_run_scopes_def)
  moreover have "bq_authorization ?q = Some (''Bearer '' @ sz_authorization z)" by simp
  ultimately obtain c sid where "authorize sample_hmac sample_sha (sample_bridge_env Rejected) ?q ''sandbox:create'' = Inr (c, sid)"
    "rc_jti c = ''run-0001''" "rc_max_calls c = 8"
    using run_authorization_opens_bridge [OF a i _ e(1), of ?q "''sandbox:create''"] by (auto simp: e(2) b sample_hmac_def)
  then show ?thesis by (intro exI [of _ "sz_authorization z"] exI [of _ c] exI [of _ sid]) simp
qed

text \<open>Three operations: the first has ended, the second runs and the third waits.\<close>

definition sample_lock :: client_lock where
  "sample_lock = lock_start 1 (lock_finish 0 (lock_arrive (lock_arrive (lock_start 0 (lock_arrive
     \<lparr>lk_queued = None, lk_operations = []\<rparr>)))))"

lemma sample_lock_operations:
  "lk_operations sample_lock = [(None, Lock_released), (Some 0, Lock_running), (Some 1, Lock_waiting)]"
  by (simp add: sample_lock_def lock_start_def lock_arrive_def lock_finish_def)

lemma sample_lock_reachable: "lock_reachable sample_lock"
proof -
  have "lock_reachable (lock_arrive \<lparr>lk_queued = None, lk_operations = []\<rparr>)" by (intro lock_reachable.intros)
  then have "lock_reachable (lock_start 0 (lock_arrive \<lparr>lk_queued = None, lk_operations = []\<rparr>))"
    by (rule lock_reachable.start) (simp add: lock_can_start_def lock_arrive_def)
  then have "lock_reachable (lock_arrive (lock_arrive (lock_start 0 (lock_arrive \<lparr>lk_queued = None, lk_operations = []\<rparr>))))"
    by (intro lock_reachable.arrive)
  then have "lock_reachable (lock_finish 0 (lock_arrive (lock_arrive (lock_start 0 (lock_arrive
      \<lparr>lk_queued = None, lk_operations = []\<rparr>)))))"
    by (rule lock_reachable.finish) (simp_all add: lock_start_def lock_arrive_def)
  then show ?thesis unfolding sample_lock_def
    by (rule lock_reachable.start)
      (simp add: lock_can_start_def lock_start_def lock_arrive_def lock_finish_def queued_resolved.simps)
qed

theorem client_lock_serializes_witness:
  "map snd (lk_operations sample_lock) = [Lock_released, Lock_running, Lock_waiting] \<and> lock_can_start (lock_finish 1 sample_lock) 2"
proof -
  have "lock_reachable (lock_finish 1 sample_lock)"
    using sample_lock_reachable by (rule lock_reachable.finish) (simp_all add: sample_lock_operations)
  moreover have o: "lk_operations (lock_finish 1 sample_lock) = [(None, Lock_released), (Some 0, Lock_released), (Some 1, Lock_waiting)]"
    by (simp add: lock_finish_def sample_lock_operations)
  ultimately have "lock_can_start (lock_finish 1 sample_lock) 2"
    using client_lock_serializes [of "lock_finish 1 sample_lock" 2] by (simp add: less_Suc_eq eval_nat_numeral)
  then show ?thesis by (simp add: sample_lock_operations)
qed

end
