(* ===== verification/Agent_Control_Client.thy ===== *)
theory Agent_Control_Client
  imports Tool_Gateway Sandbox_Bridge
begin

text \<open>
  The client of the agent platform's control plane (\<open>packages/agent-runtime/src/fastclaw-lifecycle.ts\<close>): the identities
  derived for an owner, the bounded reading of responses, and the four operations that provision and remove the remote user and agent.

  The network is the parameter \<open>fetch\<close>, \<open>None\<close> where it rejects or is aborted; a lenient \<open>TextDecoder\<close> is the parameter \<open>decode\<close>;
  SHA-256 is \<open>sha\<close>. Messages of errors are left out.
\<close>

section \<open>Intents and states\<close>

datatype lifecycle_intent = Intent_activate | Intent_disable | Intent_delete

datatype agent_desired_state = Desired_active | Desired_disabled | Desired_deleted

datatype agent_status =
  Ls_provision_pending
  | Ls_provisioning
  | Ls_active
  | Ls_disable_pending
  | Ls_disabled
  | Ls_delete_pending
  | Ls_deleted
  | Ls_blocked_retryable

definition desired_state_for_intent :: "lifecycle_intent \<Rightarrow> agent_desired_state" where
  "desired_state_for_intent i =
     (case i of Intent_activate \<Rightarrow> Desired_active | Intent_disable \<Rightarrow> Desired_disabled | Intent_delete \<Rightarrow> Desired_deleted)"

definition pending_status_for_intent :: "lifecycle_intent \<Rightarrow> agent_status" where
  "pending_status_for_intent i =
     (case i of Intent_activate \<Rightarrow> Ls_provisioning | Intent_disable \<Rightarrow> Ls_disable_pending | Intent_delete \<Rightarrow> Ls_delete_pending)"

definition terminal_status_for_intent :: "lifecycle_intent \<Rightarrow> agent_status" where
  "terminal_status_for_intent i =
     (case i of Intent_activate \<Rightarrow> Ls_active | Intent_disable \<Rightarrow> Ls_disabled | Intent_delete \<Rightarrow> Ls_deleted)"

section \<open>Errors\<close>

datatype lifecycle_code =
  Control_auth_rejected
  | Control_conflict
  | Control_http_error
  | Control_not_found
  | Control_rate_limited
  | Control_response_invalid
  | Control_unavailable
  | Invalid_lifecycle_config
  | Invalid_lifecycle_input

text \<open>An instance of \<open>FastClawLifecycleError\<close> with its retryability, or any other error.\<close>

datatype control_error = Lifecycle_error lifecycle_code bool | Other_error

definition assert_non_empty :: "string \<Rightarrow> control_error + string" where
  "assert_non_empty v =
     (let normalized = js_trim v in require (0 < length normalized) (Lifecycle_error Invalid_lifecycle_input False) (Inr normalized))"

definition control_http_error :: "nat \<Rightarrow> control_error" where
  "control_http_error status =
     (if status = 401 \<or> status = 403 then Lifecycle_error Control_auth_rejected False
      else if status = 404 then Lifecycle_error Control_not_found False
      else if status = 409 then Lifecycle_error Control_conflict False
      else if status = 429 then Lifecycle_error Control_rate_limited True
      else Lifecycle_error Control_http_error (500 \<le> status))"

section \<open>Identities\<close>

definition sha256_hex :: "(bytes \<Rightarrow> bytes) \<Rightarrow> string \<Rightarrow> string" where
  "sha256_hex sha v = bytes_to_hex (sha (utf8_encode v))"

definition derive_external_identity :: "(bytes \<Rightarrow> bytes) \<Rightarrow> string \<Rightarrow> string \<Rightarrow> control_error + string" where
  "derive_external_identity sha workspace_id account_id =
     and_then (assert_non_empty workspace_id) (\<lambda>workspace.
     and_then (assert_non_empty account_id) (\<lambda>account.
       Inr (''aiphabee:v1:'' @ sha256_hex sha (workspace @ CHR 0x00 # account))))"

definition derive_agent_external_identity :: "(bytes \<Rightarrow> bytes) \<Rightarrow> string \<Rightarrow> string \<Rightarrow> control_error + string" where
  "derive_agent_external_identity sha workspace_id account_id =
     and_then (derive_external_identity sha workspace_id account_id) (\<lambda>identity. Inr (''aiphabee-agent:v1:'' @ drop 12 identity))"

definition hash_lifecycle_reference :: "(bytes \<Rightarrow> bytes) \<Rightarrow> string \<Rightarrow> control_error + string" where
  "hash_lifecycle_reference sha v = and_then (assert_non_empty v) (\<lambda>r. Inr (sha256_hex sha r))"

section \<open>The client\<close>

text \<open>\<open>cg_url\<close>: the protocol and the host name of the parsed base URL, \<open>None\<close> where the constructor of \<open>URL\<close> throws.\<close>

record control_config =
  cg_admin_api_key :: string
  cg_base_url :: string
  cg_url :: "(string \<times> string) option"
  cg_template_agent_id :: string
  cg_timeout_ms :: "int option"

record control_client =
  kc_admin_api_key :: string
  kc_base_url :: string
  kc_template_agent_id :: string
  kc_timeout_ms :: int

definition normalize_base_url :: "(string \<times> string) option \<Rightarrow> string \<Rightarrow> control_error + string" where
  "normalize_base_url url v =
     with_some url (Lifecycle_error Invalid_lifecycle_config False) (\<lambda>(protocol, hostname).
     require (protocol = ''https:'' \<or> protocol = ''http:'' \<and> hostname \<in> {''127.0.0.1'', ''::1'', ''localhost''})
       (Lifecycle_error Invalid_lifecycle_config False)
       (Inr (rev (dropWhile (\<lambda>c. c = CHR ''/'') (rev v)))))"

definition new_control_client :: "control_config \<Rightarrow> control_error + control_client" where
  "new_control_client config =
     and_then (assert_non_empty (cg_admin_api_key config)) (\<lambda>key.
     and_then (normalize_base_url (cg_url config) (cg_base_url config)) (\<lambda>base.
     and_then (assert_non_empty (cg_template_agent_id config)) (\<lambda>template.
     (let timeout = (case cg_timeout_ms config of Some t \<Rightarrow> t | None \<Rightarrow> 20000) in
      require (is_safe_integer timeout \<and> 1 \<le> timeout \<and> timeout \<le> 60000) (Lifecycle_error Invalid_lifecycle_config False)
        (Inr \<lparr>kc_admin_api_key = key, kc_base_url = base, kc_template_agent_id = template, kc_timeout_ms = timeout\<rparr>)))))"

record control_request =
  cq_url :: string
  cq_method :: string
  cq_authorization :: string
  cq_body :: "json option"

record control_response =
  cr_status :: nat
  cr_content_length :: "string option"
  cr_body :: "body_stream option"

definition max_control_response_bytes :: nat where
  "max_control_response_bytes = 1048576"

text \<open>The loop over the reader; a read that fails throws the error of the stream.\<close>

fun read_control_chunks :: "nat \<Rightarrow> bytes list \<Rightarrow> bool \<Rightarrow> control_error + bytes" where
  "read_control_chunks total_bytes [] fails = (if fails then Inl Other_error else Inr [])"
| "read_control_chunks total_bytes (c # cs) fails =
     (if max_control_response_bytes < total_bytes + length c then Inl (Lifecycle_error Control_response_invalid False)
      else and_then (read_control_chunks (total_bytes + length c) cs fails) (\<lambda>r. Inr (c @ r)))"

definition read_bounded_response_text :: "(bytes \<Rightarrow> string) \<Rightarrow> control_response \<Rightarrow> control_error + string" where
  "read_bounded_response_text decode resp =
     require
       (case cr_content_length resp of
          None \<Rightarrow> True
        | Some v \<Rightarrow> (case content_length_of v of Some n \<Rightarrow> n \<le> max_control_response_bytes | None \<Rightarrow> True))
       (Lifecycle_error Control_response_invalid False) (
     (case cr_body resp of
        None \<Rightarrow> Inr []
      | Some s \<Rightarrow> and_then (read_control_chunks 0 (bs_chunks s) (bs_fails s)) (\<lambda>content. Inr (decode content))))"

definition request_json ::
  "(bytes \<Rightarrow> string) \<Rightarrow> (control_request \<Rightarrow> control_response option) \<Rightarrow> control_client \<Rightarrow> string \<Rightarrow> string \<Rightarrow> json option
    \<Rightarrow> control_error + (string \<times> json) list" where
  "request_json decode fetch client path meth body =
     with_some (header_value (''Bearer '' @ kc_admin_api_key client)) Other_error (\<lambda>authorization.
     with_some (fetch \<lparr>cq_url = kc_base_url client @ path, cq_method = meth, cq_authorization = authorization, cq_body = body\<rparr>)
       (Lifecycle_error Control_unavailable True) (\<lambda>response.
     require (200 \<le> cr_status response \<and> cr_status response \<le> 299) (control_http_error (cr_status response)) (
     and_then (read_bounded_response_text decode response) (\<lambda>text.
     with_some (json_parse text) (Lifecycle_error Control_response_invalid False) (\<lambda>parsed.
     (case parsed of JObj ms \<Rightarrow> Inr ms | _ \<Rightarrow> Inl (Lifecycle_error Control_response_invalid False)))))))"

text \<open>\<open>encodeURIComponent\<close>: the unreserved characters stand for themselves, all others for their UTF-8 bytes.\<close>

definition uri_unreserved :: "char \<Rightarrow> bool" where
  "uri_unreserved c \<longleftrightarrow> is_alnum c \<or> c \<in> set ''-_.!~*()'' \<or> code_unit c = 39"

definition upper_hex :: "nat \<Rightarrow> char" where
  "upper_hex n = (if n < 10 then char_of (48 + n) else char_of (55 + n))"

definition encode_uri_component :: "string \<Rightarrow> string" where
  "encode_uri_component s =
     concat (map (\<lambda>c. if uri_unreserved c then [c]
       else concat (map (\<lambda>b. [CHR ''%'', upper_hex (code_unit b div 16), upper_hex (code_unit b mod 16)]) (utf8_char c))) s)"

definition user_path :: "string \<Rightarrow> string" where
  "user_path user = ''/api/users/'' @ encode_uri_component user"

definition provision_user ::
  "(bytes \<Rightarrow> string) \<Rightarrow> (control_request \<Rightarrow> control_response option) \<Rightarrow> control_client \<Rightarrow> string \<Rightarrow> control_error + string" where
  "provision_user decode fetch client external_identity =
     and_then (assert_non_empty external_identity) (\<lambda>external_id.
     and_then (request_json decode fetch client ''/v1/users'' ''POST''
       (Some (JObj [(''display_name'', JStr ''AiphaBee Research Agent''), (''external_id'', JStr external_id)]))) (\<lambda>result.
     with_some (str_field result ''user_id'') (Lifecycle_error Control_response_invalid False) (\<lambda>user_id.
     require (map_of result ''external_id'' = Some (JStr external_id) \<and> 0 < length user_id)
       (Lifecycle_error Control_response_invalid False) (Inr user_id))))"

definition provision_agent ::
  "(bytes \<Rightarrow> string) \<Rightarrow> (control_request \<Rightarrow> control_response option) \<Rightarrow> control_client \<Rightarrow> string \<Rightarrow> string \<Rightarrow> control_error + string \<times> bool" where
  "provision_agent decode fetch client user_id external_identity =
     and_then (assert_non_empty user_id) (\<lambda>user.
     and_then (assert_non_empty external_identity) (\<lambda>external_id.
     and_then (request_json decode fetch client (user_path user @ ''/agents'') ''POST''
       (Some (JObj [(''description'', JStr ''Dedicated AiphaBee research Agent''), (''externalId'', JStr external_id),
          (''forkFrom'', JStr (kc_template_agent_id client)), (''name'', JStr ''AiphaBee Research Agent'')]))) (\<lambda>result.
     with_some (case map_of result ''agent'' of Some (JObj ms) \<Rightarrow> Some ms | _ \<Rightarrow> None) (Lifecycle_error Control_response_invalid False) (\<lambda>agent.
     with_some (str_field agent ''id'') (Lifecycle_error Control_response_invalid False) (\<lambda>agent_id.
     with_some (case map_of result ''created'' of Some (JBool b) \<Rightarrow> Some b | _ \<Rightarrow> None) (Lifecycle_error Control_response_invalid False) (\<lambda>created.
     require (map_of agent ''externalId'' = Some (JStr external_id) \<and> 0 < length agent_id)
       (Lifecycle_error Control_response_invalid False) (Inr (agent_id, created))))))))"

definition user_status_text :: "bool \<Rightarrow> string" where
  "user_status_text active = (if active then ''active'' else ''disabled'')"

definition set_user_status ::
  "(bytes \<Rightarrow> string) \<Rightarrow> (control_request \<Rightarrow> control_response option) \<Rightarrow> control_client \<Rightarrow> string \<Rightarrow> bool \<Rightarrow> control_error + unit" where
  "set_user_status decode fetch client user_id active =
     and_then (assert_non_empty user_id) (\<lambda>user.
     and_then (request_json decode fetch client (user_path user) ''PUT'' (Some (JObj [(''status'', JStr (user_status_text active))]))) (\<lambda>result.
     with_some (case map_of result ''user'' of Some (JObj ms) \<Rightarrow> Some ms | _ \<Rightarrow> None) (Lifecycle_error Control_response_invalid False) (\<lambda>u.
     require (map_of u ''id'' = Some (JStr user) \<and> map_of u ''status'' = Some (JStr (user_status_text active)))
       (Lifecycle_error Control_response_invalid False) (Inr ()))))"

definition remove_user ::
  "(bytes \<Rightarrow> string) \<Rightarrow> (control_request \<Rightarrow> control_response option) \<Rightarrow> control_client \<Rightarrow> string \<Rightarrow> control_error + bool" where
  "remove_user decode fetch client user_id =
     and_then (assert_non_empty user_id) (\<lambda>user.
     and_then (request_json decode fetch client (user_path user) ''DELETE'' None) (\<lambda>result.
     with_some (case map_of result ''deleted'' of Some (JBool b) \<Rightarrow> Some b | _ \<Rightarrow> None) (Lifecycle_error Control_response_invalid False) (\<lambda>deleted.
     require (map_of result ''ok'' = Some (JBool True)) (Lifecycle_error Control_response_invalid False) (Inr (\<not> deleted)))))"

section \<open>The remote as a whole\<close>

datatype remote_call =
  Rc_provision_user string
  | Rc_provision_agent string string
  | Rc_set_status string bool
  | Rc_remove_user string

text \<open>The answer of a call: the id of the user or agent that was provisioned, and nothing for the others.\<close>

definition client_remote ::
  "(bytes \<Rightarrow> string) \<Rightarrow> (control_request \<Rightarrow> control_response option) \<Rightarrow> control_client \<Rightarrow> remote_call \<Rightarrow> control_error + string" where
  "client_remote decode fetch client call =
     (case call of
        Rc_provision_user e \<Rightarrow> provision_user decode fetch client e
      | Rc_provision_agent u e \<Rightarrow> and_then (provision_agent decode fetch client u e) (\<lambda>r. Inr (fst r))
      | Rc_set_status u active \<Rightarrow> and_then (set_user_status decode fetch client u active) (\<lambda>_. Inr [])
      | Rc_remove_user u \<Rightarrow> and_then (remove_user decode fetch client u) (\<lambda>_. Inr []))"

section \<open>Paths\<close>

lemma hex_value_upper: "n < 16 \<Longrightarrow> hex_value (upper_hex n) = Some n"
  by (simp add: upper_hex_def hex_value_def is_digit_def)

lemma byte_of_hex: "char_of (16 * (code_unit b div 16) + code_unit b mod 16) = b"
  by (simp only: mult_div_mod_eq char_of_char)

lemma percent_bytes_escaped:
  "percent_bytes (concat (map (\<lambda>b. [CHR ''%'', upper_hex (code_unit b div 16), upper_hex (code_unit b mod 16)]) bs) @ r) =
     map_option ((@) bs) (percent_bytes r)"
proof (induction bs)
  case Nil
  then show ?case by (simp add: option.map_ident)
next
  case (Cons b bs)
  have "code_unit b div 16 < 16" "code_unit b mod 16 < 16" using code_unit_less [of b] by linarith+
  then show ?case using Cons.IH by (simp add: hex_value_upper byte_of_hex option.map_comp comp_def)
qed

lemma unreserved_byte: "uri_unreserved c \<Longrightarrow> utf8_char c = [c] \<and> c \<noteq> CHR ''%'' \<and> c \<noteq> CHR ''/''"
  by (auto simp: uri_unreserved_def is_alnum_def is_lower_def is_upper_def is_digit_def utf8_char_def Let_def)

lemma percent_bytes_encode: "percent_bytes (encode_uri_component s) = Some (utf8_encode s)"
proof (induction s)
  case Nil
  then show ?case by (simp add: encode_uri_component_def utf8_encode_def)
next
  case (Cons c s)
  then show ?case
  proof (cases "uri_unreserved c")
    case True
    with Cons unreserved_byte [OF True] show ?thesis by (simp add: encode_uri_component_def utf8_encode_def)
  next
    case False
    with Cons show ?thesis by (simp add: encode_uri_component_def utf8_encode_def percent_bytes_escaped)
  qed
qed

lemma no_slash_escaped: "n < 16 \<Longrightarrow> upper_hex n \<noteq> CHR ''/''"
proof -
  assume "n < 16"
  moreover have "hex_value (CHR ''/'') = None" by (simp add: hex_value_def is_digit_def)
  ultimately show "upper_hex n \<noteq> CHR ''/''" using hex_value_upper [of n] by auto
qed

text \<open>
  Whatever characters an id of a remote user has, it is one segment of the paths of the control plane, and the segment
  decodes to the id: no id reaches the resources of another.
\<close>

theorem user_segment_decodes:
  "CHR ''/'' \<notin> set (encode_uri_component user) \<and> decode_uri_component (encode_uri_component user) = Some user"
proof
  show "CHR ''/'' \<notin> set (encode_uri_component user)"
  proof
    assume "CHR ''/'' \<in> set (encode_uri_component user)"
    then obtain c where "CHR ''/'' \<in> set (if uri_unreserved c then [c]
        else concat (map (\<lambda>b. [CHR ''%'', upper_hex (code_unit b div 16), upper_hex (code_unit b mod 16)]) (utf8_char c)))"
      unfolding encode_uri_component_def set_concat set_map by blast
    moreover have "CHR ''/'' \<noteq> upper_hex (code_unit b div 16)" "CHR ''/'' \<noteq> upper_hex (code_unit b mod 16)" for b
      using code_unit_less [of b] by (intro no_slash_escaped [symmetric]; linarith)+
    ultimately show False using unreserved_byte by (auto split: if_splits)
  qed
  show "decode_uri_component (encode_uri_component user) = Some user"
    by (simp add: decode_uri_component_def percent_bytes_encode utf8_decode_aux_encode)
qed

section \<open>What an answer proves\<close>

lemma object_answer:
  "(case v of JObj ms \<Rightarrow> Inr ms | _ \<Rightarrow> Inl e) = Inr ms \<longleftrightarrow> v = JObj ms"
  "(case v of JObj ms \<Rightarrow> Inr ms | _ \<Rightarrow> Inl e) = Inl e' \<Longrightarrow> e' = e"
  by (cases v; auto)+

lemma request_json_Inr:
  assumes "request_json decode fetch client path meth body = Inr ms"
  obtains q response answer where "fetch q = Some response" "cq_url q = kc_base_url client @ path" "cq_method q = meth" "cq_body q = body"
    "200 \<le> cr_status response" "cr_status response \<le> 299" "read_bounded_response_text decode response = Inr answer"
    "json_parse answer = Some (JObj ms)"
  using assms by (auto simp: request_json_def object_answer(1))

lemma control_chunks_error: "read_control_chunks n cs fails = Inl (Lifecycle_error code r) \<Longrightarrow> \<not> r"
  by (induction n cs fails rule: read_control_chunks.induct) (auto simp: and_then_def split: if_splits sum.splits)

lemma bounded_text_error: "read_bounded_response_text decode resp = Inl (Lifecycle_error code r) \<Longrightarrow> \<not> r"
  using control_chunks_error by (fastforce simp: read_bounded_response_text_def throws_iff split: option.splits)

text \<open>Which failures of the network are transient: no response, a rate limit, or an error of the server.\<close>

definition transient_failure :: "control_response option \<Rightarrow> bool" where
  "transient_failure r \<longleftrightarrow> (case r of None \<Rightarrow> True | Some resp \<Rightarrow> cr_status resp = 429 \<or> 500 \<le> cr_status resp)"

lemma request_json_retryable:
  assumes "request_json decode fetch client path meth body = Inl (Lifecycle_error code True)"
  shows "\<exists>q. cq_url q = kc_base_url client @ path \<and> cq_method q = meth \<and> cq_body q = body \<and> transient_failure (fetch q)"
proof -
  obtain authorization where a: "header_value (''Bearer '' @ kc_admin_api_key client) = Some authorization"
    using assms by (auto simp: request_json_def throws_iff)
  let ?q = "\<lparr>cq_url = kc_base_url client @ path, cq_method = meth, cq_authorization = authorization, cq_body = body\<rparr>"
  have "transient_failure (fetch ?q)"
  proof (cases "fetch ?q")
    case None
    then show ?thesis by (simp add: transient_failure_def)
  next
    case (Some resp)
    have "\<not> (200 \<le> cr_status resp \<and> cr_status resp \<le> 299) \<and> control_http_error (cr_status resp) = Lifecycle_error code True"
      using assms a Some
      by (auto simp: request_json_def throws_iff dest: bounded_text_error object_answer(2))
    then show ?thesis by (auto simp: transient_failure_def Some control_http_error_def split: if_splits)
  qed
  then show ?thesis by (intro exI [of _ ?q]) simp
qed

text \<open>The request of a call, and what an answer object has to say for it to be confirmed with a value.\<close>

definition call_request :: "control_client \<Rightarrow> remote_call \<Rightarrow> string \<times> string" where
  "call_request client call =
     (case call of
        Rc_provision_user e \<Rightarrow> (''POST'', kc_base_url client @ ''/v1/users'')
      | Rc_provision_agent u e \<Rightarrow> (''POST'', kc_base_url client @ user_path (js_trim u) @ ''/agents'')
      | Rc_set_status u active \<Rightarrow> (''PUT'', kc_base_url client @ user_path (js_trim u))
      | Rc_remove_user u \<Rightarrow> (''DELETE'', kc_base_url client @ user_path (js_trim u)))"

definition answer_confirms :: "remote_call \<Rightarrow> string \<Rightarrow> (string \<times> json) list \<Rightarrow> bool" where
  "answer_confirms call v ms \<longleftrightarrow>
     (case call of
        Rc_provision_user e \<Rightarrow>
          map_of ms ''external_id'' = Some (JStr (js_trim e)) \<and> map_of ms ''user_id'' = Some (JStr v) \<and> v \<noteq> []
      | Rc_provision_agent u e \<Rightarrow>
          (\<exists>agent. map_of ms ''agent'' = Some (JObj agent) \<and> map_of agent ''externalId'' = Some (JStr (js_trim e)) \<and>
             map_of agent ''id'' = Some (JStr v) \<and> v \<noteq> [])
      | Rc_set_status u active \<Rightarrow>
          (\<exists>user. map_of ms ''user'' = Some (JObj user) \<and> map_of user ''id'' = Some (JStr (js_trim u)) \<and>
             map_of user ''status'' = Some (JStr (user_status_text active)))
      | Rc_remove_user u \<Rightarrow> map_of ms ''ok'' = Some (JBool True) \<and> (\<exists>b. map_of ms ''deleted'' = Some (JBool b)))"

definition call_confirmed ::
  "(bytes \<Rightarrow> string) \<Rightarrow> (control_request \<Rightarrow> control_response option) \<Rightarrow> control_client \<Rightarrow> remote_call \<Rightarrow> string \<Rightarrow> bool" where
  "call_confirmed decode fetch client call v \<longleftrightarrow>
     (\<exists>q response answer ms. (cq_method q, cq_url q) = call_request client call \<and> fetch q = Some response \<and>
        200 \<le> cr_status response \<and> cr_status response \<le> 299 \<and> read_bounded_response_text decode response = Inr answer \<and>
        json_parse answer = Some (JObj ms) \<and> answer_confirms call v ms)"

lemma member_Some:
  "(case map_of ms k of Some (JObj xs) \<Rightarrow> Some xs | _ \<Rightarrow> None) = Some ys \<longleftrightarrow> map_of ms k = Some (JObj ys)"
  "(case map_of ms k of Some (JBool b) \<Rightarrow> Some b | _ \<Rightarrow> None) = Some b' \<longleftrightarrow> map_of ms k = Some (JBool b')"
  by (auto split: option.splits json.splits)

lemma assert_non_empty_Inr [simp]: "assert_non_empty v = Inr t \<longleftrightarrow> js_trim v \<noteq> [] \<and> t = js_trim v"
  by (auto simp: assert_non_empty_def Let_def)

lemma assert_non_empty_Inl: "assert_non_empty v = Inl e \<Longrightarrow> e = Lifecycle_error Invalid_lifecycle_input False"
  by (auto simp: assert_non_empty_def Let_def throws_iff)

lemma confirmed_request:
  assumes "request_json decode fetch client path meth body = Inr ms" and "(meth, kc_base_url client @ path) = call_request client call"
    and "answer_confirms call v ms"
  shows "call_confirmed decode fetch client call v"
  using assms(1)
proof (rule request_json_Inr)
  fix q response answer
  assume "fetch q = Some response" "cq_url q = kc_base_url client @ path" "cq_method q = meth" "200 \<le> cr_status response"
    "cr_status response \<le> 299" "read_bounded_response_text decode response = Inr answer" "json_parse answer = Some (JObj ms)"
  then show ?thesis using assms(2,3) unfolding call_confirmed_def
    by (intro exI [of _ q] exI [of _ response] exI [of _ answer] exI [of _ ms]) simp
qed

lemma remote_confirmed:
  assumes "client_remote decode fetch client call = Inr v"
  shows "call_confirmed decode fetch client call v"
proof (cases call)
  case (Rc_provision_user e)
  with assms show ?thesis
    by (auto simp: client_remote_def provision_user_def str_field_Some call_request_def answer_confirms_def intro!: confirmed_request)
next
  case (Rc_provision_agent u e)
  with assms show ?thesis
    by (auto simp: client_remote_def provision_agent_def str_field_Some member_Some call_request_def answer_confirms_def
        intro!: confirmed_request)
next
  case (Rc_set_status u active)
  with assms show ?thesis
    by (auto simp: client_remote_def set_user_status_def member_Some call_request_def answer_confirms_def intro!: confirmed_request)
next
  case (Rc_remove_user u)
  with assms show ?thesis
    by (auto simp: client_remote_def remove_user_def member_Some call_request_def answer_confirms_def intro!: confirmed_request)
qed

text \<open>
  A call on the control plane succeeds only when a response with a success status, of at most 1 MiB, was the JSON text of an object that confirms
  just this call: the user or agent with the requested external identity and a non-empty id, the user with the
  requested status, or the proven absence of the user.
\<close>

theorem remote_success_is_confirmed:
  assumes "client_remote decode fetch client call = Inr v"
  shows "call_confirmed decode fetch client call v"
  using assms by (rule remote_confirmed)

lemma remote_retryable:
  assumes "client_remote decode fetch client call = Inl (Lifecycle_error code True)"
  shows "\<exists>q. (cq_method q, cq_url q) = call_request client call \<and> transient_failure (fetch q)"
proof (cases call)
  case (Rc_provision_user e)
  with assms have "request_json decode fetch client ''/v1/users'' ''POST''
      (Some (JObj [(''display_name'', JStr ''AiphaBee Research Agent''), (''external_id'', JStr (js_trim e))])) = Inl (Lifecycle_error code True)"
    by (auto simp: client_remote_def provision_user_def throws_iff dest: assert_non_empty_Inl)
  from request_json_retryable [OF this] show ?thesis by (auto simp: Rc_provision_user call_request_def)
next
  case (Rc_provision_agent u e)
  with assms obtain body where "request_json decode fetch client (user_path (js_trim u) @ ''/agents'') ''POST'' body = Inl (Lifecycle_error code True)"
    by (auto simp: client_remote_def provision_agent_def throws_iff dest: assert_non_empty_Inl)
  from request_json_retryable [OF this] show ?thesis by (auto simp: Rc_provision_agent call_request_def)
next
  case (Rc_set_status u active)
  with assms obtain body where "request_json decode fetch client (user_path (js_trim u)) ''PUT'' body = Inl (Lifecycle_error code True)"
    by (auto simp: client_remote_def set_user_status_def throws_iff dest: assert_non_empty_Inl)
  from request_json_retryable [OF this] show ?thesis by (auto simp: Rc_set_status call_request_def)
next
  case (Rc_remove_user u)
  with assms have "request_json decode fetch client (user_path (js_trim u)) ''DELETE'' None = Inl (Lifecycle_error code True)"
    by (auto simp: client_remote_def remove_user_def throws_iff dest: assert_non_empty_Inl)
  from request_json_retryable [OF this] show ?thesis by (auto simp: Rc_remove_user call_request_def)
qed

text \<open>
  A call on the control plane fails as retryable only for a transient failure of its own request: no response, a rate limit or an
  error of the server; a refused authentication, a conflict, a missing resource and an answer that confirms nothing are not retried.
\<close>

theorem only_transient_failures_retry:
  assumes "client_remote decode fetch client call = Inl (Lifecycle_error code True)"
  shows "\<exists>q. (cq_method q, cq_url q) = call_request client call \<and> transient_failure (fetch q)"
  using assms by (rule remote_retryable)

section \<open>A sample control plane\<close>

definition sample_control_client :: control_client where
  "sample_control_client =
     \<lparr>kc_admin_api_key = ''key'', kc_base_url = ''https://control'', kc_template_agent_id = ''template'', kc_timeout_ms = 20000\<rparr>"

text \<open>A control plane that answers each request with the user and the agent that were asked for, or with one status.\<close>

definition sample_answer :: json where
  "sample_answer =
     JObj [(''external_id'', JStr ''e''), (''user_id'', JStr ''u1''),
       (''agent'', JObj [(''externalId'', JStr ''a''), (''id'', JStr ''a1'')]), (''created'', JBool True),
       (''user'', JObj [(''id'', JStr ''u1''), (''status'', JStr ''active'')]), (''ok'', JBool True), (''deleted'', JBool True)]"

definition sample_control_fetch :: "nat \<Rightarrow> control_request \<Rightarrow> control_response option" where
  "sample_control_fetch status q =
     Some \<lparr>cr_status = status, cr_content_length = None,
       cr_body = Some \<lparr>bs_chunks = [utf8_encode (json_text sample_answer)], bs_fails = False\<rparr>\<rparr>"

definition sample_decode :: "bytes \<Rightarrow> string" where
  "sample_decode bs = (case utf8_decode bs of Some s \<Rightarrow> s | None \<Rightarrow> [])"

lemma sample_control_answer:
  "request_json sample_decode (sample_control_fetch 200) sample_control_client path meth body =
     Inr [(''external_id'', JStr ''e''), (''user_id'', JStr ''u1''),
       (''agent'', JObj [(''externalId'', JStr ''a''), (''id'', JStr ''a1'')]), (''created'', JBool True),
       (''user'', JObj [(''id'', JStr ''u1''), (''status'', JStr ''active'')]), (''ok'', JBool True), (''deleted'', JBool True)]"
proof -
  have "json_ok sample_answer" by code_simp
  moreover have "utf8_length (json_text sample_answer) \<le> 1000" by code_simp
  moreover have "header_value ''Bearer key'' = Some ''Bearer key''" by code_simp
  ultimately show ?thesis
    by (simp add: request_json_def sample_control_client_def sample_control_fetch_def read_bounded_response_text_def
        max_control_response_bytes_def length_utf8_encode sample_decode_def json_roundtrip)
      (simp add: sample_answer_def)
qed

theorem remote_success_is_confirmed_witness:
  "client_remote sample_decode (sample_control_fetch 200) sample_control_client (Rc_provision_user ''e'') = Inr ''u1'' \<and>
   call_confirmed sample_decode (sample_control_fetch 200) sample_control_client (Rc_provision_user ''e'') ''u1''"
proof -
  have "client_remote sample_decode (sample_control_fetch 200) sample_control_client (Rc_provision_user ''e'') = Inr ''u1''"
    by (simp add: client_remote_def provision_user_def sample_control_answer str_field_Some js_trim_def is_ws_def)
  with remote_success_is_confirmed [OF this] show ?thesis by simp
qed

theorem only_transient_failures_retry_witness:
  "client_remote sample_decode (sample_control_fetch 503) sample_control_client (Rc_remove_user ''u1'') =
     Inl (Lifecycle_error Control_http_error True) \<and>
   (\<exists>q. cq_method q = ''DELETE'' \<and> transient_failure (sample_control_fetch 503 q))"
proof -
  have "header_value ''Bearer key'' = Some ''Bearer key''" by code_simp
  then have e: "client_remote sample_decode (sample_control_fetch 503) sample_control_client (Rc_remove_user ''u1'') =
      Inl (Lifecycle_error Control_http_error True)"
    by (simp add: client_remote_def remove_user_def request_json_def sample_control_client_def sample_control_fetch_def control_http_error_def
        assert_non_empty_def js_trim_def is_ws_def)
  from only_transient_failures_retry [OF e] e show ?thesis by (auto simp: call_request_def)
qed

end
