(* ===== verification/Agent_Lifecycle.thy ===== *)
theory Agent_Lifecycle
  imports Agent_Control_Client
begin

text \<open>
  The life cycle of a research agent (\<open>apps/worker/src/research-agent-lifecycle.ts\<close>): the service that reconciles the profile of an
  owner with the remote user and agent, over its Postgres repository and the modelled control-plane client.

  The database is a store of profile and event rows. One execution is one transaction; what other transactions commit
  between its statements is the parameter \<open>ln_others\<close>, by the point where it becomes visible. A statement that fails rolls everything back.
  Time stamps that nothing reads and the derived event ids are left out.
\<close>

section \<open>Requests, rows and results\<close>

record lifecycle_request =
  lq_account_id :: string
  lq_intent :: lifecycle_intent
  lq_reason :: string
  lq_request_id :: string
  lq_workspace_id :: string

datatype lifecycle_outcome = Lo_succeeded | Lo_denied | Lo_conflict | Lo_retryable_failure | Lo_internal_failure

record authority_row =
  ar_account_exists :: bool
  ar_account_status :: "string option"
  ar_entitlement_approved :: bool
  ar_membership_active :: bool
  ar_product_access_active :: bool
  ar_subscription_active :: bool
  ar_workspace_exists :: bool
  ar_workspace_status :: "string option"

record authority_snapshot =
  as_account_exists :: bool
  as_account_status :: "string option"
  as_activate_allowed :: bool
  as_entitlement_approved :: bool
  as_membership_active :: bool
  as_product_access_active :: bool
  as_subscription_active :: bool
  as_workspace_exists :: bool
  as_workspace_status :: "string option"

definition authority_snapshot_of :: "authority_row \<Rightarrow> authority_snapshot" where
  "authority_snapshot_of row =
     \<lparr>as_account_exists = ar_account_exists row, as_account_status = ar_account_status row,
      as_activate_allowed = (ar_account_status row = Some ''active'' \<and> ar_workspace_status row = Some ''active'' \<and>
        ar_membership_active row \<and> ar_subscription_active row \<and> ar_product_access_active row \<and> ar_entitlement_approved row),
      as_entitlement_approved = ar_entitlement_approved row, as_membership_active = ar_membership_active row,
      as_product_access_active = ar_product_access_active row, as_subscription_active = ar_subscription_active row,
      as_workspace_exists = ar_workspace_exists row, as_workspace_status = ar_workspace_status row\<rparr>"

record agent_profile =
  ap_profile_id :: string
  ap_workspace_id :: string
  ap_account_id :: string
  ap_external_identity :: string
  ap_desired_state :: agent_desired_state
  ap_status :: agent_status
  ap_user_id :: "string option"
  ap_agent_id :: "string option"
  ap_attempt_count :: nat
  ap_lease_owner :: "string option"
  ap_lease_expires :: "int option"
  ap_last_request_id :: "string option"
  ap_last_error :: "string option"
  ap_version :: nat

record lifecycle_event =
  le_profile_id :: string
  le_request_id :: string
  le_intent :: lifecycle_intent
  le_from_status :: "agent_status option"
  le_to_status :: agent_status
  le_outcome :: lifecycle_outcome
  le_error_code :: "string option"
  le_user_hash :: "string option"
  le_agent_hash :: "string option"
  le_reason :: string

record lifecycle_store =
  sr_profiles :: "agent_profile list"
  sr_events :: "lifecycle_event list"

record lifecycle_result =
  lz_desired_state :: agent_desired_state
  lz_error_code :: "string option"
  lz_agent_hash :: "string option"
  lz_user_hash :: "string option"
  lz_status :: agent_status
  lz_outcome :: lifecycle_outcome
  lz_profile_id :: string
  lz_request_id :: string
  lz_retryable :: bool
  lz_retry_with_new_request_id :: bool

section \<open>Parsing a request\<close>

definition required_text :: "json option \<Rightarrow> nat \<Rightarrow> string option" where
  "required_text v max_length =
     (case v of
        Some (JStr s) \<Rightarrow> if js_trim s = [] \<or> max_length < length s then None else Some (js_trim s)
      | _ \<Rightarrow> None)"

definition parse_lifecycle_request :: "json \<Rightarrow> string option \<Rightarrow> lifecycle_request option" where
  "parse_lifecycle_request v request_id =
     (case v of
        JObj ms \<Rightarrow>
          Option.bind (required_text (map_of ms ''account_id'') 200) (\<lambda>account_id.
          Option.bind (required_text (map_of ms ''workspace_id'') 200) (\<lambda>workspace_id.
          Option.bind (required_text (map_of ms ''reason'') 500) (\<lambda>reason.
          Option.bind (required_text (map_option JStr request_id) 200) (\<lambda>rid.
          Option.bind
            (if map_of ms ''intent'' = Some (JStr ''activate'') then Some Intent_activate
             else if map_of ms ''intent'' = Some (JStr ''disable'') then Some Intent_disable
             else if map_of ms ''intent'' = Some (JStr ''delete'') then Some Intent_delete
             else None) (\<lambda>i.
            Some \<lparr>lq_account_id = account_id, lq_intent = i, lq_reason = reason, lq_request_id = rid, lq_workspace_id = workspace_id\<rparr>)))))
      | _ \<Rightarrow> None)"

section \<open>The repository\<close>

definition find_profile :: "string \<Rightarrow> lifecycle_store \<Rightarrow> agent_profile option" where
  "find_profile profile_id s = List.find (\<lambda>p. ap_profile_id p = profile_id) (sr_profiles s)"

definition find_event :: "lifecycle_store \<Rightarrow> string \<times> string \<Rightarrow> lifecycle_event option" where
  "find_event s k = List.find (\<lambda>e. (le_profile_id e, le_request_id e) = k) (sr_events s)"

definition insert_event :: "lifecycle_event \<Rightarrow> lifecycle_store \<Rightarrow> lifecycle_store" where
  "insert_event e s =
     (if find_event s (le_profile_id e, le_request_id e) = None then s\<lparr>sr_events := sr_events s @ [e]\<rparr> else s)"

definition update_profile :: "string \<Rightarrow> (agent_profile \<Rightarrow> agent_profile) \<Rightarrow> lifecycle_store \<Rightarrow> lifecycle_store" where
  "update_profile profile_id f s =
     s\<lparr>sr_profiles := map (\<lambda>p. if ap_profile_id p = profile_id then f p else p) (sr_profiles s)\<rparr>"

text \<open>\<open>insert \<dots> on conflict (workspace_id, account_id)\<close>; \<open>None\<close> where the profile id is taken by another owner.\<close>

definition owned_by :: "string \<Rightarrow> string \<Rightarrow> agent_profile \<Rightarrow> bool" where
  "owned_by workspace_id account_id p \<longleftrightarrow> ap_workspace_id p = workspace_id \<and> ap_account_id p = account_id"

definition insert_profile ::
  "agent_profile \<Rightarrow> (agent_profile \<Rightarrow> agent_profile) \<Rightarrow> lifecycle_store \<Rightarrow> lifecycle_store option" where
  "insert_profile new on_conflict s =
     (if list_ex (owned_by (ap_workspace_id new) (ap_account_id new)) (sr_profiles s) then
        Some (s\<lparr>sr_profiles := map (\<lambda>p. if owned_by (ap_workspace_id new) (ap_account_id new) p then on_conflict p else p) (sr_profiles s)\<rparr>)
      else if list_ex (\<lambda>p. ap_profile_id p = ap_profile_id new) (sr_profiles s) then None
      else Some (s\<lparr>sr_profiles := sr_profiles s @ [new]\<rparr>))"

definition new_profile :: "lifecycle_request \<Rightarrow> string \<Rightarrow> string \<Rightarrow> agent_profile" where
  "new_profile req profile_id external_identity =
     \<lparr>ap_profile_id = profile_id, ap_workspace_id = lq_workspace_id req, ap_account_id = lq_account_id req,
      ap_external_identity = external_identity, ap_desired_state = Desired_disabled, ap_status = Ls_disabled, ap_user_id = None,
      ap_agent_id = None, ap_attempt_count = 0, ap_lease_owner = None, ap_lease_expires = None, ap_last_request_id = None,
      ap_last_error = None, ap_version = 0\<rparr>"

record agent_env =
  ln_now :: int
  ln_remote :: "remote_call \<Rightarrow> control_error + string"
  ln_authority :: "authority_row option"
  ln_others :: "nat \<Rightarrow> lifecycle_store \<Rightarrow> lifecycle_store"

definition lifecycle_lease_seconds :: int where
  "lifecycle_lease_seconds = 45"

datatype claim_result =
  Ck_busy agent_profile
  | Ck_deleted agent_profile
  | Ck_in_progress agent_profile
  | Ck_terminal agent_profile
  | Ck_claimed agent_status agent_profile

text \<open>The condition and the assignments of the update that takes the lease.\<close>

definition lease_free :: "int \<Rightarrow> agent_profile \<Rightarrow> bool" where
  "lease_free now p \<longleftrightarrow>
     ap_lease_owner p = None \<or> (case ap_lease_expires p of None \<Rightarrow> False | Some t \<Rightarrow> t \<le> now)"

definition claimed_profile :: "lifecycle_request \<Rightarrow> int \<Rightarrow> agent_profile \<Rightarrow> agent_profile" where
  "claimed_profile req now p =
     p\<lparr>ap_desired_state := desired_state_for_intent (lq_intent req), ap_status := pending_status_for_intent (lq_intent req),
       ap_lease_owner := Some (lq_request_id req), ap_lease_expires := Some (now + lifecycle_lease_seconds),
       ap_last_request_id := Some (lq_request_id req), ap_last_error := None, ap_attempt_count := ap_attempt_count p + 1,
       ap_version := ap_version p + 1\<rparr>"

definition claim_lifecycle ::
  "agent_env \<Rightarrow> lifecycle_request \<Rightarrow> string \<Rightarrow> string \<Rightarrow> lifecycle_store \<Rightarrow> claim_result option \<times> lifecycle_store" where
  "claim_lifecycle env req profile_id external_identity s =
     (case insert_profile (new_profile req profile_id external_identity) (\<lambda>p. p) s of
        None \<Rightarrow> (None, s)
      | Some s1 \<Rightarrow>
          (case find_profile profile_id s1 of
             None \<Rightarrow> (None, s1)
           | Some current \<Rightarrow>
               if ap_status current = terminal_status_for_intent (lq_intent req) then (Some (Ck_terminal current), s1)
               else if ap_status current = Ls_deleted then (Some (Ck_deleted current), s1)
               else
                 (let s2 = ln_others env 2 s1 in
                  case find_profile profile_id s2 of
                    Some p \<Rightarrow>
                      if ap_status p \<noteq> Ls_deleted \<and> lease_free (ln_now env) p then
                        (Some (Ck_claimed (ap_status current) (claimed_profile req (ln_now env) p)),
                         update_profile profile_id (claimed_profile req (ln_now env)) s2)
                      else
                        (let s3 = ln_others env 3 s2 in
                         case find_profile profile_id s3 of
                           None \<Rightarrow> (None, s3)
                         | Some busy \<Rightarrow>
                             if ap_status busy = terminal_status_for_intent (lq_intent req) then (Some (Ck_terminal busy), s3)
                             else if ap_status busy = Ls_deleted then (Some (Ck_deleted busy), s3)
                             else if ap_lease_owner busy = Some (lq_request_id req) then (Some (Ck_in_progress busy), s3)
                             else (Some (Ck_busy busy), s3))
                  | None \<Rightarrow> (None, s2))))"

text \<open>What is written for an event; the hashes are of the remote ids, and a blank id has none: its hashing throws.\<close>

definition optional_hash :: "(bytes \<Rightarrow> bytes) \<Rightarrow> string option \<Rightarrow> string option option" where
  "optional_hash sha v =
     (case v of
        None \<Rightarrow> Some None
      | Some r \<Rightarrow> (case hash_lifecycle_reference sha r of Inl _ \<Rightarrow> None | Inr h \<Rightarrow> Some (Some h)))"

definition write_event ::
  "(bytes \<Rightarrow> bytes) \<Rightarrow> agent_env \<Rightarrow> lifecycle_request \<Rightarrow> string \<Rightarrow> agent_status option \<Rightarrow> agent_status \<Rightarrow> lifecycle_outcome
    \<Rightarrow> string option \<Rightarrow> string option \<Rightarrow> string option \<Rightarrow> lifecycle_store \<Rightarrow> lifecycle_event option \<times> lifecycle_store" where
  "write_event sha env req profile_id from_status to_status outcome error_code user_id agent_id s =
     (case (optional_hash sha user_id, optional_hash sha agent_id) of
        (Some user_hash, Some agent_hash) \<Rightarrow>
          (let s1 = insert_event \<lparr>le_profile_id = profile_id, le_request_id = lq_request_id req, le_intent = lq_intent req,
               le_from_status = from_status, le_to_status = to_status, le_outcome = outcome, le_error_code = error_code,
               le_user_hash = user_hash, le_agent_hash = agent_hash, le_reason = lq_reason req\<rparr> (ln_others env 4 s) in
           (find_event s1 (profile_id, lq_request_id req), s1))
      | _ \<Rightarrow> (None, s))"

definition record_denied ::
  "(bytes \<Rightarrow> bytes) \<Rightarrow> agent_env \<Rightarrow> lifecycle_request \<Rightarrow> string \<Rightarrow> string \<Rightarrow> string \<Rightarrow> lifecycle_store
    \<Rightarrow> lifecycle_event option \<times> lifecycle_store" where
  "record_denied sha env req profile_id external_identity error_code s =
     (let noted = (\<lambda>p. p\<lparr>ap_last_request_id := Some (lq_request_id req), ap_last_error := Some error_code\<rparr>) in
      case insert_profile (noted (new_profile req profile_id external_identity)) noted s of
        None \<Rightarrow> (None, s)
      | Some s1 \<Rightarrow>
          (case find_profile profile_id s1 of
             None \<Rightarrow> (None, s1)
           | Some p \<Rightarrow> write_event sha env req profile_id None (ap_status p) Lo_denied (Some error_code) None None s1))"

text \<open>The assignments of the two updates that release the lease.\<close>

definition completed_profile :: "lifecycle_intent \<Rightarrow> string option \<Rightarrow> string option \<Rightarrow> agent_profile \<Rightarrow> agent_profile" where
  "completed_profile i user_id agent_id p =
     p\<lparr>ap_status := terminal_status_for_intent i, ap_user_id := user_id, ap_agent_id := agent_id,
       ap_lease_owner := None, ap_lease_expires := None, ap_last_error := None, ap_version := ap_version p + 1\<rparr>"

definition coalesce :: "'a option \<Rightarrow> 'a option \<Rightarrow> 'a option" where
  "coalesce x y = (case x of Some v \<Rightarrow> Some v | None \<Rightarrow> y)"

definition failed_profile :: "agent_status \<Rightarrow> string \<Rightarrow> string option \<Rightarrow> string option \<Rightarrow> agent_profile \<Rightarrow> agent_profile" where
  "failed_profile status error_code user_id agent_id p =
     p\<lparr>ap_status := status, ap_user_id := coalesce user_id (ap_user_id p), ap_agent_id := coalesce agent_id (ap_agent_id p),
       ap_lease_owner := None, ap_lease_expires := None, ap_last_error := Some error_code, ap_version := ap_version p + 1\<rparr>"

definition finalize_success ::
  "(bytes \<Rightarrow> bytes) \<Rightarrow> agent_env \<Rightarrow> lifecycle_request \<Rightarrow> string \<Rightarrow> agent_status \<Rightarrow> string option \<Rightarrow> string option \<Rightarrow> lifecycle_store
    \<Rightarrow> lifecycle_event option \<times> lifecycle_store" where
  "finalize_success sha env req profile_id from_status user_id agent_id s =
     (case find_profile profile_id s of
        Some p \<Rightarrow>
          if ap_lease_owner p \<noteq> Some (lq_request_id req) then (None, s)
          else
            write_event sha env req profile_id (Some from_status) (terminal_status_for_intent (lq_intent req)) Lo_succeeded None user_id agent_id
              (update_profile profile_id (completed_profile (lq_intent req) user_id agent_id) s)
      | None \<Rightarrow> (None, s))"

definition finalize_failure ::
  "(bytes \<Rightarrow> bytes) \<Rightarrow> agent_env \<Rightarrow> lifecycle_request \<Rightarrow> string \<Rightarrow> agent_status \<Rightarrow> lifecycle_outcome \<Rightarrow> string \<Rightarrow> string option
    \<Rightarrow> string option \<Rightarrow> lifecycle_store \<Rightarrow> lifecycle_event option \<times> lifecycle_store" where
  "finalize_failure sha env req profile_id from_status outcome error_code user_id agent_id s =
     (case find_profile profile_id s of
        Some p \<Rightarrow>
          if ap_lease_owner p \<noteq> Some (lq_request_id req) then (None, s)
          else
            (let status = (if outcome = Lo_retryable_failure then Ls_blocked_retryable else from_status) in
             write_event sha env req profile_id (Some from_status) status outcome (Some error_code) user_id agent_id
               (update_profile profile_id (failed_profile status error_code user_id agent_id) s))
      | None \<Rightarrow> (None, s))"

section \<open>The service\<close>

definition precondition_denial :: "lifecycle_intent \<Rightarrow> authority_snapshot \<Rightarrow> string option" where
  "precondition_denial i a =
     (if \<not> as_account_exists a then Some ''ACCOUNT_NOT_FOUND''
      else if \<not> as_workspace_exists a then Some ''WORKSPACE_NOT_FOUND''
      else if i = Intent_activate \<and> \<not> as_activate_allowed a then Some ''RESEARCH_AGENT_ENTITLEMENT_DENIED''
      else if i = Intent_delete \<and> as_account_status a \<noteq> Some ''closed'' then Some ''ACCOUNT_NOT_CLOSED''
      else None)"

definition result_from_event :: "lifecycle_event \<Rightarrow> agent_desired_state \<Rightarrow> lifecycle_result" where
  "result_from_event e desired =
     (let retry = (le_outcome e = Lo_retryable_failure \<or> le_outcome e = Lo_conflict) in
      \<lparr>lz_desired_state = desired, lz_error_code = le_error_code e, lz_agent_hash = le_agent_hash e, lz_user_hash = le_user_hash e,
       lz_status = le_to_status e, lz_outcome = le_outcome e, lz_profile_id = le_profile_id e, lz_request_id = le_request_id e,
       lz_retryable = retry, lz_retry_with_new_request_id = retry\<rparr>)"

text \<open>The remote transition: what it throws with the ids known by then, or the ids; and the calls made.\<close>

type_synonym reconciliation = "(control_error \<times> string option \<times> string option + string option \<times> string option) \<times> remote_call list"

definition reconcile_user ::
  "(remote_call \<Rightarrow> control_error + string) \<Rightarrow> string option \<Rightarrow> string \<Rightarrow> (control_error + string) \<times> remote_call list" where
  "reconcile_user remote user_id external_identity =
     (case user_id of
        Some u \<Rightarrow> (Inr u, [])
      | None \<Rightarrow> (remote (Rc_provision_user external_identity), [Rc_provision_user external_identity]))"

definition reconcile_remote ::
  "(remote_call \<Rightarrow> control_error + string) \<Rightarrow> lifecycle_intent \<Rightarrow> string option \<Rightarrow> string option \<Rightarrow> string \<Rightarrow> string \<Rightarrow> reconciliation" where
  "reconcile_remote remote i user_id agent_id external_identity agent_external_identity =
     (case i of
        Intent_activate \<Rightarrow>
          (let (r, log) =
             (case user_id of
                Some u \<Rightarrow> (and_then (remote (Rc_set_status u True)) (\<lambda>_. Inr u), [Rc_set_status u True])
              | None \<Rightarrow> reconcile_user remote None external_identity) in
           case r of
             Inl e \<Rightarrow> (Inl (e, user_id, agent_id), log)
           | Inr u \<Rightarrow>
               (case agent_id of
                  Some a \<Rightarrow> (Inr (Some u, Some a), log)
                | None \<Rightarrow>
                    (let call = Rc_provision_agent u agent_external_identity in
                     (case remote call of
                        Inl e \<Rightarrow> Inl (e, Some u, None)
                      | Inr a \<Rightarrow> Inr (Some u, Some a), log @ [call]))))
      | Intent_disable \<Rightarrow>
          (let (r, log) = reconcile_user remote user_id external_identity in
           case r of
             Inl e \<Rightarrow> (Inl (e, user_id, agent_id), log)
           | Inr u \<Rightarrow>
               (case remote (Rc_set_status u False) of
                  Inl e \<Rightarrow> Inl (e, Some u, agent_id)
                | Inr _ \<Rightarrow> Inr (Some u, agent_id), log @ [Rc_set_status u False]))
      | Intent_delete \<Rightarrow>
          (let (r, log) = reconcile_user remote user_id external_identity in
           case r of
             Inl e \<Rightarrow> (Inl (e, user_id, agent_id), log)
           | Inr u \<Rightarrow>
               (case remote (Rc_remove_user u) of
                  Inl e \<Rightarrow> Inl (e, Some u, agent_id)
                | Inr _ \<Rightarrow> Inr (None, None), log @ [Rc_remove_user u])))"

definition lifecycle_code_text :: "lifecycle_code \<Rightarrow> string" where
  "lifecycle_code_text c =
     (case c of
        Control_auth_rejected \<Rightarrow> ''FASTCLAW_AUTH_REJECTED''
      | Control_conflict \<Rightarrow> ''FASTCLAW_CONFLICT''
      | Control_http_error \<Rightarrow> ''FASTCLAW_HTTP_ERROR''
      | Control_not_found \<Rightarrow> ''FASTCLAW_NOT_FOUND''
      | Control_rate_limited \<Rightarrow> ''FASTCLAW_RATE_LIMITED''
      | Control_response_invalid \<Rightarrow> ''FASTCLAW_RESPONSE_INVALID''
      | Control_unavailable \<Rightarrow> ''FASTCLAW_UNAVAILABLE''
      | Invalid_lifecycle_config \<Rightarrow> ''INVALID_LIFECYCLE_CONFIG''
      | Invalid_lifecycle_input \<Rightarrow> ''INVALID_LIFECYCLE_INPUT'')"

definition failure_code :: "control_error \<Rightarrow> string" where
  "failure_code e = (case e of Lifecycle_error c _ \<Rightarrow> lifecycle_code_text c | Other_error \<Rightarrow> ''RESEARCH_AGENT_LIFECYCLE_FAILED'')"

definition failure_outcome :: "control_error \<Rightarrow> lifecycle_outcome" where
  "failure_outcome e = (case e of Lifecycle_error _ True \<Rightarrow> Lo_retryable_failure | _ \<Rightarrow> Lo_internal_failure)"

text \<open>A result that is not made of an event.\<close>

definition plain_result ::
  "lifecycle_request \<Rightarrow> string \<Rightarrow> agent_desired_state \<Rightarrow> string \<Rightarrow> agent_status \<Rightarrow> lifecycle_outcome \<Rightarrow> bool \<Rightarrow> string option
    \<Rightarrow> string option \<Rightarrow> lifecycle_result" where
  "plain_result req profile_id desired code status outcome retryable user_hash agent_hash =
     \<lparr>lz_desired_state = desired, lz_error_code = Some code, lz_agent_hash = agent_hash, lz_user_hash = user_hash, lz_status = status,
      lz_outcome = outcome, lz_profile_id = profile_id, lz_request_id = lq_request_id req, lz_retryable = retryable,
      lz_retry_with_new_request_id = False\<rparr>"

definition profile_id_of :: "string \<Rightarrow> string" where
  "profile_id_of external_identity = ''research_agent_profile_'' @ drop 12 external_identity"

text \<open>The outcome of an execution: \<open>None\<close> where it throws; the remote calls made; the store.\<close>

type_synonym agent_control_run = "lifecycle_result option \<times> remote_call list \<times> lifecycle_store"

definition event_run :: "lifecycle_request \<Rightarrow> remote_call list \<Rightarrow> lifecycle_event option \<times> lifecycle_store \<Rightarrow> agent_control_run" where
  "event_run req log x =
     (map_option (\<lambda>e. result_from_event e (desired_state_for_intent (lq_intent req))) (fst x), log, snd x)"

text \<open>A claimed profile is reconciled; a success that cannot be finalised is finalised as a failure.\<close>

definition run_claimed ::
  "(bytes \<Rightarrow> bytes) \<Rightarrow> agent_env \<Rightarrow> lifecycle_request \<Rightarrow> string \<Rightarrow> string \<Rightarrow> string \<Rightarrow> agent_status \<Rightarrow> agent_profile
    \<Rightarrow> lifecycle_store \<Rightarrow> agent_control_run" where
  "run_claimed sha env req profile_id external_identity agent_external_identity previous p s =
     (let (r, log) = reconcile_remote (ln_remote env) (lq_intent req) (ap_user_id p) (ap_agent_id p) external_identity agent_external_identity in
      event_run req log
        (case r of
           Inl (e, user_id, agent_id) \<Rightarrow>
             finalize_failure sha env req profile_id previous (failure_outcome e) (failure_code e) user_id agent_id s
         | Inr (user_id, agent_id) \<Rightarrow>
             (case finalize_success sha env req profile_id previous user_id agent_id s of
                (Some e, s1) \<Rightarrow> (Some e, s1)
              | (None, s1) \<Rightarrow>
                  (let e = (if optional_hash sha user_id = None \<or> optional_hash sha agent_id = None
                      then Lifecycle_error Invalid_lifecycle_input False else Other_error) in
                   finalize_failure sha env req profile_id previous (failure_outcome e) (failure_code e) (ap_user_id p) (ap_agent_id p) s1))))"

definition run_claim ::
  "(bytes \<Rightarrow> bytes) \<Rightarrow> agent_env \<Rightarrow> lifecycle_request \<Rightarrow> string \<Rightarrow> string \<Rightarrow> string \<Rightarrow> claim_result option \<times> lifecycle_store
    \<Rightarrow> agent_control_run" where
  "run_claim sha env req profile_id external_identity agent_external_identity c =
     (let s = snd c; i = lq_intent req; note = (\<lambda>outcome code p. event_run req []
        (write_event sha env req profile_id (Some (ap_status p)) (ap_status p) outcome code (ap_user_id p) (ap_agent_id p) s)) in
      case fst c of
        None \<Rightarrow> (None, [], s)
      | Some (Ck_in_progress p) \<Rightarrow>
          (case (optional_hash sha (ap_agent_id p), optional_hash sha (ap_user_id p)) of
             (Some agent_hash, Some user_hash) \<Rightarrow>
               (Some (plain_result req profile_id (desired_state_for_intent i) ''LIFECYCLE_REQUEST_IN_PROGRESS'' (ap_status p) Lo_conflict True
                  user_hash agent_hash), [], s)
           | _ \<Rightarrow> (None, [], s))
      | Some (Ck_deleted p) \<Rightarrow> note Lo_denied (Some ''RESEARCH_AGENT_PROFILE_DELETED'') p
      | Some (Ck_busy p) \<Rightarrow> note Lo_conflict (Some ''LIFECYCLE_LEASE_BUSY'') p
      | Some (Ck_terminal p) \<Rightarrow> note Lo_succeeded None p
      | Some (Ck_claimed previous p) \<Rightarrow> run_claimed sha env req profile_id external_identity agent_external_identity previous p s)"

definition execute_lifecycle ::
  "(bytes \<Rightarrow> bytes) \<Rightarrow> agent_env \<Rightarrow> lifecycle_request \<Rightarrow> lifecycle_store \<Rightarrow> agent_control_run" where
  "execute_lifecycle sha env req s =
     (case (derive_external_identity sha (lq_workspace_id req) (lq_account_id req),
        derive_agent_external_identity sha (lq_workspace_id req) (lq_account_id req)) of
        (Inr external_identity, Inr agent_external_identity) \<Rightarrow>
          (let profile_id = profile_id_of external_identity; desired = desired_state_for_intent (lq_intent req) in
           case find_event s (profile_id, lq_request_id req) of
             Some replay \<Rightarrow>
               if le_intent replay \<noteq> lq_intent req then
                 (Some (plain_result req profile_id desired ''LIFECYCLE_REQUEST_MISMATCH'' (le_to_status replay) Lo_conflict False None None), [], s)
               else (Some (result_from_event replay desired), [], s)
           | None \<Rightarrow>
               (case ln_authority env of
                  None \<Rightarrow> (None, [], s)
                | Some row \<Rightarrow>
                    (let s1 = ln_others env 1 s in
                     case precondition_denial (lq_intent req) (authority_snapshot_of row) of
                       Some code \<Rightarrow>
                         if code = ''ACCOUNT_NOT_FOUND'' \<or> code = ''WORKSPACE_NOT_FOUND'' then
                           (Some (plain_result req profile_id Desired_disabled code Ls_disabled Lo_denied False None None), [], s1)
                         else event_run req [] (record_denied sha env req profile_id external_identity code s1)
                     | None \<Rightarrow>
                         run_claim sha env req profile_id external_identity agent_external_identity
                           (claim_lifecycle env req profile_id external_identity s1))))
      | _ \<Rightarrow> (None, [], s))"

section \<open>The transaction\<close>

record lifecycle_bindings =
  lb_connection_string :: "string option"
  lb_control_service :: bool
  lb_shared_token :: "string option"
  lb_admin_api_key :: "string option"
  lb_base_url :: "string option"
  lb_template_agent_id :: "string option"

definition blank_binding :: "string option \<Rightarrow> bool" where
  "blank_binding v \<longleftrightarrow> (case v of None \<Rightarrow> True | Some t \<Rightarrow> js_trim t = [])"

definition bindings_usable :: "lifecycle_bindings \<Rightarrow> bool" where
  "bindings_usable b \<longleftrightarrow>
     \<not> blank_binding (lb_connection_string b) \<and>
     (lb_control_service b \<or> 32 \<le> (case lb_shared_token b of None \<Rightarrow> 0 | Some t \<Rightarrow> length t)) \<and>
     \<not> blank_binding (lb_admin_api_key b) \<and> \<not> blank_binding (lb_base_url b) \<and> \<not> blank_binding (lb_template_agent_id b)"

text \<open>Where a statement of the transaction fails: before the remote calls, or after them.\<close>

datatype database_fault = Fault_before_remote | Fault_after_remote

definition the_binding :: "string option \<Rightarrow> string" where
  "the_binding v = (case v of None \<Rightarrow> [] | Some t \<Rightarrow> t)"

definition run_research_agent_lifecycle ::
  "(bytes \<Rightarrow> bytes) \<Rightarrow> (bytes \<Rightarrow> string) \<Rightarrow> (control_request \<Rightarrow> control_response option) \<Rightarrow> lifecycle_bindings
    \<Rightarrow> (string \<times> string) option \<Rightarrow> database_fault option \<Rightarrow> agent_env \<Rightarrow> lifecycle_request \<Rightarrow> lifecycle_store \<Rightarrow> agent_control_run" where
  "run_research_agent_lifecycle sha decode fetch b url fault env req s =
     (if \<not> bindings_usable b \<or> fault = Some Fault_before_remote then (None, [], s)
      else
        (case new_control_client \<lparr>cg_admin_api_key = the_binding (lb_admin_api_key b), cg_base_url = the_binding (lb_base_url b), cg_url = url,
            cg_template_agent_id = the_binding (lb_template_agent_id b), cg_timeout_ms = None\<rparr> of
           Inl _ \<Rightarrow> (None, [], s)
         | Inr client \<Rightarrow>
             (let (r, log, s1) = execute_lifecycle sha (env\<lparr>ln_remote := client_remote decode fetch client\<rparr>) req s in
              if r = None \<or> fault = Some Fault_after_remote then (None, log, s) else (r, log, s1))))"

section \<open>The rows\<close>

lemma find_map_same:
  "(\<And>x. f (g x) = f x) \<Longrightarrow> List.find (\<lambda>x. f x = k) (map g xs) = map_option g (List.find (\<lambda>x. f x = k) xs)"
  by (induction xs) auto

lemma find_append: "List.find P (xs @ ys) = (case List.find P xs of Some x \<Rightarrow> Some x | None \<Rightarrow> List.find P ys)"
  by (induction xs) auto

lemma find_profile_id: "find_profile i s = Some p \<Longrightarrow> ap_profile_id p = i"
  by (auto simp: find_profile_def find_Some_iff)

lemma find_profile_update [simp]:
  assumes "\<And>p. ap_profile_id (f p) = ap_profile_id p"
  shows "find_profile k (update_profile i f s) = map_option (\<lambda>p. if k = i then f p else p) (find_profile k s)"
proof -
  have "find_profile k (update_profile i f s) = map_option (\<lambda>p. if ap_profile_id p = i then f p else p) (find_profile k s)"
    unfolding find_profile_def update_profile_def by (simp add: find_map_same assms)
  also have "\<dots> = map_option (\<lambda>p. if k = i then f p else p) (find_profile k s)"
    by (cases "find_profile k s") (simp_all add: find_profile_id)
  finally show ?thesis .
qed

lemma events_of_profiles [simp]: "find_event (update_profile i f s) = find_event s"
  by (auto simp: find_event_def update_profile_def fun_eq_iff)

lemma profiles_of_events [simp]: "find_profile i (insert_event e s) = find_profile i s"
  by (simp add: find_profile_def insert_event_def)

interpretation events: first_write_store find_event "\<lambda>e. (le_profile_id e, le_request_id e)" insert_event
  by unfold_locales (auto simp: find_event_def insert_event_def find_append split: option.split)

lemma find_event_key: "find_event s k = Some e \<Longrightarrow> (le_profile_id e, le_request_id e) = k"
  by (auto simp: find_event_def find_Some_iff)

lemma insert_profile_keeps:
  assumes "insert_profile new f s = Some s1" and "\<And>p. ap_profile_id (f p) = ap_profile_id p"
  shows "find_event s1 = find_event s"
    and "find_profile i s = Some p \<Longrightarrow> find_profile i s1 = Some p \<or> find_profile i s1 = Some (f p)"
proof -
  show "find_event s1 = find_event s"
    using assms(1) by (auto simp: insert_profile_def find_event_def fun_eq_iff split: if_splits)
  assume p: "find_profile i s = Some p"
  consider "s1 = s\<lparr>sr_profiles := map (\<lambda>p. if owned_by (ap_workspace_id new) (ap_account_id new) p then f p else p) (sr_profiles s)\<rparr>"
    | "s1 = s\<lparr>sr_profiles := sr_profiles s @ [new]\<rparr>"
    using assms(1) by (auto simp: insert_profile_def split: if_splits)
  then show "find_profile i s1 = Some p \<or> find_profile i s1 = Some (f p)"
  proof cases
    case 1
    have "find_profile i s1 = map_option (\<lambda>p. if owned_by (ap_workspace_id new) (ap_account_id new) p then f p else p) (find_profile i s)"
      unfolding 1 find_profile_def by (simp add: find_map_same assms(2))
    with p show ?thesis by simp
  next
    case 2
    with p show ?thesis by (simp add: find_profile_def find_append)
  qed
qed

section \<open>What a request stores\<close>

lemma write_event_stored:
  assumes "write_event sha env req i from_status to_status outcome code user_id agent_id s = (e, s1)"
  shows "\<And>x. e = Some x \<Longrightarrow> find_event s1 (i, lq_request_id req) = Some x"
    and "find_profile j s1 = find_profile j s \<or> find_profile j s1 = find_profile j (ln_others env 4 s)"
    and "e \<noteq> None \<Longrightarrow> find_profile j s1 = find_profile j (ln_others env 4 s)"
  using assms by (auto simp: write_event_def Let_def split: option.splits)

lemma write_event_fails:
  assumes "write_event sha env req i from_status to_status outcome code user_id agent_id s = (None, s1)"
  shows "s1 = s"
  using assms by (auto simp: write_event_def Let_def events.lookup_insert split: option.splits if_splits)

text \<open>Every event of the request in the store is of its intent.\<close>

definition events_agree :: "string \<Rightarrow> lifecycle_request \<Rightarrow> lifecycle_store \<Rightarrow> bool" where
  "events_agree i req s \<longleftrightarrow> (\<forall>e. find_event s (i, lq_request_id req) = Some e \<longrightarrow> le_intent e = lq_intent req)"

lemma write_event_agrees:
  assumes "write_event sha env req i from_status to_status outcome code user_id agent_id s = (e, s1)"
    and "events_agree i req s" and "\<And>k t. events_agree i req t \<Longrightarrow> events_agree i req (ln_others env k t)"
  shows "events_agree i req s1"
  using assms(1,2) assms(3) [OF assms(2), of 4]
  by (auto simp: write_event_def events_agree_def events.lookup_insert Let_def split: option.splits if_splits)

text \<open>What a claim keeps of the store.\<close>

lemma claim_keeps:
  assumes "claim_lifecycle env req i ext s = (c, s1)" and "J s"
    and "\<And>s'. insert_profile (new_profile req i ext) (\<lambda>p. p) s = Some s' \<Longrightarrow> J s'"
    and "\<And>k t. J t \<Longrightarrow> J (ln_others env k t)"
    and "\<And>t p. J t \<Longrightarrow> find_profile i t = Some p \<Longrightarrow> ap_status p \<noteq> Ls_deleted \<Longrightarrow> lease_free (ln_now env) p \<Longrightarrow>
      J (update_profile i (claimed_profile req (ln_now env)) t)"
  shows "J s1"
proof (cases "insert_profile (new_profile req i ext) (\<lambda>p. p) s")
  case None
  with assms(1,2) show ?thesis by (simp add: claim_lifecycle_def)
next
  case (Some s')
  note j = assms(3) [OF Some]
  from j have j2: "J (ln_others env 2 s')" by (rule assms(4))
  then have j3: "J (ln_others env 3 (ln_others env 2 s'))" by (rule assms(4))
  show ?thesis using assms(1) j j2 j3 assms(5) [OF j2]
    by (auto simp: claim_lifecycle_def Some Let_def split: option.splits if_splits)
qed

lemma claim_outcome:
  assumes "claim_lifecycle env req i ext s = (c, s1)"
  shows "c = Some (Ck_claimed previous p) \<Longrightarrow> previous \<noteq> terminal_status_for_intent (lq_intent req) \<and> previous \<noteq> Ls_deleted \<and>
      find_profile i s1 = Some p \<and> (\<exists>s' p0. insert_profile (new_profile req i ext) (\<lambda>p. p) s = Some s' \<and>
        find_profile i (ln_others env 2 s') = Some p0 \<and> p = claimed_profile req (ln_now env) p0 \<and> ap_status p0 \<noteq> Ls_deleted \<and>
        lease_free (ln_now env) p0 \<and> (\<exists>p1. find_profile i s' = Some p1 \<and> previous = ap_status p1))"
    and "c = Some (Ck_deleted p) \<Longrightarrow> find_profile i s1 = Some p \<and> ap_status p = Ls_deleted"
    and "c = Some (Ck_terminal p) \<Longrightarrow> find_profile i s1 = Some p \<and> ap_status p = terminal_status_for_intent (lq_intent req)"
    and "c = Some (Ck_busy p) \<Longrightarrow> find_profile i s1 = Some p"
  using assms
  by (auto simp: claim_lifecycle_def Let_def claimed_profile_def split: option.splits if_splits)

lemma claim_agrees:
  assumes "claim_lifecycle env req i ext s = (c, s1)" and "events_agree i req s"
    and "\<And>k t. events_agree i req t \<Longrightarrow> events_agree i req (ln_others env k t)"
  shows "events_agree i req s1"
  using assms(1,2)
proof (rule claim_keeps [where J = "events_agree i req"])
  show "events_agree i req s'" if "insert_profile (new_profile req i ext) (\<lambda>p. p) s = Some s'" for s'
    using assms(2) insert_profile_keeps(1) [OF that] by (simp add: events_agree_def)
qed (use assms(3) in \<open>simp_all add: events_agree_def\<close>)

lemma profile_updates [simp]:
  "ap_profile_id (completed_profile x u a p) = ap_profile_id p" "ap_profile_id (failed_profile st code u a p) = ap_profile_id p"
  "ap_profile_id (claimed_profile req now p) = ap_profile_id p" "ap_lease_owner (completed_profile x u a p) = None"
  "ap_lease_owner (claimed_profile req now p) = Some (lq_request_id req)"
  "ap_status (claimed_profile req now p) = pending_status_for_intent (lq_intent req)"
  "ap_status (completed_profile x u a p) = terminal_status_for_intent x" "ap_status (failed_profile st code u a p) = st"
  "ap_user_id (claimed_profile req now p) = ap_user_id p" "ap_agent_id (claimed_profile req now p) = ap_agent_id p"
  "ap_user_id (completed_profile x u a p) = u" "ap_agent_id (completed_profile x u a p) = a"
  by (simp_all add: completed_profile_def failed_profile_def claimed_profile_def)

lemma run_claimed_Some [consumes 3, case_names failed completed]:
  assumes "run_claimed sha env req i ext agent_ext previous p s = (Some r, log, s1)" and "find_profile i s = Some p"
    and "ap_lease_owner p = Some (lq_request_id req)"
  obtains e u a ev st where "reconcile_remote (ln_remote env) (lq_intent req) (ap_user_id p) (ap_agent_id p) ext agent_ext = (Inl (e, u, a), log)"
    "st = (if failure_outcome e = Lo_retryable_failure then Ls_blocked_retryable else previous)"
    "write_event sha env req i (Some previous) st (failure_outcome e) (Some (failure_code e)) u a
       (update_profile i (failed_profile st (failure_code e) u a) s) = (Some ev, s1)"
    "r = result_from_event ev (desired_state_for_intent (lq_intent req))"
  | u a ev where "reconcile_remote (ln_remote env) (lq_intent req) (ap_user_id p) (ap_agent_id p) ext agent_ext = (Inr (u, a), log)"
    "write_event sha env req i (Some previous) (terminal_status_for_intent (lq_intent req)) Lo_succeeded None u a
       (update_profile i (completed_profile (lq_intent req) u a) s) = (Some ev, s1)"
    "r = result_from_event ev (desired_state_for_intent (lq_intent req))"
proof -
  note failed = that(1) and completed = that(2)
  obtain x log' where x: "reconcile_remote (ln_remote env) (lq_intent req) (ap_user_id p) (ap_agent_id p) ext agent_ext = (x, log')" by force
  have l: "log' = log" using assms(1) by (simp add: run_claimed_def x event_run_def)
  show thesis
  proof (cases x)
    case (Inl y)
    obtain e u a where y: "y = (e, u, a)" by (cases y)
    let ?st = "if failure_outcome e = Lo_retryable_failure then Ls_blocked_retryable else previous"
    obtain ev s' where w: "write_event sha env req i (Some previous) ?st (failure_outcome e) (Some (failure_code e)) u a
        (update_profile i (failed_profile ?st (failure_code e) u a) s) = (ev, s')" by force
    with assms show thesis using x
      by (intro failed [of e u a ?st "the ev"]) (auto simp: Inl y l run_claimed_def event_run_def finalize_failure_def Let_def)
  next
    case (Inr y)
    obtain u a where y: "y = (u, a)" by force
    obtain ev s' where w: "write_event sha env req i (Some previous) (terminal_status_for_intent (lq_intent req)) Lo_succeeded None u a
        (update_profile i (completed_profile (lq_intent req) u a) s) = (ev, s')" by force
    have "ev \<noteq> None"
    proof
      assume n: "ev = None"
      with w have "s' = update_profile i (completed_profile (lq_intent req) u a) s" by (simp add: write_event_fails)
      then show False using assms n w x
        by (simp add: Inr y run_claimed_def event_run_def finalize_success_def finalize_failure_def Let_def)
    qed
    with assms w show thesis using x
      by (intro completed [of u a "the ev"]) (auto simp: Inr y l run_claimed_def event_run_def finalize_success_def)
  qed
qed

section \<open>The ways of an execution\<close>

text \<open>The profile of the owner of a request.\<close>

definition request_identity :: "(bytes \<Rightarrow> bytes) \<Rightarrow> lifecycle_request \<Rightarrow> string \<Rightarrow> bool" where
  "request_identity sha req ext \<longleftrightarrow> derive_external_identity sha (lq_workspace_id req) (lq_account_id req) = Inr ext"

lemma execute_cases [consumes 1, case_names early replayed refused denied claimed]:
  assumes "execute_lifecycle sha env req s = (r, log, s1)"
  obtains "r = None" "log = []" "s1 = s"
  | ext ev where "request_identity sha req ext" "find_event s (profile_id_of ext, lq_request_id req) = Some ev" "log = []" "s1 = s"
      "r = Some (if le_intent ev \<noteq> lq_intent req then
         plain_result req (profile_id_of ext) (desired_state_for_intent (lq_intent req)) ''LIFECYCLE_REQUEST_MISMATCH'' (le_to_status ev) Lo_conflict False None None
         else result_from_event ev (desired_state_for_intent (lq_intent req)))"
  | ext code where "request_identity sha req ext" "code = ''ACCOUNT_NOT_FOUND'' \<or> code = ''WORKSPACE_NOT_FOUND''" "log = []"
      "s1 = ln_others env 1 s" "r = Some (plain_result req (profile_id_of ext) Desired_disabled code Ls_disabled Lo_denied False None None)"
  | ext code ev where "request_identity sha req ext" "find_event s (profile_id_of ext, lq_request_id req) = None" "log = []"
      "record_denied sha env req (profile_id_of ext) ext code (ln_others env 1 s) = (ev, s1)"
      "r = map_option (\<lambda>e. result_from_event e (desired_state_for_intent (lq_intent req))) ev"
      "code = ''RESEARCH_AGENT_ENTITLEMENT_DENIED'' \<or> code = ''ACCOUNT_NOT_CLOSED''"
  | ext agent_ext row c s2 where "request_identity sha req ext" "find_event s (profile_id_of ext, lq_request_id req) = None"
      "agent_ext = ''aiphabee-agent:v1:'' @ drop 12 ext"
      "ln_authority env = Some row" "precondition_denial (lq_intent req) (authority_snapshot_of row) = None"
      "claim_lifecycle env req (profile_id_of ext) ext (ln_others env 1 s) = (c, s2)"
      "run_claim sha env req (profile_id_of ext) ext agent_ext (c, s2) = (r, log, s1)"
proof -
  note early = that(1) and replayed = that(2) and refused = that(3) and denied = that(4) and claimed = that(5)
  show thesis
  proof (cases "derive_external_identity sha (lq_workspace_id req) (lq_account_id req)")
    case (Inl e)
    with assms show thesis by (intro early) (auto simp: execute_lifecycle_def split: sum.splits)
  next
    case (Inr ext)
    then have i: "request_identity sha req ext" by (simp add: request_identity_def)
    have a: "derive_agent_external_identity sha (lq_workspace_id req) (lq_account_id req) = Inr (''aiphabee-agent:v1:'' @ drop 12 ext)"
      by (simp add: derive_agent_external_identity_def Inr)
    note ex = assms [unfolded execute_lifecycle_def Inr a sum.case prod.case Let_def]
    show thesis
    proof (cases "find_event s (profile_id_of ext, lq_request_id req)")
      case (Some ev)
      with ex show thesis by (intro replayed [OF i Some]) (auto split: if_splits)
    next
      case None
      note n = this
      show thesis
      proof (cases "ln_authority env")
        case None
        with ex n show thesis by (intro early) auto
      next
        case (Some row)
        show thesis
        proof (cases "precondition_denial (lq_intent req) (authority_snapshot_of row)")
          case None
          obtain c s2 where "claim_lifecycle env req (profile_id_of ext) ext (ln_others env 1 s) = (c, s2)" by force
          with ex n Some None show thesis by (intro claimed [OF i n refl Some None]) auto
        next
          case (Some code)
          show thesis
          proof (cases "code = ''ACCOUNT_NOT_FOUND'' \<or> code = ''WORKSPACE_NOT_FOUND''")
            case True
            then show thesis using ex n \<open>ln_authority env = Some row\<close> Some by (intro refused [OF i True]) simp_all
          next
            case False
            obtain ev s2 where "record_denied sha env req (profile_id_of ext) ext code (ln_others env 1 s) = (ev, s2)" by force
            moreover have "code = ''RESEARCH_AGENT_ENTITLEMENT_DENIED'' \<or> code = ''ACCOUNT_NOT_CLOSED''"
              using Some False by (auto simp: precondition_denial_def split: if_splits)
            ultimately show thesis using ex n \<open>ln_authority env = Some row\<close> Some False
              by (intro denied [OF i n, of code ev]) (simp_all add: event_run_def)
          qed
        qed
      qed
    qed
  qed
qed

lemma run_claim_log:
  assumes "run_claim sha env req i ext agent_ext (c, s2) = (r, log, s1)" and "log \<noteq> []"
  shows "\<exists>previous p. c = Some (Ck_claimed previous p) \<and>
    log = snd (reconcile_remote (ln_remote env) (lq_intent req) (ap_user_id p) (ap_agent_id p) ext agent_ext)"
  using assms
  by (auto simp: run_claim_def event_run_def run_claimed_def Let_def split_beta split: option.splits claim_result.splits)

text \<open>An execution that answers with an event has stored it.\<close>

lemma run_claim_event:
  assumes "run_claim sha env req i ext agent_ext (c, s2) = (Some r, log, s1)" and "claim_lifecycle env req i ext s = (c, s2)"
    and "lz_error_code r \<noteq> Some ''LIFECYCLE_REQUEST_IN_PROGRESS''"
  obtains s3 st0 st outcome code u a ev where "write_event sha env req i st0 st outcome code u a s3 = (Some ev, s1)"
    "find_event s3 = find_event s2" "r = result_from_event ev (desired_state_for_intent (lq_intent req))"
proof (cases c)
  case None
  with assms(1) show thesis by (simp add: run_claim_def)
next
  case (Some d)
  note result = that
  have note': thesis if "event_run req [] (write_event sha env req i st0 st outcome code u a s2) = (Some r, log, s1)" for st0 st outcome code u a
    using that by (cases "write_event sha env req i st0 st outcome code u a s2") (auto simp: event_run_def intro: result)
  show thesis
  proof (cases d)
    case (Ck_claimed previous p)
    have "find_profile i s2 = Some p" "ap_lease_owner p = Some (lq_request_id req)"
      using claim_outcome(1) [OF assms(2), of previous p] by (auto simp: Some Ck_claimed)
    moreover have "run_claimed sha env req i ext agent_ext previous p s2 = (Some r, log, s1)"
      using assms(1) by (simp add: run_claim_def Some Ck_claimed)
    ultimately show thesis
      by (elim run_claimed_Some) (auto intro!: result)
  next
    case (Ck_in_progress p)
    with assms(1,3) show thesis by (auto simp: run_claim_def Some plain_result_def split: option.splits)
  next
    case (Ck_busy p)
    with assms(1) show thesis by (intro note') (simp add: run_claim_def Some)
  next
    case (Ck_deleted p)
    with assms(1) show thesis by (intro note') (simp add: run_claim_def Some)
  next
    case (Ck_terminal p)
    with assms(1) show thesis by (intro note') (simp add: run_claim_def Some)
  qed
qed

lemma stored_replay:
  assumes "request_identity sha req ext" and "find_event s (profile_id_of ext, lq_request_id req) = Some e"
    and "events_agree (profile_id_of ext) req s"
  shows "execute_lifecycle sha env req s = (Some (result_from_event e (desired_state_for_intent (lq_intent req))), [], s)"
proof -
  have "le_intent e = lq_intent req" using assms(2,3) by (simp add: events_agree_def)
  then show ?thesis using assms(1,2)
    by (simp add: execute_lifecycle_def request_identity_def derive_agent_external_identity_def Let_def)
qed

lemma denied_agrees:
  assumes "record_denied sha env req i ext code s = (Some e, s1)" and "events_agree i req s"
    and "\<And>k t. events_agree i req t \<Longrightarrow> events_agree i req (ln_others env k t)"
  shows "find_event s1 (i, lq_request_id req) = Some e" and "events_agree i req s1"
proof -
  let ?f = "\<lambda>p. p\<lparr>ap_last_request_id := Some (lq_request_id req), ap_last_error := Some code\<rparr>"
  obtain s2 and p :: agent_profile where s2: "insert_profile (?f (new_profile req i ext)) ?f s = Some s2"
    and w: "write_event sha env req i None (ap_status p) Lo_denied (Some code) None None s2 = (Some e, s1)"
    using assms(1) by (auto simp: record_denied_def Let_def split: option.splits)
  have "events_agree i req s2" using assms(2) insert_profile_keeps(1) [OF s2] by (simp add: events_agree_def)
  with write_event_agrees [OF w _ assms(3)] show "events_agree i req s1" by blast
  show "find_event s1 (i, lq_request_id req) = Some e" using write_event_stored(1) [OF w] by simp
qed

end
