(* ===== verification/Agent_Reconciliation.thy ===== *)
theory Agent_Reconciliation
  imports Agent_Lifecycle
begin

text \<open>
  What the life cycle of research agents guarantees (\<open>apps/worker/src/research-agent-lifecycle.ts\<close>): which remote calls an execution may
  make, what a success says of the remote and of the row, that a deleted profile stays deleted, and that no lease is ever committed;
  and what a partly failed activation leaves behind.
\<close>

section \<open>Replays\<close>

lemma request_replays:
  assumes "execute_lifecycle sha env req s = (Some r, log, s1)"
    and "lz_error_code r \<noteq> Some ''ACCOUNT_NOT_FOUND''" and "lz_error_code r \<noteq> Some ''WORKSPACE_NOT_FOUND''"
    and "lz_error_code r \<noteq> Some ''LIFECYCLE_REQUEST_IN_PROGRESS''"
    and "\<And>k t i. events_agree i req t \<Longrightarrow> events_agree i req (ln_others env k t)"
  shows "execute_lifecycle sha env' req s1 = (Some r, [], s1)"
  using assms(1)
proof (cases rule: execute_cases)
  case early
  then show ?thesis by simp
next
  case (replayed ext ev)
  then show ?thesis
    by (simp add: execute_lifecycle_def request_identity_def derive_agent_external_identity_def Let_def)
next
  case (refused ext code)
  then show ?thesis using assms(2,3) by (auto simp: plain_result_def)
next
  case (denied ext code ev)
  have "events_agree (profile_id_of ext) req (ln_others env 1 s)"
    using denied(2) by (intro assms(5)) (simp add: events_agree_def)
  moreover obtain e where e: "ev = Some e" and r: "r = result_from_event e (desired_state_for_intent (lq_intent req))"
    using denied(5) by (cases ev) auto
  ultimately have "find_event s1 (profile_id_of ext, lq_request_id req) = Some e" "events_agree (profile_id_of ext) req s1"
    using denied_agrees [of sha env req "profile_id_of ext" ext code "ln_others env 1 s" e s1] denied(4) assms(5) by blast+
  then show ?thesis unfolding r by (intro stored_replay [OF denied(1)])
next
  case (claimed ext agent_ext row c s2)
  have "events_agree (profile_id_of ext) req (ln_others env 1 s)"
    using claimed(2) by (intro assms(5)) (simp add: events_agree_def)
  then have a: "events_agree (profile_id_of ext) req s2" using claim_agrees [OF claimed(6)] assms(5) by blast
  from claimed(7,6) assms(4) show ?thesis
  proof (rule run_claim_event)
    fix s3 st0 st outcome code u a ev
    assume w: "write_event sha env req (profile_id_of ext) st0 st outcome code u a s3 = (Some ev, s1)" and e: "find_event s3 = find_event s2"
      and r: "r = result_from_event ev (desired_state_for_intent (lq_intent req))"
    have "events_agree (profile_id_of ext) req s3" using a e by (simp add: events_agree_def)
    with write_event_agrees [OF w] assms(5) have "events_agree (profile_id_of ext) req s1" by blast
    with write_event_stored(1) [OF w refl] claimed(1) show ?thesis by (simp add: r stored_replay)
  qed
qed


section \<open>Which calls are made\<close>

text \<open>The calls that an intent may make for the owner with these identities.\<close>

definition call_within :: "lifecycle_intent \<Rightarrow> string \<Rightarrow> string \<Rightarrow> remote_call \<Rightarrow> bool" where
  "call_within i ext agent_ext call \<longleftrightarrow>
     (case call of
        Rc_provision_user e \<Rightarrow> e = ext
      | Rc_provision_agent u e \<Rightarrow> i = Intent_activate \<and> e = agent_ext
      | Rc_set_status u active \<Rightarrow> i = Intent_activate \<and> active \<or> i = Intent_disable \<and> \<not> active
      | Rc_remove_user u \<Rightarrow> i = Intent_delete)"

lemma reconcile_user_calls: "reconcile_user remote u ext = (r, log) \<Longrightarrow> list_all (call_within i ext agent_ext) log"
  by (auto simp: reconcile_user_def call_within_def split: option.splits)

lemma reconcile_calls:
  assumes "reconcile_remote remote i u a ext agent_ext = (r, log)"
  shows "list_all (call_within i ext agent_ext) log"
proof (cases i)
  case Intent_activate
  with assms show ?thesis
    by (auto simp: reconcile_remote_def reconcile_user_def call_within_def Let_def split: option.splits sum.splits)
next
  case Intent_disable
  obtain x l where x: "reconcile_user remote u ext = (x, l)" by force
  from reconcile_user_calls [OF x] assms show ?thesis
    by (auto simp: reconcile_remote_def Intent_disable x call_within_def split: sum.splits)
next
  case Intent_delete
  obtain x l where x: "reconcile_user remote u ext = (x, l)" by force
  from reconcile_user_calls [OF x] assms show ?thesis
    by (auto simp: reconcile_remote_def Intent_delete x call_within_def split: sum.splits)
qed

text \<open>What the database says of the owner for an intent to be carried out.\<close>

definition intent_authorized :: "lifecycle_intent \<Rightarrow> authority_row \<Rightarrow> bool" where
  "intent_authorized i row \<longleftrightarrow>
     ar_account_exists row \<and> ar_workspace_exists row \<and>
     (case i of
        Intent_activate \<Rightarrow>
          ar_account_status row = Some ''active'' \<and> ar_workspace_status row = Some ''active'' \<and> ar_membership_active row \<and>
          ar_subscription_active row \<and> ar_product_access_active row \<and> ar_entitlement_approved row
      | Intent_disable \<Rightarrow> True
      | Intent_delete \<Rightarrow> ar_account_status row = Some ''closed'')"

lemma no_denial_iff: "precondition_denial i (authority_snapshot_of row) = None \<longleftrightarrow> intent_authorized i row"
  by (cases i) (auto simp: precondition_denial_def authority_snapshot_of_def intent_authorized_def)

lemma execute_log:
  assumes "execute_lifecycle sha env req s = (r, log, s1)" and "log \<noteq> []"
  shows "\<exists>ext row. request_identity sha req ext \<and> find_event s (profile_id_of ext, lq_request_id req) = None \<and>
    ln_authority env = Some row \<and> intent_authorized (lq_intent req) row \<and>
    list_all (call_within (lq_intent req) ext (''aiphabee-agent:v1:'' @ drop 12 ext)) log"
  using assms(1)
proof (cases rule: execute_cases)
  case (claimed ext agent_ext row c s2)
  from run_claim_log [OF claimed(7) assms(2)] obtain u a where
    "log = snd (reconcile_remote (ln_remote env) (lq_intent req) u a ext agent_ext)" by blast
  then have "list_all (call_within (lq_intent req) ext agent_ext) log"
    using reconcile_calls [OF prod.collapse [symmetric]] by simp
  with claimed show ?thesis unfolding no_denial_iff by blast
qed (use assms(2) in simp_all)


section \<open>What a success says\<close>

definition all_answered :: "(remote_call \<Rightarrow> control_error + string) \<Rightarrow> remote_call list \<Rightarrow> bool" where
  "all_answered remote log \<longleftrightarrow> list_all (\<lambda>c. \<exists>v. remote c = Inr v) log"

lemma reconcile_user_answered:
  "reconcile_user remote u ext = (Inr u', log) \<Longrightarrow> all_answered remote log"
  by (auto simp: reconcile_user_def all_answered_def split: option.splits)

text \<open>The ids that a settled profile carries.\<close>

definition ids_of_intent :: "lifecycle_intent \<Rightarrow> string option \<Rightarrow> string option \<Rightarrow> bool" where
  "ids_of_intent i u a \<longleftrightarrow>
     (case i of
        Intent_activate \<Rightarrow> u \<noteq> None \<and> a \<noteq> None
      | Intent_disable \<Rightarrow> u \<noteq> None
      | Intent_delete \<Rightarrow> u = None \<and> a = None)"

lemma reconcile_success:
  assumes "reconcile_remote remote i u a ext agent_ext = (Inr (u', a'), log)"
  shows "all_answered remote log \<and> ids_of_intent i u' a'"
proof (cases i)
  case Intent_activate
  with assms show ?thesis
    by (auto simp: reconcile_remote_def reconcile_user_def all_answered_def ids_of_intent_def Let_def split: option.splits sum.splits)
next
  case Intent_disable
  obtain x l where x: "reconcile_user remote u ext = (x, l)" by force
  with reconcile_user_answered assms show ?thesis
    by (cases x) (fastforce simp: reconcile_remote_def Intent_disable x all_answered_def ids_of_intent_def split: sum.splits)+
next
  case Intent_delete
  obtain x l where x: "reconcile_user remote u ext = (x, l)" by force
  with reconcile_user_answered assms show ?thesis
    by (cases x) (fastforce simp: reconcile_remote_def Intent_delete x all_answered_def ids_of_intent_def split: sum.splits)+
qed

text \<open>
  What the database gives a transaction: it has the row of the profile locked when it writes its event, and no other execution of the same request
  runs meanwhile.
\<close>

definition request_isolated :: "agent_env \<Rightarrow> string \<Rightarrow> string \<Rightarrow> bool" where
  "request_isolated env i request_id \<longleftrightarrow>
     (\<forall>k t. find_event (ln_others env k t) (i, request_id) = find_event t (i, request_id)) \<and>
     (\<forall>t. find_profile i (ln_others env 4 t) = find_profile i t)"

definition settled :: "lifecycle_intent \<Rightarrow> agent_profile \<Rightarrow> bool" where
  "settled i p \<longleftrightarrow> ap_status p = terminal_status_for_intent i \<and> ap_lease_owner p = None \<and> ids_of_intent i (ap_user_id p) (ap_agent_id p)"

lemma write_event_own:
  assumes "write_event sha env req i from_status to_status outcome code user_id agent_id s = (Some e, s1)"
    and "request_isolated env i (lq_request_id req)" and "find_event s (i, lq_request_id req) = None"
  shows "le_outcome e = outcome \<and> le_error_code e = code \<and> le_to_status e = to_status \<and> le_profile_id e = i \<and>
    le_request_id e = lq_request_id req \<and> find_profile i s1 = find_profile i s"
  using assms
  by (auto simp: write_event_def request_isolated_def events.lookup_insert Let_def split: option.splits)

lemma claim_no_event:
  assumes "claim_lifecycle env req i ext (ln_others env 1 s) = (c, s2)" and "request_isolated env i (lq_request_id req)"
    and "find_event s (i, lq_request_id req) = None"
  shows "find_event s2 (i, lq_request_id req) = None"
  using assms(1)
proof (rule claim_keeps [where J = "\<lambda>t. find_event t (i, lq_request_id req) = None"])
  show "find_event s' (i, lq_request_id req) = None" if "insert_profile (new_profile req i ext) (\<lambda>p. p) (ln_others env 1 s) = Some s'" for s'
    using insert_profile_keeps(1) [OF that] assms(2,3) by (simp add: request_isolated_def)
qed (use assms(2,3) in \<open>simp_all add: request_isolated_def\<close>)

lemma execute_success:
  assumes "execute_lifecycle sha env req s = (Some r, log, s1)" and "lz_outcome r = Lo_succeeded" and "log \<noteq> []"
    and "request_identity sha req ext" and "request_isolated env (profile_id_of ext) (lq_request_id req)"
  shows "all_answered (ln_remote env) log \<and> (\<exists>p. find_profile (profile_id_of ext) s1 = Some p \<and> settled (lq_intent req) p)"
  using assms(1)
proof (cases rule: execute_cases)
  case (claimed ext' agent_ext row c s2)
  let ?i = "profile_id_of ext"
  have "ext' = ext" using claimed(1) assms(4) by (simp add: request_identity_def)
  note claimed = claimed [unfolded this]
  note e0 = claimed(2)
  obtain previous and p :: agent_profile where c: "c = Some (Ck_claimed previous p)" using run_claim_log [OF claimed(7) assms(3)] by blast
  note e = claim_no_event [OF claimed(6) assms(5) e0]
  have f: "find_profile ?i s2 = Some p" "ap_lease_owner p = Some (lq_request_id req)"
    using claim_outcome(1) [OF claimed(6) c] by auto
  have run: "run_claimed sha env req ?i ext agent_ext previous p s2 = (Some r, log, s1)"
    using claimed(7) by (simp add: run_claim_def c)
  from run f show ?thesis
  proof (cases rule: run_claimed_Some)
    case (failed e u a ev st)
    from write_event_own [OF failed(3) assms(5)] e have "le_outcome ev \<noteq> Lo_succeeded"
      by (auto simp: failure_outcome_def split: control_error.splits bool.splits)
    with failed(4) assms(2) show ?thesis by (simp add: result_from_event_def Let_def)
  next
    case (completed u a ev)
    from write_event_own [OF completed(2) assms(5)] e f reconcile_success [OF completed(1)] show ?thesis
      by (simp add: settled_def completed_profile_def)
  qed
qed (use assms(3) in simp_all)

section \<open>A deleted profile\<close>

definition deleted_in :: "string \<Rightarrow> lifecycle_store \<Rightarrow> bool" where
  "deleted_in i s \<longleftrightarrow> (case find_profile i s of Some p \<Rightarrow> ap_status p = Ls_deleted | None \<Rightarrow> False)"

lemma deleted_in_iff: "deleted_in i s \<longleftrightarrow> (\<exists>p. find_profile i s = Some p \<and> ap_status p = Ls_deleted)"
  by (auto simp: deleted_in_def split: option.splits)

lemma deleted_insert:
  assumes "insert_profile new f s = Some s1" and "deleted_in i s"
    and "\<And>p. ap_profile_id (f p) = ap_profile_id p" "\<And>p. ap_status (f p) = ap_status p"
  shows "deleted_in i s1"
  using assms insert_profile_keeps(2) [OF assms(1,3), of i] by (fastforce simp: deleted_in_iff)

lemma deleted_update:
  assumes "deleted_in i s" and "j = i \<Longrightarrow> \<not> deleted_in i s" and "\<And>p. ap_profile_id (f p) = ap_profile_id p"
  shows "deleted_in i (update_profile j f s)"
  using assms by (auto simp: deleted_in_iff)

lemma deleted_write:
  assumes "write_event sha env req j from_status to_status outcome code user_id agent_id s = (e, s1)" and "deleted_in i s"
    and "\<And>k t. deleted_in i t \<Longrightarrow> deleted_in i (ln_others env k t)"
  shows "deleted_in i s1"
  using write_event_stored(2) [OF assms(1), of i] assms(2) assms(3) [OF assms(2), of 4] by (auto simp: deleted_in_def)

lemma run_claim_cases [consumes 2, case_names progress noted claimed]:
  assumes "run_claim sha env req i ext agent_ext (c, s2) = (Some r, log, s1)" and "claim_lifecycle env req i ext s = (c, s2)"
  obtains p where "c = Some (Ck_in_progress p)" "s1 = s2" "log = []" "lz_error_code r = Some ''LIFECYCLE_REQUEST_IN_PROGRESS''"
  | st0 st outcome code u a ev where "write_event sha env req i st0 st outcome code u a s2 = (Some ev, s1)" "log = []"
      "r = result_from_event ev (desired_state_for_intent (lq_intent req))"
      "code \<noteq> Some ''LIFECYCLE_LEASE_BUSY'' \<or> (\<exists>p. c = Some (Ck_busy p))" "\<nexists>previous p. c = Some (Ck_claimed previous p)"
      "code \<noteq> Some ''LIFECYCLE_REQUEST_IN_PROGRESS''"
  | previous p where "c = Some (Ck_claimed previous p)" "find_profile i s2 = Some p" "ap_lease_owner p = Some (lq_request_id req)"
      "run_claimed sha env req i ext agent_ext previous p s2 = (Some r, log, s1)"
proof -
  note progress = that(1) and noted = that(2) and claimed = that(3)
  have note': thesis if "event_run req [] (write_event sha env req i st0 st outcome code u a s2) = (Some r, log, s1)"
      and "code \<noteq> Some ''LIFECYCLE_LEASE_BUSY'' \<or> (\<exists>p. c = Some (Ck_busy p))" "\<nexists>previous p. c = Some (Ck_claimed previous p)"
      "code \<noteq> Some ''LIFECYCLE_REQUEST_IN_PROGRESS''" for st0 st outcome code u a
    using that by (cases "write_event sha env req i st0 st outcome code u a s2") (auto simp: event_run_def intro: noted)
  obtain d where d: "c = Some d" using assms(1) by (cases c) (simp_all add: run_claim_def)
  show thesis
  proof (cases d)
    case (Ck_claimed previous p)
    with claim_outcome(1) [OF assms(2), of previous p] assms(1) show thesis
      by (intro claimed [of previous p]) (auto simp: d run_claim_def)
  next
    case (Ck_in_progress p)
    with assms(1) show thesis by (intro progress [of p]) (auto simp: run_claim_def d plain_result_def split: option.splits)
  next
    case (Ck_busy p)
    with assms(1) show thesis by - (rule note', simp add: run_claim_def d, simp_all add: d)
  next
    case (Ck_deleted p)
    with assms(1) show thesis by - (rule note', simp add: run_claim_def d, simp_all add: d)
  next
    case (Ck_terminal p)
    with assms(1) show thesis by - (rule note', simp add: run_claim_def d, simp_all add: d)
  qed
qed

lemma denied_write:
  assumes "record_denied sha env req i ext code s = (Some e, s1)"
  obtains s2 and p :: agent_profile and new f where "insert_profile new f s = Some s2" "ap_lease_owner new = None"
    "\<And>p. ap_profile_id (f p) = ap_profile_id p" "\<And>p. ap_status (f p) = ap_status p" "\<And>p. ap_lease_owner (f p) = ap_lease_owner p"
    "write_event sha env req i None (ap_status p) Lo_denied (Some code) None None s2 = (Some e, s1)"
proof -
  let ?f = "\<lambda>p. p\<lparr>ap_last_request_id := Some (lq_request_id req), ap_last_error := Some code\<rparr>"
  obtain s2 and p :: agent_profile where "insert_profile (?f (new_profile req i ext)) ?f s = Some s2"
    "write_event sha env req i None (ap_status p) Lo_denied (Some code) None None s2 = (Some e, s1)"
    using assms by (auto simp: record_denied_def Let_def split: option.splits)
  with that [of "?f (new_profile req i ext)" ?f s2 p] show thesis by (simp add: new_profile_def)
qed

lemma claim_deleted:
  assumes "claim_lifecycle env req j ext s = (c, s1)" and "deleted_in i s"
    and "\<And>k t. deleted_in i t \<Longrightarrow> deleted_in i (ln_others env k t)"
  shows "deleted_in i s1" and "c = Some (Ck_claimed previous p) \<Longrightarrow> j \<noteq> i"
proof -
  have ins: "deleted_in i s'" if "insert_profile (new_profile req j ext) (\<lambda>p. p) s = Some s'" for s'
    using deleted_insert [OF that assms(2)] by simp
  show "deleted_in i s1" using assms(1,2)
  proof (rule claim_keeps [where J = "deleted_in i"])
    show "deleted_in i (update_profile j (claimed_profile req (ln_now env)) t)"
      if "deleted_in i t" "find_profile j t = Some p" "ap_status p \<noteq> Ls_deleted" for t and p :: agent_profile
      using that by (intro deleted_update) (auto simp: deleted_in_iff)
  qed (use ins assms(3) in auto)
  assume "c = Some (Ck_claimed previous p)"
  from claim_outcome(1) [OF assms(1) this] show "j \<noteq> i" using ins by (fastforce simp: deleted_in_iff)
qed

lemma execute_deleted:
  assumes "execute_lifecycle sha env req s = (Some r, log, s1)" and "deleted_in i s"
    and "\<And>k t. deleted_in i t \<Longrightarrow> deleted_in i (ln_others env k t)"
  shows "deleted_in i s1 \<and> (\<forall>ext. request_identity sha req ext \<longrightarrow> i = profile_id_of ext \<longrightarrow> log = [])"
  using assms(1)
proof (cases rule: execute_cases)
  case early
  then show ?thesis by simp
next
  case (replayed ext ev)
  then show ?thesis using assms(2) by simp
next
  case (refused ext code)
  then show ?thesis using assms(2,3) by simp
next
  case (denied ext code ev)
  note d = assms(3) [OF assms(2), of 1]
  obtain e' where e': "ev = Some e'" using denied(5) by (cases ev) auto
  from denied(4) [unfolded e'] show ?thesis
  proof (rule denied_write)
    fix s2 new f and p :: agent_profile
    assume i: "insert_profile new f (ln_others env 1 s) = Some s2" "\<And>p. ap_profile_id (f p) = ap_profile_id p"
        "\<And>p. ap_status (f p) = ap_status p"
      and w: "write_event sha env req (profile_id_of ext) None (ap_status p) Lo_denied (Some code) None None s2 = (Some e', s1)"
    from deleted_write [OF w deleted_insert [OF i(1) d i(2,3)] assms(3)] denied(3) show ?thesis by simp
  qed
next
  case (claimed ext agent_ext row c s2)
  note d = assms(3) [OF assms(2), of 1]
  have d2: "deleted_in i s2" by (rule claim_deleted(1) [OF claimed(6) d assms(3)])
  from claimed(7,6) show ?thesis
  proof (cases rule: run_claim_cases)
    case (progress p)
    with d2 show ?thesis by simp
  next
    case (noted st0 st outcome code u a ev)
    from deleted_write [OF noted(1) d2 assms(3)] noted(2) show ?thesis by simp
  next
    case (claimed previous p)
    have other: "profile_id_of ext \<noteq> i"
      by (rule claim_deleted(2) [OF \<open>claim_lifecycle env req (profile_id_of ext) ext (ln_others env 1 s) = (c, s2)\<close> d assms(3) claimed(1)])
    have u: "deleted_in i (update_profile (profile_id_of ext) f s2)" if "\<And>p. ap_profile_id (f p) = ap_profile_id p" for f
      using other d2 that by (intro deleted_update) auto
    from claimed(4,2,3) have "deleted_in i s1"
    proof (cases rule: run_claimed_Some)
      case (failed e u' a' ev st)
      show ?thesis by (rule deleted_write [OF failed(3) u assms(3)]) simp
    next
      case (completed u' a' ev)
      show ?thesis by (rule deleted_write [OF completed(2) u assms(3)]) simp
    qed
    with other \<open>request_identity sha req ext\<close> show ?thesis by (auto simp: request_identity_def)
  qed
qed

section \<open>Leases\<close>

definition lease_free_store :: "lifecycle_store \<Rightarrow> bool" where
  "lease_free_store s \<longleftrightarrow> list_all (\<lambda>p. ap_lease_owner p = None) (sr_profiles s)"

lemma lease_free_insert:
  assumes "insert_profile new f s = Some s1" and "lease_free_store s" and "ap_lease_owner new = None"
    and "\<And>p. ap_lease_owner (f p) = ap_lease_owner p"
  shows "lease_free_store s1"
  using assms by (auto simp: insert_profile_def lease_free_store_def list_all_iff split: if_splits)

lemma lease_free_found: "lease_free_store s \<Longrightarrow> find_profile i s = Some p \<Longrightarrow> ap_lease_owner p = None"
  by (auto simp: lease_free_store_def find_profile_def find_Some_iff list_all_length)

lemma lease_free_write:
  assumes "write_event sha env req j from_status to_status outcome code user_id agent_id s = (Some e, s1)" and "lease_free_store s"
    and "\<And>k t. lease_free_store t \<Longrightarrow> lease_free_store (ln_others env k t)"
  shows "lease_free_store s1"
  using assms(1) assms(3) [OF assms(2), of 4]
  by (auto simp: write_event_def Let_def insert_event_def lease_free_store_def split: option.splits if_splits)

text \<open>Only the row with this id may carry a lease.\<close>

definition leased_at_most :: "string \<Rightarrow> lifecycle_store \<Rightarrow> bool" where
  "leased_at_most i s \<longleftrightarrow> list_all (\<lambda>p. ap_lease_owner p = None \<or> ap_profile_id p = i) (sr_profiles s)"

lemma leased_release:
  assumes "leased_at_most i s" and "\<And>p. ap_lease_owner (f p) = None"
  shows "lease_free_store (update_profile i f s)"
  using assms by (auto simp: leased_at_most_def lease_free_store_def update_profile_def list_all_iff)

lemma leased_claim: "lease_free_store s \<Longrightarrow> leased_at_most i (update_profile i (claimed_profile req now) s)"
  by (auto simp: leased_at_most_def lease_free_store_def update_profile_def list_all_iff)

lemma lease_free_claim:
  assumes "claim_lifecycle env req i ext s = (c, s1)" and "lease_free_store s"
    and "\<And>k t. lease_free_store t \<Longrightarrow> lease_free_store (ln_others env k t)"
    and "\<And>k t. deleted_in i t \<Longrightarrow> deleted_in i (ln_others env k t)"
  shows "leased_at_most i s1" and "(\<nexists>previous p. c = Some (Ck_claimed previous p)) \<Longrightarrow> lease_free_store s1"
    and "c \<noteq> Some (Ck_busy p)" and "c \<noteq> Some (Ck_in_progress p)"
proof -
  have "leased_at_most i s1 \<and> ((\<nexists>previous p. c = Some (Ck_claimed previous p)) \<longrightarrow> lease_free_store s1) \<and>
      c \<noteq> Some (Ck_busy p) \<and> c \<noteq> Some (Ck_in_progress p)"
  proof (cases "insert_profile (new_profile req i ext) (\<lambda>p. p) s")
    case None
    with assms(1,2) show ?thesis by (auto simp: claim_lifecycle_def leased_at_most_def lease_free_store_def list_all_iff)
  next
    case (Some s')
    have f: "lease_free_store s'" by (rule lease_free_insert [OF Some assms(2)]) (simp_all add: new_profile_def)
    note f2 = assms(3) [OF f, of 2]
    note f3 = assms(3) [OF f2, of 3]
    have weak: "leased_at_most i t" if "lease_free_store t" for t
      using that by (auto simp: leased_at_most_def lease_free_store_def list_all_iff)
    from assms(1) f f2 f3 assms(4) [of "ln_others env 2 s'" 3] show ?thesis
      by (auto simp: claim_lifecycle_def Some Let_def weak leased_claim lease_free_def deleted_in_def
          dest: lease_free_found [OF f2] lease_free_found [OF f3] split: option.splits if_splits)
  qed
  then show "leased_at_most i s1" and "(\<nexists>previous p. c = Some (Ck_claimed previous p)) \<Longrightarrow> lease_free_store s1"
    and "c \<noteq> Some (Ck_busy p)" and "c \<noteq> Some (Ck_in_progress p)" by blast+
qed

lemma execute_lease_free:
  assumes "execute_lifecycle sha env req s = (Some r, log, s1)" and "lease_free_store s"
    and "\<And>k t. lease_free_store t \<Longrightarrow> lease_free_store (ln_others env k t)"
    and "\<And>k t i. deleted_in i t \<Longrightarrow> deleted_in i (ln_others env k t)"
  shows "lease_free_store s1"
  using assms(1)
proof (cases rule: execute_cases)
  case early
  then show ?thesis by simp
next
  case (replayed ext ev)
  then show ?thesis using assms(2) by simp
next
  case (refused ext code)
  then show ?thesis using assms(2,3) by simp
next
  case (denied ext code ev)
  note d = assms(3) [OF assms(2), of 1]
  obtain e' where e': "ev = Some e'" using denied(5) by (cases ev) auto
  from denied(4) [unfolded e'] show ?thesis
  proof (rule denied_write)
    fix s2 new f and p :: agent_profile
    assume i: "insert_profile new f (ln_others env 1 s) = Some s2" "ap_lease_owner new = None"
        "\<And>p. ap_profile_id (f p) = ap_profile_id p" "\<And>p. ap_lease_owner (f p) = ap_lease_owner p"
      and w: "write_event sha env req (profile_id_of ext) None (ap_status p) Lo_denied (Some code) None None s2 = (Some e', s1)"
    show ?thesis by (rule lease_free_write [OF w lease_free_insert [OF i(1) d i(2,4)] assms(3)])
  qed
next
  case (claimed ext agent_ext row c s2)
  note d = assms(3) [OF assms(2), of 1]
  have claim: "leased_at_most (profile_id_of ext) s2" "(\<nexists>previous p. c = Some (Ck_claimed previous p)) \<Longrightarrow> lease_free_store s2"
    "c \<noteq> Some (Ck_busy p)" "c \<noteq> Some (Ck_in_progress p)" for p
    using lease_free_claim [OF claimed(6) d] assms(3,4) by blast+
  from claimed(7,6) show ?thesis
  proof (cases rule: run_claim_cases)
    case (progress p)
    with claim(4) [of p] show ?thesis by simp
  next
    case (noted st0 st outcome code u a ev)
    show ?thesis by (rule lease_free_write [OF noted(1) claim(2) [OF noted(5)] assms(3)])
  next
    case (claimed previous p)
    from claimed(4,2,3) show ?thesis
    proof (cases rule: run_claimed_Some)
      case (failed e u' a' ev st)
      show ?thesis by (rule lease_free_write [OF failed(3) leased_release [OF claim(1)] assms(3)]) (simp add: failed_profile_def)
    next
      case (completed u' a' ev)
      show ?thesis by (rule lease_free_write [OF completed(2) leased_release [OF claim(1)] assms(3)]) simp
    qed
  qed
qed

lemma event_write:
  assumes "write_event sha env req j from_status to_status outcome code user_id agent_id s = (x, s1)" and "find_event s k = Some e"
    and "\<And>n t. find_event t k = Some e \<Longrightarrow> find_event (ln_others env n t) k = Some e"
  shows "find_event s1 k = Some e"
  using assms(1,2) assms(3) [OF assms(2), of 4]
  by (auto simp: write_event_def Let_def events.lookup_insert split: option.splits if_splits)

lemma execute_events:
  assumes "execute_lifecycle sha env req s = (Some r, log, s1)" and "find_event s k = Some e"
    and "\<And>n t. find_event t k = Some e \<Longrightarrow> find_event (ln_others env n t) k = Some e"
  shows "find_event s1 k = Some e"
  using assms(1)
proof (cases rule: execute_cases)
  case early
  then show ?thesis by simp
next
  case (replayed ext ev)
  then show ?thesis using assms(2) by simp
next
  case (refused ext code)
  then show ?thesis using assms(2,3) by simp
next
  case (denied ext code ev)
  note d = assms(3) [OF assms(2), of 1]
  obtain e' where e': "ev = Some e'" using denied(5) by (cases ev) auto
  from denied(4) [unfolded e'] show ?thesis
  proof (rule denied_write)
    fix s2 new f and p :: agent_profile
    assume i: "insert_profile new f (ln_others env 1 s) = Some s2" "ap_lease_owner new = None"
        "\<And>p. ap_profile_id (f p) = ap_profile_id p" "\<And>p. ap_lease_owner (f p) = ap_lease_owner p"
      and w: "write_event sha env req (profile_id_of ext) None (ap_status p) Lo_denied (Some code) None None s2 = (Some e', s1)"
    show ?thesis by (rule event_write [OF w _ assms(3)]) (use d insert_profile_keeps(1) [OF i(1,3)] in simp)
  qed
next
  case (claimed ext agent_ext row c s2)
  note d = assms(3) [OF assms(2), of 1]
  have e2: "find_event s2 k = Some e"
    using claimed(6) d
  proof (rule claim_keeps [where J = "\<lambda>t. find_event t k = Some e"])
    show "find_event s' k = Some e" if "insert_profile (new_profile req (profile_id_of ext) ext) (\<lambda>p. p) (ln_others env 1 s) = Some s'" for s'
      using insert_profile_keeps(1) [OF that] d by simp
  qed (use assms(3) in simp_all)
  from claimed(7,6) show ?thesis
  proof (cases rule: run_claim_cases)
    case (progress p)
    with e2 show ?thesis by simp
  next
    case (noted st0 st outcome code u a ev)
    show ?thesis by (rule event_write [OF noted(1) e2 assms(3)])
  next
    case (claimed previous p)
    from claimed(4,2,3) show ?thesis
    proof (cases rule: run_claimed_Some)
      case (failed e' u' a' ev st)
      show ?thesis by (rule event_write [OF failed(3) _ assms(3)]) (simp add: e2)
    next
      case (completed u' a' ev)
      show ?thesis by (rule event_write [OF completed(2) _ assms(3)]) (simp add: e2)
    qed
  qed
qed

section \<open>Whole transactions\<close>

text \<open>How committed transactions may change the store: no lease appears, deleted profiles stay deleted and events stay as they are.\<close>

definition store_evolves :: "lifecycle_store \<Rightarrow> lifecycle_store \<Rightarrow> bool" where
  "store_evolves s t \<longleftrightarrow>
     (lease_free_store s \<longrightarrow> lease_free_store t) \<and> (\<forall>i. deleted_in i s \<longrightarrow> deleted_in i t) \<and>
     (\<forall>k e. find_event s k = Some e \<longrightarrow> find_event t k = Some e)"

lemma store_evolves_refl [simp]: "store_evolves s s"
  by (simp add: store_evolves_def)

lemma evolvesD:
  assumes "\<And>k t. store_evolves t (ln_others env k t)"
  shows "\<And>k t. lease_free_store t \<Longrightarrow> lease_free_store (ln_others env k t)"
    and "\<And>k t i. deleted_in i t \<Longrightarrow> deleted_in i (ln_others env k t)"
    and "\<And>k t x e. find_event t x = Some e \<Longrightarrow> find_event (ln_others env k t) x = Some e"
  using assms by (auto simp: store_evolves_def)

lemma execute_evolves:
  assumes "execute_lifecycle sha env req s = (Some r, log, s1)" and "\<And>k t. store_evolves t (ln_others env k t)"
  shows "store_evolves s s1"
  unfolding store_evolves_def
proof (intro conjI allI impI)
  note rely = evolvesD [OF assms(2)]
  show "lease_free_store s1" if "lease_free_store s" using execute_lease_free [OF assms(1) that rely(1,2)] .
  show "deleted_in i s1" if "deleted_in i s" for i using execute_deleted [OF assms(1) that rely(2)] ..
  show "find_event s1 k = Some e" if "find_event s k = Some e" for k e using execute_events [OF assms(1) that rely(3)] .
qed

text \<open>What is committed, and the environment of the execution behind a transaction.\<close>

lemma transaction_cases [consumes 1, case_names rolled_back committed]:
  assumes "run_research_agent_lifecycle sha decode fetch b url fault env req s = (r, log, s1)"
  obtains "r = None" "s1 = s"
  | x client where "r = Some x" "execute_lifecycle sha (env\<lparr>ln_remote := client_remote decode fetch client\<rparr>) req s = (Some x, log, s1)"
      "kc_base_url client = rev (dropWhile (\<lambda>c. c = CHR ''/'') (rev (the_binding (lb_base_url b))))"
proof -
  note rolled_back = that(1) and committed = that(2)
  show thesis
  proof (cases "r = None")
    case True
    with assms show thesis
      by (intro rolled_back) (auto simp: run_research_agent_lifecycle_def Let_def split: if_splits sum.splits prod.splits)
  next
    case False
    then obtain x where "r = Some x" by blast
    with assms show thesis
      by (auto simp: run_research_agent_lifecycle_def new_control_client_def normalize_base_url_def Let_def
          split: if_splits sum.splits prod.splits intro: committed)
  qed
qed

lemma transaction_log:
  assumes "run_research_agent_lifecycle sha decode fetch b url fault env req s = (r, log, s1)" and "log \<noteq> []"
  obtains client x s2 where "execute_lifecycle sha (env\<lparr>ln_remote := client_remote decode fetch client\<rparr>) req s = (x, log, s2)"
  using assms
  by (auto simp: run_research_agent_lifecycle_def Let_def split: if_splits sum.splits prod.splits)

text \<open>A transaction that answered is replayed by every later one over the same bindings.\<close>

lemma transaction_replays:
  assumes "run_research_agent_lifecycle sha decode fetch b url fault env req s = (Some r, log, s1)"
    and "lz_error_code r \<noteq> Some ''ACCOUNT_NOT_FOUND''" and "lz_error_code r \<noteq> Some ''WORKSPACE_NOT_FOUND''"
    and "lz_error_code r \<noteq> Some ''LIFECYCLE_REQUEST_IN_PROGRESS''"
    and "\<And>k t i. events_agree i req t \<Longrightarrow> events_agree i req (ln_others env k t)"
  shows "run_research_agent_lifecycle sha decode' fetch' b url None env' req s1 = (Some r, [], s1)"
proof -
  have usable: "bindings_usable b" and client: "\<exists>client. new_control_client \<lparr>cg_admin_api_key = the_binding (lb_admin_api_key b),
      cg_base_url = the_binding (lb_base_url b), cg_url = url, cg_template_agent_id = the_binding (lb_template_agent_id b), cg_timeout_ms = None\<rparr> =
      Inr client"
    using assms(1) by (auto simp: run_research_agent_lifecycle_def split: if_splits sum.splits)
  from assms(1) obtain client' where "execute_lifecycle sha (env\<lparr>ln_remote := client_remote decode fetch client'\<rparr>) req s = (Some r, log, s1)"
    by (cases rule: transaction_cases) auto
  from request_replays [OF this assms(2-4)] assms(5)
  have "execute_lifecycle sha (env'\<lparr>ln_remote := remote\<rparr>) req s1 = (Some r, [], s1)" for remote by simp
  with usable client show ?thesis by (auto simp: run_research_agent_lifecycle_def)
qed

text \<open>
  C29: Whatever a life-cycle transaction does, its commit leaves no lease in the database, keeps every deleted profile deleted and every
  recorded event unchanged, provided all transactions running meanwhile do the same; a transaction that fails leaves the database as it was.
\<close>

theorem transactions_evolve:
  assumes "run_research_agent_lifecycle sha decode fetch b url fault env req s = (r, log, s1)"
    and "\<And>k t. store_evolves t (ln_others env k t)"
  shows "store_evolves s s1 \<and> (r = None \<longrightarrow> s1 = s)"
  using assms(1)
proof (cases rule: transaction_cases)
  case rolled_back
  then show ?thesis by simp
next
  case (committed x client)
  from execute_evolves [OF committed(2)] assms(2) committed(1) show ?thesis by simp
qed

lemma deleted_no_calls:
  assumes "execute_lifecycle sha env req s = (r, log, s1)" and "request_identity sha req ext" and "deleted_in (profile_id_of ext) s"
    and "\<And>k t i. deleted_in i t \<Longrightarrow> deleted_in i (ln_others env k t)"
  shows "log = []"
proof (rule ccontr)
  assume log: "log \<noteq> []"
  from assms(1) show False
  proof (cases rule: execute_cases)
    case (claimed ext' agent_ext row c s2)
    have "ext' = ext" using claimed(1) assms(2) by (simp add: request_identity_def)
    moreover obtain previous and p :: agent_profile where "c = Some (Ck_claimed previous p)" using run_claim_log [OF claimed(7) log] by blast
    ultimately show False using claim_deleted(2) [OF claimed(6) assms(4) [OF assms(3)]] assms(4) by blast
  qed (use log in simp_all)
qed

text \<open>
  C30: Deletion is final: once the profile of an owner is deleted, a request of this owner makes no remote call, not even when it fails later,
  and the profile is still deleted after it.
\<close>

theorem deleted_profile_is_final:
  assumes "run_research_agent_lifecycle sha decode fetch b url fault env req s = (r, log, s1)"
    and "request_identity sha req ext" and "deleted_in (profile_id_of ext) s"
    and "\<And>k t. store_evolves t (ln_others env k t)"
  shows "log = [] \<and> deleted_in (profile_id_of ext) s1"
proof
  note rely = evolvesD [OF assms(4)]
  show "log = []"
  proof (rule ccontr)
    assume l: "log \<noteq> []"
    from assms(1) l show False
    proof (rule transaction_log)
      fix client x s2
      assume e: "execute_lifecycle sha (env\<lparr>ln_remote := client_remote decode fetch client\<rparr>) req s = (x, log, s2)"
      from deleted_no_calls [OF e assms(2,3)] rely(2) l show False by simp
    qed
  qed
  from assms(1) show "deleted_in (profile_id_of ext) s1"
  proof (cases rule: transaction_cases)
    case rolled_back
    with assms(3) show ?thesis by simp
  next
    case (committed x client)
    from execute_evolves [OF committed(2)] assms(3,4) show ?thesis by (simp add: store_evolves_def)
  qed
qed


section \<open>The lease is never seen\<close>

definition lease_answer :: "string option \<Rightarrow> bool" where
  "lease_answer code \<longleftrightarrow> code = Some ''LIFECYCLE_LEASE_BUSY'' \<or> code = Some ''LIFECYCLE_REQUEST_IN_PROGRESS''"

lemma not_lease_answer:
  "\<not> lease_answer (Some ''ACCOUNT_NOT_FOUND'')" "\<not> lease_answer (Some ''WORKSPACE_NOT_FOUND'')" "\<not> lease_answer None"
  "\<not> lease_answer (Some ''RESEARCH_AGENT_ENTITLEMENT_DENIED'')" "\<not> lease_answer (Some ''ACCOUNT_NOT_CLOSED'')"
  "\<not> lease_answer (Some ''RESEARCH_AGENT_PROFILE_DELETED'')" "\<not> lease_answer (Some (failure_code e))"
  by (cases e; auto simp: lease_answer_def failure_code_def lifecycle_code_text_def split: lifecycle_code.split)+

lemma execute_no_lease_answer:
  assumes "execute_lifecycle sha env req s = (Some r, log, s1)" and "request_identity sha req ext"
    and "find_event s (profile_id_of ext, lq_request_id req) = None" and "request_isolated env (profile_id_of ext) (lq_request_id req)"
    and "lease_free_store s" and "\<And>k t. store_evolves t (ln_others env k t)"
  shows "\<not> lease_answer (lz_error_code r)"
  using assms(1)
proof (cases rule: execute_cases)
  case early
  then show ?thesis by simp
next
  case (replayed ext' ev)
  then show ?thesis using assms(2,3) by (simp add: request_identity_def)
next
  case (refused ext' code)
  then show ?thesis by (auto simp: plain_result_def not_lease_answer)
next
  case (denied ext' code ev)
  have "ext' = ext" using denied(1) assms(2) by (simp add: request_identity_def)
  note denied = denied [unfolded this]
  obtain e where e: "ev = Some e" using denied(5) by (cases ev) auto
  from denied(4) [unfolded e] show ?thesis
  proof (rule denied_write)
    fix s2 new f and p :: agent_profile
    assume i: "insert_profile new f (ln_others env 1 s) = Some s2" "\<And>p. ap_profile_id (f p) = ap_profile_id p"
      and w: "write_event sha env req (profile_id_of ext) None (ap_status p) Lo_denied (Some code) None None s2 = (Some e, s1)"
    have "find_event s2 (profile_id_of ext, lq_request_id req) = None"
      using insert_profile_keeps(1) [OF i] assms(3,4) by (simp add: request_isolated_def)
    with write_event_own [OF w assms(4)] denied(5,6) e show ?thesis by (auto simp: result_from_event_def Let_def not_lease_answer)
  qed
next
  case (claimed ext' agent_ext row c s2)
  have "ext' = ext" using claimed(1) assms(2) by (simp add: request_identity_def)
  note claimed = claimed [unfolded this]
  note rely = evolvesD [OF assms(6)]
  have no_lease: "c \<noteq> Some (Ck_busy p)" "c \<noteq> Some (Ck_in_progress p)" for p
    using lease_free_claim [OF claimed(6) rely(1) [OF assms(5)]] rely(1,2) by blast+
  note e2 = claim_no_event [OF claimed(6) assms(4,3)]
  from claimed(7,6) show ?thesis
  proof (cases rule: run_claim_cases)
    case (progress p)
    with no_lease(2) [of p] show ?thesis by simp
  next
    case (noted st0 st outcome code u a ev)
    from write_event_own [OF noted(1) assms(4) e2] noted(3,4,6) no_lease show ?thesis
      by (auto simp: result_from_event_def Let_def lease_answer_def)
  next
    case (claimed previous p)
    from claimed(4,2,3) show ?thesis
    proof (cases rule: run_claimed_Some)
      case (failed e u a ev st)
      from write_event_own [OF failed(3) assms(4)] e2 failed(4) show ?thesis by (simp add: result_from_event_def Let_def not_lease_answer)
    next
      case (completed u a ev)
      from write_event_own [OF completed(2) assms(4)] e2 completed(3) show ?thesis by (simp add: result_from_event_def Let_def not_lease_answer)
    qed
  qed
qed

text \<open>
  The lease of a profile excludes nobody: as the transaction that takes it also releases it, a request over committed rows is never answered
  as busy or in progress, except from an event recorded before.
\<close>

theorem lease_is_never_observed:
  assumes "run_research_agent_lifecycle sha decode fetch b url fault env req s = (Some r, log, s1)" and "request_identity sha req ext"
    and "find_event s (profile_id_of ext, lq_request_id req) = None" and "request_isolated env (profile_id_of ext) (lq_request_id req)"
    and "lease_free_store s" and "\<And>k t. store_evolves t (ln_others env k t)"
  shows "lz_error_code r \<noteq> Some ''LIFECYCLE_LEASE_BUSY'' \<and> lz_error_code r \<noteq> Some ''LIFECYCLE_REQUEST_IN_PROGRESS''"
  using assms(1)
proof (cases rule: transaction_cases)
  case rolled_back
  then show ?thesis by simp
next
  case (committed x client)
  from execute_no_lease_answer [OF committed(2) assms(2,3)] assms(4-6) committed(1) show ?thesis
    by (simp add: request_isolated_def lease_answer_def)
qed

section \<open>A failed activation\<close>

definition unshared :: "agent_env \<Rightarrow> bool" where
  "unshared env \<longleftrightarrow> (\<forall>k t. ln_others env k t = t)"

lemma insert_existing:
  assumes "find_profile i s = Some p" and "owned_by (ap_workspace_id new) (ap_account_id new) p"
  shows "insert_profile new (\<lambda>p. p) s = Some s"
proof -
  have "p \<in> set (sr_profiles s)" using assms(1) by (auto simp: find_profile_def find_Some_iff)
  with assms(2) show ?thesis by (auto simp: insert_profile_def list_ex_iff)
qed

lemma optional_hash_Some: "js_trim v \<noteq> [] \<Longrightarrow> optional_hash sha (Some v) = Some (Some (sha256_hex sha (js_trim v)))"
  by (simp add: optional_hash_def hash_lifecycle_reference_def assert_non_empty_def)

lemma optional_hash_None [simp]: "optional_hash sha None = Some None"
  by (simp add: optional_hash_def)

text \<open>The event a fresh request writes, and the answer made of it.\<close>

lemma write_event_fresh:
  assumes "find_event s (i, lq_request_id req) = None" and "unshared env" and "js_trim u \<noteq> []"
  shows "\<exists>e s1. write_event sha env req i from_status to_status outcome code (Some u) None s = (Some e, s1) \<and> le_outcome e = outcome \<and>
    find_profile i s1 = find_profile i s \<and> (\<forall>k. k \<noteq> (i, lq_request_id req) \<longrightarrow> find_event s1 k = find_event s k)"
  using assms by (simp add: write_event_def unshared_def optional_hash_Some events.lookup_insert Let_def)

text \<open>The profile of the owner of a request, with a disabled row that names a remote user and no agent.\<close>

definition disabled_without_agent :: "lifecycle_request \<Rightarrow> string \<Rightarrow> string \<Rightarrow> agent_profile \<Rightarrow> bool" where
  "disabled_without_agent req ext u p \<longleftrightarrow>
     owned_by (lq_workspace_id req) (lq_account_id req) p \<and> ap_status p = Ls_disabled \<and> ap_user_id p = Some u \<and> ap_agent_id p = None \<and>
     ap_lease_owner p = None"

lemma disable_is_noop:
  assumes "request_identity sha req ext" and "lq_intent req = Intent_disable" and "unshared env" and "js_trim u \<noteq> []"
    and "find_event s (profile_id_of ext, lq_request_id req) = None"
    and "ln_authority env = Some row" and "intent_authorized Intent_disable row"
    and "find_profile (profile_id_of ext) s = Some p" and "disabled_without_agent req ext u p"
  shows "\<exists>r s1. execute_lifecycle sha env req s = (Some r, [], s1) \<and> lz_outcome r = Lo_succeeded"
proof -
  have o: "ln_others env k t = t" for k t using assms(3) by (simp add: unshared_def)
  have i: "insert_profile (new_profile req (profile_id_of ext) ext) (\<lambda>p. p) s = Some s"
    using assms(8,9) by (intro insert_existing [where p = p]) (simp_all add: new_profile_def disabled_without_agent_def)
  have "claim_lifecycle env req (profile_id_of ext) ext s = (Some (Ck_terminal p), s)"
    using assms(2,8,9) by (simp add: claim_lifecycle_def i terminal_status_for_intent_def disabled_without_agent_def)
  moreover obtain e s1 where "write_event sha env req (profile_id_of ext) (Some Ls_disabled) Ls_disabled Lo_succeeded None (Some u) None s = (Some e, s1)"
    "le_outcome e = Lo_succeeded" using write_event_fresh [OF assms(5,3,4)] by blast
  moreover have "precondition_denial Intent_disable (authority_snapshot_of row) = None" using assms(7) by (simp add: no_denial_iff)
  ultimately show ?thesis using assms(1,2,5,6,9)
    by (simp add: execute_lifecycle_def request_identity_def derive_agent_external_identity_def Let_def o run_claim_def event_run_def
        disabled_without_agent_def result_from_event_def)
qed

lemma activation_fails:
  assumes "request_identity sha req ext" and "lq_intent req = Intent_activate" and "unshared env" and "js_trim u \<noteq> []"
    and "find_event s (profile_id_of ext, lq_request_id req) = None"
    and "ln_authority env = Some row" and "intent_authorized Intent_activate row"
    and "find_profile (profile_id_of ext) s = Some p" and "disabled_without_agent req ext u p"
    and "ln_remote env (Rc_set_status u True) = Inr v"
    and "ln_remote env (Rc_provision_agent u (''aiphabee-agent:v1:'' @ drop 12 ext)) = Inl (Lifecycle_error code False)"
  shows "\<exists>r s1 p1. execute_lifecycle sha env req s =
      (Some r, [Rc_set_status u True, Rc_provision_agent u (''aiphabee-agent:v1:'' @ drop 12 ext)], s1) \<and>
    lz_outcome r = Lo_internal_failure \<and> find_profile (profile_id_of ext) s1 = Some p1 \<and> disabled_without_agent req ext u p1 \<and>
    (\<forall>k. k \<noteq> (profile_id_of ext, lq_request_id req) \<longrightarrow> find_event s1 k = find_event s k)"
proof -
  let ?i = "profile_id_of ext" and ?c = "claimed_profile req (ln_now env)" and ?e = "Lifecycle_error code False"
  let ?s = "update_profile ?i (failed_profile Ls_disabled (failure_code ?e) (Some u) None) (update_profile ?i ?c s)"
  have o: "ln_others env k t = t" for k t using assms(3) by (simp add: unshared_def)
  have i: "insert_profile (new_profile req ?i ext) (\<lambda>p. p) s = Some s"
    using assms(8,9) by (intro insert_existing [where p = p]) (simp_all add: new_profile_def disabled_without_agent_def)
  have "claim_lifecycle env req ?i ext s = (Some (Ck_claimed Ls_disabled (?c p)), update_profile ?i ?c s)"
    using assms(2,8,9)
    by (simp add: claim_lifecycle_def i o terminal_status_for_intent_def disabled_without_agent_def lease_free_def Let_def)
  moreover obtain e s1 where w: "write_event sha env req ?i (Some Ls_disabled) Ls_disabled Lo_internal_failure (Some (failure_code ?e)) (Some u) None ?s =
      (Some e, s1)" "le_outcome e = Lo_internal_failure" "find_profile ?i s1 = find_profile ?i ?s"
      "\<forall>k. k \<noteq> (?i, lq_request_id req) \<longrightarrow> find_event s1 k = find_event ?s k"
    using write_event_fresh [where s = ?s, OF _ assms(3,4)] assms(5) by (metis events_of_profiles)
  moreover have "precondition_denial Intent_activate (authority_snapshot_of row) = None" using assms(7) by (simp add: no_denial_iff)
  ultimately show ?thesis using assms
    by (simp add: execute_lifecycle_def request_identity_def derive_agent_external_identity_def Let_def o run_claim_def run_claimed_def
        event_run_def disabled_without_agent_def result_from_event_def reconcile_remote_def finalize_failure_def failure_outcome_def
        failed_profile_def claimed_profile_def coalesce_def owned_by_def)
qed

text \<open>
  C37: An activation whose user was set active but whose agent could not be provisioned, for a reason that is not retried, puts the row back to
  disabled; a later request to disable the agent is then answered as succeeded without any call, while the remote user stays active.
\<close>

theorem failed_activation_leaves_user_active:
  assumes "request_identity sha req ext" and "lq_intent req = Intent_activate" and "unshared env" and "js_trim u \<noteq> []"
    and "find_event s (profile_id_of ext, lq_request_id req) = None"
    and "ln_authority env = Some row" and "intent_authorized Intent_activate row"
    and "find_profile (profile_id_of ext) s = Some p" and "disabled_without_agent req ext u p"
    and "ln_remote env (Rc_set_status u True) = Inr v"
    and "ln_remote env (Rc_provision_agent u (''aiphabee-agent:v1:'' @ drop 12 ext)) = Inl (Lifecycle_error code False)"
    and "off = req\<lparr>lq_intent := Intent_disable, lq_request_id := request_id\<rparr>" and "request_id \<noteq> lq_request_id req"
    and "find_event s (profile_id_of ext, request_id) = None"
  shows "\<exists>r s1 r2 s2. execute_lifecycle sha env req s =
      (Some r, [Rc_set_status u True, Rc_provision_agent u (''aiphabee-agent:v1:'' @ drop 12 ext)], s1) \<and>
    lz_outcome r = Lo_internal_failure \<and> execute_lifecycle sha env off s1 = (Some r2, [], s2) \<and> lz_outcome r2 = Lo_succeeded"
proof -
  obtain r s1 p1 where 1: "execute_lifecycle sha env req s =
      (Some r, [Rc_set_status u True, Rc_provision_agent u (''aiphabee-agent:v1:'' @ drop 12 ext)], s1)" "lz_outcome r = Lo_internal_failure"
    "find_profile (profile_id_of ext) s1 = Some p1" "disabled_without_agent req ext u p1"
    "\<forall>k. k \<noteq> (profile_id_of ext, lq_request_id req) \<longrightarrow> find_event s1 k = find_event s k"
    using activation_fails [OF assms(1-11)] by blast
  have "\<exists>r2 s2. execute_lifecycle sha env off s1 = (Some r2, [], s2) \<and> lz_outcome r2 = Lo_succeeded"
    by (rule disable_is_noop [where p = p1 and row = row])
      (use assms 1 in \<open>simp_all add: request_identity_def disabled_without_agent_def intent_authorized_def\<close>)
  with 1 show ?thesis by blast
qed

section \<open>Samples\<close>

definition sample_lifecycle_request :: "lifecycle_intent \<Rightarrow> lifecycle_request" where
  "sample_lifecycle_request i =
     \<lparr>lq_account_id = ''a'', lq_intent = i, lq_reason = ''r'', lq_request_id = ''q1'', lq_workspace_id = ''w''\<rparr>"

definition sample_ext :: string where
  "sample_ext = ''aiphabee:v1:'' @ replicate 64 (CHR ''6'')"

definition sample_profile :: "agent_status \<Rightarrow> string option \<Rightarrow> agent_profile" where
  "sample_profile st agent =
     (new_profile (sample_lifecycle_request Intent_activate) (profile_id_of sample_ext) sample_ext)
       \<lparr>ap_status := st, ap_user_id := Some ''u1'', ap_agent_id := agent\<rparr>"

definition sample_authority :: "string \<Rightarrow> authority_row" where
  "sample_authority status =
     \<lparr>ar_account_exists = True, ar_account_status = Some status, ar_entitlement_approved = True, ar_membership_active = True,
      ar_product_access_active = True, ar_subscription_active = True, ar_workspace_exists = True, ar_workspace_status = Some ''active''\<rparr>"

definition sample_agent_env :: "(remote_call \<Rightarrow> control_error + string) \<Rightarrow> agent_env" where
  "sample_agent_env remote =
     \<lparr>ln_now = 0, ln_remote = remote, ln_authority = Some (sample_authority ''active''), ln_others = (\<lambda>k t. t)\<rparr>"

definition sample_remote :: "remote_call \<Rightarrow> control_error + string" where
  "sample_remote c =
     (case c of Rc_provision_user e \<Rightarrow> Inr ''u1'' | Rc_provision_agent u e \<Rightarrow> Inl (Lifecycle_error Control_conflict False) | _ \<Rightarrow> Inr [])"

definition sample_bindings :: lifecycle_bindings where
  "sample_bindings =
     \<lparr>lb_connection_string = Some ''db'', lb_control_service = True, lb_shared_token = None, lb_admin_api_key = Some ''key'',
      lb_base_url = Some ''https://control'', lb_template_agent_id = Some ''template''\<rparr>"

definition sample_profiles :: "agent_status \<Rightarrow> string option \<Rightarrow> lifecycle_store" where
  "sample_profiles st agent = \<lparr>sr_profiles = [sample_profile st agent], sr_events = []\<rparr>"

lemma sample_request_identity: "request_identity sample_sha (sample_lifecycle_request i) sample_ext"
  by (simp add: request_identity_def derive_external_identity_def sample_lifecycle_request_def sample_ext_def sha256_hex_def sample_sha_def
      sample_hex assert_non_empty_def js_trim_def is_ws_def)

lemma sample_find:
  "find_profile (profile_id_of sample_ext) (sample_profiles st agent) = Some (sample_profile st agent)"
  "find_event (sample_profiles st agent) k = None"
  by (simp_all add: find_profile_def find_event_def sample_profiles_def sample_profile_def new_profile_def)

lemma sample_intent [simp]: "lq_intent (sample_lifecycle_request i) = i"
  by (simp add: sample_lifecycle_request_def)

lemma sample_profile_row:
  "ap_status (sample_profile st agent) = st" "ap_user_id (sample_profile st agent) = Some ''u1''" "ap_agent_id (sample_profile st agent) = agent"
  "ap_lease_owner (sample_profile st agent) = None"
  by (simp_all add: sample_profile_def new_profile_def)

lemma sample_unshared: "unshared (sample_agent_env remote)"
  by (simp add: unshared_def sample_agent_env_def)

lemma sample_evolves: "store_evolves t (ln_others (sample_agent_env remote) k t)"
  by (simp add: sample_agent_env_def)

lemma sample_isolated: "request_isolated (sample_agent_env remote) i rid"
  by (simp add: request_isolated_def sample_agent_env_def)

lemma sample_authorized: "intent_authorized Intent_activate (sample_authority ''active'')"
  by (simp add: intent_authorized_def sample_authority_def)

lemma sample_user_trim [simp]: "js_trim ''u1'' = ''u1''"
  by (simp add: js_trim_def is_ws_def)

theorem failed_activation_leaves_user_active_witness:
  "\<exists>r s1 r2 s2. execute_lifecycle sample_sha (sample_agent_env sample_remote) (sample_lifecycle_request Intent_activate)
      (sample_profiles Ls_disabled None) =
      (Some r, [Rc_set_status ''u1'' True, Rc_provision_agent ''u1'' (''aiphabee-agent:v1:'' @ drop 12 sample_ext)], s1) \<and>
    lz_outcome r = Lo_internal_failure \<and>
    execute_lifecycle sample_sha (sample_agent_env sample_remote)
      (sample_lifecycle_request Intent_activate\<lparr>lq_intent := Intent_disable, lq_request_id := ''q2''\<rparr>) s1 = (Some r2, [], s2) \<and>
    lz_outcome r2 = Lo_succeeded"
  by (rule failed_activation_leaves_user_active [OF sample_request_identity _ sample_unshared, where u = "''u1''" and row = "sample_authority ''active''" and
        p = "sample_profile Ls_disabled None" and v = "[]" and code = Control_conflict and request_id = "''q2''"])
    (simp_all add: sample_find sample_authorized, simp_all add: sample_lifecycle_request_def sample_agent_env_def sample_remote_def
      disabled_without_agent_def sample_profile_def new_profile_def owned_by_def)

lemma sample_activation:
  assumes "ln_remote env (Rc_set_status ''u1'' True) = Inr v" and "unshared env" and "ln_authority env = Some (sample_authority ''active'')"
  shows "\<exists>r s1. execute_lifecycle sample_sha env (sample_lifecycle_request Intent_activate) (sample_profiles Ls_disabled (Some ''a1'')) =
    (Some r, [Rc_set_status ''u1'' True], s1) \<and> lz_outcome r = Lo_succeeded \<and> lz_error_code r = None"
proof -
  have o: "ln_others env k t = t" for k t using assms(2) by (simp add: unshared_def)
  have i: "insert_profile (new_profile (sample_lifecycle_request Intent_activate) (profile_id_of sample_ext) sample_ext) (\<lambda>p. p)
      (sample_profiles Ls_disabled (Some ''a1'')) = Some (sample_profiles Ls_disabled (Some ''a1''))"
    by (intro insert_existing [OF sample_find(1)]) (simp add: sample_profile_def new_profile_def owned_by_def)
  have "precondition_denial Intent_activate (authority_snapshot_of (sample_authority ''active'')) = None" using sample_authorized by (simp add: no_denial_iff)
  moreover have "js_trim ''a1'' \<noteq> []" by (simp add: js_trim_def is_ws_def)
  moreover have "claim_lifecycle env (sample_lifecycle_request Intent_activate) (profile_id_of sample_ext) sample_ext (sample_profiles Ls_disabled (Some ''a1'')) =
      (Some (Ck_claimed Ls_disabled (claimed_profile (sample_lifecycle_request Intent_activate) (ln_now env) (sample_profile Ls_disabled (Some ''a1'')))),
       update_profile (profile_id_of sample_ext) (claimed_profile (sample_lifecycle_request Intent_activate) (ln_now env))
         (sample_profiles Ls_disabled (Some ''a1'')))"
    by (simp add: claim_lifecycle_def i o sample_find Let_def terminal_status_for_intent_def lease_free_def sample_profile_row)
  ultimately show ?thesis using sample_request_identity [of Intent_activate] assms
    by (simp add: execute_lifecycle_def request_identity_def derive_agent_external_identity_def Let_def o sample_find run_claim_def
        run_claimed_def event_run_def reconcile_remote_def sample_profile_row
        finalize_success_def write_event_def optional_hash_Some events.lookup_insert result_from_event_def)
qed

lemma sample_client:
  "new_control_client \<lparr>cg_admin_api_key = the_binding (lb_admin_api_key sample_bindings), cg_base_url = the_binding (lb_base_url sample_bindings),
     cg_url = Some (''https:'', ''control''), cg_template_agent_id = the_binding (lb_template_agent_id sample_bindings), cg_timeout_ms = None\<rparr> =
   Inr sample_control_client"
  by code_simp

text \<open>The transaction of the sample activation, over the sample control plane.\<close>

lemma sample_transaction:
  "\<exists>r s1. run_research_agent_lifecycle sample_sha sample_decode (sample_control_fetch 200) sample_bindings (Some (''https:'', ''control'')) None
     (sample_agent_env sample_remote) (sample_lifecycle_request Intent_activate) (sample_profiles Ls_disabled (Some ''a1'')) =
   (Some r, [Rc_set_status ''u1'' True], s1) \<and> lz_outcome r = Lo_succeeded \<and> lz_error_code r = None"
proof -
  have "bindings_usable sample_bindings" by code_simp
  moreover have "client_remote sample_decode (sample_control_fetch 200) sample_control_client (Rc_set_status ''u1'' True) = Inr []"
    by (simp add: client_remote_def set_user_status_def sample_control_answer user_status_text_def)
  ultimately show ?thesis
    using sample_activation [of "sample_agent_env sample_remote\<lparr>ln_remote := client_remote sample_decode (sample_control_fetch 200) sample_control_client\<rparr>"]
    by (auto simp: run_research_agent_lifecycle_def sample_client unshared_def sample_agent_env_def)
qed


theorem transactions_evolve_witness:
  "\<exists>r s1. run_research_agent_lifecycle sample_sha sample_decode (sample_control_fetch 200) sample_bindings (Some (''https:'', ''control''))
     None (sample_agent_env sample_remote) (sample_lifecycle_request Intent_activate) (sample_profiles Ls_disabled (Some ''a1'')) =
     (Some r, [Rc_set_status ''u1'' True], s1) \<and> store_evolves (sample_profiles Ls_disabled (Some ''a1'')) s1"
  using sample_transaction transactions_evolve [OF _ sample_evolves] by blast

theorem lease_is_never_observed_witness:
  "\<exists>r s1. run_research_agent_lifecycle sample_sha sample_decode (sample_control_fetch 200) sample_bindings (Some (''https:'', ''control''))
     None (sample_agent_env sample_remote) (sample_lifecycle_request Intent_activate) (sample_profiles Ls_disabled (Some ''a1'')) =
     (Some r, [Rc_set_status ''u1'' True], s1) \<and> lz_error_code r \<noteq> Some ''LIFECYCLE_LEASE_BUSY''"
proof -
  have "lease_free_store (sample_profiles Ls_disabled (Some ''a1''))"
    by (simp add: lease_free_store_def sample_profiles_def sample_profile_row)
  with sample_transaction lease_is_never_observed [OF _ sample_request_identity sample_find(2) sample_isolated _ sample_evolves] show ?thesis
    by blast
qed

theorem deleted_profile_is_final_witness:
  "\<exists>r s1. run_research_agent_lifecycle sample_sha sample_decode (sample_control_fetch 200) sample_bindings (Some (''https:'', ''control'')) None
     (sample_agent_env sample_remote) (sample_lifecycle_request Intent_activate) (sample_profiles Ls_deleted None) = (r, [], s1) \<and>
   deleted_in (profile_id_of sample_ext) s1"
proof -
  have "deleted_in (profile_id_of sample_ext) (sample_profiles Ls_deleted None)" by (simp add: deleted_in_def sample_find sample_profile_row)
  with deleted_profile_is_final [OF _ sample_request_identity _ sample_evolves] show ?thesis by (metis prod_cases3)
qed



end
