(* ===== verification/Agent_Usage.thy ===== *)
theory Agent_Usage
  imports Agent_Reconciliation Runner_Authority Terminal_Lifecycle
begin

text \<open>
  The measured usage of agent runs (\<open>apps/worker/src/research-agent-product-control.ts\<close>, and the sink of terminal records in
  \<open>fastclaw-live-control.ts\<close>): the checks of a measurement, its idempotent recording with usage event and ledger entry in one
  transaction, and the status shown to the user.

  The tables are lists of rows, columns with a constant value are left out; a \<open>timestamptz\<close> column holds an instant, which the driver returns
  as a date. \<open>Date.parse\<close> and the database's reading of a timestamp are parameters.
\<close>

section \<open>Values\<close>

definition valid_text :: "string \<Rightarrow> bool" where
  "valid_text v \<longleftrightarrow> 0 < length v \<and> length v \<le> 500 \<and> js_trim v = v \<and> \<not> has_control v"

definition opaque_id :: "string \<Rightarrow> bool" where
  "opaque_id v \<longleftrightarrow> 1 \<le> length v \<and> length v \<le> 200 \<and> list_all (\<lambda>c. is_alnum c \<or> c \<in> set ''._:-'') v"

definition valid_id :: "string \<Rightarrow> bool" where
  "valid_id v \<longleftrightarrow> opaque_id v \<and> v \<noteq> ''.'' \<and> v \<noteq> ''..''"

text \<open>The pattern of an authentication subject, which ignores the case of letters.\<close>

definition lower_char :: "char \<Rightarrow> char" where
  "lower_char c = (if is_upper c then char_of (code_unit c + 32) else c)"

definition subject_position :: "nat \<Rightarrow> char \<Rightarrow> bool" where
  "subject_position i c \<longleftrightarrow>
     (if i \<in> {20, 25, 30, 35} then c = CHR ''-''
      else if i = 26 then c \<in> set ''12345678''
      else if i = 31 then c \<in> set ''89ab''
      else is_lower_hex c)"

definition valid_auth_subject :: "string \<Rightarrow> bool" where
  "valid_auth_subject v \<longleftrightarrow>
     (let s = map lower_char v in
      length s = 48 \<and> take 12 s = ''better-auth:'' \<and> list_all (\<lambda>i. subject_position i (s ! i)) [12..<48])"

definition safe_count :: "int \<Rightarrow> bool" where
  "safe_count n \<longleftrightarrow> is_safe_integer n \<and> 0 \<le> n"

section \<open>Measurements\<close>

datatype product_error =
  Admin_action_invalid
  | Admin_action_replay_mismatch
  | Admin_target_invalid
  | Admin_unauthorized
  | Auth_subject_invalid
  | Usage_input_invalid
  | Usage_replay_mismatch
  | Database_error

text \<open>A measurement, with its time as a text in the interface and as an instant in the table.\<close>

record 't run_usage =
  mu_account_id :: string
  mu_credit_delta :: int
  mu_measurement :: string
  mu_methodology_version :: string
  mu_model_input_tokens :: int
  mu_model_output_tokens :: int
  mu_occurred_at :: 't
  mu_request_id :: string
  mu_rights_policy_version :: string
  mu_run_id :: string
  mu_sandbox_cpu_ms :: int
  mu_sandbox_peak_disk_bytes :: int
  mu_sandbox_peak_memory_bytes :: int
  mu_sandbox_wall_clock_ms :: int
  mu_source_record_id :: string
  mu_storage_bytes_read :: int
  mu_storage_bytes_written :: int
  mu_storage_delete_ops :: int
  mu_storage_read_ops :: int
  mu_storage_write_ops :: int
  mu_terminal_state :: string
  mu_tool_calls_failed :: int
  mu_tool_calls_succeeded :: int
  mu_workspace_id :: string

definition usage_methodology :: string where
  "usage_methodology = ''fastclaw-cost-pending-live-row10-v0''"

definition usage_meter_rule :: string where
  "usage_meter_rule = ''meter_api_fastclaw_personal_agent_agent_run_credit''"

definition sandbox_terminal_states :: "string list" where
  "sandbox_terminal_states =
     [''client_cancelled'', ''completed'', ''create_failed'', ''execution_failed'', ''global_killed'', ''hard_timeout'', ''kill_switch'',
      ''soft_timeout'', ''stream_interrupted'', ''tenant_killed'']"

definition usage_counters :: "'t run_usage \<Rightarrow> int list" where
  "usage_counters u =
     [mu_model_input_tokens u, mu_model_output_tokens u, mu_sandbox_cpu_ms u, mu_sandbox_peak_disk_bytes u, mu_sandbox_peak_memory_bytes u,
      mu_sandbox_wall_clock_ms u, mu_storage_bytes_read u, mu_storage_bytes_written u, mu_storage_delete_ops u, mu_storage_read_ops u,
      mu_storage_write_ops u, mu_tool_calls_failed u, mu_tool_calls_succeeded u]"

definition validate_usage :: "(string \<Rightarrow> int option) \<Rightarrow> string run_usage \<Rightarrow> product_error + unit" where
  "validate_usage parse_date u =
     require
       (mu_measurement u = ''observed'' \<and> valid_id (mu_account_id u) \<and> valid_id (mu_workspace_id u) \<and> valid_id (mu_request_id u) \<and>
        valid_id (mu_run_id u) \<and> mu_methodology_version u = usage_methodology \<and> mu_rights_policy_version u = ''default_deny'' \<and>
        mu_terminal_state u \<in> set sandbox_terminal_states \<and> valid_id (mu_source_record_id u) \<and> parse_date (mu_occurred_at u) \<noteq> None \<and>
        0 \<le> mu_credit_delta u \<and> mu_credit_delta u = 0)
       Usage_input_invalid (
     require (\<not> list_ex (\<lambda>n. \<not> safe_count n) (usage_counters u)) Usage_input_invalid (Inr ()))"

section \<open>The tables\<close>

record usage_event =
  ue_id :: string
  ue_request_id :: string
  ue_run_id :: string
  ue_workspace_id :: string
  ue_account_id :: string
  ue_occurred_at :: int
  ue_input_units :: int
  ue_output_units :: int
  ue_quality_state :: string
  ue_methodology_version :: string
  ue_rights_policy_version :: string
  ue_source_record_id :: string

record ledger_entry =
  lg_id :: string
  lg_event_id :: string
  lg_workspace_id :: string
  lg_account_id :: string
  lg_rule_id :: string
  lg_credit_delta :: int
  lg_source_record_id :: string

record usage_store =
  us_events :: "usage_event list"
  us_ledger :: "ledger_entry list"
  us_runs :: "int run_usage list"

definition find_usage_event :: "usage_store \<Rightarrow> string \<Rightarrow> usage_event option" where
  "find_usage_event s k = List.find (\<lambda>e. ue_id e = k) (us_events s)"

definition find_ledger :: "usage_store \<Rightarrow> string \<times> string \<Rightarrow> ledger_entry option" where
  "find_ledger s k = List.find (\<lambda>e. (lg_event_id e, lg_rule_id e) = k) (us_ledger s)"

definition find_run :: "usage_store \<Rightarrow> string \<times> string \<Rightarrow> int run_usage option" where
  "find_run s k = List.find (\<lambda>u. (mu_workspace_id u, mu_run_id u) = k) (us_runs s)"

definition insert_usage_event :: "usage_event \<Rightarrow> usage_store \<Rightarrow> usage_store" where
  "insert_usage_event e s = (if find_usage_event s (ue_id e) = None then s\<lparr>us_events := us_events s @ [e]\<rparr> else s)"

definition insert_ledger :: "ledger_entry \<Rightarrow> usage_store \<Rightarrow> usage_store" where
  "insert_ledger e s = (if find_ledger s (lg_event_id e, lg_rule_id e) = None then s\<lparr>us_ledger := us_ledger s @ [e]\<rparr> else s)"

definition insert_run :: "int run_usage \<Rightarrow> usage_store \<Rightarrow> usage_store" where
  "insert_run u s = (if find_run s (mu_workspace_id u, mu_run_id u) = None then s\<lparr>us_runs := us_runs s @ [u]\<rparr> else s)"

definition usage_event_id :: "string \<Rightarrow> string" where
  "usage_event_id run_id = ''usage_event_fastclaw_'' @ run_id"

definition ledger_entry_id :: "string \<Rightarrow> string" where
  "ledger_entry_id run_id = ''usage_ledger_entry_fastclaw_'' @ run_id"

definition usage_event_of :: "int run_usage \<Rightarrow> usage_event" where
  "usage_event_of u =
     \<lparr>ue_id = usage_event_id (mu_run_id u), ue_request_id = mu_request_id u, ue_run_id = mu_run_id u, ue_workspace_id = mu_workspace_id u,
      ue_account_id = mu_account_id u, ue_occurred_at = mu_occurred_at u, ue_input_units = mu_model_input_tokens u,
      ue_output_units = mu_model_output_tokens u, ue_quality_state = (if mu_terminal_state u = ''completed'' then ''PASS'' else ''HOLD''),
      ue_methodology_version = mu_methodology_version u, ue_rights_policy_version = mu_rights_policy_version u,
      ue_source_record_id = mu_source_record_id u\<rparr>"

definition ledger_entry_of :: "int run_usage \<Rightarrow> ledger_entry" where
  "ledger_entry_of u =
     \<lparr>lg_id = ledger_entry_id (mu_run_id u), lg_event_id = usage_event_id (mu_run_id u), lg_workspace_id = mu_workspace_id u,
      lg_account_id = mu_account_id u, lg_rule_id = usage_meter_rule, lg_credit_delta = mu_credit_delta u,
      lg_source_record_id = mu_source_record_id u\<rparr>"

section \<open>Reading rows\<close>

definition row_number :: "int \<Rightarrow> int option" where
  "row_number v = (if v < 0 then None else Some v)"

text \<open>The measurement of a row; \<open>None\<close> where a number is negative or the instant is no date, and the conversion throws.\<close>

definition normalize_usage_row :: "int run_usage \<Rightarrow> string run_usage option" where
  "normalize_usage_row row =
     Option.bind (row_number (mu_credit_delta row)) (\<lambda>credit_delta.
     Option.bind (row_number (mu_model_input_tokens row)) (\<lambda>model_input_tokens.
     Option.bind (row_number (mu_model_output_tokens row)) (\<lambda>model_output_tokens.
     Option.bind (iso_text (mu_occurred_at row)) (\<lambda>occurred_at.
     Option.bind (row_number (mu_sandbox_cpu_ms row)) (\<lambda>cpu_ms.
     Option.bind (row_number (mu_sandbox_peak_disk_bytes row)) (\<lambda>peak_disk.
     Option.bind (row_number (mu_sandbox_peak_memory_bytes row)) (\<lambda>peak_memory.
     Option.bind (row_number (mu_sandbox_wall_clock_ms row)) (\<lambda>wall_clock_ms.
     Option.bind (row_number (mu_storage_bytes_read row)) (\<lambda>bytes_read.
     Option.bind (row_number (mu_storage_bytes_written row)) (\<lambda>bytes_written.
     Option.bind (row_number (mu_storage_delete_ops row)) (\<lambda>delete_ops.
     Option.bind (row_number (mu_storage_read_ops row)) (\<lambda>read_ops.
     Option.bind (row_number (mu_storage_write_ops row)) (\<lambda>write_ops.
     Option.bind (row_number (mu_tool_calls_failed row)) (\<lambda>calls_failed.
     Option.bind (row_number (mu_tool_calls_succeeded row)) (\<lambda>calls_succeeded.
     Some \<lparr>mu_account_id = mu_account_id row, mu_credit_delta = credit_delta, mu_measurement = ''observed'',
       mu_methodology_version = mu_methodology_version row, mu_model_input_tokens = model_input_tokens,
       mu_model_output_tokens = model_output_tokens, mu_occurred_at = occurred_at, mu_request_id = mu_request_id row,
       mu_rights_policy_version = mu_rights_policy_version row, mu_run_id = mu_run_id row, mu_sandbox_cpu_ms = cpu_ms,
       mu_sandbox_peak_disk_bytes = peak_disk, mu_sandbox_peak_memory_bytes = peak_memory, mu_sandbox_wall_clock_ms = wall_clock_ms,
       mu_source_record_id = mu_source_record_id row, mu_storage_bytes_read = bytes_read, mu_storage_bytes_written = bytes_written,
       mu_storage_delete_ops = delete_ops, mu_storage_read_ops = read_ops, mu_storage_write_ops = write_ops,
       mu_terminal_state = mu_terminal_state row, mu_tool_calls_failed = calls_failed, mu_tool_calls_succeeded = calls_succeeded,
       mu_workspace_id = mu_workspace_id row\<rparr>)))))))))))))))"

text \<open>Two measurements match when the texts of their values are the same.\<close>

definition usage_values :: "string run_usage \<Rightarrow> json" where
  "usage_values u =
     JArr [JStr (mu_account_id u), JNum (mu_credit_delta u), JStr (mu_measurement u), JStr (mu_methodology_version u),
       JNum (mu_model_input_tokens u), JNum (mu_model_output_tokens u), JStr (mu_occurred_at u), JStr (mu_request_id u),
       JStr (mu_rights_policy_version u), JStr (mu_run_id u), JNum (mu_sandbox_cpu_ms u), JNum (mu_sandbox_peak_disk_bytes u),
       JNum (mu_sandbox_peak_memory_bytes u), JNum (mu_sandbox_wall_clock_ms u), JStr (mu_source_record_id u),
       JNum (mu_storage_bytes_read u), JNum (mu_storage_bytes_written u), JNum (mu_storage_delete_ops u), JNum (mu_storage_read_ops u),
       JNum (mu_storage_write_ops u), JStr (mu_terminal_state u), JNum (mu_tool_calls_failed u), JNum (mu_tool_calls_succeeded u),
       JStr (mu_workspace_id u)]"

definition usage_matches :: "string run_usage \<Rightarrow> string run_usage \<Rightarrow> bool" where
  "usage_matches u v \<longleftrightarrow> json_text (usage_values u) = json_text (usage_values v)"

section \<open>Recording\<close>

record usage_env =
  ug_time :: "string \<Rightarrow> int option"
  ug_others :: "usage_store \<Rightarrow> usage_store"
  ug_fault :: bool

text \<open>The row of a measurement; the text of its time is read by the database.\<close>

definition usage_row :: "(string \<Rightarrow> int option) \<Rightarrow> string run_usage \<Rightarrow> int run_usage option" where
  "usage_row time u =
     Option.bind (time (mu_occurred_at u)) (\<lambda>occurred_at.
     Some \<lparr>mu_account_id = mu_account_id u, mu_credit_delta = mu_credit_delta u, mu_measurement = ''observed'',
       mu_methodology_version = mu_methodology_version u, mu_model_input_tokens = mu_model_input_tokens u,
       mu_model_output_tokens = mu_model_output_tokens u, mu_occurred_at = occurred_at, mu_request_id = mu_request_id u,
       mu_rights_policy_version = mu_rights_policy_version u, mu_run_id = mu_run_id u, mu_sandbox_cpu_ms = mu_sandbox_cpu_ms u,
       mu_sandbox_peak_disk_bytes = mu_sandbox_peak_disk_bytes u, mu_sandbox_peak_memory_bytes = mu_sandbox_peak_memory_bytes u,
       mu_sandbox_wall_clock_ms = mu_sandbox_wall_clock_ms u, mu_source_record_id = mu_source_record_id u,
       mu_storage_bytes_read = mu_storage_bytes_read u, mu_storage_bytes_written = mu_storage_bytes_written u,
       mu_storage_delete_ops = mu_storage_delete_ops u, mu_storage_read_ops = mu_storage_read_ops u,
       mu_storage_write_ops = mu_storage_write_ops u, mu_terminal_state = mu_terminal_state u,
       mu_tool_calls_failed = mu_tool_calls_failed u, mu_tool_calls_succeeded = mu_tool_calls_succeeded u,
       mu_workspace_id = mu_workspace_id u\<rparr>)"

text \<open>\<open>None\<close> where there is no row, \<open>Some None\<close> where it cannot be read.\<close>

definition read_usage :: "usage_store \<Rightarrow> string \<Rightarrow> string \<Rightarrow> string run_usage option option" where
  "read_usage s workspace_id run_id = map_option normalize_usage_row (find_run s (workspace_id, run_id))"

text \<open>
  What other transactions commit until the first insertion is \<open>ug_others\<close>; an insertion waits for a transaction that holds the same key, so
  what they commit later concerns other runs, and is seen later. The unique event id of a run is refused where another
  workspace has a measurement of a run with this id.
\<close>

definition run_id_taken :: "usage_store \<Rightarrow> int run_usage \<Rightarrow> bool" where
  "run_id_taken s row \<longleftrightarrow>
     find_run s (mu_workspace_id row, mu_run_id row) = None \<and> list_ex (\<lambda>r. mu_run_id r = mu_run_id row) (us_runs s)"

definition record_observed_usage ::
  "usage_env \<Rightarrow> string run_usage \<Rightarrow> usage_store \<Rightarrow> (product_error + bool) \<times> usage_store" where
  "record_observed_usage env u s =
     (case read_usage s (mu_workspace_id u) (mu_run_id u) of
        Some None \<Rightarrow> (Inl Database_error, s)
      | Some (Some existing) \<Rightarrow> if \<not> usage_matches u existing then (Inl Usage_replay_mismatch, s) else (Inr True, s)
      | None \<Rightarrow>
          (let s1 = ug_others env s in
           case usage_row (ug_time env) u of
             None \<Rightarrow> (Inl Database_error, s1)
           | Some row \<Rightarrow>
               (let s2 = insert_ledger (ledger_entry_of row) (insert_usage_event (usage_event_of row) s1);
                    inserted = (find_run s2 (mu_workspace_id row, mu_run_id row) = None); s3 = insert_run row s2 in
                if run_id_taken s2 row \<or> ug_fault env then (Inl Database_error, s1)
                else
                  (case read_usage s3 (mu_workspace_id u) (mu_run_id u) of
                     Some (Some stored) \<Rightarrow>
                       if usage_matches u stored then (Inr (\<not> inserted), s3) else (Inl Usage_replay_mismatch, s1)
                   | Some None \<Rightarrow> (Inl Database_error, s1)
                   | None \<Rightarrow> (Inl Usage_replay_mismatch, s1)))))"

definition service_record_usage ::
  "(string \<Rightarrow> int option) \<Rightarrow> usage_env \<Rightarrow> string run_usage \<Rightarrow> usage_store \<Rightarrow> (product_error + bool) \<times> usage_store" where
  "service_record_usage parse_date env u s =
     (case validate_usage parse_date u of Inl e \<Rightarrow> (Inl e, s) | Inr _ \<Rightarrow> record_observed_usage env u s)"

section \<open>The sink of terminal records\<close>

record usage_context =
  ux_account_id :: string
  ux_model_input_tokens :: int
  ux_model_output_tokens :: int
  ux_request_id :: string
  ux_sandbox_cpu_ms :: int
  ux_sandbox_peak_disk_bytes :: int
  ux_sandbox_peak_memory_bytes :: int
  ux_source_record_id :: string
  ux_storage_bytes_read :: int
  ux_storage_bytes_written :: int
  ux_storage_delete_ops :: int
  ux_storage_read_ops :: int
  ux_storage_write_ops :: int
  ux_tool_calls_failed :: int
  ux_tool_calls_succeeded :: int
  ux_workspace_id :: string

definition terminal_state_text :: "terminal_state \<Rightarrow> string" where
  "terminal_state_text st =
     (case st of
        St_client_cancelled \<Rightarrow> ''client_cancelled'' | St_completed \<Rightarrow> ''completed'' | St_create_failed \<Rightarrow> ''create_failed''
      | St_execution_failed \<Rightarrow> ''execution_failed'' | St_global_killed \<Rightarrow> ''global_killed'' | St_hard_timeout \<Rightarrow> ''hard_timeout''
      | St_kill_switch \<Rightarrow> ''kill_switch'' | St_soft_timeout \<Rightarrow> ''soft_timeout'' | St_stream_interrupted \<Rightarrow> ''stream_interrupted''
      | St_tenant_killed \<Rightarrow> ''tenant_killed'')"

definition terminal_usage :: "usage_context \<Rightarrow> terminal_record \<Rightarrow> string \<Rightarrow> string run_usage" where
  "terminal_usage x rec occurred_at =
     \<lparr>mu_account_id = ux_account_id x, mu_credit_delta = 0, mu_measurement = ''observed'', mu_methodology_version = usage_methodology,
      mu_model_input_tokens = ux_model_input_tokens x, mu_model_output_tokens = ux_model_output_tokens x, mu_occurred_at = occurred_at,
      mu_request_id = ux_request_id x, mu_rights_policy_version = ''default_deny'', mu_run_id = tr_run_id rec,
      mu_sandbox_cpu_ms = ux_sandbox_cpu_ms x, mu_sandbox_peak_disk_bytes = ux_sandbox_peak_disk_bytes x,
      mu_sandbox_peak_memory_bytes = ux_sandbox_peak_memory_bytes x,
      mu_sandbox_wall_clock_ms = ou_lifecycle_wall_clock_ms (tr_usage rec), mu_source_record_id = ux_source_record_id x,
      mu_storage_bytes_read = ux_storage_bytes_read x, mu_storage_bytes_written = ux_storage_bytes_written x,
      mu_storage_delete_ops = ux_storage_delete_ops x, mu_storage_read_ops = ux_storage_read_ops x,
      mu_storage_write_ops = ux_storage_write_ops x, mu_terminal_state = terminal_state_text (tr_terminal_state rec),
      mu_tool_calls_failed = ux_tool_calls_failed x, mu_tool_calls_succeeded = ux_tool_calls_succeeded x,
      mu_workspace_id = ux_workspace_id x\<rparr>"

definition record_terminal_usage ::
  "usage_env \<Rightarrow> usage_context \<Rightarrow> int \<Rightarrow> terminal_record \<Rightarrow> usage_store \<Rightarrow> (product_error + bool) \<times> usage_store" where
  "record_terminal_usage env x now rec s =
     (case iso_text now of
        None \<Rightarrow> (Inl Database_error, s)
      | Some t \<Rightarrow> record_observed_usage env (terminal_usage x rec t) s)"

section \<open>Matching\<close>

lemma json_text_eq: "json_ok v \<Longrightarrow> json_ok w \<Longrightarrow> json_text v = json_text w \<longleftrightarrow> v = w"
  by (metis json_roundtrip option.inject)

text \<open>The comparison of the texts is the comparison of all values.\<close>

lemma usage_values_eq: "usage_values u = usage_values v \<longleftrightarrow> u = v"
  by (cases u; cases v) (simp add: usage_values_def)

lemma usage_matches_eq: "usage_matches u v \<longleftrightarrow> u = v"
  unfolding usage_matches_def usage_values_eq [symmetric] by (rule json_text_eq) (simp_all add: usage_values_def)

section \<open>Texts of instants\<close>

lemma pad_digits_min: "k \<le> length (pad_digits k n)"
  by (simp add: pad_digits_def)

lemma iso_text_defined:
  assumes "abs t \<le> 8640000000000000"
  shows "\<exists>s. iso_text t = Some s"
proof -
  obtain m d where "month_day (month_lengths (year_from_day (t div ms_per_day)))
      (nat (t div ms_per_day - day_from_year (year_from_day (t div ms_per_day)))) = (m, d)" by force
  with assms show ?thesis by (simp add: iso_text_def Let_def)
qed

lemma iso_text_length:
  assumes "iso_text t = Some s"
  shows "24 \<le> length s"
proof -
  let ?y = "year_from_day (t div ms_per_day)" and ?r = "nat (t mod ms_per_day)"
  obtain m d where md: "month_day (month_lengths ?y) (nat (t div ms_per_day - day_from_year ?y)) = (m, d)" by force
  have "4 \<le> length (iso_year ?y)" using pad_digits_min [of 4 "nat ?y"] pad_digits_min [of 6 "nat (abs ?y)"] by (simp add: iso_year_def)
  moreover have "s = iso_year ?y @ ''-'' @ pad_digits 2 m @ ''-'' @ pad_digits 2 d @ ''T'' @ pad_digits 2 (?r div 3600000) @ '':'' @
      pad_digits 2 (?r div 60000 mod 60) @ '':'' @ pad_digits 2 (?r div 1000 mod 60) @ ''.'' @ pad_digits 3 (?r mod 1000) @ ''Z''"
    using assms by (simp add: iso_text_def Let_def md split: if_splits)
  ultimately show ?thesis
    using pad_digits_min [of 2 m] pad_digits_min [of 2 d] pad_digits_min [of 2 "?r div 3600000"] pad_digits_min [of 2 "?r div 60000 mod 60"]
      pad_digits_min [of 2 "?r div 1000 mod 60"] pad_digits_min [of 3 "?r mod 1000"] by simp
qed

section \<open>The tables\<close>

interpretation usage_events: first_write_store find_usage_event ue_id insert_usage_event
  by unfold_locales (auto simp: find_usage_event_def insert_usage_event_def find_append split: option.split)

interpretation ledger_entries: first_write_store find_ledger "\<lambda>e. (lg_event_id e, lg_rule_id e)" insert_ledger
  by unfold_locales (auto simp: find_ledger_def insert_ledger_def find_append split: option.split)

interpretation run_rows: first_write_store find_run "\<lambda>u. (mu_workspace_id u, mu_run_id u)" insert_run
  by unfold_locales (auto simp: find_run_def insert_run_def find_append split: option.split)

lemma other_tables [simp]:
  "us_runs (insert_usage_event e s) = us_runs s" "us_runs (insert_ledger l s) = us_runs s"
  "find_run (insert_usage_event e s) = find_run s" "find_run (insert_ledger l s) = find_run s"
  "find_usage_event (insert_ledger l s) = find_usage_event s" "find_usage_event (insert_run u s) = find_usage_event s"
  "find_ledger (insert_usage_event e s) = find_ledger s" "find_ledger (insert_run u s) = find_ledger s"
  by (auto simp: insert_usage_event_def insert_ledger_def insert_run_def find_run_def find_usage_event_def find_ledger_def fun_eq_iff)

lemma find_run_set: "find_run s k = Some u \<Longrightarrow> u \<in> set (us_runs s) \<and> (mu_workspace_id u, mu_run_id u) = k"
  by (auto simp: find_run_def find_Some_iff)

text \<open>
  The tables agree: every measured run has its usage event and its ledger entry, with its values, and they are only there for measured runs;
  no two measurements are of runs with the same id.
\<close>

definition usage_agrees :: "usage_store \<Rightarrow> bool" where
  "usage_agrees s \<longleftrightarrow>
     distinct (map mu_run_id (us_runs s)) \<and>
     (\<forall>u \<in> set (us_runs s). find_usage_event s (usage_event_id (mu_run_id u)) = Some (usage_event_of u) \<and>
        find_ledger s (usage_event_id (mu_run_id u), usage_meter_rule) = Some (ledger_entry_of u)) \<and>
     (\<forall>run_id. find_usage_event s (usage_event_id run_id) \<noteq> None \<or> find_ledger s (usage_event_id run_id, usage_meter_rule) \<noteq> None \<longrightarrow>
        run_id \<in> mu_run_id ` set (us_runs s))"

lemma usage_event_id_eq [simp]: "usage_event_id a = usage_event_id b \<longleftrightarrow> a = b"
  by (simp add: usage_event_id_def)

lemma usage_row_simps:
  assumes "usage_row time u = Some row"
  shows "mu_workspace_id row = mu_workspace_id u" "mu_run_id row = mu_run_id u" "time (mu_occurred_at u) = Some (mu_occurred_at row)"
  using assms by (auto simp: usage_row_def split: bind_splits)

lemma record_cases [consumes 1, case_names known failed stored]:
  assumes "record_observed_usage env u s = (r, s1)"
  obtains "s1 = s" "read_usage s (mu_workspace_id u) (mu_run_id u) \<noteq> None"
    "r = Inr True \<Longrightarrow> read_usage s (mu_workspace_id u) (mu_run_id u) = Some (Some u)" "r \<noteq> Inr False"
  | e where "r = Inl e" "s1 = ug_others env s"
  | row where "usage_row (ug_time env) u = Some row" "\<not> run_id_taken (ug_others env s) row"
    "s1 = insert_run row (insert_ledger (ledger_entry_of row) (insert_usage_event (usage_event_of row) (ug_others env s)))"
    "read_usage s1 (mu_workspace_id u) (mu_run_id u) = Some (Some u)"
    "r = Inr (find_run (ug_others env s) (mu_workspace_id u, mu_run_id u) \<noteq> None)"
proof -
  note known = that(1) and failed = that(2) and stored = that(3)
  let ?k = "(mu_workspace_id u, mu_run_id u)" and ?s = "ug_others env s"
  show thesis
  proof (cases "read_usage s (mu_workspace_id u) (mu_run_id u)")
    case (Some x)
    with assms show thesis
      by (intro known) (auto simp: record_observed_usage_def usage_matches_eq split: option.splits if_splits)
  next
    case None
    note n = None
    show thesis
    proof (cases "usage_row (ug_time env) u")
      case None
      with assms n show thesis by (intro failed) (auto simp: record_observed_usage_def)
    next
      case (Some row)
      let ?s3 = "insert_run row (insert_ledger (ledger_entry_of row) (insert_usage_event (usage_event_of row) ?s))"
      note k = usage_row_simps(1,2) [OF Some]
      have t: "run_id_taken (insert_ledger l (insert_usage_event e ?s)) row = run_id_taken ?s row" for l e by (simp add: run_id_taken_def)
      show thesis
      proof (cases "run_id_taken ?s row \<or> ug_fault env \<or> read_usage ?s3 (mu_workspace_id u) (mu_run_id u) \<noteq> Some (Some u)")
        case True
        with assms n Some have "\<exists>e. r = Inl e" "s1 = ?s"
          by (auto simp: record_observed_usage_def usage_matches_eq Let_def t split: option.splits if_splits)
        then show thesis by (auto intro: failed)
      next
        case False
        with assms n Some show thesis
          by (intro stored [OF Some]) (auto simp: record_observed_usage_def usage_matches_eq Let_def t k)
      qed
    qed
  qed
qed

text \<open>The measurement of a row is the measurement it was made of, when the time is the canonical text of its instant.\<close>

lemma normalize_row:
  assumes "usage_row time u = Some row" and "normalize_usage_row row = Some v"
  shows "v = u\<lparr>mu_measurement := ''observed'', mu_occurred_at := mu_occurred_at v\<rparr>" and "iso_text (mu_occurred_at row) = Some (mu_occurred_at v)"
  using assms by (auto simp: usage_row_def normalize_usage_row_def row_number_def split: bind_splits if_splits)

lemma normalize_time: "normalize_usage_row row = Some v \<Longrightarrow> iso_text (mu_occurred_at row) = Some (mu_occurred_at v)"
  by (auto simp: normalize_usage_row_def split: bind_splits)

section \<open>What is recorded\<close>

lemma agrees_insert:
  assumes "usage_agrees s" and "\<not> run_id_taken s row"
  shows "usage_agrees (insert_run row (insert_ledger (ledger_entry_of row) (insert_usage_event (usage_event_of row) s)))"
    (is "usage_agrees ?s")
proof (cases "find_run s (mu_workspace_id row, mu_run_id row)")
  case (Some old)
  then have "old \<in> set (us_runs s)" "mu_run_id old = mu_run_id row" using find_run_set by auto
  then have e: "find_usage_event s (ue_id (usage_event_of row)) \<noteq> None"
    and l: "find_ledger s (lg_event_id (ledger_entry_of row), lg_rule_id (ledger_entry_of row)) \<noteq> None"
    using assms(1) by (auto simp: usage_agrees_def usage_event_of_def ledger_entry_of_def)
  have "insert_usage_event (usage_event_of row) s = s" using e by (simp add: insert_usage_event_def)
  moreover have "insert_ledger (ledger_entry_of row) s = s" using l by (simp add: insert_ledger_def)
  moreover have "insert_run row s = s" using Some by (simp add: insert_run_def)
  ultimately show ?thesis using assms(1) by simp
next
  case None
  have fresh: "mu_run_id row \<notin> mu_run_id ` set (us_runs s)"
    using assms(2) None by (auto simp: run_id_taken_def list_ex_iff)
  then have "find_usage_event s (usage_event_id (mu_run_id row)) = None" "find_ledger s (usage_event_id (mu_run_id row), usage_meter_rule) = None"
    using assms(1) by (auto simp: usage_agrees_def)
  moreover have "us_runs ?s = us_runs s @ [row]" using None by (simp add: insert_run_def)
  ultimately show ?thesis using assms(1) fresh
    by (auto simp: usage_agrees_def usage_events.lookup_insert ledger_entries.lookup_insert usage_event_of_def ledger_entry_of_def image_iff
        split: if_splits)
qed

text \<open>
  C35: The tables of measurements, usage events and ledger entries agree after every recording, whatever is recorded and whatever fails: each measured run
  has exactly its event and its ledger entry, with its values, and no event or entry is there without its run.
\<close>

theorem usage_tables_agree:
  assumes "record_observed_usage env u s = (r, s1)" and "usage_agrees s" and "\<And>t. usage_agrees t \<Longrightarrow> usage_agrees (ug_others env t)"
  shows "usage_agrees s1"
  using assms(1)
proof (cases rule: record_cases)
  case known
  with assms(2) show ?thesis by simp
next
  case (failed e)
  with assms(2,3) show ?thesis by simp
next
  case (stored row)
  with agrees_insert [OF assms(3) [OF assms(2)]] show ?thesis by simp
qed

lemma recorded_read:
  assumes "record_observed_usage env u s = (Inr replayed, s1)"
  shows "read_usage s1 (mu_workspace_id u) (mu_run_id u) = Some (Some u)"
  using assms by (cases rule: record_cases) auto

text \<open>
  C36: A recorded measurement reads back as it was given, and recording is idempotent: from then on the same measurement of the run is acknowledged as a
  replay, any other is refused as a mismatch, and neither changes the tables.
\<close>

theorem recorded_usage_replays:
  assumes "record_observed_usage env u s = (Inr replayed, s1)" and "mu_workspace_id v = mu_workspace_id u" and "mu_run_id v = mu_run_id u"
  shows "read_usage s1 (mu_workspace_id u) (mu_run_id u) = Some (Some u) \<and>
    record_observed_usage env' v s1 = (if v = u then Inr True else Inl Usage_replay_mismatch, s1)"
  using recorded_read [OF assms(1)] assms(2,3) by (simp add: record_observed_usage_def usage_matches_eq)

lemma read_usage_time: "read_usage s w r = Some (Some v) \<Longrightarrow> \<exists>t. iso_text t = Some (mu_occurred_at v)"
  by (auto simp: read_usage_def dest: normalize_time)

text \<open>
  A measurement whose time is not the canonical text of an instant - without milliseconds, say, or with an offset - can never be recorded,
  although the service's validation accepts every text that parses as a date.
\<close>

theorem only_canonical_times_recorded:
  assumes "\<And>t. iso_text t \<noteq> Some (mu_occurred_at u)" and "validate_usage parse_date u = Inr ()"
  shows "\<exists>e. fst (service_record_usage parse_date env u s) = Inl e"
proof -
  obtain r s1 where r: "record_observed_usage env u s = (r, s1)" by force
  have "\<exists>e. r = Inl e"
  proof (cases r)
    case (Inr x)
    from read_usage_time [OF recorded_read [OF r [unfolded Inr]]] assms(1) show ?thesis by blast
  qed simp
  then show ?thesis using assms(2) r by (auto simp: service_record_usage_def)
qed

lemma normalize_canonical:
  assumes "usage_row time u = Some row" and "list_all (\<lambda>n. 0 \<le> n) (usage_counters u)" and "0 \<le> mu_credit_delta u"
    and "mu_measurement u = ''observed''" and "iso_text (mu_occurred_at row) = Some (mu_occurred_at u)"
  shows "normalize_usage_row row = Some u"
  using assms by (cases u) (auto simp: usage_row_def normalize_usage_row_def row_number_def usage_counters_def split: bind_splits)

lemma terminal_usage_sels [simp]:
  "mu_workspace_id (terminal_usage x rec t) = ux_workspace_id x" "mu_run_id (terminal_usage x rec t) = tr_run_id rec"
  "mu_occurred_at (terminal_usage x rec t) = t"
  by (simp_all add: terminal_usage_def)

lemma fresh_measurement:
  assumes "list_all (\<lambda>n. 0 \<le> n) (usage_counters (terminal_usage x rec []))" and "0 \<le> now" and "now \<le> 253402300799999"
    and "ug_time env = iso_value" and "\<not> ug_fault env"
    and "read_usage s (ux_workspace_id x) (tr_run_id rec) = None"
    and "tr_run_id rec \<notin> mu_run_id ` set (us_runs (ug_others env s))"
  shows "\<exists>s1. record_terminal_usage env x now rec s = (Inr False, s1)"
proof -
  obtain t where t: "iso_text now = Some t" using iso_text_defined [of now] assms(2,3) by auto
  let ?u = "terminal_usage x rec t"
  have v: "iso_value t = Some now" by (rule iso_roundtrip [OF t assms(2,3)])
  then obtain row where row: "usage_row iso_value ?u = Some row" by (simp add: usage_row_def)
  note k = usage_row_simps [OF row]
  have "usage_counters ?u = usage_counters (terminal_usage x rec [])" by (simp add: terminal_usage_def usage_counters_def)
  then have n: "normalize_usage_row row = Some ?u" using k(3) v t assms(1)
    by (intro normalize_canonical [OF row]) (simp_all add: terminal_usage_def)
  have none: "find_run (ug_others env s) (w, tr_run_id rec) = None" for w
    using assms(7) find_run_set [of "ug_others env s" "(w, tr_run_id rec)"] by (cases "find_run (ug_others env s) (w, tr_run_id rec)") force+
  have "\<not> run_id_taken (insert_ledger l (insert_usage_event e (ug_others env s))) row" for l e
    using assms(7) k(2) by (auto simp: run_id_taken_def list_ex_iff image_iff)
  moreover have "read_usage (insert_run row (insert_ledger l (insert_usage_event e (ug_others env s)))) (ux_workspace_id x) (tr_run_id rec) = Some (Some ?u)"
    for l e using none k(1,2) n by (simp add: read_usage_def run_rows.lookup_insert)
  ultimately show ?thesis using assms(4-6) none k
    by (simp add: record_terminal_usage_def t record_observed_usage_def row usage_matches_eq Let_def)
qed

text \<open>
  A terminal record with its measured counters is recorded when its run has no measurement yet, in any workspace, and the database works: the time the sink
  writes is always one that can be read back.
\<close>

theorem terminal_record_is_measured:
  assumes "list_all (\<lambda>n. 0 \<le> n) (usage_counters (terminal_usage x rec []))" and "0 \<le> now" and "now \<le> 253402300799999"
    and "ug_time env = iso_value" and "\<not> ug_fault env"
    and "read_usage s (ux_workspace_id x) (tr_run_id rec) = None"
    and "tr_run_id rec \<notin> mu_run_id ` set (us_runs (ug_others env s))"
  shows "\<exists>s1. record_terminal_usage env x now rec s = (Inr False, s1)"
  using assms by (rule fresh_measurement)

text \<open>
  Persisting a terminal record a second time does not replay: the sink takes the time of the call as the time of the measurement, so
  once the record is stored every later call for it, as after a lost response, is refused as a mismatch.
\<close>

theorem terminal_record_retry_refused:
  assumes "record_terminal_usage env x now rec s = (Inr replayed, s1)" and "0 \<le> now" and "now < later" and "later \<le> 253402300799999"
  shows "record_terminal_usage env' x later rec s1 = (Inl Usage_replay_mismatch, s1)"
proof -
  obtain t where t: "iso_text now = Some t" "record_observed_usage env (terminal_usage x rec t) s = (Inr replayed, s1)"
    using assms(1) by (auto simp: record_terminal_usage_def split: option.splits)
  obtain t' where t': "iso_text later = Some t'"
    using iso_text_defined [of later] assms(2-4) by auto
  have "t \<noteq> t'" using iso_roundtrip [OF t(1)] iso_roundtrip [OF t'] assms(2-4) by auto
  then have "terminal_usage x rec t' \<noteq> terminal_usage x rec t" by (metis terminal_usage_sels(3))
  with recorded_read [OF t(2)] show ?thesis
    by (simp add: record_terminal_usage_def t' record_observed_usage_def usage_matches_eq)
qed

section \<open>A sample run\<close>

definition sample_usage_context :: usage_context where
  "sample_usage_context =
     \<lparr>ux_account_id = ''a'', ux_model_input_tokens = 100, ux_model_output_tokens = 50, ux_request_id = ''q'', ux_sandbox_cpu_ms = 250,
      ux_sandbox_peak_disk_bytes = 4096, ux_sandbox_peak_memory_bytes = 8192, ux_source_record_id = ''src'', ux_storage_bytes_read = 128,
      ux_storage_bytes_written = 256, ux_storage_delete_ops = 0, ux_storage_read_ops = 1, ux_storage_write_ops = 1,
      ux_tool_calls_failed = 1, ux_tool_calls_succeeded = 2, ux_workspace_id = ''w''\<rparr>"

definition sample_usage_record :: terminal_record where
  "sample_usage_record =
     \<lparr>tr_cleanup = \<lparr>lc_execution_closed = True, lc_release_safe = True, lc_status = Cl_destroyed\<rparr>, tr_execution_terminal_seen = True,
      tr_kill_status = Tk_not_requested, tr_lease_id = Some ''l1'', tr_record_key = ''k'', tr_requested_kill_reason = None, tr_run_id = ''r1'',
      tr_terminal_state = St_completed,
      tr_usage = \<lparr>ou_cleanup_wall_clock_ms = 1, ou_execution_wall_clock_ms = 2, ou_exit_code = Some 0, ou_lifecycle_wall_clock_ms = 5,
        ou_meter = \<lparr>em_output_event_count = 0, em_stderr_bytes = 0, em_stdout_bytes = 0\<rparr>\<rparr>\<rparr>"

definition sample_usage_env :: usage_env where
  "sample_usage_env = \<lparr>ug_time = iso_value, ug_others = (\<lambda>s. s), ug_fault = False\<rparr>"

definition empty_usage_store :: usage_store where
  "empty_usage_store = \<lparr>us_events = [], us_ledger = [], us_runs = []\<rparr>"

lemma empty_usage [simp]: "read_usage empty_usage_store w r = None" "\<not> run_id_taken empty_usage_store row" "usage_agrees empty_usage_store" "us_runs empty_usage_store = []"
  by (simp_all add: read_usage_def find_run_def empty_usage_store_def run_id_taken_def usage_agrees_def find_usage_event_def find_ledger_def)

lemma sample_usage_env_sels [simp]: "ug_time sample_usage_env = iso_value" "ug_others sample_usage_env s = s" "\<not> ug_fault sample_usage_env"
  by (simp_all add: sample_usage_env_def)

lemma sample_counters: "list_all (\<lambda>n. 0 \<le> n) (usage_counters (terminal_usage sample_usage_context sample_usage_record []))"
  by code_simp

theorem terminal_record_is_measured_witness:
  "\<exists>s1. record_terminal_usage sample_usage_env sample_usage_context 1000 sample_usage_record empty_usage_store = (Inr False, s1)"
  by (rule terminal_record_is_measured) (simp_all add: sample_counters)

lemma sample_measured:
  obtains t s1 where "record_observed_usage sample_usage_env (terminal_usage sample_usage_context sample_usage_record t) empty_usage_store = (Inr False, s1)"
    "record_terminal_usage sample_usage_env sample_usage_context 1000 sample_usage_record empty_usage_store = (Inr False, s1)"
proof -
  obtain s1 where "record_terminal_usage sample_usage_env sample_usage_context 1000 sample_usage_record empty_usage_store = (Inr False, s1)"
    using fresh_measurement [OF sample_counters, of 1000 sample_usage_env empty_usage_store] by auto
  with that show thesis by (auto simp: record_terminal_usage_def split: option.splits)
qed

theorem usage_tables_agree_witness:
  "\<exists>r s1. record_terminal_usage sample_usage_env sample_usage_context 1000 sample_usage_record empty_usage_store = (r, s1) \<and> usage_agrees s1"
proof -
  obtain t s1 where "record_observed_usage sample_usage_env (terminal_usage sample_usage_context sample_usage_record t) empty_usage_store = (Inr False, s1)"
    and s1: "record_terminal_usage sample_usage_env sample_usage_context 1000 sample_usage_record empty_usage_store = (Inr False, s1)"
    by (rule sample_measured)
  from usage_tables_agree [OF this(1)] s1 show ?thesis by auto
qed

theorem recorded_usage_replays_witness:
  "\<exists>u s1. record_observed_usage sample_usage_env u empty_usage_store = (Inr False, s1) \<and>
    record_observed_usage sample_usage_env u s1 = (Inr True, s1) \<and>
    record_observed_usage sample_usage_env (u\<lparr>mu_sandbox_cpu_ms := mu_sandbox_cpu_ms u + 1\<rparr>) s1 = (Inl Usage_replay_mismatch, s1)"
proof -
  obtain t s1 where r: "record_observed_usage sample_usage_env (terminal_usage sample_usage_context sample_usage_record t) empty_usage_store = (Inr False, s1)"
    by (rule sample_measured)
  let ?u = "terminal_usage sample_usage_context sample_usage_record t"
  have "?u\<lparr>mu_sandbox_cpu_ms := mu_sandbox_cpu_ms ?u + 1\<rparr> \<noteq> ?u" by (simp add: terminal_usage_def)
  with r recorded_usage_replays [OF r, of ?u sample_usage_env]
    recorded_usage_replays [OF r, of "?u\<lparr>mu_sandbox_cpu_ms := mu_sandbox_cpu_ms ?u + 1\<rparr>" sample_usage_env]
  show ?thesis by (intro exI [of _ ?u] exI [of _ s1]) simp
qed

theorem only_canonical_times_recorded_witness:
  "\<exists>e. fst (service_record_usage (\<lambda>_. Some 1783728000000) sample_usage_env
     (terminal_usage sample_usage_context sample_usage_record ''2026-07-11T00:00:00Z'') empty_usage_store) = Inl e"
proof (rule only_canonical_times_recorded)
  show "iso_text t \<noteq> Some (mu_occurred_at (terminal_usage sample_usage_context sample_usage_record ''2026-07-11T00:00:00Z''))" for t
    using iso_text_length [of t "''2026-07-11T00:00:00Z''"] by auto
  show "validate_usage (\<lambda>_. Some 1783728000000) (terminal_usage sample_usage_context sample_usage_record ''2026-07-11T00:00:00Z'') = Inr ()"
    by code_simp
qed

theorem terminal_record_retry_refused_witness:
  "\<exists>s1. record_terminal_usage sample_usage_env sample_usage_context 1000 sample_usage_record empty_usage_store = (Inr False, s1) \<and>
    record_terminal_usage sample_usage_env sample_usage_context 2000 sample_usage_record s1 = (Inl Usage_replay_mismatch, s1)"
proof -
  obtain t s1 where r: "record_terminal_usage sample_usage_env sample_usage_context 1000 sample_usage_record empty_usage_store = (Inr False, s1)"
    by (rule sample_measured)
  with terminal_record_retry_refused [OF r, of 2000] show ?thesis by simp
qed

end
