(* ===== verification/Agent_Product_Control.thy ===== *)
theory Agent_Product_Control
  imports Agent_Usage "HOL-Library.List_Lexorder" "HOL-Library.Char_ord" "HOL-Library.Product_Lexorder"
begin

text \<open>
  The product control of research agents (\<open>apps/worker/src/research-agent-product-control.ts\<close>): the status shown to the user, and
  the actions of an administrator with their audit events, over the modelled life cycle and usage tables.

  The rows that decide the authority of the actor and the membership of the target are parameters; that the target has a profile is read
  from the modelled rows. Between two statements others may commit: \<open>de_others\<close>, by the point of the service. A statement is
  delivered, lost, or applied with its response lost.
\<close>

section \<open>The user's status\<close>

record usage_totals =
  ut_model_input_tokens :: int
  ut_model_output_tokens :: int
  ut_preview_credits :: int
  ut_run_count :: int
  ut_sandbox_cpu_ms :: int
  ut_sandbox_wall_clock_ms :: int
  ut_storage_bytes_read :: int
  ut_storage_bytes_written :: int
  ut_tool_calls_failed :: int
  ut_tool_calls_succeeded :: int

text \<open>The sums of the status query over the rows of an account in a workspace.\<close>

definition usage_totals_of :: "usage_store \<Rightarrow> string \<Rightarrow> string \<Rightarrow> usage_totals" where
  "usage_totals_of s workspace_id account_id =
     (let rows = filter (\<lambda>u. mu_workspace_id u = workspace_id \<and> mu_account_id u = account_id) (us_runs s);
          total = (\<lambda>f. sum_list (map f rows)) in
      \<lparr>ut_model_input_tokens = total mu_model_input_tokens, ut_model_output_tokens = total mu_model_output_tokens,
       ut_preview_credits = total mu_credit_delta, ut_run_count = int (length rows), ut_sandbox_cpu_ms = total mu_sandbox_cpu_ms,
       ut_sandbox_wall_clock_ms = total mu_sandbox_wall_clock_ms, ut_storage_bytes_read = total mu_storage_bytes_read,
       ut_storage_bytes_written = total mu_storage_bytes_written, ut_tool_calls_failed = total mu_tool_calls_failed,
       ut_tool_calls_succeeded = total mu_tool_calls_succeeded\<rparr>)"

definition row_totals :: "usage_totals \<Rightarrow> usage_totals option" where
  "row_totals t =
     (if list_all (\<lambda>n. row_number n \<noteq> None)
        [ut_model_input_tokens t, ut_model_output_tokens t, ut_preview_credits t, ut_run_count t, ut_sandbox_cpu_ms t,
         ut_sandbox_wall_clock_ms t, ut_storage_bytes_read t, ut_storage_bytes_written t, ut_tool_calls_failed t, ut_tool_calls_succeeded t]
      then Some t else None)"

record status_snapshot =
  ss_account_active :: bool
  ss_account_id :: "string option"
  ss_entitlement_approved :: bool
  ss_lifecycle_status :: "agent_status option"
  ss_membership_active :: bool
  ss_plan_code :: "string option"
  ss_product_access_active :: bool
  ss_profile_exists :: bool
  ss_subscription_active :: bool
  ss_usage :: usage_totals
  ss_workspace_active :: bool
  ss_workspace_id :: string

datatype agent_user_state = Us_blocked | Us_disabled | Us_provisioning | Us_ready | Us_retryable

datatype availability_reason =
  Active_profile_ready
  | Disabled_or_not_provisioned
  | Entitlement_or_account_blocked
  | Lifecycle_in_progress
  | Retry_required

record user_status =
  vs_account_id :: "string option"
  vs_fastclaw_available :: bool
  vs_reason :: availability_reason
  vs_entitlement_approved :: bool
  vs_plan_code :: "string option"
  vs_lifecycle_status :: "agent_status option"
  vs_default_runner_family :: string
  vs_paid_plan_auto_selects :: bool
  vs_selected_runner_family :: "string option"
  vs_selection_owner :: string
  vs_state :: agent_user_state
  vs_usage :: usage_totals
  vs_version :: string
  vs_workspace_id :: string

definition product_control_version :: string where
  "product_control_version = ''2026-07-11.research-agent-product-control.v0''"

definition project_user_status :: "status_snapshot \<Rightarrow> user_status" where
  "project_user_status snap =
     (let authority_allowed = (ss_account_active snap \<and> ss_workspace_active snap \<and> ss_membership_active snap \<and>
            ss_subscription_active snap \<and> ss_product_access_active snap \<and> ss_entitlement_approved snap);
          (state, reason) =
            (if \<not> authority_allowed then (Us_blocked, Entitlement_or_account_blocked)
             else if ss_profile_exists snap \<and> ss_lifecycle_status snap = Some Ls_active then (Us_ready, Active_profile_ready)
             else if ss_profile_exists snap \<and> ss_lifecycle_status snap = Some Ls_blocked_retryable then (Us_retryable, Retry_required)
             else if ss_profile_exists snap \<and>
               (ss_lifecycle_status snap = Some Ls_provision_pending \<or> ss_lifecycle_status snap = Some Ls_provisioning) then
               (Us_provisioning, Lifecycle_in_progress)
             else (Us_disabled, Disabled_or_not_provisioned)) in
      \<lparr>vs_account_id = ss_account_id snap, vs_fastclaw_available = (state = Us_ready), vs_reason = reason,
       vs_entitlement_approved = authority_allowed, vs_plan_code = ss_plan_code snap, vs_lifecycle_status = ss_lifecycle_status snap,
       vs_default_runner_family = ''edge'', vs_paid_plan_auto_selects = False, vs_selected_runner_family = None,
       vs_selection_owner = ''agent_runtime'', vs_state = state, vs_usage = ss_usage snap, vs_version = product_control_version,
       vs_workspace_id = ss_workspace_id snap\<rparr>)"

text \<open>The row of the status query, \<open>None\<close> where it fails; its totals are converted, the workspace is the one asked for.\<close>

definition read_status :: "status_snapshot option \<Rightarrow> string \<Rightarrow> product_error + status_snapshot" where
  "read_status row workspace_id =
     with_some row Database_error (\<lambda>r.
     with_some (row_totals (ss_usage r)) Database_error (\<lambda>t. Inr (r\<lparr>ss_usage := t, ss_workspace_id := workspace_id\<rparr>)))"

definition get_user_status :: "status_snapshot option \<Rightarrow> string \<Rightarrow> string \<Rightarrow> product_error + user_status" where
  "get_user_status row auth_subject workspace_id =
     require (valid_auth_subject auth_subject \<and> valid_id workspace_id) Auth_subject_invalid (
     and_then (read_status row workspace_id) (\<lambda>snap. Inr (project_user_status snap)))"

section \<open>Actions of administrators\<close>

datatype admin_action = Act_delete | Act_disable | Act_kill | Act_retry

datatype admin_event_status = Ev_denied | Ev_failed | Ev_started | Ev_succeeded

record admin_authority =
  aa_actor_account_id :: string
  aa_role :: string
  aa_workspace_id :: string

record admin_target =
  at_account_exists :: bool
  at_membership_active :: bool
  at_profile_exists :: bool

record admin_event =
  ae_action :: admin_action
  ae_actor_account_id :: string
  ae_created_at :: int
  ae_error_code :: "string option"
  ae_reason :: string
  ae_request_id :: string
  ae_run_id :: "string option"
  ae_status :: admin_event_status
  ae_target_account_id :: string
  ae_updated_at :: int
  ae_workspace_id :: string

record admin_input =
  ai_action :: admin_action
  ai_actor_auth_subject :: string
  ai_reason :: string
  ai_request_id :: string
  ai_run_id :: "string option"
  ai_target_account_id :: string
  ai_workspace_id :: string

record admin_result =
  az_action :: admin_action
  az_error_code :: "string option"
  az_request_id :: string
  az_replayed :: bool
  az_retryable :: bool
  az_status :: admin_event_status
  az_target_account_id :: string
  az_workspace_id :: string

record run_kill_request =
  kr_reason :: string
  kr_request_id :: string
  kr_run_id :: string
  kr_tenant_id :: string
  kr_user_id :: string

text \<open>What an action calls: the killer, or the life cycle with the remote calls it makes.\<close>

datatype admin_call = Kill_run run_kill_request | Run_lifecycle lifecycle_request "remote_call list"

definition validate_admin_input :: "admin_input \<Rightarrow> product_error + unit" where
  "validate_admin_input x =
     require
       (valid_auth_subject (ai_actor_auth_subject x) \<and> valid_id (ai_workspace_id x) \<and> valid_id (ai_target_account_id x) \<and>
        valid_id (ai_request_id x) \<and> valid_text (ai_reason x))
       Admin_action_invalid (
     require
       (\<not> ((ai_action x = Act_kill \<and> (case ai_run_id x of None \<Rightarrow> True | Some r \<Rightarrow> \<not> valid_id r)) \<or>
          (ai_action x \<noteq> Act_kill \<and> ai_run_id x \<noteq> None)))
       Admin_action_invalid (Inr ()))"

section \<open>The audit table\<close>

record admin_store =
  ds_events :: "admin_event list"
  ds_agents :: lifecycle_store

definition admin_key :: "admin_event \<Rightarrow> string \<times> string" where
  "admin_key e = (ae_workspace_id e, ae_request_id e)"

definition find_admin :: "admin_store \<Rightarrow> string \<times> string \<Rightarrow> admin_event option" where
  "find_admin s k = List.find (\<lambda>e. admin_key e = k) (ds_events s)"

definition insert_admin :: "admin_event \<Rightarrow> admin_store \<Rightarrow> admin_store" where
  "insert_admin e s = (if find_admin s (admin_key e) = None then s\<lparr>ds_events := ds_events s @ [e]\<rparr> else s)"

record admin_env =
  de_authority :: "admin_authority option option"
  de_target :: "(bool \<times> bool) option"
  de_begin :: delivery
  de_finalize :: delivery
  de_kill :: bool
  de_lifecycle :: "lifecycle_request \<Rightarrow> lifecycle_store \<Rightarrow> lifecycle_result option \<times> remote_call list \<times> lifecycle_store"
  de_now :: int
  de_others :: "nat \<Rightarrow> admin_store \<Rightarrow> admin_store"

text \<open>The target's row: account and membership as parameters, \<open>None\<close> where the query fails.\<close>

definition read_admin_target :: "admin_env \<Rightarrow> string \<Rightarrow> string \<Rightarrow> admin_store \<Rightarrow> admin_target option" where
  "read_admin_target env workspace_id target s =
     map_option (\<lambda>(account, membership).
       \<lparr>at_account_exists = account, at_membership_active = membership,
        at_profile_exists = list_ex (\<lambda>p. owned_by workspace_id target p \<and> ap_status p \<noteq> Ls_deleted) (sr_profiles (ds_agents s))\<rparr>)
       (de_target env)"

definition started_event :: "int \<Rightarrow> admin_authority \<Rightarrow> admin_input \<Rightarrow> admin_event" where
  "started_event now authority x =
     \<lparr>ae_action = ai_action x, ae_actor_account_id = aa_actor_account_id authority, ae_created_at = now, ae_error_code = None,
      ae_reason = ai_reason x, ae_request_id = ai_request_id x, ae_run_id = ai_run_id x, ae_status = Ev_started,
      ae_target_account_id = ai_target_account_id x, ae_updated_at = now, ae_workspace_id = ai_workspace_id x\<rparr>"

definition event_bound :: "admin_authority \<Rightarrow> admin_input \<Rightarrow> admin_event \<Rightarrow> bool" where
  "event_bound authority x e \<longleftrightarrow>
     \<not> (ae_actor_account_id e \<noteq> aa_actor_account_id authority \<or> ae_target_account_id e \<noteq> ai_target_account_id x \<or>
        ae_action e \<noteq> ai_action x \<or> ae_run_id e \<noteq> ai_run_id x \<or> ae_reason e \<noteq> ai_reason x)"

definition begin_admin_action ::
  "admin_env \<Rightarrow> admin_authority \<Rightarrow> admin_input \<Rightarrow> admin_store \<Rightarrow> (product_error + admin_event) \<times> admin_store" where
  "begin_admin_action env authority x s =
     (let s1 = insert_admin (started_event (de_now env) authority x) s in
      case de_begin env of
        Request_lost \<Rightarrow> (Inl Database_error, s)
      | Response_lost \<Rightarrow> (Inl Database_error, s1)
      | Delivered \<Rightarrow>
          (let s2 = de_others env 2 s1 in
           case find_admin s2 (ai_workspace_id x, ai_request_id x) of
             None \<Rightarrow> (Inl Database_error, s2)
           | Some row \<Rightarrow> if \<not> event_bound authority x row then (Inl Admin_action_replay_mismatch, s2) else (Inr row, s2)))"

definition finished_event :: "int \<Rightarrow> admin_event_status \<Rightarrow> string option \<Rightarrow> admin_event \<Rightarrow> admin_event" where
  "finished_event now status error_code e = e\<lparr>ae_status := status, ae_error_code := error_code, ae_updated_at := now\<rparr>"

text \<open>The update of the started event of a request.\<close>

definition finish_event ::
  "int \<Rightarrow> admin_event_status \<Rightarrow> string option \<Rightarrow> string \<times> string \<Rightarrow> admin_store \<Rightarrow> admin_store" where
  "finish_event now status error_code k s =
     s\<lparr>ds_events := map (\<lambda>e. if admin_key e = k \<and> ae_status e = Ev_started then finished_event now status error_code e else e) (ds_events s)\<rparr>"

definition finalize_admin_action ::
  "admin_env \<Rightarrow> admin_event_status \<Rightarrow> string option \<Rightarrow> admin_input \<Rightarrow> admin_store \<Rightarrow> (product_error + admin_event) \<times> admin_store" where
  "finalize_admin_action env status error_code x s =
     (let k = (ai_workspace_id x, ai_request_id x); s1 = finish_event (de_now env) status error_code k s in
      case de_finalize env of
        Request_lost \<Rightarrow> (Inl Database_error, s)
      | Response_lost \<Rightarrow> (Inl Database_error, s1)
      | Delivered \<Rightarrow>
          (case find_admin s k of
             Some e \<Rightarrow>
               if ae_status e = Ev_started then (Inr (finished_event (de_now env) status error_code e), s1)
               else
                 (let s2 = de_others env 4 s1 in
                  case find_admin s2 k of None \<Rightarrow> (Inl Database_error, s2) | Some e' \<Rightarrow> (Inr e', s2))
           | None \<Rightarrow>
               (let s2 = de_others env 4 s1 in
                case find_admin s2 k of None \<Rightarrow> (Inl Database_error, s2) | Some e' \<Rightarrow> (Inr e', s2))))"

section \<open>The service\<close>

definition admin_result_of :: "admin_event \<Rightarrow> bool \<Rightarrow> bool \<Rightarrow> admin_result" where
  "admin_result_of e replayed retryable =
     \<lparr>az_action = ae_action e, az_error_code = ae_error_code e, az_request_id = ae_request_id e, az_replayed = replayed,
      az_retryable = retryable, az_status = (if ae_status e = Ev_started then Ev_failed else ae_status e),
      az_target_account_id = ae_target_account_id e, az_workspace_id = ae_workspace_id e\<rparr>"

definition admin_intent :: "admin_action \<Rightarrow> lifecycle_intent" where
  "admin_intent a = (if a = Act_retry then Intent_activate else if a = Act_disable then Intent_disable else Intent_delete)"

definition admin_lifecycle_request :: "admin_input \<Rightarrow> lifecycle_request" where
  "admin_lifecycle_request x =
     \<lparr>lq_account_id = ai_target_account_id x, lq_intent = admin_intent (ai_action x), lq_reason = ai_reason x,
      lq_request_id = ai_request_id x, lq_workspace_id = ai_workspace_id x\<rparr>"

definition admin_kill_request :: "admin_input \<Rightarrow> run_kill_request" where
  "admin_kill_request x =
     \<lparr>kr_reason = ai_reason x, kr_request_id = ai_request_id x, kr_run_id = (case ai_run_id x of Some r \<Rightarrow> r | None \<Rightarrow> []),
      kr_tenant_id = ai_workspace_id x, kr_user_id = ai_target_account_id x\<rparr>"

text \<open>The dispatch of an action: status, error code and retryability, the calls, the store.\<close>

definition dispatch_failed :: "admin_event_status \<times> string option \<times> bool" where
  "dispatch_failed = (Ev_failed, Some ''ADMIN_DEPENDENCY_RETRYABLE'', True)"

definition lifecycle_dispatch :: "lifecycle_result option \<Rightarrow> admin_event_status \<times> string option \<times> bool" where
  "lifecycle_dispatch r =
     (case r of
        None \<Rightarrow> dispatch_failed
      | Some res \<Rightarrow>
          if lz_outcome res \<noteq> Lo_succeeded then
            (if lz_outcome res = Lo_denied then Ev_denied else Ev_failed,
             Some (case lz_error_code res of Some c \<Rightarrow> c | None \<Rightarrow> ''ADMIN_LIFECYCLE_FAILED''), lz_retryable res)
          else (Ev_succeeded, None, False))"

definition dispatch_admin_action ::
  "admin_env \<Rightarrow> admin_input \<Rightarrow> admin_store \<Rightarrow> (admin_event_status \<times> string option \<times> bool) \<times> admin_call list \<times> admin_store" where
  "dispatch_admin_action env x s =
     (if ai_action x = Act_kill then
        (if de_kill env then (Ev_succeeded, None, False) else dispatch_failed, [Kill_run (admin_kill_request x)], s)
      else
        (let req = admin_lifecycle_request x; (r, log, agents) = de_lifecycle env req (ds_agents s) in
         (lifecycle_dispatch r, [Run_lifecycle req log], s\<lparr>ds_agents := agents\<rparr>)))"

definition target_allowed :: "admin_target \<Rightarrow> admin_action \<Rightarrow> bool" where
  "target_allowed t a \<longleftrightarrow> at_account_exists t \<and> (if a = Act_retry then at_membership_active t else at_profile_exists t)"

definition start_admin_action ::
  "admin_env \<Rightarrow> admin_input \<Rightarrow> admin_store \<Rightarrow> (product_error + admin_event) \<times> admin_store" where
  "start_admin_action env x s =
     (case validate_admin_input x of
        Inl e \<Rightarrow> (Inl e, s)
      | Inr _ \<Rightarrow>
          (case de_authority env of
             None \<Rightarrow> (Inl Database_error, s)
           | Some None \<Rightarrow> (Inl Admin_unauthorized, s)
           | Some (Some authority) \<Rightarrow>
               (case read_admin_target env (ai_workspace_id x) (ai_target_account_id x) s of
                  None \<Rightarrow> (Inl Database_error, s)
                | Some t \<Rightarrow>
                    if \<not> target_allowed t (ai_action x) then (Inl Admin_target_invalid, s)
                    else begin_admin_action env authority x (de_others env 1 s))))"

definition execute_admin_action ::
  "admin_env \<Rightarrow> admin_input \<Rightarrow> admin_store \<Rightarrow> (product_error + admin_result) \<times> admin_call list \<times> admin_store" where
  "execute_admin_action env x s =
     (case start_admin_action env x s of
        (Inl e, s1) \<Rightarrow> (Inl e, [], s1)
      | (Inr started, s1) \<Rightarrow>
          if ae_status started \<noteq> Ev_started then
            (Inr (admin_result_of started True
               (ae_status started = Ev_failed \<and> ae_error_code started = Some ''ADMIN_DEPENDENCY_RETRYABLE'')), [], s1)
          else
            (let ((status, error_code, retryable), log, s2) = dispatch_admin_action env x s1 in
             case finalize_admin_action env status error_code x (de_others env 3 s2) of
               (Inl e, s3) \<Rightarrow> (Inl e, log, s3)
             | (Inr e, s3) \<Rightarrow> (Inr (admin_result_of e False retryable), log, s3)))"

text \<open>The audit of a workspace, the latest first: \<open>de_authority\<close> and the query as before, texts ordered by their code units.\<close>

definition admin_audit ::
  "admin_env \<Rightarrow> string \<Rightarrow> string option \<Rightarrow> string \<Rightarrow> admin_store \<Rightarrow> product_error + admin_event list" where
  "admin_audit env subject target workspace_id s =
     require (valid_auth_subject subject \<and> valid_id workspace_id \<and> (case target of None \<Rightarrow> True | Some t \<Rightarrow> valid_id t)) Admin_action_invalid (
     with_some (de_authority env) Database_error (\<lambda>authority.
     with_some authority Admin_unauthorized (\<lambda>_.
       Inr (take 200 (rev (sort_key (\<lambda>e. (ae_created_at e, ae_request_id e))
         (filter (\<lambda>e. ae_workspace_id e = workspace_id \<and> (target = None \<or> target = Some (ae_target_account_id e))) (ds_events s))))))))"

section \<open>Status and authority\<close>

text \<open>The status query and the runner's query saw the same rows of an owner.\<close>

definition same_owner_rows :: "runner_profile_row \<Rightarrow> status_snapshot \<Rightarrow> bool" where
  "same_owner_rows p snap \<longleftrightarrow>
     ss_account_active snap = (pr_account_status p = Some ''active'') \<and> ss_workspace_active snap = (pr_workspace_status p = Some ''active'') \<and>
     ss_membership_active snap = pr_membership_active p \<and> ss_subscription_active snap = pr_subscription_active p \<and>
     ss_product_access_active snap = pr_product_access_active p \<and> ss_entitlement_approved snap = pr_entitlement_approved p \<and>
     ss_profile_exists snap = (pr_profile_id p \<noteq> None) \<and>
     (ss_lifecycle_status snap = Some Ls_active \<longleftrightarrow> pr_lifecycle_status p = Some ''active'')"

text \<open>A row as a completed activation leaves it: an active profile is wanted active and has its identity and ids.\<close>

definition active_row_complete :: "runner_profile_row \<Rightarrow> bool" where
  "active_row_complete p \<longleftrightarrow>
     (pr_lifecycle_status p = Some ''active'' \<and> pr_profile_id p \<noteq> None \<longrightarrow>
        pr_desired_state p = Some ''active'' \<and> list_all (\<lambda>v. case v of Some t \<Rightarrow> t \<noteq> [] | None \<Rightarrow> False)
          [pr_external_identity p, pr_fastclaw_user_id p, pr_agent_id p])"

text \<open>
  C33: The status tells the user that the agent is available exactly when the runner's authority would let this user run it: the two
  services, each with its own query and its own conditions, agree on every row in which an active profile is complete.
\<close>

theorem available_agent_may_run:
  assumes "same_owner_rows p snap" and "active_row_complete p" and "pr_workspace_id p = Some tenant_id" and "pr_account_id p = Some user_id"
  shows "vs_fastclaw_available (project_user_status snap) \<longleftrightarrow> (\<exists>a. decide_authority p tenant_id user_id = Authority_allowed a)"
proof -
  have "vs_fastclaw_available (project_user_status snap) \<longleftrightarrow>
      activate_allowed p \<and> pr_profile_id p \<noteq> None \<and> pr_lifecycle_status p = Some ''active''"
    using assms(1) by (auto simp: project_user_status_def same_owner_rows_def activate_allowed_def Let_def)
  also have "\<dots> \<longleftrightarrow> (\<exists>a. decide_authority p tenant_id user_id = Authority_allowed a)"
    using assms(2-4) by (auto simp: decide_authority_def active_row_complete_def activate_allowed_def split: option.splits if_splits)
  finally show ?thesis .
qed

section \<open>Audit events\<close>

interpretation admin_events: first_write_store find_admin admin_key insert_admin
  by unfold_locales (auto simp: find_admin_def insert_admin_def find_append split: option.split)

lemma find_admin_key: "find_admin s k = Some e \<Longrightarrow> admin_key e = k"
  by (auto simp: find_admin_def find_Some_iff)

lemma finished_event_sels [simp]:
  "admin_key (finished_event now st code e) = admin_key e" "ae_status (finished_event now st code e) = st"
  "ae_error_code (finished_event now st code e) = code" "event_bound authority x (finished_event now st code e) = event_bound authority x e"
  by (simp_all add: finished_event_def admin_key_def event_bound_def)

lemma find_finish:
  "find_admin (finish_event now st code k s) k' =
     map_option (\<lambda>e. if k' = k \<and> ae_status e = Ev_started then finished_event now st code e else e) (find_admin s k')"
proof -
  let ?g = "\<lambda>e. if admin_key e = k \<and> ae_status e = Ev_started then finished_event now st code e else e"
  have "find_admin (finish_event now st code k s) k' = map_option ?g (find_admin s k')"
    unfolding find_admin_def finish_event_def by (simp add: find_map_same [of admin_key ?g])
  then show ?thesis by (cases "find_admin s k'") (auto dest: find_admin_key)
qed

text \<open>How an event may go on: its action never changes, and once it is final nothing does.\<close>

definition event_continues :: "admin_event \<Rightarrow> admin_event \<Rightarrow> bool" where
  "event_continues e e' \<longleftrightarrow>
     (ae_status e \<noteq> Ev_started \<longrightarrow> e' = e) \<and> ae_action e' = ae_action e \<and> ae_actor_account_id e' = ae_actor_account_id e \<and>
     ae_created_at e' = ae_created_at e \<and> ae_reason e' = ae_reason e \<and> ae_run_id e' = ae_run_id e \<and>
     ae_target_account_id e' = ae_target_account_id e \<and> admin_key e' = admin_key e"

definition audit_evolves :: "admin_store \<Rightarrow> admin_store \<Rightarrow> bool" where
  "audit_evolves s t \<longleftrightarrow> (\<forall>k e. find_admin s k = Some e \<longrightarrow> (\<exists>e'. find_admin t k = Some e' \<and> event_continues e e'))"

lemma event_continues_refl [simp]: "event_continues e e"
  by (simp add: event_continues_def)

lemma event_continues_trans: "event_continues e f \<Longrightarrow> event_continues f g \<Longrightarrow> event_continues e g"
  by (auto simp: event_continues_def)

lemma audit_evolves_refl [simp]: "audit_evolves s s"
  by (auto simp: audit_evolves_def)

lemma audit_evolves_trans [trans]: "audit_evolves s t \<Longrightarrow> audit_evolves t u \<Longrightarrow> audit_evolves s u"
  unfolding audit_evolves_def by (meson event_continues_trans)

lemma audit_insert: "audit_evolves s (insert_admin e s)"
  by (auto simp: audit_evolves_def admin_events.lookup_insert)

lemma audit_finish: "audit_evolves s (finish_event now st code k s)"
  by (auto simp: audit_evolves_def find_finish event_continues_def finished_event_def admin_key_def)

lemma audit_agents [simp]: "find_admin (s\<lparr>ds_agents := a\<rparr>) k = find_admin s k"
  by (simp add: find_admin_def)

section \<open>The ways of an action\<close>

lemma start_Inr:
  assumes "start_admin_action env x s = (Inr e, s1)"
  obtains authority t where "validate_admin_input x = Inr ()" "de_authority env = Some (Some authority)"
    "read_admin_target env (ai_workspace_id x) (ai_target_account_id x) s = Some t" "target_allowed t (ai_action x)"
    "find_admin s1 (ai_workspace_id x, ai_request_id x) = Some e" "event_bound authority x e"
    "s1 = de_others env 2 (insert_admin (started_event (de_now env) authority x) (de_others env 1 s))"
  using assms
  by (auto simp: start_admin_action_def begin_admin_action_def Let_def split: sum.splits option.splits if_splits delivery.splits)

lemma start_evolves:
  assumes "start_admin_action env x s = (r, s1)" and "\<And>k t. audit_evolves t (de_others env k t)"
  shows "audit_evolves s s1"
proof -
  have i: "audit_evolves s (insert_admin e (de_others env 1 s))" for e using assms(2) audit_insert by (rule audit_evolves_trans)
  then have "audit_evolves s (de_others env 2 (insert_admin e (de_others env 1 s)))" for e using assms(2) by (rule audit_evolves_trans)
  with i assms show ?thesis
    by (auto simp: start_admin_action_def begin_admin_action_def Let_def split: sum.splits option.splits if_splits delivery.splits)
qed

lemma execute_admin_cases [consumes 1, case_names refused replayed dispatched]:
  assumes "execute_admin_action env x s = (r, log, s1)"
  obtains e where "start_admin_action env x s = (Inl e, s1)" "r = Inl e" "log = []"
  | e where "start_admin_action env x s = (Inr e, s1)" "ae_status e \<noteq> Ev_started" "log = []"
      "r = Inr (admin_result_of e True (ae_status e = Ev_failed \<and> ae_error_code e = Some ''ADMIN_DEPENDENCY_RETRYABLE''))"
  | e s2 status code retry s3 fin where "start_admin_action env x s = (Inr e, s2)" "ae_status e = Ev_started"
      "dispatch_admin_action env x s2 = ((status, code, retry), log, s3)"
      "finalize_admin_action env status code x (de_others env 3 s3) = (fin, s1)"
      "r = (case fin of Inl y \<Rightarrow> Inl y | Inr f \<Rightarrow> Inr (admin_result_of f False retry))"
proof -
  note refused = that(1) and replayed = that(2) and dispatched = that(3)
  obtain y s2 where y: "start_admin_action env x s = (y, s2)" by force
  show thesis
  proof (cases y)
    case (Inl e)
    with assms y show thesis by (intro refused) (auto simp: execute_admin_action_def)
  next
    case (Inr e)
    show thesis
    proof (cases "ae_status e = Ev_started")
      case False
      with assms y Inr show thesis by (intro replayed) (auto simp: execute_admin_action_def)
    next
      case True
      obtain status code retry log' s3 where d: "dispatch_admin_action env x s2 = ((status, code, retry), log', s3)"
        by (cases "dispatch_admin_action env x s2") auto
      obtain fin s4 where f: "finalize_admin_action env status code x (de_others env 3 s3) = (fin, s4)" by force
      from assms y Inr True d f have "log' = log" "s4 = s1" "r = (case fin of Inl y \<Rightarrow> Inl y | Inr f \<Rightarrow> Inr (admin_result_of f False retry))"
        by (auto simp: execute_admin_action_def split: sum.splits)
      with y Inr True d f show thesis by (intro dispatched) simp_all
    qed
  qed
qed

lemma dispatch_events: "dispatch_admin_action env x s = (d, log, s1) \<Longrightarrow> find_admin s1 = find_admin s"
  by (auto simp: dispatch_admin_action_def Let_def fun_eq_iff split: if_splits prod.splits)

lemma dispatch_final: "dispatch_admin_action env x s = ((status, code, retry), log, s1) \<Longrightarrow> status \<noteq> Ev_started"
  by (auto simp: dispatch_admin_action_def lifecycle_dispatch_def dispatch_failed_def Let_def split: if_splits prod.splits option.splits)

lemma finalize_evolves:
  assumes "finalize_admin_action env status code x s = (r, s1)" and "\<And>k t. audit_evolves t (de_others env k t)"
  shows "audit_evolves s s1"
proof -
  have "audit_evolves s (de_others env 4 (finish_event now st c k s))" for now st c k using audit_finish assms(2) by (rule audit_evolves_trans)
  with assms(1) audit_finish show ?thesis
    by (auto simp: finalize_admin_action_def Let_def split: delivery.splits option.splits if_splits)
qed

lemma execute_audit_evolves:
  assumes "execute_admin_action env x s = (r, log, s1)" and "\<And>k t. audit_evolves t (de_others env k t)"
  shows "audit_evolves s s1"
  using assms(1)
proof (cases rule: execute_admin_cases)
  case (refused e)
  then show ?thesis using start_evolves assms(2) by blast
next
  case (replayed e)
  then show ?thesis using start_evolves assms(2) by blast
next
  case (dispatched e s2 status code retry s3 fin)
  have "audit_evolves s s2" using start_evolves [OF dispatched(1)] assms(2) by blast
  also have "audit_evolves s2 s3" using dispatch_events [OF dispatched(3)] by (simp add: audit_evolves_def)
  also have "audit_evolves s3 (de_others env 3 s3)" by (rule assms(2))
  also have "audit_evolves \<dots> s1" using finalize_evolves [OF dispatched(4)] assms(2) by blast
  finally show ?thesis .
qed

text \<open>
  C32: An audit event never changes its action, actor, target, run or reason, and once it is final it does not change at all: no
  later action, replay, interleaving or lost statement alters the outcome that was recorded.
\<close>

theorem audit_events_evolve:
  assumes "execute_admin_action env x s = (r, log, s1)" and "\<And>k t. audit_evolves t (de_others env k t)"
    and "find_admin s k = Some e"
  shows "\<exists>e'. find_admin s1 k = Some e' \<and> event_continues e e'"
  using execute_audit_evolves [OF assms(1,2)] assms(3) unfolding audit_evolves_def by blast

section \<open>What an action does\<close>

text \<open>The one call of an action.\<close>

definition action_call :: "admin_input \<Rightarrow> admin_call \<Rightarrow> bool" where
  "action_call x call \<longleftrightarrow>
     (case call of
        Kill_run k \<Rightarrow> ai_action x = Act_kill \<and> k = admin_kill_request x
      | Run_lifecycle req calls \<Rightarrow> ai_action x \<noteq> Act_kill \<and> req = admin_lifecycle_request x)"

lemma dispatch_call: "dispatch_admin_action env x s = (d, log, s1) \<Longrightarrow> \<exists>call. log = [call] \<and> action_call x call"
  by (auto simp: dispatch_admin_action_def action_call_def Let_def split: if_splits prod.splits)


lemma finalize_Inr:
  assumes "finalize_admin_action env status code x s = (Inr f, s1)" and "status \<noteq> Ev_started"
    and "find_admin s (ai_workspace_id x, ai_request_id x) = Some e" and "\<And>k t. audit_evolves t (de_others env k t)"
  shows "find_admin s1 (ai_workspace_id x, ai_request_id x) = Some f" and "ae_status f \<noteq> Ev_started"
    and "f = (if ae_status e = Ev_started then finished_event (de_now env) status code e else e)"
proof -
  let ?k = "(ai_workspace_id x, ai_request_id x)"
  have "find_admin s1 ?k = Some f \<and> ae_status f \<noteq> Ev_started \<and>
      f = (if ae_status e = Ev_started then finished_event (de_now env) status code e else e)"
  proof (cases "ae_status e = Ev_started")
    case True
    with assms(1-3) show ?thesis
      by (auto simp: finalize_admin_action_def Let_def find_finish split: delivery.splits)
  next
    case False
    let ?s2 = "de_others env 4 (finish_event (de_now env) status code ?k s)"
    have "find_admin (finish_event (de_now env) status code ?k s) ?k = Some e" using False assms(3) by (simp add: find_finish)
    then obtain e' where e': "find_admin ?s2 ?k = Some e'" "event_continues e e'" using assms(4) unfolding audit_evolves_def by blast
    then have "e' = e" using False by (simp add: event_continues_def)
    with assms(1,3) False e' show ?thesis by (auto simp: finalize_admin_action_def Let_def split: delivery.splits)
  qed
  then show "find_admin s1 ?k = Some f" and "ae_status f \<noteq> Ev_started"
    and "f = (if ae_status e = Ev_started then finished_event (de_now env) status code e else e)" by blast+
qed

lemma bound_continues: "event_bound authority x e \<Longrightarrow> event_continues e e' \<Longrightarrow> event_bound authority x e'"
  by (simp add: event_bound_def event_continues_def)

lemma action_recorded:
  assumes "execute_admin_action env x s = (Inr a, log, s1)" and "\<And>k t. audit_evolves t (de_others env k t)"
  shows "\<exists>authority e. de_authority env = Some (Some authority) \<and> find_admin s1 (ai_workspace_id x, ai_request_id x) = Some e \<and>
    event_bound authority x e \<and> ae_status e \<noteq> Ev_started \<and> az_status a = ae_status e \<and> az_error_code a = ae_error_code e"
  using assms(1)
proof (cases rule: execute_admin_cases)
  case (refused e)
  then show ?thesis by simp
next
  case (replayed e)
  from replayed(1) obtain authority where "de_authority env = Some (Some authority)"
    "find_admin s1 (ai_workspace_id x, ai_request_id x) = Some e" "event_bound authority x e" by (rule start_Inr)
  with replayed(2,4) show ?thesis by (auto simp: admin_result_of_def)
next
  case (dispatched e s2 status code retry s3 fin)
  from dispatched(1) obtain authority where b: "de_authority env = Some (Some authority)"
    "find_admin s2 (ai_workspace_id x, ai_request_id x) = Some e" "event_bound authority x e" by (rule start_Inr)
  obtain f where f: "fin = Inr f" "a = admin_result_of f False retry" using dispatched(5) by (cases fin) auto
  have "find_admin s3 (ai_workspace_id x, ai_request_id x) = Some e" using b(2) dispatch_events [OF dispatched(3)] by simp
  then obtain e' where e': "find_admin (de_others env 3 s3) (ai_workspace_id x, ai_request_id x) = Some e'" "event_continues e e'"
    using assms(2) unfolding audit_evolves_def by blast
  note fin = finalize_Inr [OF dispatched(4) [unfolded f(1)] dispatch_final [OF dispatched(3)] e'(1) assms(2)]
  have "event_bound authority x f" using fin(3) bound_continues [OF b(3) e'(2)] by simp
  with b(1) fin(1,2) f(2) show ?thesis by (auto simp: admin_result_of_def)
qed

text \<open>
  An answered action is on record: the answer's status and error code are those of the final audit event of the request, which names this actor, target,
  action, run and reason.
\<close>

theorem admin_answer_is_recorded:
  assumes "execute_admin_action env x s = (Inr a, log, s1)" and "\<And>k t. audit_evolves t (de_others env k t)"
  shows "\<exists>authority e. de_authority env = Some (Some authority) \<and> find_admin s1 (ai_workspace_id x, ai_request_id x) = Some e \<and>
    event_bound authority x e \<and> ae_status e \<noteq> Ev_started \<and> az_status a = ae_status e \<and> az_error_code a = ae_error_code e"
  using assms by (rule action_recorded)

section \<open>Repeated actions\<close>

definition undisturbed :: "admin_env \<Rightarrow> bool" where
  "undisturbed env \<longleftrightarrow> (\<forall>k t. de_others env k t = t)"

lemma undisturbed_evolves: "undisturbed env \<Longrightarrow> audit_evolves t (de_others env k t)"
  by (simp add: undisturbed_def)

text \<open>The same actor may start the action again, over the event it started before.\<close>

definition may_restart :: "admin_env \<Rightarrow> admin_env \<Rightarrow> admin_input \<Rightarrow> admin_store \<Rightarrow> bool" where
  "may_restart env env' x s \<longleftrightarrow>
     undisturbed env' \<and> de_begin env' = Delivered \<and> de_authority env' = de_authority env \<and>
     (case read_admin_target env' (ai_workspace_id x) (ai_target_account_id x) s of Some t \<Rightarrow> target_allowed t (ai_action x) | None \<Rightarrow> False)"

lemma restart:
  assumes "may_restart env env' x s1" and "validate_admin_input x = Inr ()" and "de_authority env = Some (Some authority)"
    and "find_admin s1 (ai_workspace_id x, ai_request_id x) = Some e" and "event_bound authority x e"
  shows "start_admin_action env' x s1 = (Inr e, s1)"
proof -
  have "admin_key (started_event now a x) = (ai_workspace_id x, ai_request_id x)" for now a
    by (simp add: admin_key_def started_event_def)
  then have "insert_admin (started_event now a x) s1 = s1" for now a using assms(4) by (simp add: insert_admin_def)
  with assms show ?thesis
    by (auto simp: start_admin_action_def begin_admin_action_def may_restart_def undisturbed_def split: option.splits)
qed

lemma repeat_answered:
  assumes "execute_admin_action env x s = (Inr a, log, s1)" and "undisturbed env" and "may_restart env env' x s1"
  shows "\<exists>b. execute_admin_action env' x s1 = (Inr b, [], s1) \<and> az_status b = az_status a \<and> az_error_code b = az_error_code a \<and>
    (az_retryable b \<longleftrightarrow> az_status a = Ev_failed \<and> az_error_code a = Some ''ADMIN_DEPENDENCY_RETRYABLE'')"
proof -
  from action_recorded [OF assms(1) undisturbed_evolves [OF assms(2)]] obtain authority e where
    e: "de_authority env = Some (Some authority)" "find_admin s1 (ai_workspace_id x, ai_request_id x) = Some e" "event_bound authority x e"
      "ae_status e \<noteq> Ev_started" "az_status a = ae_status e" "az_error_code a = ae_error_code e" by blast
  have "validate_admin_input x = Inr ()"
    using assms(1) by (cases rule: execute_admin_cases) (auto elim: start_Inr)
  from restart [OF assms(3) this e(1-3)] e(4-6) show ?thesis
    by (auto simp: execute_admin_action_def admin_result_of_def)
qed

text \<open>
  A repeated action answers with the recorded outcome and calls nothing, but it reports a failure as retryable only where the dependency threw: when
  the life cycle itself reported a transient failure, the first answer says it can be retried and the same answer, repeated, says it cannot.
\<close>

theorem repeated_failure_not_retryable:
  assumes "execute_admin_action env x s = (Inr a, log, s1)" and "undisturbed env" and "may_restart env env' x s1"
    and "az_retryable a" and "az_error_code a \<noteq> Some ''ADMIN_DEPENDENCY_RETRYABLE''"
  shows "\<exists>b. execute_admin_action env' x s1 = (Inr b, [], s1) \<and> az_status b = az_status a \<and> az_error_code b = az_error_code a \<and> \<not> az_retryable b"
  using repeat_answered [OF assms(1-3)] assms(5) by auto

lemma admin_store_parts [simp]:
  "ds_agents (insert_admin e s) = ds_agents s" "ds_agents (finish_event now st code k s) = ds_agents s"
  by (simp_all add: insert_admin_def finish_event_def)

lemma dispatch_lifecycle:
  assumes "dispatch_admin_action env x s = (d, [Run_lifecycle req calls], s1)"
  obtains r agents where "ai_action x \<noteq> Act_kill" "req = admin_lifecycle_request x" "de_lifecycle env req (ds_agents s) = (r, calls, agents)"
    "d = lifecycle_dispatch r" "s1 = s\<lparr>ds_agents := agents\<rparr>"
  using assms by (auto simp: dispatch_admin_action_def Let_def split: if_splits prod.splits)

text \<open>The first half of an undisturbed action that dispatched the life cycle.\<close>

lemma dispatched_lifecycle:
  assumes "execute_admin_action env x s = (y, [Run_lifecycle req calls], s1)" and "undisturbed env"
  obtains authority e s3 r agents status code retry fin where "validate_admin_input x = Inr ()" "de_authority env = Some (Some authority)"
    "event_bound authority x e" "ae_status e = Ev_started" "find_admin s3 (ai_workspace_id x, ai_request_id x) = Some e"
    "ai_action x \<noteq> Act_kill" "req = admin_lifecycle_request x" "de_lifecycle env req (ds_agents s) = (r, calls, agents)"
    "(status, code, retry) = lifecycle_dispatch r" "ds_agents s3 = agents"
    "finalize_admin_action env status code x s3 = (fin, s1)" "y = (case fin of Inl z \<Rightarrow> Inl z | Inr f \<Rightarrow> Inr (admin_result_of f False retry))"
proof -
  note result = that
  from assms(1) show thesis
  proof (cases rule: execute_admin_cases)
    case (dispatched e s2 status code retry s3 fin)
    from dispatched(1) obtain authority where b: "validate_admin_input x = Inr ()" "de_authority env = Some (Some authority)"
      "find_admin s2 (ai_workspace_id x, ai_request_id x) = Some e" "event_bound authority x e"
      "s2 = de_others env 2 (insert_admin (started_event (de_now env) authority x) (de_others env 1 s))" by (rule start_Inr)
    from dispatched(3) obtain r agents where d: "ai_action x \<noteq> Act_kill" "req = admin_lifecycle_request x"
      "de_lifecycle env req (ds_agents s2) = (r, calls, agents)" "(status, code, retry) = lifecycle_dispatch r" "s3 = s2\<lparr>ds_agents := agents\<rparr>"
      by (rule dispatch_lifecycle)
    have "ds_agents s2 = ds_agents s" using b(5) assms(2) by (simp add: undisturbed_def)
    with d(3) have "de_lifecycle env req (ds_agents s) = (r, calls, agents)" by simp
    moreover have "finalize_admin_action env status code x s3 = (fin, s1)" using dispatched(4) assms(2) by (simp add: undisturbed_def)
    ultimately show thesis using dispatched(2,5) b(1-4) d(1,2,4,5) by (intro result) simp_all
  qed simp_all
qed


text \<open>
  C38: A completed deletion cannot be repeated: once the profile is deleted the target is no longer allowed, so the repeated request - after a lost
  answer, say - is refused as an invalid target before its recorded outcome is looked up.
\<close>

theorem completed_delete_cannot_be_repeated:
  assumes "execute_admin_action env x s = (Inr a, [Run_lifecycle req calls], s1)" and "undisturbed env"
    and "ai_action x = Act_delete" and "az_status a = Ev_succeeded" and "calls \<noteq> []"
    and "de_lifecycle env = run_research_agent_lifecycle sha decode fetch b url fault lenv"
    and "request_identity sha req ext" and "request_isolated lenv (profile_id_of ext) (lq_request_id req)"
    and "\<And>p. p \<in> set (sr_profiles (ds_agents s1)) \<Longrightarrow> owned_by (ai_workspace_id x) (ai_target_account_id x) p \<Longrightarrow>
      find_profile (profile_id_of ext) (ds_agents s1) = Some p"
    and "de_authority env' = Some (Some authority')" and "de_target env' \<noteq> None"
  shows "execute_admin_action env' x s1 = (Inl Admin_target_invalid, [], s1)"
  using assms(1,2)
proof (rule dispatched_lifecycle)
  fix authority e s3 r agents status code retry fin
  assume e: "validate_admin_input x = Inr ()" "ae_status e = Ev_started" "find_admin s3 (ai_workspace_id x, ai_request_id x) = Some e"
    and d: "req = admin_lifecycle_request x" "de_lifecycle env req (ds_agents s) = (r, calls, agents)"
      "(status, code, retry) = lifecycle_dispatch r" "ds_agents s3 = agents"
    and f: "finalize_admin_action env status code x s3 = (fin, s1)"
      "Inr a = (case fin of Inl z \<Rightarrow> Inl z | Inr f \<Rightarrow> Inr (admin_result_of f False retry))"
  have fin: "fin = Inr (finished_event (de_now env) status code e)" "s1 = finish_event (de_now env) status code (ai_workspace_id x, ai_request_id x) s3"
    using f e(2,3) by (cases "de_finalize env"; auto simp: finalize_admin_action_def Let_def)+
  have "status = Ev_succeeded"
    using f(2) fin(1) assms(4) by (auto simp: admin_result_of_def split: if_splits)
  then obtain res where res: "r = Some res" "lz_outcome res = Lo_succeeded"
    using d(3) by (auto simp: lifecycle_dispatch_def dispatch_failed_def split: option.splits if_splits)
  have a1: "ds_agents s1 = agents" using fin(2) d(4) by simp
  have i: "lq_intent req = Intent_delete" using d(1) assms(3) by (simp add: admin_lifecycle_request_def admin_intent_def)
  from d(2) res(1) assms(6) have "run_research_agent_lifecycle sha decode fetch b url fault lenv req (ds_agents s) = (Some res, calls, agents)" by simp
  then obtain client where "execute_lifecycle sha (lenv\<lparr>ln_remote := client_remote decode fetch client\<rparr>) req (ds_agents s) = (Some res, calls, agents)"
    by (cases rule: transaction_cases) auto
  from execute_success [OF this res(2) assms(5,7)] assms(8)
  obtain p where p: "find_profile (profile_id_of ext) agents = Some p" "settled Intent_delete p"
    by (auto simp: request_isolated_def i)
  have "\<not> list_ex (\<lambda>q. owned_by (ai_workspace_id x) (ai_target_account_id x) q \<and> ap_status q \<noteq> Ls_deleted) (sr_profiles (ds_agents s1))"
    using assms(9) p a1 by (fastforce simp: list_ex_iff settled_def terminal_status_for_intent_def)
  then show ?thesis using e(1) assms(3,10,11)
    by (auto simp: execute_admin_action_def start_admin_action_def read_admin_target_def target_allowed_def)
qed

section \<open>The usage shown\<close>

definition plus_usage :: "usage_totals \<Rightarrow> string run_usage \<Rightarrow> usage_totals" where
  "plus_usage t u =
     \<lparr>ut_model_input_tokens = ut_model_input_tokens t + mu_model_input_tokens u, ut_model_output_tokens = ut_model_output_tokens t + mu_model_output_tokens u,
      ut_preview_credits = ut_preview_credits t + mu_credit_delta u, ut_run_count = ut_run_count t + 1,
      ut_sandbox_cpu_ms = ut_sandbox_cpu_ms t + mu_sandbox_cpu_ms u, ut_sandbox_wall_clock_ms = ut_sandbox_wall_clock_ms t + mu_sandbox_wall_clock_ms u,
      ut_storage_bytes_read = ut_storage_bytes_read t + mu_storage_bytes_read u,
      ut_storage_bytes_written = ut_storage_bytes_written t + mu_storage_bytes_written u,
      ut_tool_calls_failed = ut_tool_calls_failed t + mu_tool_calls_failed u,
      ut_tool_calls_succeeded = ut_tool_calls_succeeded t + mu_tool_calls_succeeded u\<rparr>"

lemma totals_insert:
  assumes "usage_row time u = Some row" and "us_runs t = us_runs s @ [row]"
  shows "usage_totals_of t w a = (if mu_workspace_id u = w \<and> mu_account_id u = a then plus_usage (usage_totals_of s w a) u else usage_totals_of s w a)"
proof -
  obtain t0 where "time (mu_occurred_at u) = Some t0" using assms(1) by (cases "time (mu_occurred_at u)") (simp_all add: usage_row_def)
  then have row: "mu_workspace_id row = mu_workspace_id u" "mu_account_id row = mu_account_id u" "mu_credit_delta row = mu_credit_delta u"
    "mu_model_input_tokens row = mu_model_input_tokens u" "mu_model_output_tokens row = mu_model_output_tokens u"
    "mu_sandbox_cpu_ms row = mu_sandbox_cpu_ms u" "mu_sandbox_wall_clock_ms row = mu_sandbox_wall_clock_ms u"
    "mu_storage_bytes_read row = mu_storage_bytes_read u" "mu_storage_bytes_written row = mu_storage_bytes_written u"
    "mu_tool_calls_failed row = mu_tool_calls_failed u" "mu_tool_calls_succeeded row = mu_tool_calls_succeeded u"
    using assms(1) by (auto simp: usage_row_def)
  show ?thesis by (simp add: usage_totals_of_def plus_usage_def Let_def assms(2) row)
qed

lemma totals_runs: "us_runs t = us_runs s \<Longrightarrow> usage_totals_of t w a = usage_totals_of s w a"
  by (simp add: usage_totals_of_def)

text \<open>
  A recorded measurement counts once: the totals of its owner grow by exactly its values, and those of nobody else; replays and refused or failed
  recordings change no total.
\<close>

theorem usage_counted_once:
  assumes "record_observed_usage env u s = (r, s1)" and "ug_others env s = s"
  shows "usage_totals_of s1 w a =
    (if r = Inr False \<and> mu_workspace_id u = w \<and> mu_account_id u = a then plus_usage (usage_totals_of s w a) u else usage_totals_of s w a)"
  using assms(1)
proof (cases rule: record_cases)
  case known
  then show ?thesis by auto
next
  case (failed e)
  then show ?thesis using assms(2) by simp
next
  case (stored row)
  note k = usage_row_simps(1,2) [OF stored(1)]
  show ?thesis
  proof (cases "find_run s (mu_workspace_id u, mu_run_id u)")
    case None
    then have "us_runs s1 = us_runs s @ [row]" using stored(3) assms(2) k by (simp add: insert_run_def)
    with totals_insert [OF stored(1)] stored(5) None assms(2) show ?thesis by simp
  next
    case (Some old)
    then have "us_runs s1 = us_runs s" using stored(3) assms(2) k by (simp add: insert_run_def)
    from totals_runs [OF this, of w a] stored(5) Some assms(2) show ?thesis by simp
  qed
qed

section \<open>Sample actions\<close>

definition sample_admin_input :: "admin_action \<Rightarrow> string option \<Rightarrow> admin_input" where
  "sample_admin_input action run_id =
     \<lparr>ai_action = action, ai_actor_auth_subject = ''better-auth:01234567-89ab-1cde-8123-456789ABCDEF'', ai_reason = ''r'', ai_request_id = ''q1'',
      ai_run_id = run_id, ai_target_account_id = ''a'', ai_workspace_id = ''w''\<rparr>"

definition sample_admin_env ::
  "delivery \<Rightarrow> (lifecycle_request \<Rightarrow> lifecycle_store \<Rightarrow> lifecycle_result option \<times> remote_call list \<times> lifecycle_store) \<Rightarrow> admin_env" where
  "sample_admin_env finalize lifecycle =
     \<lparr>de_authority = Some (Some \<lparr>aa_actor_account_id = ''admin'', aa_role = ''owner'', aa_workspace_id = ''w''\<rparr>), de_target = Some (True, True),
      de_begin = Delivered, de_finalize = finalize, de_kill = True, de_lifecycle = lifecycle, de_now = 0, de_others = (\<lambda>k t. t)\<rparr>"

definition sample_audit :: "lifecycle_store \<Rightarrow> admin_store" where
  "sample_audit agents = \<lparr>ds_events = [], ds_agents = agents\<rparr>"

definition sample_lifecycle ::
  "string \<Rightarrow> (control_request \<Rightarrow> control_response option) \<Rightarrow> lifecycle_request \<Rightarrow> lifecycle_store
    \<Rightarrow> lifecycle_result option \<times> remote_call list \<times> lifecycle_store" where
  "sample_lifecycle account fetch =
     run_research_agent_lifecycle sample_sha sample_decode fetch sample_bindings (Some (''https:'', ''control'')) None
       (sample_agent_env sample_remote\<lparr>ln_authority := Some (sample_authority account)\<rparr>)"

lemma sample_admin_valid:
  "validate_admin_input (sample_admin_input Act_kill (Some ''r1'')) = Inr ()" "validate_admin_input (sample_admin_input Act_retry None) = Inr ()"
  "validate_admin_input (sample_admin_input Act_delete None) = Inr ()"
  by code_simp+

lemma sample_admin_env_sels [simp]:
  "de_authority (sample_admin_env f lf) = Some (Some \<lparr>aa_actor_account_id = ''admin'', aa_role = ''owner'', aa_workspace_id = ''w''\<rparr>)"
  "de_target (sample_admin_env f lf) = Some (True, True)" "de_begin (sample_admin_env f lf) = Delivered"
  "de_finalize (sample_admin_env f lf) = f" "de_kill (sample_admin_env f lf)" "de_lifecycle (sample_admin_env f lf) = lf"
  "de_now (sample_admin_env f lf) = 0" "de_others (sample_admin_env f lf) k t = t" "undisturbed (sample_admin_env f lf)"
  by (simp_all add: sample_admin_env_def undisturbed_def)

definition sample_started :: "admin_input \<Rightarrow> admin_event" where
  "sample_started x = started_event 0 \<lparr>aa_actor_account_id = ''admin'', aa_role = ''owner'', aa_workspace_id = ''w''\<rparr> x"

lemma sample_start:
  assumes "validate_admin_input x = Inr ()" and "ai_action x \<noteq> Act_retry \<Longrightarrow>
      list_ex (\<lambda>p. owned_by (ai_workspace_id x) (ai_target_account_id x) p \<and> ap_status p \<noteq> Ls_deleted) (sr_profiles agents)"
  shows "start_admin_action (sample_admin_env f lf) x (sample_audit agents) =
    (Inr (sample_started x), \<lparr>ds_events = [sample_started x], ds_agents = agents\<rparr>)"
  using assms
  by (simp add: start_admin_action_def begin_admin_action_def read_admin_target_def target_allowed_def sample_audit_def insert_admin_def
      find_admin_def admin_key_def sample_started_def started_event_def event_bound_def)

lemma sample_executes:
  assumes "validate_admin_input x = Inr ()" and "ai_action x \<noteq> Act_retry \<Longrightarrow>
      list_ex (\<lambda>p. owned_by (ai_workspace_id x) (ai_target_account_id x) p \<and> ap_status p \<noteq> Ls_deleted) (sr_profiles agents)"
    and "dispatch_admin_action (sample_admin_env f lf) x \<lparr>ds_events = [sample_started x], ds_agents = agents\<rparr> =
      ((status, code, retry), log, \<lparr>ds_events = [sample_started x], ds_agents = agents'\<rparr>)"
  shows "execute_admin_action (sample_admin_env f lf) x (sample_audit agents) =
    (case f of Delivered \<Rightarrow> Inr (admin_result_of (finished_event 0 status code (sample_started x)) False retry) | _ \<Rightarrow> Inl Database_error, log,
     \<lparr>ds_events = [if f = Request_lost then sample_started x else finished_event 0 status code (sample_started x)], ds_agents = agents'\<rparr>)"
proof -
  have "ae_status (sample_started x) = Ev_started" "admin_key (sample_started x) = (ai_workspace_id x, ai_request_id x)"
    by (simp_all add: sample_started_def started_event_def admin_key_def)
  with sample_start [OF assms(1,2)] assms(3) show ?thesis
    by (cases f) (auto simp: execute_admin_action_def finalize_admin_action_def finish_event_def find_admin_def)
qed

lemma sample_profile_owned [simp]: "owned_by ''w'' ''a'' (sample_profile st agent)"
  by (simp add: sample_profile_def new_profile_def owned_by_def sample_lifecycle_request_def)

lemma sample_killed_run:
  "execute_admin_action (sample_admin_env Delivered lf) (sample_admin_input Act_kill (Some ''r1'')) (sample_audit (sample_profiles Ls_active None)) =
    (Inr (admin_result_of (finished_event 0 Ev_succeeded None (sample_started (sample_admin_input Act_kill (Some ''r1'')))) False False),
     [Kill_run (admin_kill_request (sample_admin_input Act_kill (Some ''r1'')))],
     \<lparr>ds_events = [finished_event 0 Ev_succeeded None (sample_started (sample_admin_input Act_kill (Some ''r1'')))],
      ds_agents = sample_profiles Ls_active None\<rparr>)"
proof -
  let ?x = "sample_admin_input Act_kill (Some ''r1'')"
  have l: "list_ex (\<lambda>p. owned_by (ai_workspace_id ?x) (ai_target_account_id ?x) p \<and> ap_status p \<noteq> Ls_deleted) (sr_profiles (sample_profiles Ls_active None))"
    by (simp add: sample_profiles_def sample_profile_row, simp add: sample_admin_input_def)
  have d: "dispatch_admin_action (sample_admin_env Delivered lf) ?x s = ((Ev_succeeded, None, False), [Kill_run (admin_kill_request ?x)], s)" for s
    by (simp add: dispatch_admin_action_def, simp add: sample_admin_input_def)
  from sample_executes [OF sample_admin_valid(1) l d] show ?thesis by simp
qed


theorem admin_answer_is_recorded_witness:
  "\<exists>a log s1 e. execute_admin_action (sample_admin_env Delivered (\<lambda>_ s. (None, [], s))) (sample_admin_input Act_kill (Some ''r1''))
      (sample_audit (sample_profiles Ls_active None)) = (Inr a, log, s1) \<and> find_admin s1 (''w'', ''q1'') = Some e \<and> az_status a = ae_status e"
  using admin_answer_is_recorded [OF sample_killed_run] sample_killed_run
  by (fastforce simp: sample_admin_input_def)

lemma sample_input_sels [simp]:
  "ai_action (sample_admin_input a r) = a" "ai_workspace_id (sample_admin_input a r) = ''w''" "ai_target_account_id (sample_admin_input a r) = ''a''"
  "ai_request_id (sample_admin_input a r) = ''q1''"
  by (simp_all add: sample_admin_input_def)

lemma sample_retry_request: "admin_lifecycle_request (sample_admin_input Act_retry None) = sample_lifecycle_request Intent_activate"
  "admin_lifecycle_request (sample_admin_input Act_delete None) = sample_lifecycle_request Intent_delete"
  by (simp_all add: admin_lifecycle_request_def sample_admin_input_def sample_lifecycle_request_def admin_intent_def)

lemma sample_dispatch:
  assumes "lf (sample_lifecycle_request Intent_activate) agents = (r, calls, agents')"
  shows "dispatch_admin_action (sample_admin_env f lf) (sample_admin_input Act_retry None)
      \<lparr>ds_events = es, ds_agents = agents\<rparr> =
    (lifecycle_dispatch r, [Run_lifecycle (sample_lifecycle_request Intent_activate) calls], \<lparr>ds_events = es, ds_agents = agents'\<rparr>)"
  using assms by (simp add: dispatch_admin_action_def sample_retry_request)

lemma sample_may_restart:
  assumes "ai_action x = Act_retry"
  shows "may_restart (sample_admin_env f lf) (sample_admin_env f' lf') x s"
  using assms by (simp add: may_restart_def read_admin_target_def target_allowed_def)

text \<open>A control plane that does not answer: the activation fails for now.\<close>

lemma sample_transient:
  "\<exists>calls agents. run_research_agent_lifecycle sample_sha sample_decode (\<lambda>_. None) sample_bindings (Some (''https:'', ''control'')) None
      (sample_agent_env sample_remote) (sample_lifecycle_request Intent_activate) \<lparr>sr_profiles = [], sr_events = []\<rparr> = (Some r, calls, agents) \<and>
    lifecycle_dispatch (Some r) = (Ev_failed, Some ''FASTCLAW_UNAVAILABLE'', True)"
  if "r = the (fst (run_research_agent_lifecycle sample_sha sample_decode (\<lambda>_. None) sample_bindings (Some (''https:'', ''control'')) None
      (sample_agent_env sample_remote) (sample_lifecycle_request Intent_activate) \<lparr>sr_profiles = [], sr_events = []\<rparr>))"
proof -
  have "case run_research_agent_lifecycle sample_sha sample_decode (\<lambda>_. None) sample_bindings (Some (''https:'', ''control'')) None
      (sample_agent_env sample_remote) (sample_lifecycle_request Intent_activate) \<lparr>sr_profiles = [], sr_events = []\<rparr> of
      (Some r, _, _) \<Rightarrow> lifecycle_dispatch (Some r) = (Ev_failed, Some ''FASTCLAW_UNAVAILABLE'', True) | _ \<Rightarrow> False"
    by code_simp
  with that show ?thesis by (auto split: prod.splits option.splits)
qed

theorem repeated_failure_not_retryable_witness:
  "\<exists>lf a log s1 b. execute_admin_action (sample_admin_env Delivered lf) (sample_admin_input Act_retry None)
      (sample_audit \<lparr>sr_profiles = [], sr_events = []\<rparr>) = (Inr a, log, s1) \<and> az_retryable a \<and>
    execute_admin_action (sample_admin_env Delivered lf) (sample_admin_input Act_retry None) s1 = (Inr b, [], s1) \<and> \<not> az_retryable b"
proof -
  let ?lf = "run_research_agent_lifecycle sample_sha sample_decode (\<lambda>_. None) sample_bindings (Some (''https:'', ''control'')) None
    (sample_agent_env sample_remote)" and ?x = "sample_admin_input Act_retry None"
  obtain r calls agents where r: "?lf (sample_lifecycle_request Intent_activate) \<lparr>sr_profiles = [], sr_events = []\<rparr> = (Some r, calls, agents)"
    "lifecycle_dispatch (Some r) = (Ev_failed, Some ''FASTCLAW_UNAVAILABLE'', True)" using sample_transient by blast
  obtain a s1 where a: "execute_admin_action (sample_admin_env Delivered ?lf) ?x (sample_audit \<lparr>sr_profiles = [], sr_events = []\<rparr>) =
      (Inr a, [Run_lifecycle (sample_lifecycle_request Intent_activate) calls], s1)" "az_retryable a"
      "az_error_code a = Some ''FASTCLAW_UNAVAILABLE''"
    using sample_executes [OF sample_admin_valid(2) _ sample_dispatch [where lf = ?lf and f = Delivered, OF r(1), unfolded r(2)]]
    by (auto simp: admin_result_of_def)
  from repeated_failure_not_retryable [OF a(1) _ sample_may_restart a(2)] a show ?thesis by fastforce
qed


theorem audit_events_evolve_witness:
  "\<exists>lf s1 b e e'. execute_admin_action (sample_admin_env Delivered lf) (sample_admin_input Act_retry None) s1 = (Inr b, [], s1) \<and>
    find_admin s1 (''w'', ''q1'') = Some e \<and> find_admin s1 (''w'', ''q1'') = Some e' \<and> event_continues e e' \<and> ae_status e = Ev_failed"
proof -
  let ?lf = "\<lambda>_ s. (None, [], s)"
  have d: "dispatch_admin_action (sample_admin_env Delivered ?lf) (sample_admin_input Act_retry None) s =
      ((Ev_failed, Some ''ADMIN_DEPENDENCY_RETRYABLE'', True), [Run_lifecycle (sample_lifecycle_request Intent_activate) []], s)" for s
    by (simp add: dispatch_admin_action_def sample_retry_request lifecycle_dispatch_def dispatch_failed_def)
  obtain a s1 where a: "execute_admin_action (sample_admin_env Delivered ?lf) (sample_admin_input Act_retry None)
      (sample_audit \<lparr>sr_profiles = [], sr_events = []\<rparr>) = (Inr a, [Run_lifecycle (sample_lifecycle_request Intent_activate) []], s1)"
      "az_status a = Ev_failed"
    using sample_executes [OF sample_admin_valid(2) _ d] by (auto simp: admin_result_of_def)
  then obtain e where e: "find_admin s1 (''w'', ''q1'') = Some e" "ae_status e = Ev_failed"
    using action_recorded [OF a(1) undisturbed_evolves] by auto
  obtain b where b: "execute_admin_action (sample_admin_env Delivered ?lf) (sample_admin_input Act_retry None) s1 = (Inr b, [], s1)"
    using repeat_answered [OF a(1) _ sample_may_restart] by auto
  from audit_events_evolve [OF b undisturbed_evolves e(1)] b e show ?thesis by (intro exI [of _ ?lf] exI [of _ s1]) auto
qed

text \<open>A deletion of the sample profile, of a closed account.\<close>

lemma sample_deletion:
  assumes "ln_remote env (Rc_remove_user ''u1'') = Inr v" and "unshared env" and "ln_authority env = Some (sample_authority ''closed'')"
  shows "\<exists>r s1 q. execute_lifecycle sample_sha env (sample_lifecycle_request Intent_delete) (sample_profiles Ls_disabled (Some ''a1'')) =
    (Some r, [Rc_remove_user ''u1''], s1) \<and> lz_outcome r = Lo_succeeded \<and> sr_profiles s1 = [q] \<and> ap_profile_id q = profile_id_of sample_ext"
proof -
  let ?r = "sample_lifecycle_request Intent_delete" and ?i = "profile_id_of sample_ext"
  have o: "ln_others env k t = t" for k t using assms(2) by (simp add: unshared_def)
  have i: "insert_profile (new_profile ?r ?i sample_ext) (\<lambda>p. p) (sample_profiles Ls_disabled (Some ''a1'')) =
      Some (sample_profiles Ls_disabled (Some ''a1''))"
    by (intro insert_existing [OF sample_find(1)]) (simp add: new_profile_def sample_lifecycle_request_def)
  have "precondition_denial Intent_delete (authority_snapshot_of (sample_authority ''closed'')) = None"
    by (simp add: no_denial_iff intent_authorized_def sample_authority_def)
  moreover have "claim_lifecycle env ?r ?i sample_ext (sample_profiles Ls_disabled (Some ''a1'')) =
      (Some (Ck_claimed Ls_disabled (claimed_profile ?r (ln_now env) (sample_profile Ls_disabled (Some ''a1'')))),
       update_profile ?i (claimed_profile ?r (ln_now env)) (sample_profiles Ls_disabled (Some ''a1'')))"
    by (simp add: claim_lifecycle_def i o sample_find Let_def terminal_status_for_intent_def lease_free_def sample_profile_row)
  ultimately have e: "execute_lifecycle sample_sha env ?r (sample_profiles Ls_disabled (Some ''a1'')) =
      event_run ?r [Rc_remove_user ''u1''] (write_event sample_sha env ?r ?i (Some Ls_disabled) Ls_deleted Lo_succeeded None None None
        (update_profile ?i (completed_profile Intent_delete None None)
          (update_profile ?i (claimed_profile ?r (ln_now env)) (sample_profiles Ls_disabled (Some ''a1'')))))"
    using sample_request_identity [of Intent_delete] assms
    by (simp add: execute_lifecycle_def request_identity_def derive_agent_external_identity_def Let_def o sample_find run_claim_def
        run_claimed_def reconcile_remote_def reconcile_user_def sample_profile_row finalize_success_def terminal_status_for_intent_def)
      (simp add: write_event_def Let_def o events.lookup_insert sample_find event_run_def)
  show ?thesis unfolding e
    by (simp add: event_run_def write_event_def Let_def o events.lookup_insert sample_find result_from_event_def)
      (simp add: insert_event_def sample_find update_profile_def sample_profiles_def sample_profile_def new_profile_def)
qed

theorem completed_delete_cannot_be_repeated_witness:
  "\<exists>lf a s1. execute_admin_action (sample_admin_env Delivered lf) (sample_admin_input Act_delete None)
      (sample_audit (sample_profiles Ls_disabled (Some ''a1''))) =
      (Inr a, [Run_lifecycle (sample_lifecycle_request Intent_delete) [Rc_remove_user ''u1'']], s1) \<and> az_status a = Ev_succeeded \<and>
    execute_admin_action (sample_admin_env Delivered lf) (sample_admin_input Act_delete None) s1 = (Inl Admin_target_invalid, [], s1)"
proof -
  let ?env = "sample_agent_env sample_remote\<lparr>ln_authority := Some (sample_authority ''closed'')\<rparr>" and ?x = "sample_admin_input Act_delete None"
    and ?req = "sample_lifecycle_request Intent_delete"
  let ?lf = "run_research_agent_lifecycle sample_sha sample_decode (sample_control_fetch 200) sample_bindings (Some (''https:'', ''control'')) None ?env"
  have "bindings_usable sample_bindings" by code_simp
  moreover have "client_remote sample_decode (sample_control_fetch 200) sample_control_client (Rc_remove_user ''u1'') = Inr []"
    by (simp add: client_remote_def remove_user_def sample_control_answer, blast)
  ultimately obtain r agents q where r: "?lf ?req (sample_profiles Ls_disabled (Some ''a1'')) = (Some r, [Rc_remove_user ''u1''], agents)"
    "lz_outcome r = Lo_succeeded" "sr_profiles agents = [q]" "ap_profile_id q = profile_id_of sample_ext"
    using sample_deletion [of "?env\<lparr>ln_remote := client_remote sample_decode (sample_control_fetch 200) sample_control_client\<rparr>"]
    by (auto simp: run_research_agent_lifecycle_def sample_client unshared_def sample_agent_env_def)
  have d: "dispatch_admin_action (sample_admin_env Delivered ?lf) ?x \<lparr>ds_events = es, ds_agents = sample_profiles Ls_disabled (Some ''a1'')\<rparr> =
      ((Ev_succeeded, None, False), [Run_lifecycle ?req [Rc_remove_user ''u1'']], \<lparr>ds_events = es, ds_agents = agents\<rparr>)" for es
    using r(1,2) by (simp add: dispatch_admin_action_def sample_retry_request lifecycle_dispatch_def)
  have l: "list_ex (\<lambda>p. owned_by (ai_workspace_id ?x) (ai_target_account_id ?x) p \<and> ap_status p \<noteq> Ls_deleted)
      (sr_profiles (sample_profiles Ls_disabled (Some ''a1'')))"
    by (simp add: sample_profiles_def sample_profile_row)
  obtain a s1 where a: "execute_admin_action (sample_admin_env Delivered ?lf) ?x (sample_audit (sample_profiles Ls_disabled (Some ''a1''))) =
      (Inr a, [Run_lifecycle ?req [Rc_remove_user ''u1'']], s1)" "az_status a = Ev_succeeded" "ds_agents s1 = agents"
    using sample_executes [OF sample_admin_valid(3) l d] by (auto simp: admin_result_of_def)
  have "execute_admin_action (sample_admin_env Delivered ?lf) ?x s1 = (Inl Admin_target_invalid, [], s1)"
    by (rule completed_delete_cannot_be_repeated [OF a(1), where ext = sample_ext and sha = sample_sha])
      (use a r in \<open>simp_all add: sample_request_identity find_profile_def\<close>, simp_all add: request_isolated_def sample_agent_env_def)
  with a show ?thesis by blast
qed

definition sample_snapshot :: status_snapshot where
  "sample_snapshot =
     \<lparr>ss_account_active = True, ss_account_id = Some ''a'', ss_entitlement_approved = True, ss_lifecycle_status = Some Ls_active,
      ss_membership_active = True, ss_plan_code = None, ss_product_access_active = True, ss_profile_exists = True, ss_subscription_active = True,
      ss_usage = usage_totals_of empty_usage_store ''w'' ''a'', ss_workspace_active = True, ss_workspace_id = ''w''\<rparr>"

theorem available_agent_may_run_witness:
  "vs_fastclaw_available (project_user_status sample_snapshot) \<and>
    (\<exists>a. decide_authority sample_row (the (pr_workspace_id sample_row)) (the (pr_account_id sample_row)) = Authority_allowed a)"
proof -
  have "same_owner_rows sample_row sample_snapshot" "active_row_complete sample_row" "vs_fastclaw_available (project_user_status sample_snapshot)"
    by code_simp+
  with available_agent_may_run [OF this(1,2), of "the (pr_workspace_id sample_row)" "the (pr_account_id sample_row)"] show ?thesis
    by (simp add: sample_row_def)
qed

theorem usage_counted_once_witness:
  "\<exists>u s1. record_observed_usage sample_usage_env u empty_usage_store = (Inr False, s1) \<and>
    usage_totals_of s1 ''w'' ''a'' = plus_usage (usage_totals_of empty_usage_store ''w'' ''a'') u"
proof -
  obtain t s1 where r: "record_observed_usage sample_usage_env (terminal_usage sample_usage_context sample_usage_record t) empty_usage_store = (Inr False, s1)"
    by (rule sample_measured)
  from usage_counted_once [OF r sample_usage_env_sels(2), of "''w''" "''a''"] r show ?thesis
    by (auto simp: terminal_usage_def sample_usage_context_def)
qed

end
