(* ===== verification/Run_Killer.thy ===== *)
theory Run_Killer
  imports Agent_Product_Control
begin

text \<open>
  The kill dispatcher of \<open>apps/worker/src/fastclaw-live-control.ts\<close>: a token of four calls and 60 seconds for the run, one request to the sandbox
  bridge over the service binding, and the check of its answer. The service is a function on a state of its own; the theorems put the
  modelled bridge and its guards behind it, and the dispatcher behind the actions of administrators.
  A state of the bridge is the namespace of its guards with the calls it made on sandboxes.
\<close>

section \<open>The dispatcher\<close>

text \<open>An answer of a service; a body that is no JSON is \<open>None\<close> in \<open>sv_json\<close>.\<close>

record service_answer =
  sv_status :: nat
  sv_content_type :: "string option"
  sv_json :: "json option"

definition usable_kill_secret :: "string \<Rightarrow> bool" where
  "usable_kill_secret secret \<longleftrightarrow> \<not> length secret < 32"

definition kill_token_input :: "string \<Rightarrow> int \<Rightarrow> run_kill_request \<Rightarrow> issue_run_input" where
  "kill_token_input secret now_ms k =
     \<lparr>ir_max_calls = 4, ir_now_ms = now_ms, ir_run_id = kr_run_id k, ir_scopes = [''sandbox:destroy'', ''sandbox:status''],
      ir_secret = secret, ir_tenant_id = kr_tenant_id k, ir_ttl_seconds = 60, ir_user_id = kr_user_id k\<rparr>"

text \<open>The request; its other two headers are read by nobody.\<close>

definition kill_service_request :: "issued_run_token \<Rightarrow> bridge_request" where
  "kill_service_request issued =
     \<lparr>bq_method = ''POST'', bq_path = ''/v1/sandbox/'' @ encode_uri_component (it_sandbox_id issued) @ ''/kill'', bq_query_path = None,
      bq_authorization = Some (''Bearer '' @ it_token issued), bq_content_length = None, bq_text = Some []\<rparr>"

definition read_kill_answer :: "service_answer \<Rightarrow> string option" where
  "read_kill_answer r =
     (if \<not> (200 \<le> sv_status r \<and> sv_status r \<le> 299) \<or>
        \<not> (case sv_content_type r of Some t \<Rightarrow> starts_with ''application/json'' t | None \<Rightarrow> False) then None
      else
        (case sv_json r of
           Some (JObj ms) \<Rightarrow>
             if map_of ms ''terminal'' \<noteq> Some (JBool True) \<or>
               (map_of ms ''status'' \<noteq> Some (JStr ''killed'') \<and> map_of ms ''status'' \<noteq> Some (JStr ''already_terminal'')) then None
             else Option.bind (map_of ms ''status'') (\<lambda>v. case v of JStr w \<Rightarrow> Some w | _ \<Rightarrow> None)
         | _ \<Rightarrow> None))"

text \<open>The status, or \<open>None\<close> where it throws; \<open>None\<close> of the service is a rejected request.\<close>

definition kill_run ::
  "(bytes \<Rightarrow> bytes \<Rightarrow> bytes) \<Rightarrow> (bytes \<Rightarrow> bytes) \<Rightarrow> string \<Rightarrow> int \<Rightarrow> (bridge_request \<Rightarrow> 's \<Rightarrow> service_answer option \<times> 's)
    \<Rightarrow> run_kill_request \<Rightarrow> 's \<Rightarrow> string option \<times> 's" where
  "kill_run hmac sha secret now_ms service k s =
     (if \<not> usable_kill_secret secret then (None, s)
      else
        (case issue_sandbox_run_token hmac sha (kill_token_input secret now_ms k) of
           Inl _ \<Rightarrow> (None, s)
         | Inr issued \<Rightarrow>
             (let (answer, s1) = service (kill_service_request issued) s in (Option.bind answer read_kill_answer, s1))))"

section \<open>The bridge as the service\<close>

definition receipt_json :: "exec_receipt option \<Rightarrow> (string \<times> json) list" where
  "receipt_json r =
     (case r of
        None \<Rightarrow> []
      | Some x \<Rightarrow> [(''exec_receipt'', JObj [(''argv_sha256'', JStr (er_argv_sha256 x)), (''exit_code'', JNum (er_exit_code x)),
          (''stdout_sha256'', JStr (er_stdout_sha256 x))])])"

text \<open>What a response of the bridge is on the wire; the texts of its errors are a parameter.\<close>

definition bridge_answer :: "(nat \<Rightarrow> string \<Rightarrow> string) \<Rightarrow> bridge_response \<Rightarrow> service_answer" where
  "bridge_answer message r =
     (let answer = (\<lambda>status ms. \<lparr>sv_status = status, sv_content_type = Some ''application/json'', sv_json = Some (JObj ms)\<rparr>) in
      case r of
        Br_error n code \<Rightarrow> answer n [(''error'', JObj [(''code'', JStr code), (''message'', JStr (message n code))])]
      | Br_health \<Rightarrow> answer 200 [(''ok'', JBool True), (''service'', JStr ''aiphabee-sandbox-bridge'')]
      | Br_created sid instance_hash \<Rightarrow> answer 201 [(''id'', JStr sid), (''provider_instance_hash'', JStr instance_hash)]
      | Br_status receipt running terminal \<Rightarrow>
          answer 200 (receipt_json receipt @ [(''running'', JBool running), (''terminal'', JBool terminal)])
      | Br_no_content \<Rightarrow> \<lparr>sv_status = 204, sv_content_type = None, sv_json = None\<rparr>
      | Br_killed w \<Rightarrow> answer 200 [(''status'', JStr w), (''terminal'', JBool True)]
      | Br_exec sse \<Rightarrow> \<lparr>sv_status = 200, sv_content_type = Some ''text/event-stream'', sv_json = None\<rparr>
      | Br_file content \<Rightarrow> \<lparr>sv_status = 200, sv_content_type = Some ''text/plain; charset=utf-8'', sv_json = json_parse content\<rparr>
      | Br_listing v \<Rightarrow> \<lparr>sv_status = 200, sv_content_type = Some ''application/json'', sv_json = Some v\<rparr>)"

type_synonym bridge_state = "guard_namespace \<times> bridge_call list"

definition bridge_service ::
  "(bytes \<Rightarrow> bytes \<Rightarrow> bytes) \<Rightarrow> (bytes \<Rightarrow> bytes) \<Rightarrow> (string \<Rightarrow> string option) \<Rightarrow> (string \<Rightarrow> string) \<Rightarrow> (nat \<Rightarrow> string \<Rightarrow> string)
    \<Rightarrow> bridge_env \<Rightarrow> delivery \<Rightarrow> bridge_request \<Rightarrow> bridge_state \<Rightarrow> service_answer option \<times> bridge_state" where
  "bridge_service hmac sha resolve quote message env d req s =
     (let (resp, calls, ns) = handle_bridge_request hmac sha resolve quote env req (fst s); s1 = (ns, snd s @ calls) in
      case d of
        Request_lost \<Rightarrow> (None, s)
      | Response_lost \<Rightarrow> (None, s1)
      | Delivered \<Rightarrow> (Some (bridge_answer message resp), s1))"

text \<open>The guard of a run, by what the dispatcher knows of it.\<close>

definition run_guard_of :: "(bytes \<Rightarrow> bytes) \<Rightarrow> run_kill_request \<Rightarrow> guard_namespace \<Rightarrow> guard_state option" where
  "run_guard_of sha k ns =
     (case (hash_identity sha ''tenant'' (kr_tenant_id k), hash_identity sha ''user'' (kr_user_id k)) of
        (Inr th, Inr uh) \<Rightarrow> ns (kr_run_id k @ '':'' @ th @ '':'' @ uh)
      | _ \<Rightarrow> None)"

section \<open>A resolved kill\<close>

lemma kill_answer_words: "read_kill_answer r = Some w \<Longrightarrow> w = ''killed'' \<or> w = ''already_terminal''"
  by (auto simp: read_kill_answer_def split: if_splits option.splits json.splits)

text \<open>Only a kill is read as killed, among the responses to a kill request.\<close>

lemma killed_answer:
  assumes "read_kill_answer (bridge_answer message resp) = Some w" and "\<And>v. resp \<noteq> Br_listing v"
  shows "resp = Br_killed w"
  using assms
  by (cases resp)
    (auto simp: read_kill_answer_def bridge_answer_def receipt_json_def Let_def starts_with_def split: if_splits option.splits json.splits)

lemma issued_kill:
  assumes "issue_sandbox_run_token hmac sha (kill_token_input secret now_ms k) = Inr issued"
  shows "run_guard_of sha k ns = ns (guard_object_name (it_claims issued))" and "rc_jti (it_claims issued) = kr_run_id k"
    and "set (rc_scopes (it_claims issued)) = {''sandbox:destroy'', ''sandbox:status''}"
  using issued_run_token(5,7) [OF assms] issued_identity(1,2) [OF assms]
  by (auto simp: run_guard_of_def guard_object_name_def kill_token_input_def)

text \<open>A token opens to its own claims under the key it was signed with.\<close>

lemma issued_verifies_as:
  assumes "issue_sandbox_run_token hmac sha input = Inr r" and "\<And>k m. length (hmac k m) = 32"
    and "verify_sandbox_run_token hmac (it_token r) (ir_secret input) t scope = Inr c"
  shows "c = it_claims r"
proof -
  note i = issued_run_token [OF assms(1)]
  show ?thesis using assms(3)
    by (auto simp: verify_sandbox_run_token_def verify_issued [OF i(2,1) assms(2)] validate_claims_errors [OF i(1)] split: if_splits)
qed

lemma listing_needs_get:
  assumes "handle_bridge_request hmac sha resolve quote env req ns = (Br_listing v, calls, ns')"
  shows "bq_method req = ''GET''"
proof -
  obtain r e where r: "route (bq_path req) = Some r" "method_allowed r (bq_method req)"
    and h: "handle_matched hmac sha resolve quote env req r ns = (e, calls, ns')" "exit_response e = Br_listing v"
    using assms by (auto simp: handle_bridge_request_def split: if_splits option.splits prod.splits)
  have e: "e = Answer (Br_listing v)" using h(2) throws_is_error by (cases e) (auto simp: exit_response_def, metis bridge_response.distinct)
  have no: "\<nexists>n code. exit_response e = Br_error n code" using h(2) by simp
  obtain c sid where a: "authorize hmac sha env req (required_scope r) = Inr (c, sid)"
    using h(1) no refused_is_error(1) [of hmac sha env req "required_scope r"] by (cases "authorize hmac sha env req (required_scope r)") (auto simp: handle_matched_def)
  obtain g ns1 where g: "claim_or_reject env c (route_operation r) ns = (g, ns1)" by force
  obtain d where d: "g = Inr d"
    using h(1) no a g refused_is_error(2) [of env c "route_operation r" ns]
    by (cases g) (auto simp: handle_matched_def exit_response_def split: if_splits)
  with h(1) e a g obtain calls0 where w: "route_work sha resolve quote env req r c sid d ns1 = (e, calls0, ns')"
    by (auto simp: handle_matched_def split: prod.splits if_splits)
  then have "\<exists>s. r = R_files s"
    using e by (cases r) (auto simp: route_work_def do_create_def do_running_def do_exec_def do_file_def do_destroy_def Let_def split_beta
      dest: parse_refusal split: option.splits sum.splits if_splits)
  with r(2) show ?thesis by (auto simp: method_allowed_def)
qed

text \<open>What a resolved kill comes to.\<close>

definition run_killed :: "(bytes \<Rightarrow> bytes) \<Rightarrow> bridge_env \<Rightarrow> run_kill_request \<Rightarrow> bridge_state \<Rightarrow> bridge_state \<Rightarrow> bool" where
  "run_killed sha env k s s1 \<longleftrightarrow>
     guard_terminal (run_guard_of sha k (fst s1)) \<and>
     (snd s1 = snd s \<or> (\<exists>x. snd s1 = snd s @ [x] \<and> bc_call x = S_destroy \<and> bn_destroy env = Settled ()))"

lemma resolved_kill:
  assumes "kill_run hmac sha secret now_ms (bridge_service hmac sha resolve quote message env d) k s = (Some w, s1)"
    and "\<And>k m. length (hmac k m) = 32" and "bn_secret env = secret"
  shows "run_killed sha env k s s1"
proof -
  obtain issued answer where i: "issue_sandbox_run_token hmac sha (kill_token_input secret now_ms k) = Inr issued"
    and b: "bridge_service hmac sha resolve quote message env d (kill_service_request issued) s = (Some answer, s1)"
    and w: "read_kill_answer answer = Some w"
    using assms(1) by (auto simp: kill_run_def Let_def split: if_splits sum.splits prod.splits option.splits simp: bind_eq_Some_conv)
  let ?req = "kill_service_request issued"
  obtain resp calls ns where h: "handle_bridge_request hmac sha resolve quote env ?req (fst s) = (resp, calls, ns)"
    by (metis prod_cases3)
  with b have a: "answer = bridge_answer message resp" "s1 = (ns, snd s @ calls)"
    by (auto simp: bridge_service_def Let_def split: delivery.splits)
  have "resp \<noteq> Br_listing v" for v using listing_needs_get h by (fastforce simp: kill_service_request_def)
  with w a(1) have resp: "resp = Br_killed w" using killed_answer by blast
  obtain c token where c: "bq_authorization ?req = Some (''Bearer '' @ token)"
    "verify_sandbox_run_token hmac token (bn_secret env) (bn_now_ms env) (Some ''sandbox:destroy'') = Inr c"
    "guard_terminal (ns (guard_object_name c))" "calls = [] \<or> map bc_call calls = [S_destroy] \<and> bn_destroy env = Settled ()"
    using destroy_answered [OF h] resp by blast
  have "token = it_token issued" using c(1) by (simp add: kill_service_request_def)
  moreover have "ir_secret (kill_token_input secret now_ms k) = bn_secret env" by (simp add: kill_token_input_def assms(3))
  ultimately have "c = it_claims issued" using issued_verifies_as [OF i assms(2)] c(2) by metis
  then show ?thesis using c(3,4) by (auto simp: run_killed_def a(2) issued_kill(1) [OF i])
qed

section \<open>An action over the bridge\<close>

text \<open>
  C13: An administrator's kill does what it is answered with: when the dispatched action is answered as succeeded, the run of this workspace and account is terminal
  in its guard, with at most one destruction of its sandbox, confirmed; when the dispatcher threw it is answered as a failure that can be retried.
\<close>

theorem admin_kill_is_true:
  assumes "execute_admin_action env x s = (Inr a, calls, s1)" and "undisturbed env" and "ai_action x = Act_kill" and "calls \<noteq> []"
    and "kill_run hmac sha secret now_ms (bridge_service hmac sha resolve quote message benv d) (admin_kill_request x) b = (w, b1)"
    and "de_kill env \<longleftrightarrow> w \<noteq> None" and "\<And>k m. length (hmac k m) = 32" and "bn_secret benv = secret"
  shows "calls = [Kill_run (admin_kill_request x)] \<and>
    (case w of
       Some _ \<Rightarrow> az_status a = Ev_succeeded \<and> run_killed sha benv (admin_kill_request x) b b1
     | None \<Rightarrow> az_status a = Ev_failed \<and> az_retryable a)"
  using assms(1)
proof (cases rule: execute_admin_cases)
  case (dispatched e s2 status code retry s3 fin)
  from dispatched(1) obtain authority where e: "find_admin s2 (ai_workspace_id x, ai_request_id x) = Some e" by (rule start_Inr)
  have dd: "(status, code, retry) = (if de_kill env then (Ev_succeeded, None, False) else dispatch_failed)"
    "calls = [Kill_run (admin_kill_request x)]" "s3 = s2"
    using dispatched(3) assms(3) by (auto simp: dispatch_admin_action_def split: if_splits)
  obtain f where f: "fin = Inr f" "a = admin_result_of f False retry" using dispatched(5) by (cases fin) auto
  have "de_others env 3 s3 = s2" using assms(2) dd(3) by (simp add: undisturbed_def)
  with finalize_Inr [OF dispatched(4) [unfolded f(1)] dispatch_final [OF dispatched(3)] _ undisturbed_evolves [OF assms(2)]] e dispatched(2)
  have "f = finished_event (de_now env) status code e" by simp
  then have "az_status a = (if status = Ev_started then Ev_failed else status)" "az_retryable a = retry"
    by (simp_all add: f(2) admin_result_of_def)
  with dd assms(6) show ?thesis using resolved_kill [OF _ assms(7,8)] assms(5)
    by (cases w) (auto simp: dispatch_failed_def)
qed (use assms(4) in simp_all)

section \<open>A kill reaches its run\<close>

lemma encode_plain: "list_all uri_unreserved s \<Longrightarrow> encode_uri_component s = s"
  by (induction s) (simp_all add: encode_uri_component_def)

lemma route_kill:
  assumes "sid \<noteq> []" and "CHR ''/'' \<notin> set sid"
  shows "route (''/v1/sandbox/'' @ sid @ ''/kill'') = Some (R_kill sid)"
proof -
  have "takeWhile (\<lambda>c. c \<noteq> CHR ''/'') (sid @ ''/kill'') = sid" "dropWhile (\<lambda>c. c \<noteq> CHR ''/'') (sid @ ''/kill'') = ''/kill''"
    using assms(2) by (auto simp: takeWhile_append dropWhile_append)
  moreover have "drop 12 (''/v1/sandbox/'' @ sid @ ''/kill'') = sid @ ''/kill''" by simp
  ultimately have "sandbox_path (''/v1/sandbox/'' @ sid @ ''/kill'') = Some (sid, ''kill'')"
    using assms(1) by (simp add: sandbox_path_def starts_with_def Let_def)
  then show ?thesis by (simp add: route_def)
qed

lemma derived_id_plain:
  assumes "derive_sandbox_id sha c = Inr sid"
  shows "list_all uri_unreserved sid" and "sid \<noteq> []" and "CHR ''/'' \<notin> set sid"
proof -
  obtain m where sid: "sid = ''ab-'' @ take 32 (bytes_to_hex (sha m))"
    using assms by (auto simp: derive_sandbox_id_def Let_def)
  have "list_all is_lower_hex (take 32 (bytes_to_hex (sha m)))"
    using bytes_to_hex_lower [of "sha m"] by (auto simp: list_all_iff dest: in_set_takeD)
  moreover have "is_lower_hex c' \<Longrightarrow> uri_unreserved c'" for c'
    by (auto simp: is_lower_hex_def uri_unreserved_def is_alnum_def is_lower_def)
  ultimately show "list_all uri_unreserved sid" by (auto simp: sid list_all_iff uri_unreserved_def is_alnum_def is_lower_def)
  then show "CHR ''/'' \<notin> set sid" using unreserved_byte by (auto simp: list_all_iff)
  show "sid \<noteq> []" by (simp add: sid)
qed

lemma destroy_claim:
  assumes "state_matches_run_identity (guard_current cur c) c" and "\<not> gs_destroying (guard_current cur c)"
  shows "apply_run_guard_claim cur c Op_destroy =
    (guard_allow (guard_current cur c),
     if gs_terminal (guard_current cur c) then guard_current cur c else (guard_current cur c)\<lparr>gs_destroying := True\<rparr>)"
  using assms by (simp add: apply_run_guard_claim_def guard_current_def [symmetric] Let_def)

text \<open>A bridge whose sandbox confirms its destruction and whose guard is reached, with nothing in between.\<close>

definition kill_undisturbed :: "bridge_env \<Rightarrow> bool" where
  "kill_undisturbed env \<longleftrightarrow> bn_claim env = ([], Delivered) \<and> bn_finish env = ([], Delivered) \<and> bn_destroy env = Settled ()"

lemma kill_operation:
  assumes "kill_undisturbed env" and "state_matches_run_identity (guard_current (ns (guard_object_name c)) c) c"
    and "\<not> gs_destroying (guard_current (ns (guard_object_name c)) c)"
  obtains d ns1 w calls ns2 where "claim_or_reject env c Op_destroy ns = (Inr d, ns1)"
    "do_destroy env c True d ns1 = (Answer (Br_killed w), calls, ns2)" "w = ''killed'' \<or> w = ''already_terminal''"
proof -
  note result = that
  let ?n = "guard_object_name c"
  let ?g = "guard_current (ns ?n) c"
  let ?s = "if gs_terminal ?g then ?g else ?g\<lparr>gs_destroying := True\<rparr>"
  have c: "claim_or_reject env c Op_destroy ns = (Inr (guard_allow ?g), ns(?n := Some ?s))"
    using assms(1) destroy_claim [OF assms(2,3)]
    by (simp add: claim_or_reject_def kill_undisturbed_def guard_claim_def guard_fetch_def handle_run_guard_request_def guard_allow_def Let_def)
  show thesis
  proof (cases "gs_terminal ?g")
    case True
    then show thesis by (intro result [OF c]) (auto simp: do_destroy_def guard_allow_def)
  next
    case False
    then have "do_destroy env c True (guard_allow ?g) (ns(?n := Some ?s)) =
        (Answer (Br_killed ''killed''), [S_destroy], ns(?n := Some (?s\<lparr>gs_destroying := False, gs_terminal := True\<rparr>)))"
      using assms(1) by (simp add: do_destroy_def kill_undisturbed_def guard_allow_def guard_finish_destroy_def guard_fetch_def
          handle_run_guard_request_def guard_ok_def Let_def)
    from result [OF c this] show thesis by blast
  qed
qed

lemma kill_reaches:
  assumes "issue_sandbox_run_token hmac sha (kill_token_input secret now_ms k) = Inr issued" and "usable_kill_secret secret"
    and "\<And>k m. length (hmac k m) = 32" and "bn_secret env = secret" and "now_ms \<le> bn_now_ms env + 29000" and "bn_now_ms env \<le> now_ms + 59000"
    and "kill_undisturbed env"
    and "\<And>g. run_guard_of sha k (fst s) = Some g \<Longrightarrow> state_matches_run_identity g (it_claims issued) \<and> \<not> gs_destroying g"
  shows "\<exists>w s1. kill_run hmac sha secret now_ms (bridge_service hmac sha resolve quote message env Delivered) k s = (Some w, s1) \<and>
    run_killed sha env k s s1"
proof -
  let ?c = "it_claims issued" and ?sid = "it_sandbox_id issued" and ?req = "kill_service_request issued" and ?input = "kill_token_input secret now_ms k"
  note id = issued_identity(3) [OF assms(1)]
  have p: "ir_secret ?input = secret" "ir_now_ms ?input = now_ms" "ir_ttl_seconds ?input = 60" "''sandbox:destroy'' \<in> set (ir_scopes ?input)"
    by (simp_all add: kill_token_input_def)
  have v: "verify_sandbox_run_token hmac (it_token issued) secret (bn_now_ms env) (Some ''sandbox:destroy'') = Inr ?c"
    using issued_opens [OF assms(1,3) _ _ p(4), of "bn_now_ms env"] assms(5,6) unfolding p by linarith
  have "it_token issued \<noteq> []" using issued_run_token(2) [OF assms(1)] by (auto simp: sign_payload_def Let_def)
  then have a: "authorize hmac sha env ?req ''sandbox:destroy'' = Inr (?c, ?sid)"
    using v id by (simp add: authorize_def bridge_bearer_def kill_service_request_def assms(4) starts_with_def)
  have r: "route (bq_path ?req) = Some (R_kill ?sid)"
    using route_kill derived_id_plain [OF id] by (simp add: kill_service_request_def encode_plain)
  have "state_matches_run_identity (guard_current (fst s (guard_object_name ?c)) ?c) ?c \<and>
      \<not> gs_destroying (guard_current (fst s (guard_object_name ?c)) ?c)"
    using assms(8) issued_kill(1) [OF assms(1)]
    by (cases "fst s (guard_object_name ?c)") (simp_all add: guard_current_def initial_state_def state_matches_run_identity_def)
  then obtain d ns1 w calls ns2 where "claim_or_reject env ?c Op_destroy (fst s) = (Inr d, ns1)"
    "do_destroy env ?c True d ns1 = (Answer (Br_killed w), calls, ns2)" and w: "w = ''killed'' \<or> w = ''already_terminal''"
    using kill_operation [OF assms(7)] by metis
  with a r have "\<exists>calls. handle_bridge_request hmac sha resolve quote env ?req (fst s) = (Br_killed w, calls, ns2)"
    by (simp add: handle_bridge_request_def handle_matched_def method_allowed_def required_scope_def route_operation_def route_sandbox_def
        route_work_def exit_response_def) (simp add: kill_service_request_def)
  then obtain calls where h: "handle_bridge_request hmac sha resolve quote env ?req (fst s) = (Br_killed w, calls, ns2)" by blast
  have "read_kill_answer (bridge_answer message (Br_killed w)) = Some w"
    using w by (auto simp: read_kill_answer_def bridge_answer_def starts_with_def Let_def)
  with h assms(1,2) have "kill_run hmac sha secret now_ms (bridge_service hmac sha resolve quote message env Delivered) k s = (Some w, (ns2, snd s @ calls))"
    by (simp add: kill_run_def bridge_service_def Let_def)
  with resolved_kill [OF this assms(3,4)] show ?thesis by blast
qed

text \<open>
  C15: A kill reaches its run in every state: whether the run has not yet called the bridge, has a guard pinned to its own token of another budget and other
  scopes, has used its budget up or is over, one undisturbed kill resolves and leaves it terminal.
\<close>

theorem kill_reaches_run:
  assumes "issue_sandbox_run_token hmac sha (kill_token_input secret now_ms k) = Inr issued" and "usable_kill_secret secret"
    and "\<And>k m. length (hmac k m) = 32" and "bn_secret env = secret" and "now_ms \<le> bn_now_ms env + 29000" and "bn_now_ms env \<le> now_ms + 59000"
    and "kill_undisturbed env"
    and "\<And>g. run_guard_of sha k (fst s) = Some g \<Longrightarrow> state_matches_run_identity g (it_claims issued) \<and> \<not> gs_destroying g"
  shows "\<exists>w s1. kill_run hmac sha secret now_ms (bridge_service hmac sha resolve quote message env Delivered) k s = (Some w, s1) \<and>
    run_killed sha env k s s1"
  using assms by (rule kill_reaches)

section \<open>Samples\<close>

definition sample_kill :: "string \<Rightarrow> string \<Rightarrow> run_kill_request" where
  "sample_kill tenant user =
     \<lparr>kr_reason = ''r'', kr_request_id = ''q1'', kr_run_id = ''run-0001'', kr_tenant_id = tenant, kr_user_id = user\<rparr>"

definition sample_kill_claims :: run_claims where
  "sample_kill_claims = sample_claims\<lparr>rc_exp := 1700000060, rc_max_calls := 4, rc_scopes := [''sandbox:destroy'', ''sandbox:status'']\<rparr>"

lemma sample_kill_issued:
  assumes "js_trim tenant \<noteq> []" and "js_trim user \<noteq> []"
  obtains issued where "issue_sandbox_run_token sample_hmac sample_sha (kill_token_input sample_secret 1700000000000 (sample_kill tenant user)) = Inr issued"
    "it_claims issued = sample_kill_claims"
proof -
  have v: "valid_run_claims sample_kill_claims"
    using sample_valid by (simp add: valid_run_claims_def sample_kill_claims_def sample_claims_def sandbox_run_scopes_def
        is_safe_integer_def max_safe_integer_def)
  have scopes: "normalize_scopes [''sandbox:destroy'', ''sandbox:status''] = Inr [''sandbox:destroy'', ''sandbox:status'']"
    by (simp add: normalize_scopes_def sandbox_run_scopes_def)
  have c: "validate_claims (canonical_claims sample_kill_claims) 1700000000 None = Inr sample_kill_claims"
    using v by (rule validate_claims_complete) (simp_all add: run_claims_current_def scope_granted_def sample_kill_claims_def sample_claims_def)
  obtain sid where sid: "derive_sandbox_id sample_sha sample_kill_claims = Inr sid"
    using v by (auto simp: derive_sandbox_id_def valid_run_claims_def)
  obtain token where s: "sign_payload sample_hmac sample_secret (canonical_claims sample_kill_claims) = Inr token"
    by (simp add: sign_payload_def sample_key Let_def)
  from c sid s scopes assms
  have "issue_sandbox_run_token sample_hmac sample_sha (kill_token_input sample_secret 1700000000000 (sample_kill tenant user)) =
      Inr \<lparr>it_claims = sample_kill_claims, it_sandbox_id = sid, it_token = token\<rparr>"
    by (simp add: issue_sandbox_run_token_def kill_token_input_def sample_kill_def sample_hash is_safe_integer_def
        max_safe_integer_def canonical_claims_def sample_kill_claims_def sample_claims_def)
  with that show thesis by simp
qed

text \<open>A run whose own token has another budget, used up, and other scopes.\<close>

definition sample_spent :: guard_namespace where
  "sample_spent = (\<lambda>_. None)(guard_object_name sample_bridge_claims := Some ((initial_state sample_bridge_claims)\<lparr>gs_call_count := 8\<rparr>))"

lemma sample_kill_env: "kill_undisturbed (sample_bridge_env (Settled ()))" "bn_secret (sample_bridge_env o') = sample_secret"
  "bn_now_ms (sample_bridge_env o') = 1700000000000" "usable_kill_secret sample_secret"
  by (simp_all add: kill_undisturbed_def sample_bridge_env_def usable_kill_secret_def sample_secret_def)

lemma sample_spent_guard:
  "sample_spent n = Some g \<Longrightarrow> state_matches_run_identity g sample_kill_claims \<and> \<not> gs_destroying g"
  by (auto simp: sample_spent_def state_matches_run_identity_def sample_kill_claims_def sample_bridge_claims_def initial_state_def split: if_splits)

lemma sample_kill_reaches:
  assumes "js_trim tenant \<noteq> []" and "js_trim user \<noteq> []"
  shows "\<exists>w s1. kill_run sample_hmac sample_sha sample_secret 1700000000000
      (bridge_service sample_hmac sample_sha Some (\<lambda>x. x) (\<lambda>_ _. []) (sample_bridge_env (Settled ())) Delivered) (sample_kill tenant user)
      (sample_spent, []) = (Some w, s1)"
proof -
  obtain issued where i: "issue_sandbox_run_token sample_hmac sample_sha (kill_token_input sample_secret 1700000000000 (sample_kill tenant user)) = Inr issued"
    "it_claims issued = sample_kill_claims" using sample_kill_issued [OF assms] .
  have "state_matches_run_identity g (it_claims issued) \<and> \<not> gs_destroying g"
    if "run_guard_of sample_sha (sample_kill tenant user) (fst (sample_spent, [] :: bridge_call list)) = Some g" for g
    using that sample_spent_guard i issued_kill(1) [OF i(1)] by simp
  then have "\<exists>w s1. kill_run sample_hmac sample_sha sample_secret 1700000000000
      (bridge_service sample_hmac sample_sha Some (\<lambda>x. x) (\<lambda>_ _. []) (sample_bridge_env (Settled ())) Delivered) (sample_kill tenant user)
      (sample_spent, []) = (Some w, s1) \<and> run_killed sample_sha (sample_bridge_env (Settled ())) (sample_kill tenant user) (sample_spent, []) s1"
    by (intro kill_reaches [OF i(1) sample_kill_env(4)]) (simp_all add: sample_hmac_def sample_kill_env)
  then show ?thesis by blast
qed

theorem kill_reaches_run_witness:
  "\<exists>w s1. kill_run sample_hmac sample_sha sample_secret 1700000000000
      (bridge_service sample_hmac sample_sha Some (\<lambda>x. x) (\<lambda>_ _. []) (sample_bridge_env (Settled ())) Delivered) (sample_kill ''tenant'' ''user'')
      (sample_spent, []) = (Some w, s1) \<and> guard_terminal (run_guard_of sample_sha (sample_kill ''tenant'' ''user'') (fst s1))"
proof -
  have "js_trim ''tenant'' \<noteq> []" "js_trim ''user'' \<noteq> []" by (simp_all add: js_trim_def is_ws_def)
  then obtain issued where i: "issue_sandbox_run_token sample_hmac sample_sha
      (kill_token_input sample_secret 1700000000000 (sample_kill ''tenant'' ''user'')) = Inr issued"
    "it_claims issued = sample_kill_claims" by (rule sample_kill_issued)
  have "state_matches_run_identity g (it_claims issued) \<and> \<not> gs_destroying g"
    if "run_guard_of sample_sha (sample_kill ''tenant'' ''user'') (fst (sample_spent, [] :: bridge_call list)) = Some g" for g
    using that sample_spent_guard i issued_kill(1) [OF i(1)] by simp
  then have "\<exists>w s1. kill_run sample_hmac sample_sha sample_secret 1700000000000
      (bridge_service sample_hmac sample_sha Some (\<lambda>x. x) (\<lambda>_ _. []) (sample_bridge_env (Settled ())) Delivered) (sample_kill ''tenant'' ''user'')
      (sample_spent, []) = (Some w, s1) \<and> run_killed sample_sha (sample_bridge_env (Settled ())) (sample_kill ''tenant'' ''user'') (sample_spent, []) s1"
    by (intro kill_reaches_run [OF i(1) sample_kill_env(4)]) (simp_all add: sample_hmac_def sample_kill_env)
  then show ?thesis by (auto simp: run_killed_def)
qed

definition sample_kill_input :: admin_input where
  "sample_kill_input = sample_admin_input Act_kill (Some ''run-0001'')"

lemma sample_kill_action:
  "execute_admin_action (sample_admin_env Delivered lf) sample_kill_input (sample_audit (sample_profiles Ls_active None)) =
    (Inr (admin_result_of (finished_event 0 Ev_succeeded None (sample_started sample_kill_input)) False False),
     [Kill_run (admin_kill_request sample_kill_input)],
     \<lparr>ds_events = [finished_event 0 Ev_succeeded None (sample_started sample_kill_input)], ds_agents = sample_profiles Ls_active None\<rparr>)"
proof -
  have v: "validate_admin_input sample_kill_input = Inr ()" by code_simp
  have l: "list_ex (\<lambda>p. owned_by (ai_workspace_id sample_kill_input) (ai_target_account_id sample_kill_input) p \<and> ap_status p \<noteq> Ls_deleted)
      (sr_profiles (sample_profiles Ls_active None))"
    by (simp add: sample_profiles_def sample_profile_row, simp add: sample_kill_input_def sample_admin_input_def)
  have d: "dispatch_admin_action (sample_admin_env Delivered lf) sample_kill_input s =
      ((Ev_succeeded, None, False), [Kill_run (admin_kill_request sample_kill_input)], s)" for s
    by (simp add: dispatch_admin_action_def, simp add: sample_kill_input_def sample_admin_input_def)
  from sample_executes [OF v l d] show ?thesis by simp
qed

theorem admin_kill_is_true_witness:
  "\<exists>w b1. kill_run sample_hmac sample_sha sample_secret 1700000000000
      (bridge_service sample_hmac sample_sha Some (\<lambda>x. x) (\<lambda>_ _. []) (sample_bridge_env (Settled ())) Delivered)
      (admin_kill_request sample_kill_input) (sample_spent, []) = (Some w, b1) \<and>
    run_killed sample_sha (sample_bridge_env (Settled ())) (admin_kill_request sample_kill_input) (sample_spent, []) b1"
proof -
  have k: "admin_kill_request sample_kill_input = sample_kill ''w'' ''a''"
    by (simp add: admin_kill_request_def sample_kill_input_def sample_admin_input_def sample_kill_def)
  have "js_trim ''w'' \<noteq> []" "js_trim ''a'' \<noteq> []" by (simp_all add: js_trim_def is_ws_def)
  then obtain w b1 where r: "kill_run sample_hmac sample_sha sample_secret 1700000000000
      (bridge_service sample_hmac sample_sha Some (\<lambda>x. x) (\<lambda>_ _. []) (sample_bridge_env (Settled ())) Delivered)
      (admin_kill_request sample_kill_input) (sample_spent, []) = (Some w, b1)"
    unfolding k using sample_kill_reaches by blast
  have "ai_action sample_kill_input = Act_kill" by (simp add: sample_kill_input_def sample_admin_input_def)
  from admin_kill_is_true [OF sample_kill_action _ this _ r] r show ?thesis
    by (simp add: sample_hmac_def sample_kill_env)
qed

end
