(* ===== verification/Service_Transport.thy ===== *)
theory Service_Transport
  imports Run_Killer
begin

text \<open>
  The transport of \<open>apps/worker/src/fastclaw-service-transport.ts\<close>: one request starts a run on the remote platform, its response is a stream of lines,
  each a JSON event; a tool call is given to a callback, whose output is posted back before the next line is read. The callbacks of the
  agent runner are a parameter on a state of their own, so are the network and the streaming text decoder. Numbers that are used as ids are integers.
\<close>

section \<open>Failures and events\<close>

text \<open>What a request or a read is rejected with: the names that the code tells apart.\<close>

datatype network_error = Net_type_error | Net_abort | Net_named string | Net_unknown

text \<open>An error of the service with its code, one of the network, or one that a callback threw.\<close>

datatype 'e transport_failure = Tf_code string | Tf_net network_error | Tf_callback 'e

datatype callback_event =
  Cb_heartbeat
  | Cb_accepted
  | Cb_error
  | Cb_tool_call string string json
  | Cb_final string transport_usage

text \<open>The conversion of a value to a string.\<close>

fun js_text :: "json \<Rightarrow> string" where
  "js_text JNull = ''null''"
| "js_text (JBool b) = (if b then ''true'' else ''false'')"
| "js_text (JNum n) = int_text n"
| "js_text (JFrac s) = s"
| "js_text (JStr s) = s"
| "js_text (JArr vs) = join_with (CHR '','') (map (\<lambda>v. if v = JNull then [] else js_text v) vs)"
| "js_text (JObj ms) = ''[object Object]''"

definition id_text :: "json option \<Rightarrow> string" where
  "id_text v = (case v of None \<Rightarrow> [] | Some x \<Rightarrow> if x = JNull then [] else js_text x)"

text \<open>The members of a value that is an object or an array.\<close>

definition object_members :: "json \<Rightarrow> (string \<times> json) list option" where
  "object_members v = (case v of JObj ms \<Rightarrow> Some ms | JArr _ \<Rightarrow> Some [] | _ \<Rightarrow> None)"

definition count_field :: "(string \<times> json) list \<Rightarrow> string \<Rightarrow> int option" where
  "count_field ms k = (case map_of ms k of Some (JNum n) \<Rightarrow> if safe_count n then Some n else None | _ \<Rightarrow> None)"

definition parse_tool_call :: "(string \<times> json) list \<Rightarrow> string + callback_event" where
  "parse_tool_call ms =
     (let invalid = ''FASTCLAW_CALLBACK_TOOL_CALL_INVALID'' in
      with_some (Option.bind (map_of ms ''call'') object_members) invalid (\<lambda>call.
      require (valid_id (id_text (map_of call ''call_id''))) invalid (
      require (valid_id (id_text (map_of call ''name''))) invalid (
      with_some (map_of call ''input'') invalid (\<lambda>input.
        Inr (Cb_tool_call (id_text (map_of call ''call_id'')) (id_text (map_of call ''name'')) input))))))"

definition parse_final :: "(string \<times> json) list \<Rightarrow> string + callback_event" where
  "parse_final ms =
     (let invalid = ''FASTCLAW_CALLBACK_FINAL_INVALID'' in
      with_some (str_field ms ''raw_answer'') invalid (\<lambda>raw_answer.
      with_some (Option.bind (map_of ms ''usage'') object_members) invalid (\<lambda>usage.
      with_some (count_field usage ''input_tokens'') invalid (\<lambda>input_tokens.
      with_some (count_field usage ''output_tokens'') invalid (\<lambda>output_tokens.
      with_some (count_field usage ''steps'') invalid (\<lambda>steps.
        Inr (Cb_final raw_answer \<lparr>us_input_tokens = input_tokens, us_output_tokens = output_tokens, us_steps = steps\<rparr>)))))))"

definition parse_event :: "string \<Rightarrow> string \<Rightarrow> string + callback_event" where
  "parse_event line run_id =
     (let invalid = ''FASTCLAW_CALLBACK_EVENT_INVALID'' in
      with_some (Option.bind (json_parse line) object_members) invalid (\<lambda>ms.
      require (map_of ms ''run_id'' = Some (JStr run_id)) ''FASTCLAW_CALLBACK_RUN_MISMATCH'' (
      let type = map_of ms ''type'' in
      if type = Some (JStr ''remote_accepted'') then Inr Cb_accepted
      else if type = Some (JStr ''heartbeat'') then Inr Cb_heartbeat
      else if type = Some (JStr ''error'') then
        require (map_of ms ''code'' = Some (JStr ''AIPHABEE_TOOL_PROPOSAL_INVALID'')) invalid (Inr Cb_error)
      else if type = Some (JStr ''tool_call'') then parse_tool_call ms
      else if type = Some (JStr ''final'') then parse_final ms
      else Inl invalid)))"

section \<open>The service\<close>

text \<open>The parts of a parsed URL.\<close>

record url_parts =
  ul_protocol :: string
  ul_hostname :: string
  ul_origin :: string
  ul_pathname :: string
  ul_search :: string
  ul_hash :: string
  ul_href :: string

definition validate_base_url :: "url_parts \<Rightarrow> string + string" where
  "validate_base_url url =
     (let loopback = (ul_hostname url = ''127.0.0.1'' \<or> ul_hostname url = ''localhost'' \<or> ul_hostname url = ''::1'') in
      require
        (\<not> ((ul_protocol url \<noteq> ''https:'' \<and> \<not> (ul_protocol url = ''http:'' \<and> loopback)) \<or> ul_search url \<noteq> [] \<or> ul_hash url \<noteq> [] \<or>
           \<not> (ul_pathname url \<noteq> [] \<and> last (ul_pathname url) = CHR ''/'')))
        ''FASTCLAW_SERVICE_URL_INVALID''
        (Inr (if ul_href url \<noteq> [] \<and> last (ul_href url) = CHR ''/'' then butlast (ul_href url) else ul_href url)))"

record service_call =
  sc_url :: string
  sc_headers :: "(string \<times> string) list"
  sc_body :: json

text \<open>The wrapper of the control service: it adds the shared token to requests of its own origin and lets no others through.\<close>

definition vps_control_fetch ::
  "url_parts \<Rightarrow> string \<Rightarrow> url_parts \<Rightarrow> service_call \<Rightarrow> string + service_call" where
  "vps_control_fetch base shared_token url call =
     require (ul_origin url = ul_origin base) ''FASTCLAW_VPS_ORIGIN_MISMATCH''
       (Inr (call\<lparr>sc_headers := AList.update ''Authorization'' (''Bearer '' @ shared_token) (sc_headers call)\<rparr>))"

definition vps_control_service :: "url_parts \<Rightarrow> string \<Rightarrow> string + (url_parts \<Rightarrow> service_call \<Rightarrow> string + service_call)" where
  "vps_control_service base shared_token =
     and_then (validate_base_url base) (\<lambda>_.
     require (32 \<le> length shared_token \<and> shared_token = js_trim shared_token) ''FASTCLAW_VPS_TOKEN_INVALID''
       (Inr (vps_control_fetch base shared_token)))"

record transport_config =
  tf_admin_api_key :: string
  tf_base_url :: string

definition new_service_transport :: "string \<Rightarrow> url_parts \<Rightarrow> string + transport_config" where
  "new_service_transport admin_api_key url =
     require (\<not> (js_trim admin_api_key = [] \<or> admin_api_key \<noteq> js_trim admin_api_key)) ''FASTCLAW_SERVICE_CONFIG_INVALID'' (
     and_then (validate_base_url url) (\<lambda>base. Inr \<lparr>tf_admin_api_key = admin_api_key, tf_base_url = base\<rparr>))"

record transport_input =
  ti_aborted :: bool
  ti_external_identity :: string
  ti_agent_id :: string
  ti_user_id :: string
  ti_prompt :: string
  ti_run_id :: string
  ti_authorization :: string

definition transport_headers :: "transport_config \<Rightarrow> transport_input \<Rightarrow> (string \<times> string) list" where
  "transport_headers conf x =
     [(''Accept'', ''application/x-ndjson''), (''Authorization'', ''Bearer '' @ tf_admin_api_key conf), (''Content-Type'', ''application/json''),
      (''X-AiphaBee-FastClaw-User-Id'', ti_user_id x), (''X-AiphaBee-Tool-Callback-Contract'', ''2026-07-11.aiphabee-tool-callback.v1''),
      (''X-AiphaBee-Run-Id'', ti_run_id x), (''X-AiphaBee-Sandbox-Authorization'', ti_authorization x)]"

definition run_request :: "transport_config \<Rightarrow> transport_input \<Rightarrow> service_call" where
  "run_request conf x =
     \<lparr>sc_url = tf_base_url conf @ ''/v1/chat/completions'', sc_headers = transport_headers conf x,
      sc_body = JObj [(''agent_id'', JStr (ti_agent_id x)),
        (''messages'', JArr [JObj [(''content'', JStr (ti_prompt x)), (''role'', JStr ''user'')]]), (''stream'', JBool False),
        (''user'', JStr (ti_external_identity x))]\<rparr>"

definition result_request :: "transport_config \<Rightarrow> transport_input \<Rightarrow> string \<Rightarrow> json \<Rightarrow> service_call" where
  "result_request conf x call_id output =
     \<lparr>sc_url = tf_base_url conf @ ''/v1/chat/completions/'' @ encode_uri_component (ti_run_id x) @ ''/tool-results/'' @ encode_uri_component call_id,
      sc_headers = transport_headers conf x, sc_body = JObj [(''output'', output)]\<rparr>"

section \<open>Posting the output of a tool\<close>

text \<open>What a callback resolves to: no value, one that cannot be written as JSON, or a value.\<close>

datatype tool_output = Out_undefined | Out_unserializable | Out_json json

text \<open>The answer to a post: the error it is rejected with, or a status with the text of its body, whose reading may fail.\<close>

datatype post_answer = Post_threw network_error | Post_answered nat "network_error + string"

definition result_readback :: "string \<Rightarrow> string \<Rightarrow> nat \<Rightarrow> string \<Rightarrow> bool" where
  "result_readback run_id call_id attempt text \<longleftrightarrow>
     utf8_length text \<le> 65536 \<and>
     (case Option.bind (json_parse text) object_members of
        None \<Rightarrow> False
      | Some ms \<Rightarrow>
          map_of ms ''status'' = Some (JStr ''accepted'') \<and> map_of ms ''run_id'' = Some (JStr run_id) \<and>
          map_of ms ''call_id'' = Some (JStr call_id) \<and>
          (map_of ms ''replayed'' = Some (JBool False) \<or> attempt \<noteq> 0 \<and> map_of ms ''replayed'' = Some (JBool True)))"

definition post_attempt :: "string \<Rightarrow> string \<Rightarrow> nat \<Rightarrow> post_answer \<Rightarrow> 'e transport_failure + unit" where
  "post_attempt run_id call_id attempt answer =
     (case answer of
        Post_threw e \<Rightarrow> Inl (Tf_net e)
      | Post_answered status text \<Rightarrow>
          require (200 \<le> status \<and> status \<le> 299) (Tf_code (''FASTCLAW_CALLBACK_RESULT_REJECTED_'' @ int_text (int status))) (
          and_then (map_sum Tf_net id text) (\<lambda>t.
          require (result_readback run_id call_id attempt t) (Tf_code ''FASTCLAW_CALLBACK_RESULT_INVALID'') (Inr ()))))"

datatype transport_action =
  Ta_request service_call
  | Ta_progress
  | Ta_tool transport_tool_call
  | Ta_result string nat service_call
  | Ta_accepted string

text \<open>
  The network: the response to the run request with the chunks of its stream and how it ends, the decoder, the answers to posts by the
  number of the call and the attempt, and whether the run was aborted by then.
\<close>

record stream_response =
  sp_status :: nat
  sp_content_type :: "string option"
  sp_body :: "bytes list option"
  sp_error :: "network_error option"

record transport_net =
  tn_response :: "network_error + stream_response"
  tn_text :: "bytes list \<Rightarrow> bytes \<Rightarrow> string"
  tn_flush :: "bytes list \<Rightarrow> string"
  tn_post :: "nat \<Rightarrow> nat \<Rightarrow> post_answer"
  tn_aborted :: "nat \<Rightarrow> bool"

text \<open>A call of the service that is accepted is noted after its attempts.\<close>

definition post_tool_result ::
  "transport_net \<Rightarrow> transport_config \<Rightarrow> transport_input \<Rightarrow> nat \<Rightarrow> string \<Rightarrow> tool_output \<Rightarrow>
    ('e transport_failure + unit) \<times> transport_action list" where
  "post_tool_result net conf x n call_id output =
     (case output of
        Out_json v \<Rightarrow>
          (let attempt = (\<lambda>k. post_attempt (ti_run_id x) call_id k (tn_post net n k));
               log = (\<lambda>k. Ta_result call_id k (result_request conf x call_id v)) in
           case attempt 0 of
             Inr _ \<Rightarrow> (Inr (), [log 0, Ta_accepted call_id])
           | Inl f \<Rightarrow>
               if f \<noteq> Tf_net Net_type_error \<or> tn_aborted net n then (Inl f, [log 0])
               else (case attempt 1 of
                   Inr _ \<Rightarrow> (Inr (), [log 0, log 1, Ta_accepted call_id])
                 | Inl g \<Rightarrow> (Inl g, [log 0, log 1])))
      | _ \<Rightarrow> (Inl (Tf_code ''FASTCLAW_CALLBACK_OUTPUT_INVALID''), []))"

section \<open>The lines\<close>

text \<open>The callbacks on their state: what they throw or return.\<close>

record ('c, 'e) transport_callbacks =
  tk_progress :: "progress_phase \<Rightarrow> 'c \<Rightarrow> ('e + unit) \<times> 'c"
  tk_tool :: "transport_tool_call \<Rightarrow> 'c \<Rightarrow> ('e + tool_output) \<times> 'c"

record 'c stream_state =
  sm_accepted :: bool
  sm_seen :: "string list"
  sm_final :: "(string \<times> transport_usage) option"
  sm_phase :: string
  sm_callbacks :: 'c
  sm_log :: "transport_action list"

definition max_stream_bytes :: nat where
  "max_stream_bytes = 2097152"

definition max_line_bytes :: nat where
  "max_line_bytes = 1048576"

definition on_accepted ::
  "('c, 'e) transport_callbacks \<Rightarrow> 'c stream_state \<Rightarrow> ('e transport_failure + unit) \<times> 'c stream_state" where
  "on_accepted cb s =
     (if sm_accepted s \<or> sm_seen s \<noteq> [] \<or> sm_final s \<noteq> None then (Inl (Tf_code ''FASTCLAW_CALLBACK_ORDER_INVALID''), s)
      else
        (let (r, c) = tk_progress cb Remote_accepted (sm_callbacks s) in
         (map_sum Tf_callback id r,
          s\<lparr>sm_accepted := True, sm_phase := ''APPLICATION_CALLBACK'', sm_callbacks := c, sm_log := sm_log s @ [Ta_progress]\<rparr>)))"

definition on_call_event ::
  "transport_net \<Rightarrow> transport_config \<Rightarrow> transport_input \<Rightarrow> ('c, 'e) transport_callbacks \<Rightarrow> string \<Rightarrow> string \<Rightarrow> json \<Rightarrow> 'c stream_state
    \<Rightarrow> ('e transport_failure + unit) \<times> 'c stream_state" where
  "on_call_event net conf x cb call_id name input s =
     (if \<not> sm_accepted s \<or> sm_final s \<noteq> None \<or> call_id \<in> set (sm_seen s) then (Inl (Tf_code ''FASTCLAW_CALLBACK_ORDER_INVALID''), s)
      else
        (let call = \<lparr>tc_call_id = Some call_id, tc_name = Some name, tc_input = input\<rparr>;
             (r, c) = tk_tool cb call (sm_callbacks s);
             s1 = s\<lparr>sm_seen := sm_seen s @ [call_id], sm_phase := ''APPLICATION_CALLBACK'', sm_callbacks := c, sm_log := sm_log s @ [Ta_tool call]\<rparr> in
         case r of
           Inl e \<Rightarrow> (Inl (Tf_callback e), s1)
         | Inr output \<Rightarrow>
             (let (p, log) = post_tool_result net conf x (length (sm_seen s)) call_id output;
                  s2 = s1\<lparr>sm_log := sm_log s1 @ log\<rparr> in
              case p of
                Inl f \<Rightarrow> (Inl f, s2\<lparr>sm_phase := ''CALLBACK_RESULT''\<rparr>)
              | Inr _ \<Rightarrow> (Inr (), s2\<lparr>sm_phase := ''STREAM_READ''\<rparr>))))"

definition on_final_event :: "string \<Rightarrow> transport_usage \<Rightarrow> 'c stream_state \<Rightarrow> ('e transport_failure + unit) \<times> 'c stream_state" where
  "on_final_event raw_answer usage s =
     (if \<not> sm_accepted s \<or> sm_final s \<noteq> None \<or> us_steps usage \<noteq> int (length (sm_seen s)) then (Inl (Tf_code ''FASTCLAW_CALLBACK_FINAL_INVALID''), s)
      else (Inr (), s\<lparr>sm_final := Some (raw_answer, usage)\<rparr>))"

definition on_event ::
  "transport_net \<Rightarrow> transport_config \<Rightarrow> transport_input \<Rightarrow> ('c, 'e) transport_callbacks \<Rightarrow> callback_event \<Rightarrow> 'c stream_state
    \<Rightarrow> ('e transport_failure + unit) \<times> 'c stream_state" where
  "on_event net conf x cb e s =
     (case e of
        Cb_accepted \<Rightarrow> on_accepted cb s
      | Cb_heartbeat \<Rightarrow>
          if \<not> sm_accepted s \<or> sm_final s \<noteq> None then (Inl (Tf_code ''FASTCLAW_CALLBACK_ORDER_INVALID''), s) else (Inr (), s)
      | Cb_error \<Rightarrow> (Inl (Tf_code ''FASTCLAW_CALLBACK_TOOL_CALL_INVALID''), s)
      | Cb_tool_call call_id name input \<Rightarrow> on_call_event net conf x cb call_id name input s
      | Cb_final raw_answer usage \<Rightarrow> on_final_event raw_answer usage s)"

definition on_line ::
  "transport_net \<Rightarrow> transport_config \<Rightarrow> transport_input \<Rightarrow> ('c, 'e) transport_callbacks \<Rightarrow> string \<Rightarrow> 'c stream_state
    \<Rightarrow> ('e transport_failure + unit) \<times> 'c stream_state" where
  "on_line net conf x cb line s =
     (if max_line_bytes < utf8_length line then (Inl (Tf_code ''FASTCLAW_CALLBACK_LINE_TOO_LARGE''), s)
      else if js_trim line = [] then (Inr (), s)
      else
        (case parse_event line (ti_run_id x) of
           Inl code \<Rightarrow> (Inl (Tf_code code), s)
         | Inr e \<Rightarrow> on_event net conf x cb e s))"

text \<open>The lines of a buffer, given as its parts between line feeds: the last one stays in the buffer.\<close>

fun on_lines ::
  "transport_net \<Rightarrow> transport_config \<Rightarrow> transport_input \<Rightarrow> ('c, 'e) transport_callbacks \<Rightarrow> string list \<Rightarrow> 'c stream_state
    \<Rightarrow> ('e transport_failure + string) \<times> 'c stream_state" where
  "on_lines net conf x cb [] s = (Inr [], s)"
| "on_lines net conf x cb [rest] s = (Inr rest, s)"
| "on_lines net conf x cb (line # lines) s =
     (case on_line net conf x cb line s of
        (Inl f, s1) \<Rightarrow> (Inl f, s1)
      | (Inr _, s1) \<Rightarrow> on_lines net conf x cb lines s1)"

section \<open>The stream\<close>

definition line_feed :: char where
  "line_feed = char_of (10 :: nat)"

text \<open>The loop over the reader: the chunks read so far, those to come and how the stream ends, the bytes read and the buffer.\<close>

fun read_stream ::
  "transport_net \<Rightarrow> transport_config \<Rightarrow> transport_input \<Rightarrow> ('c, 'e) transport_callbacks \<Rightarrow> network_error option \<Rightarrow> bytes list \<Rightarrow> bytes list
    \<Rightarrow> nat \<Rightarrow> string \<Rightarrow> 'c stream_state \<Rightarrow> ('e transport_failure + string) \<times> 'c stream_state" where
  "read_stream net conf x cb failure before [] read_bytes buffer s =
     (case failure of
        Some e \<Rightarrow> (Inl (Tf_net e), s)
      | None \<Rightarrow> on_lines net conf x cb (split_on line_feed (buffer @ tn_flush net before)) s)"
| "read_stream net conf x cb failure before (c # cs) read_bytes buffer s =
     (if max_stream_bytes < read_bytes + length c then (Inl (Tf_code ''FASTCLAW_CALLBACK_STREAM_TOO_LARGE''), s)
      else
        (case on_lines net conf x cb (split_on line_feed (buffer @ tn_text net before c)) s of
           (Inl f, s1) \<Rightarrow> (Inl f, s1)
         | (Inr rest, s1) \<Rightarrow> read_stream net conf x cb failure (before @ [c]) cs (read_bytes + length c) rest s1))"

definition stream_start :: "'c \<Rightarrow> 'c stream_state" where
  "stream_start c =
     \<lparr>sm_accepted = False, sm_seen = [], sm_final = None, sm_phase = ''RUN_REQUEST'', sm_callbacks = c, sm_log = []\<rparr>"

definition valid_transport_input :: "transport_input \<Rightarrow> bool" where
  "valid_transport_input x \<longleftrightarrow>
     \<not> (\<not> valid_id (ti_run_id x) \<or> \<not> valid_id (ti_agent_id x) \<or> \<not> valid_id (ti_user_id x) \<or> js_trim (ti_external_identity x) = [] \<or>
        js_trim (ti_prompt x) = [] \<or> js_trim (ti_authorization x) = [])"

definition end_of_stream ::
  "('e transport_failure + string) \<times> 'c stream_state \<Rightarrow> ('e transport_failure + string \<times> transport_usage) \<times> 'c stream_state" where
  "end_of_stream y =
     (case y of
        (Inl f, s) \<Rightarrow> (Inl f, s)
      | (Inr buffer, s) \<Rightarrow>
          (case sm_final s of
             Some final \<Rightarrow> if js_trim buffer \<noteq> [] then (Inl (Tf_code ''FASTCLAW_CALLBACK_TERMINAL_MISSING''), s) else (Inr final, s)
           | None \<Rightarrow> (Inl (Tf_code ''FASTCLAW_CALLBACK_TERMINAL_MISSING''), s)))"

text \<open>The body of the \<open>try\<close>: the request, the stream and its end.\<close>

definition run_stream ::
  "transport_net \<Rightarrow> transport_config \<Rightarrow> transport_input \<Rightarrow> ('c, 'e) transport_callbacks \<Rightarrow> 'c
    \<Rightarrow> ('e transport_failure + string \<times> transport_usage) \<times> 'c stream_state" where
  "run_stream net conf x cb c =
     (let s = (stream_start c)\<lparr>sm_log := [Ta_request (run_request conf x)]\<rparr> in
      case tn_response net of
        Inl e \<Rightarrow> (Inl (Tf_net e), s)
      | Inr resp \<Rightarrow>
          (case sp_body resp of
             None \<Rightarrow> (Inl (Tf_code ''FASTCLAW_SERVICE_RUN_REJECTED''), s)
           | Some chunks \<Rightarrow>
               if \<not> (200 \<le> sp_status resp \<and> sp_status resp \<le> 299) then (Inl (Tf_code ''FASTCLAW_SERVICE_RUN_REJECTED''), s)
               else if \<not> (case sp_content_type resp of
                     Some t \<Rightarrow> starts_with ''application/x-ndjson'' (map lower_char t) | None \<Rightarrow> False) then
                 (Inl (Tf_code ''FASTCLAW_CALLBACK_CONTENT_TYPE_INVALID''), s)
               else
                 end_of_stream (read_stream net conf x cb (sp_error resp) [] chunks 0 [] (s\<lparr>sm_phase := ''STREAM_READ''\<rparr>))))"

text \<open>The \<open>catch\<close>: errors of the network become codes with the phase they are in.\<close>

definition upper_char :: "char \<Rightarrow> char" where
  "upper_char c = (if is_lower c then char_of (code_unit c - 32) else c)"

definition runtime_code :: "string \<Rightarrow> network_error \<Rightarrow> string" where
  "runtime_code phase e =
     ''FASTCLAW_TRANSPORT_RUNTIME_'' @ phase @
     (case e of
        Net_abort \<Rightarrow> ''_ABORTED''
      | Net_type_error \<Rightarrow> ''_TYPEERROR''
      | Net_named n \<Rightarrow>
          if 1 \<le> length n \<and> length n \<le> 40 \<and> list_all (\<lambda>c. is_lower c \<or> is_upper c) n then CHR ''_'' # map upper_char n else ''_UNKNOWN''
      | Net_unknown \<Rightarrow> ''_UNKNOWN'')"

definition service_transport_run ::
  "transport_net \<Rightarrow> transport_config \<Rightarrow> transport_input \<Rightarrow> ('c, 'e) transport_callbacks \<Rightarrow> 'c
    \<Rightarrow> ('e transport_failure + string \<times> transport_usage) \<times> 'c stream_state" where
  "service_transport_run net conf x cb c =
     (if ti_aborted x then (Inl (Tf_code ''FASTCLAW_SERVICE_ABORTED''), stream_start c)
      else if \<not> valid_transport_input x then (Inl (Tf_code ''FASTCLAW_SERVICE_INPUT_INVALID''), stream_start c)
      else
        (let (r, s) = run_stream net conf x cb c in
         (case r of Inl (Tf_net e) \<Rightarrow> Inl (Tf_code (runtime_code (sm_phase s) e)) | _ \<Rightarrow> r, s)))"

section \<open>Chunks\<close>

lemma on_lines_Cons:
  "lines \<noteq> [] \<Longrightarrow> on_lines net conf x cb (line # lines) s =
     (case on_line net conf x cb line s of (Inl f, s1) \<Rightarrow> (Inl f, s1) | (Inr _, s1) \<Rightarrow> on_lines net conf x cb lines s1)"
  by (cases lines) auto

text \<open>Reading a text in two parts, the rest of the first kept in the buffer, is reading it at once.\<close>

lemma on_lines_append:
  "on_lines net conf x cb (split_on d (a @ b)) s =
     (case on_lines net conf x cb (split_on d a) s of
        (Inl f, s1) \<Rightarrow> (Inl f, s1)
      | (Inr rest, s1) \<Rightarrow> on_lines net conf x cb (split_on d (rest @ b)) s1)"
proof (induction "length a" arbitrary: a s rule: less_induct)
  case less
  show ?case
  proof (cases "d \<in> set a")
    case False
    then show ?thesis by (simp add: split_on_no_sep)
  next
    case True
    then obtain w a' where a: "a = w @ d # a'" "d \<notin> set w" by (metis split_list_first)
    have "on_lines net conf x cb (split_on d a' ) s1 = on_lines net conf x cb (split_on d a') s1" for s1 by simp
    moreover have "split_on d (w @ d # a' @ b) = w # split_on d (a' @ b)" "split_on d (w @ d # a') = w # split_on d a'"
      using a(2) by (simp_all add: split_on_append)
    moreover note less [of a']
    ultimately show ?thesis
      by (simp add: a(1) on_lines_Cons split_on_nonempty split: prod.splits sum.splits)
  qed
qed

text \<open>All that the decoder gives for the chunks to come.\<close>

fun stream_text :: "transport_net \<Rightarrow> bytes list \<Rightarrow> bytes list \<Rightarrow> string" where
  "stream_text net before [] = tn_flush net before"
| "stream_text net before (c # cs) = tn_text net before c @ stream_text net (before @ [c]) cs"

lemma read_stream_whole:
  assumes "n + sum_list (map length cs) \<le> max_stream_bytes"
  shows "read_stream net conf x cb None before cs n buffer s = on_lines net conf x cb (split_on line_feed (buffer @ stream_text net before cs)) s"
  using assms
proof (induction cs arbitrary: before n buffer s)
  case (Cons c cs)
  then show ?case
    using on_lines_append [of net conf x cb line_feed "buffer @ tn_text net before c" "stream_text net (before @ [c]) cs" s]
    by (auto split: prod.splits sum.splits)
qed simp

lemma post_response: "post_tool_result (net\<lparr>tn_response := r\<rparr>) = post_tool_result net"
  by (simp add: post_tool_result_def fun_eq_iff split: tool_output.split sum.split)

lemma on_call_response: "on_call_event (net\<lparr>tn_response := r\<rparr>) = on_call_event net"
  by (simp only: on_call_event_def fun_eq_iff post_response simp_thms)

lemma on_line_response: "on_line (net\<lparr>tn_response := r\<rparr>) = on_line net"
  by (simp only: on_line_def on_event_def fun_eq_iff on_call_response simp_thms)

lemma on_lines_response: "on_lines (net\<lparr>tn_response := r\<rparr>) conf x cb lines s = on_lines net conf x cb lines s"
  by (induction net conf x cb lines s rule: on_lines.induct) (simp_all add: on_line_response split: prod.split sum.split)

lemma stream_text_response: "stream_text (net\<lparr>tn_response := r\<rparr>) before cs = stream_text net before cs"
  by (induction cs arbitrary: before) simp_all

text \<open>
  C34: What a run comes to depends on the bytes of its stream only and not on how the network cuts them into chunks, inside of lines or of characters: with a decoder
  that decodes chunks to what it decodes their concatenation to, two streams of the same bytes, within the limit, give the same result, callbacks and posts.
\<close>

theorem chunks_do_not_matter:
  assumes "\<And>cs. stream_text net [] cs = decode (concat cs)" and "concat cs = concat cs'" and "length (concat cs) \<le> max_stream_bytes"
    and "tn_response net = Inr resp" and "sp_body resp = Some cs" and "sp_error resp = None"
  shows "service_transport_run (net\<lparr>tn_response := Inr (resp\<lparr>sp_body := Some cs'\<rparr>)\<rparr>) conf x cb c = service_transport_run net conf x cb c"
proof -
  have len: "sum_list (map length cs) = length (concat cs)" "sum_list (map length cs') = length (concat cs)"
    using assms(2) length_concat by metis+
  let ?net' = "net\<lparr>tn_response := Inr (resp\<lparr>sp_body := Some cs'\<rparr>)\<rparr>"
  have "read_stream ?net' conf x cb None [] cs' 0 [] s = read_stream net conf x cb None [] cs 0 [] s" for s
    using assms(1) [of cs] assms(1) [of cs'] assms(2,3) len
    by (simp add: read_stream_whole on_lines_response stream_text_response)
  then have "run_stream ?net' conf x cb c = run_stream net conf x cb c"
    using assms(4-6) by (simp add: run_stream_def Let_def)
  then show ?thesis by (simp add: service_transport_run_def)
qed

section \<open>Invariants of a stream\<close>

text \<open>What holds while lines are handled, and what is left of it when a line fails.\<close>

locale stream_invariant =
  fixes net :: transport_net and conf :: transport_config and x :: transport_input and cb :: "('c, 'e) transport_callbacks"
    and holds :: "'c stream_state \<Rightarrow> bool" and remains :: "'c stream_state \<Rightarrow> bool"
  assumes line_handled: "holds s \<Longrightarrow> on_line net conf x cb line s = (Inr (), s1) \<Longrightarrow> holds s1"
    and line_failed: "holds s \<Longrightarrow> on_line net conf x cb line s = (Inl f, s1) \<Longrightarrow> remains s1"
    and holds_remains: "holds s \<Longrightarrow> remains s"
    and phase_irrelevant: "holds s \<Longrightarrow> holds (s\<lparr>sm_phase := p\<rparr>)"
begin

definition ends :: "'e transport_failure + 'a \<Rightarrow> 'c stream_state \<Rightarrow> bool" where
  "ends r s \<longleftrightarrow> (case r of Inl _ \<Rightarrow> remains s | Inr _ \<Rightarrow> holds s)"

lemma lines: "holds s \<Longrightarrow> on_lines net conf x cb lines s = (r, s1) \<Longrightarrow> ends r s1"
proof (induction lines arbitrary: s)
  case (Cons line lines)
  obtain r0 s0 where l: "on_line net conf x cb line s = (r0, s0)" by force
  show ?case
  proof (cases "lines = []")
    case True
    with Cons.prems show ?thesis by (auto simp: ends_def)
  next
    case False
    with Cons l show ?thesis
      by (cases r0) (auto simp: on_lines_Cons ends_def dest: line_handled line_failed)
  qed
qed (auto simp: ends_def)

lemma stream: "holds s \<Longrightarrow> read_stream net conf x cb e before cs n buffer s = (r, s1) \<Longrightarrow> ends r s1"
proof (induction cs arbitrary: before n buffer s)
  case Nil
  then show ?case by (cases e) (auto simp: ends_def intro: holds_remains dest: lines)
next
  case (Cons c cs)
  obtain r0 s0 where l: "on_lines net conf x cb (split_on line_feed (buffer @ tn_text net before c)) s = (r0, s0)" by force
  with Cons.prems(1) have "ends r0 s0" by (rule lines)
  with Cons l show ?case
    by (cases r0) (auto simp: ends_def intro: holds_remains split: if_splits)
qed

lemma run:
  assumes "\<And>p. holds ((stream_start c)\<lparr>sm_log := [Ta_request (run_request conf x)], sm_phase := p\<rparr>)"
    and "run_stream net conf x cb c = (r, s)"
  shows "remains s" and "r = Inr final \<Longrightarrow> holds s \<and> sm_final s = Some final"
proof -
  let ?s = "(stream_start c)\<lparr>sm_log := [Ta_request (run_request conf x)]\<rparr>"
  have s: "holds ?s" using assms(1) [of "''RUN_REQUEST''"] by (simp add: stream_start_def)
  have "remains s \<and> (\<forall>final. r = Inr final \<longrightarrow> holds s \<and> sm_final s = Some final)"
  proof (cases "s = ?s \<and> (\<exists>f. r = Inl f)")
    case True
    with s show ?thesis by (auto intro: holds_remains)
  next
    case False
    then obtain resp :: stream_response and chunks where
      "end_of_stream (read_stream net conf x cb (sp_error resp) [] chunks 0 [] (?s\<lparr>sm_phase := ''STREAM_READ''\<rparr>)) = (r, s)"
      using assms(2) by (simp add: run_stream_def Let_def split: sum.splits option.splits if_splits) blast+
    moreover obtain r0 s0 where rs: "read_stream net conf x cb (sp_error resp) [] chunks 0 [] (?s\<lparr>sm_phase := ''STREAM_READ''\<rparr>) = (r0, s0)" by force
    moreover have "ends r0 s0" using stream [OF assms(1) rs] .
    ultimately show ?thesis by (cases r0) (auto simp: end_of_stream_def ends_def intro: holds_remains split: option.splits if_splits)
  qed
  then show "remains s" and "r = Inr final \<Longrightarrow> holds s \<and> sm_final s = Some final" by simp_all
qed

end

section \<open>One call at a time\<close>

definition logged_calls :: "transport_action list \<Rightarrow> string list" where
  "logged_calls log = concat (map (\<lambda>a. case a of Ta_tool call \<Rightarrow> (case tc_call_id call of Some i \<Rightarrow> [i] | None \<Rightarrow> []) | _ \<Rightarrow> []) log)"

definition accepted_calls :: "transport_action list \<Rightarrow> string list" where
  "accepted_calls log = concat (map (\<lambda>a. case a of Ta_accepted i \<Rightarrow> [i] | _ \<Rightarrow> []) log)"

lemma log_simps [simp]:
  "logged_calls [] = []" "accepted_calls [] = []" "logged_calls (log @ log') = logged_calls log @ logged_calls log'"
  "accepted_calls (log @ log') = accepted_calls log @ accepted_calls log'"
  "logged_calls (a # log) = (case a of Ta_tool call \<Rightarrow> (case tc_call_id call of Some i \<Rightarrow> [i] | None \<Rightarrow> []) | _ \<Rightarrow> []) @ logged_calls log"
  "accepted_calls (a # log) = (case a of Ta_accepted i \<Rightarrow> [i] | _ \<Rightarrow> []) @ accepted_calls log"
  by (simp_all add: logged_calls_def accepted_calls_def)

text \<open>When an action is in turn after those before it.\<close>

definition turn_ok :: "transport_config \<Rightarrow> transport_input \<Rightarrow> transport_action list \<Rightarrow> transport_action \<Rightarrow> bool" where
  "turn_ok conf x log a \<longleftrightarrow>
     (case a of
        Ta_request call \<Rightarrow> log = [] \<and> call = run_request conf x
      | Ta_progress \<Rightarrow> log \<noteq> [] \<and> Ta_progress \<notin> set log \<and> logged_calls log = []
      | Ta_tool call \<Rightarrow> Ta_progress \<in> set log \<and> accepted_calls log = logged_calls log \<and>
          (\<exists>i. tc_call_id call = Some i \<and> valid_id i \<and> i \<notin> set (logged_calls log))
      | Ta_result i k call \<Rightarrow> logged_calls log = accepted_calls log @ [i] \<and>
          (k = 0 \<and> (\<exists>c. last log = Ta_tool c) \<or> k = 1 \<and> last log = Ta_result i 0 call) \<and>
          (\<exists>v. call = result_request conf x i v)
      | Ta_accepted i \<Rightarrow> logged_calls log = accepted_calls log @ [i] \<and> (\<exists>k call. last log = Ta_result i k call))"

definition in_turn :: "transport_config \<Rightarrow> transport_input \<Rightarrow> transport_action list \<Rightarrow> bool" where
  "in_turn conf x log \<longleftrightarrow> (\<forall>n < length log. turn_ok conf x (take n log) (log ! n))"

lemma in_turn_snoc [simp]: "in_turn conf x []" "in_turn conf x (log @ [a]) \<longleftrightarrow> in_turn conf x log \<and> turn_ok conf x log a"
  by (auto simp: in_turn_def less_Suc_eq nth_append)

lemma in_turn_snocs [simp]:
  "in_turn conf x (log @ [a, b]) \<longleftrightarrow> in_turn conf x log \<and> turn_ok conf x log a \<and> turn_ok conf x (log @ [a]) b"
  "in_turn conf x (log @ [a, b, c]) \<longleftrightarrow>
     in_turn conf x log \<and> turn_ok conf x log a \<and> turn_ok conf x (log @ [a]) b \<and> turn_ok conf x (log @ [a, b]) c"
  using in_turn_snoc(2) [of conf x "log @ [a]" b] in_turn_snoc(2) [of conf x "log @ [a, b]" c] by auto

text \<open>The posts of an output.\<close>

lemma post_in_turn:
  assumes "post_tool_result net conf x n i output = (r, log')" and "in_turn conf x log" and "logged_calls log = accepted_calls log @ [i]"
    and "last log = Ta_tool call" and "log \<noteq> []"
  shows "in_turn conf x (log @ log')" and "logged_calls log' = []" and "r = Inr () \<Longrightarrow> accepted_calls log' = [i]"
    and "Ta_progress \<notin> set log'"
  using assms
  by (auto simp: post_tool_result_def turn_ok_def Let_def split: tool_output.splits sum.splits if_splits)

definition stream_ok :: "transport_config \<Rightarrow> transport_input \<Rightarrow> 'c stream_state \<Rightarrow> bool" where
  "stream_ok conf x s \<longleftrightarrow>
     in_turn conf x (sm_log s) \<and> sm_log s \<noteq> [] \<and> logged_calls (sm_log s) = sm_seen s \<and> accepted_calls (sm_log s) = sm_seen s \<and>
     (sm_accepted s \<longleftrightarrow> Ta_progress \<in> set (sm_log s)) \<and>
     (\<forall>raw u. sm_final s = Some (raw, u) \<longrightarrow> us_steps u = int (length (sm_seen s)))"

lemma parsed_call: "parse_event line run_id = Inr (Cb_tool_call i n v) \<Longrightarrow> valid_id i \<and> valid_id n"
  by (auto simp: parse_event_def parse_tool_call_def parse_final_def Let_def split: if_splits)

lemma call_turns:
  fixes cb :: "('c, 'e) transport_callbacks"
  assumes "stream_ok conf x s" and "valid_id i" and "on_call_event net conf x cb i n v s = (r, s1)"
  shows "in_turn conf x (sm_log s1)" and "r = Inr () \<Longrightarrow> stream_ok conf x s1"
proof -
  let ?call = "\<lparr>tc_call_id = Some i, tc_name = Some n, tc_input = v\<rparr>"
  have "in_turn conf x (sm_log s1) \<and> (r = Inr () \<longrightarrow> stream_ok conf x s1)"
  proof (cases "\<not> sm_accepted s \<or> sm_final s \<noteq> None \<or> i \<in> set (sm_seen s)")
    case True
    with assms(1,3) show ?thesis by (auto simp: on_call_event_def stream_ok_def)
  next
    case False
    obtain a c where a: "tk_tool cb ?call (sm_callbacks s) = (a, c)" by force
    have t: "in_turn conf x (sm_log s @ [Ta_tool ?call])"
      using assms(1,2) False by (auto simp: stream_ok_def turn_ok_def)
    have l: "logged_calls (sm_log s @ [Ta_tool ?call]) = accepted_calls (sm_log s @ [Ta_tool ?call]) @ [i]"
      using assms(1) by (simp add: stream_ok_def)
    show ?thesis
    proof (cases a)
      case (Inl e)
      with assms(3) False a t show ?thesis by (auto simp: on_call_event_def Let_def)
    next
      case (Inr out)
      obtain p log' where p: "(post_tool_result net conf x (length (sm_seen s)) i out :: ('e transport_failure + unit) \<times> transport_action list) = (p, log')" by force
      from post_in_turn [OF p t l] have q: "in_turn conf x (sm_log s @ Ta_tool ?call # log')" "logged_calls log' = []" "p = Inr () \<Longrightarrow> accepted_calls log' = [i]"
        "Ta_progress \<notin> set log'" by simp_all
      show ?thesis using assms(1,3) False a Inr p q
        by (cases p) (auto simp: on_call_event_def Let_def stream_ok_def)
    qed
  qed
  then show "in_turn conf x (sm_log s1)" and "r = Inr () \<Longrightarrow> stream_ok conf x s1" by simp_all
qed

lemma accepted_turns:
  assumes "stream_ok conf x s" and "on_accepted cb s = (r, s1)"
  shows "in_turn conf x (sm_log s1)" and "r = Inr () \<Longrightarrow> stream_ok conf x s1"
  using assms
  by (auto simp: on_accepted_def stream_ok_def turn_ok_def split: if_splits prod.splits option.splits)

lemma line_turns:
  assumes "stream_ok conf x s" and "on_line net conf x cb line s = (r, s1)"
  shows "in_turn conf x (sm_log s1)" and "r = Inr () \<Longrightarrow> stream_ok conf x s1"
proof -
  have "in_turn conf x (sm_log s1) \<and> (r = Inr () \<longrightarrow> stream_ok conf x s1)"
  proof (cases "s1 = s")
    case True
    with assms(1) show ?thesis by (simp add: stream_ok_def)
  next
    case False
    with assms(2) obtain e where e: "parse_event line (ti_run_id x) = Inr e" "on_event net conf x cb e s = (r, s1)"
      by (auto simp: on_line_def split: if_splits sum.splits)
    show ?thesis
    proof (cases e)
      case Cb_accepted
      with e(2) accepted_turns [OF assms(1), of cb r s1] show ?thesis by (simp add: on_event_def)
    next
      case (Cb_tool_call i n v)
      with e parsed_call [of line "ti_run_id x" i n v] call_turns [OF assms(1), of i net cb n v r s1] show ?thesis by (simp add: on_event_def)
    next
      case (Cb_final raw u)
      with e(2) assms(1) show ?thesis by (auto simp: on_event_def on_final_event_def stream_ok_def split: if_splits option.splits)
    qed (use e(2) False in \<open>auto simp: on_event_def split: if_splits\<close>)
  qed
  then show "in_turn conf x (sm_log s1)" and "r = Inr () \<Longrightarrow> stream_ok conf x s1" by simp_all
qed

lemma stream_ok_phase: "stream_ok conf x s \<Longrightarrow> stream_ok conf x (s\<lparr>sm_phase := p\<rparr>)"
  by (cases "sm_final s") (auto simp: stream_ok_def)

interpretation turns: stream_invariant net conf x cb "stream_ok conf x" "\<lambda>s. in_turn conf x (sm_log s)" for net conf x cb
  by unfold_locales (blast intro: line_turns, blast intro: line_turns, simp add: stream_ok_def, rule stream_ok_phase)

lemma run_turns:
  assumes "service_transport_run net conf x cb c = (r, s)"
  shows "in_turn conf x (sm_log s)"
    and "r = Inr (raw, u) \<Longrightarrow> accepted_calls (sm_log s) = logged_calls (sm_log s) \<and> us_steps u = int (length (logged_calls (sm_log s)))"
proof -
  have start: "stream_ok conf x ((stream_start c)\<lparr>sm_log := [Ta_request (run_request conf x)], sm_phase := p\<rparr>)" for p
    by (simp add: stream_ok_def stream_start_def in_turn_def turn_ok_def)
  have "in_turn conf x (sm_log s) \<and> (r = Inr (raw, u) \<longrightarrow> stream_ok conf x s \<and> sm_final s = Some (raw, u))"
  proof (cases "ti_aborted x \<or> \<not> valid_transport_input x")
    case True
    with assms show ?thesis by (auto simp: service_transport_run_def stream_start_def split: if_splits)
  next
    case False
    obtain r0 where r0: "run_stream net conf x cb c = (r0, s)" "r = (case r0 of Inl (Tf_net e) \<Rightarrow> Inl (Tf_code (runtime_code (sm_phase s) e)) | _ \<Rightarrow> r0)"
      using assms False by (auto simp: service_transport_run_def split: prod.splits)
    with turns.run [OF start r0(1)] show ?thesis by (auto split: sum.splits transport_failure.splits)
  qed
  then show "in_turn conf x (sm_log s)"
    and "r = Inr (raw, u) \<Longrightarrow> accepted_calls (sm_log s) = logged_calls (sm_log s) \<and> us_steps u = int (length (logged_calls (sm_log s)))"
    by (auto simp: stream_ok_def)
qed

text \<open>
  C18: The transport does one thing at a time: the run is accepted before the first call, every call has a fresh valid id and is given to the callback only when the output of
  each call before it was acknowledged, an output is posted for the call that was just made, at most twice and the same both times; and a run that returns reports as many
  steps as calls it made, all of them acknowledged.
\<close>

theorem transport_works_in_turn:
  assumes "service_transport_run net conf x cb c = (r, s)"
  shows "in_turn conf x (sm_log s) \<and>
    (\<forall>raw u. r = Inr (raw, u) \<longrightarrow> accepted_calls (sm_log s) = logged_calls (sm_log s) \<and> us_steps u = int (length (logged_calls (sm_log s))))"
  using run_turns [OF assms] by blast

section \<open>Under the agent runner\<close>

text \<open>
  The callbacks of the runner: its state with the steps it took. A callback throws where its step adds to what was thrown, and the tool policy answers each call
  before the transport goes on: with a reply and the output.
\<close>

definition runner_callbacks :: "agent_request \<Rightarrow> (nat \<Rightarrow> policy_reply \<times> tool_output) \<Rightarrow> (runner_state \<times> transport_step list, nat) transport_callbacks" where
  "runner_callbacks req policy =
     (let take_step = (\<lambda>(s, steps) step. (runner_step req s step, steps @ [step]));
          threw = (\<lambda>(s, _ :: transport_step list) (s1, _ :: transport_step list). length (rw_thrown s) < length (rw_thrown s1));
          thrown = (\<lambda>(s, _ :: transport_step list). length (rw_thrown s)) in
      \<lparr>tk_progress = (\<lambda>p c. let c1 = take_step c (Progress (Some p)) in (if threw c c1 then Inl (thrown c) else Inr (), c1)),
       tk_tool = (\<lambda>call c.
         let c1 = take_step c (Tool_call call) in
         if threw c c1 then (Inl (thrown c), c1)
         else
           (let (reply, out) = policy (length (rw_executed (fst c))); c2 = take_step c1 (Policy_answer (length (rw_pending (fst c))) reply) in
            (if threw c1 c2 then Inl (thrown c1) else Inr out, c2)))\<rparr>)"

definition over_service ::
  "transport_net \<Rightarrow> transport_config \<Rightarrow> transport_input \<Rightarrow> agent_request \<Rightarrow> (nat \<Rightarrow> policy_reply \<times> tool_output) \<Rightarrow> runner_env \<Rightarrow> runner_env" where
  "over_service net conf x req policy env =
     (let (r, s) = service_transport_run net conf x (runner_callbacks req policy) (runner_start, []) in
      env\<lparr>rn_callbacks := snd (sm_callbacks s),
          rn_transport := (case r of
             Inr (raw, u) \<Rightarrow> Transport_resolved (Some raw) (Some u)
           | Inl f \<Rightarrow> Transport_rejected (case f of Tf_callback i \<Rightarrow> Some i | _ \<Rightarrow> None))\<rparr>)"

definition logged_tools :: "transport_action list \<Rightarrow> transport_tool_call list" where
  "logged_tools log = concat (map (\<lambda>a. case a of Ta_tool call \<Rightarrow> [call] | _ \<Rightarrow> []) log)"

lemma logged_tools_simps [simp]:
  "logged_tools [] = []" "logged_tools (log @ log') = logged_tools log @ logged_tools log'"
  "logged_tools (a # log) = (case a of Ta_tool call \<Rightarrow> [call] | _ \<Rightarrow> []) @ logged_tools log"
  by (simp_all add: logged_tools_def)

lemma tool_calls_simps [simp]:
  "tool_calls [] = []" "tool_calls (xs @ ys) = tool_calls xs @ tool_calls ys"
  "tool_calls (a # xs) = (case a of Tool_call c \<Rightarrow> [c] | _ \<Rightarrow> []) @ tool_calls xs"
  by (simp_all add: tool_calls_def)

lemma in_turn_ids: "in_turn conf x log \<Longrightarrow> map tc_call_id (logged_tools log) = map Some (logged_calls log)"
  by (induction log rule: rev_induct) (auto simp: turn_ok_def split: transport_action.splits)

lemma post_no_tools: "post_tool_result net conf x n i out = (r, log) \<Longrightarrow> logged_tools log = []"
  by (auto simp: post_tool_result_def Let_def split: tool_output.splits sum.splits if_splits)

definition same_calls :: "(runner_state \<times> transport_step list) stream_state \<Rightarrow> bool" where
  "same_calls s \<longleftrightarrow> tool_calls (snd (sm_callbacks s)) = logged_tools (sm_log s)"

lemma callback_steps:
  "tk_progress (runner_callbacks req policy) p c = (r, c1) \<Longrightarrow> tool_calls (snd c1) = tool_calls (snd c)"
  "tk_tool (runner_callbacks req policy) call c = (y, c1) \<Longrightarrow> tool_calls (snd c1) = tool_calls (snd c) @ [call]"
  by (auto simp: runner_callbacks_def Let_def split: if_splits prod.splits)

lemma call_same:
  assumes "same_calls s" and "on_call_event net conf x (runner_callbacks req policy) i n v s = (r, s1)"
  shows "same_calls s1"
  using assms
  by (auto simp: on_call_event_def same_calls_def Let_def dest!: callback_steps(2) post_no_tools split: if_splits prod.splits sum.splits)

lemma line_same:
  assumes "same_calls s" and "on_line net conf x (runner_callbacks req policy) line s = (r, s1)"
  shows "same_calls s1"
proof (cases "s1 = s")
  case False
  with assms(2) obtain e where e: "on_event net conf x (runner_callbacks req policy) e s = (r, s1)"
    by (auto simp: on_line_def split: if_splits sum.splits)
  show ?thesis
  proof (cases e)
    case Cb_accepted
    with e assms(1) show ?thesis
      by (auto simp: on_event_def on_accepted_def same_calls_def dest!: callback_steps(1) split: if_splits prod.splits)
  next
    case (Cb_tool_call i n v)
    with e call_same [OF assms(1), of net conf x req policy i n v r s1] show ?thesis by (simp add: on_event_def)
  next
    case (Cb_final raw u)
    with e assms(1) show ?thesis by (auto simp: on_event_def on_final_event_def same_calls_def split: if_splits)
  qed (use e False in \<open>auto simp: on_event_def split: if_splits\<close>)
qed (use assms(1) in simp)

interpretation runner_steps: stream_invariant net conf x "runner_callbacks req policy" same_calls same_calls for net conf x req policy
  by unfold_locales (auto intro: line_same simp: same_calls_def [of "s\<lparr>sm_phase := p\<rparr>" for s p], simp add: same_calls_def)

lemma run_same:
  assumes "service_transport_run net conf x (runner_callbacks req policy) (runner_start, []) = (r, s)"
  shows "tool_calls (snd (sm_callbacks s)) = logged_tools (sm_log s)"
proof -
  have start: "same_calls ((stream_start (runner_start, []))\<lparr>sm_log := [Ta_request (run_request conf x)], sm_phase := p\<rparr>)" for p
    by (simp add: same_calls_def stream_start_def)
  have "same_calls s"
  proof (cases "ti_aborted x \<or> \<not> valid_transport_input x")
    case True
    with assms show ?thesis by (auto simp: service_transport_run_def stream_start_def same_calls_def split: if_splits)
  next
    case False
    then obtain r0 where "run_stream net conf x (runner_callbacks req policy) (runner_start, []) = (r0, s)"
      using assms by (auto simp: service_transport_run_def split: prod.splits)
    with runner_steps.run(1) [OF start] show ?thesis by blast
  qed
  then show ?thesis by (simp add: same_calls_def)
qed

text \<open>
  C19: The steps a completed run reports are real: over this transport a run completes only when the transport returned, and then the steps of its usage are as many as the tool
  calls that the policy executed, and these are, in order, the calls whose outputs the platform acknowledged.
\<close>

theorem completed_steps_are_executed:
  assumes "run_agent authentic activation (over_service net conf x req policy env) req = (es, calls)" and "e \<in> set es" and "ae_type e = Ae_completed"
  shows "\<exists>answer raw u s. ae_payload e = Pl_completed answer runner_id u \<and> us_steps u = int (length calls) \<and>
    service_transport_run net conf x (runner_callbacks req policy) (runner_start, []) = (Inr (raw, u), s) \<and>
    calls = logged_tools (sm_log s) \<and> map tc_call_id calls = map Some (accepted_calls (sm_log s))"
proof -
  let ?env = "over_service net conf x req policy env"
  from answer_approved [OF assms] obtain raw u answer where a: "ae_payload e = Pl_completed answer runner_id u"
    "rn_transport ?env = Transport_resolved (Some raw) (Some u)" "calls = tool_calls (rn_callbacks ?env)" by blast
  obtain r s where t: "service_transport_run net conf x (runner_callbacks req policy) (runner_start, []) = (r, s)" by force
  with a(2) have r: "r = Inr (raw, u)"
    by (auto simp: over_service_def split: sum.splits)
  have "calls = logged_tools (sm_log s)" using a(3) run_same [OF t] by (simp add: over_service_def t)
  moreover have "length (logged_tools (sm_log s)) = length (logged_calls (sm_log s))"
    using in_turn_ids [OF run_turns(1) [OF t]] length_map by metis
  ultimately show ?thesis using a(1) t r run_turns [OF t] in_turn_ids [of conf x "sm_log s"] by (intro exI) auto
qed

section \<open>Where a read fails\<close>

text \<open>
  The phase that the code of a failed read names is the one of the last callback: after the run was accepted, a read that fails
  before the first tool call is reported as a failure of the application's callback.
\<close>

theorem failed_read_names_callback:
  assumes "tn_response net = Inr resp" and "sp_status resp = 200" and "sp_content_type resp = Some ''application/x-ndjson''" and "sp_body resp = Some [c]"
    and "sp_error resp = Some e" and "length c \<le> max_stream_bytes" and "tn_text net [] c = line @ [line_feed]" and "line_feed \<notin> set line"
    and "utf8_length line \<le> max_line_bytes" and "js_trim line \<noteq> []" and "parse_event line (ti_run_id x) = Inr Cb_accepted"
    and "fst (tk_progress cb Remote_accepted s) = Inr ()" and "valid_transport_input x" and "\<not> ti_aborted x"
  shows "fst (service_transport_run net conf x cb s) = Inl (Tf_code (runtime_code ''APPLICATION_CALLBACK'' e))"
proof -
  have "split_on line_feed (line @ [line_feed]) = [line, []]" using split_on_append [OF assms(8), of "[]"] by simp
  moreover obtain s1 where "tk_progress cb Remote_accepted s = (Inr (), s1)" using assms(12) by (metis prod.collapse)
  moreover have "starts_with ''application/x-ndjson'' (map lower_char ''application/x-ndjson'')" by code_simp
  ultimately show ?thesis using assms
    by (simp add: service_transport_run_def run_stream_def on_line_def on_event_def on_accepted_def stream_start_def end_of_stream_def Let_def not_less)
qed

section \<open>A sample run over the service\<close>

definition sample_event :: "(string \<times> json) list \<Rightarrow> json" where
  "sample_event ms = JObj ((''run_id'', JStr ''run-0001'') # ms)"

definition sample_events :: "json list" where
  "sample_events =
     [sample_event [(''type'', JStr ''remote_accepted'')],
      sample_event [(''type'', JStr ''tool_call''),
        (''call'', JObj [(''call_id'', JStr ''c1''), (''name'', JStr ''quote''), (''input'', JNull)])],
      sample_event [(''type'', JStr ''final''), (''raw_answer'', JStr ''raw''),
        (''usage'', JObj [(''input_tokens'', JNum 5), (''output_tokens'', JNum 7), (''steps'', JNum 1)])]]"

definition sample_stream :: string where
  "sample_stream = concat (map (\<lambda>v. json_text v @ [line_feed]) sample_events)"

definition sample_readback :: json where
  "sample_readback =
     JObj [(''status'', JStr ''accepted''), (''run_id'', JStr ''run-0001''), (''call_id'', JStr ''c1''), (''replayed'', JBool False)]"

definition sample_response :: "bytes list \<Rightarrow> stream_response" where
  "sample_response chunks =
     \<lparr>sp_status = 200, sp_content_type = Some ''application/x-ndjson'', sp_body = Some chunks, sp_error = None\<rparr>"

definition sample_net :: "bytes list \<Rightarrow> transport_net" where
  "sample_net chunks =
     \<lparr>tn_response = Inr (sample_response chunks), tn_text = (\<lambda>before c. c), tn_flush = (\<lambda>before. []),
      tn_post = (\<lambda>n k. Post_answered 200 (Inr (json_text sample_readback))), tn_aborted = (\<lambda>n. False)\<rparr>"

definition sample_transport :: transport_config where
  "sample_transport = \<lparr>tf_admin_api_key = ''key'', tf_base_url = ''https://control''\<rparr>"

definition sample_transport_input :: transport_input where
  "sample_transport_input =
     \<lparr>ti_aborted = False, ti_external_identity = ''e'', ti_agent_id = ''a'', ti_user_id = ''u'', ti_prompt = ''why'', ti_run_id = ''run-0001'',
      ti_authorization = ''token''\<rparr>"

definition sample_policy :: "nat \<Rightarrow> policy_reply \<times> tool_output" where
  "sample_policy n = (Policy_completed, Out_json JNull)"

lemma sample_events_ok: "list_all json_ok sample_events" "json_ok sample_readback"
  by code_simp+

lemma sample_texts:
  "list_all (\<lambda>v. line_feed \<notin> set (json_text v) \<and> utf8_length (json_text v) \<le> 1000 \<and> js_trim (json_text v) \<noteq> []) sample_events"
  "utf8_length (json_text sample_readback) \<le> 1000" "length sample_stream \<le> 1000" "valid_transport_input sample_transport_input"
  by code_simp+

lemma sample_parsed:
  "map (\<lambda>v. parse_event (json_text v) ''run-0001'') sample_events =
     [Inr Cb_accepted, Inr (Cb_tool_call ''c1'' ''quote'' JNull), Inr (Cb_final ''raw'' sample_usage)]"
proof -
  have r: "json_parse (json_text v) = Some v" if "v \<in> set sample_events" for v
    using that sample_events_ok(1) by (auto simp: list_all_iff json_roundtrip)
  have "valid_id ''c1''" "valid_id ''quote''" by code_simp+
  then show ?thesis using r
    by (simp add: parse_event_def sample_events_def sample_event_def object_members_def str_field_def parse_tool_call_def parse_final_def id_text_def
        count_field_def safe_count_def is_safe_integer_def max_safe_integer_def sample_usage_def Let_def del: json_text.simps)
qed

lemma sample_posted: "result_readback ''run-0001'' ''c1'' 0 (json_text sample_readback)"
  using sample_events_ok(2) sample_texts(2)
  by (simp add: result_readback_def json_roundtrip) (simp add: sample_readback_def object_members_def)

lemma sample_lines: "split_on line_feed sample_stream = map json_text sample_events @ [[]]"
proof -
  have "split_on line_feed (concat (map (\<lambda>v. json_text v @ [line_feed]) vs)) = map json_text vs @ [[]]"
    if "list_all (\<lambda>v. line_feed \<notin> set (json_text v)) vs" for vs
    using that by (induction vs) (simp_all add: split_on_append)
  then show ?thesis using sample_texts(1) unfolding sample_stream_def by (simp add: list_all_iff)
qed

text \<open>The callbacks and the events of the sample, one after the other.\<close>

definition sample_accepted :: "runner_state \<times> transport_step list" where
  "sample_accepted = (runner_start\<lparr>rw_phases := [Remote_accepted]\<rparr>, [Progress (Some Remote_accepted)])"

lemma sample_callbacks:
  "tk_progress (runner_callbacks sample_agent_request sample_policy) Remote_accepted (runner_start, []) = (Inr (), sample_accepted)"
  "\<exists>rs. tk_tool (runner_callbacks sample_agent_request sample_policy) sample_tool_call sample_accepted =
     (Inr (Out_json JNull), (rs, [Progress (Some Remote_accepted), Tool_call sample_tool_call, Policy_answer 0 Policy_completed]))"
  by (simp_all add: runner_callbacks_def sample_accepted_def sample_policy_def runner_step_defs runner_start_def call_permitted_def
      sample_agent_request_def js_trim_def is_ws_def sample_tool_call_def Let_def)

lemma sample_post:
  "post_tool_result (sample_net chunks) sample_transport sample_transport_input n ''c1'' (Out_json JNull) =
     (Inr (), [Ta_result ''c1'' 0 (result_request sample_transport sample_transport_input ''c1'' JNull), Ta_accepted ''c1''])"
  using sample_posted by (simp add: post_tool_result_def post_attempt_def sample_net_def sample_transport_input_def)

lemma sample_event_steps:
  fixes chunks
  defines "step \<equiv> on_event (sample_net chunks) sample_transport sample_transport_input (runner_callbacks sample_agent_request sample_policy)"
  obtains s1 s2 s3 where
    "step Cb_accepted ((stream_start (runner_start, []))\<lparr>sm_log := [Ta_request (run_request sample_transport sample_transport_input)], sm_phase := ''STREAM_READ''\<rparr>) = (Inr (), s1)"
    "step (Cb_tool_call ''c1'' ''quote'' JNull) s1 = (Inr (), s2)" "step (Cb_final ''raw'' sample_usage) s2 = (Inr (), s3)"
    "sm_final s3 = Some (''raw'', sample_usage)" "accepted_calls (sm_log s3) = [''c1'']"
    "snd (sm_callbacks s3) = [Progress (Some Remote_accepted), Tool_call sample_tool_call, Policy_answer 0 Policy_completed]"
proof -
  note result = that
  let ?cb = "runner_callbacks sample_agent_request sample_policy"
  obtain rs where tool: "tk_tool ?cb sample_tool_call sample_accepted =
     (Inr (Out_json JNull), (rs, [Progress (Some Remote_accepted), Tool_call sample_tool_call, Policy_answer 0 Policy_completed]))"
    using sample_callbacks(2) by blast
  let ?log = "[Ta_request (run_request sample_transport sample_transport_input), Ta_progress]"
  let ?s1 = "\<lparr>sm_accepted = True, sm_seen = [], sm_final = None, sm_phase = ''APPLICATION_CALLBACK'', sm_callbacks = sample_accepted, sm_log = ?log\<rparr>"
  let ?s2 = "\<lparr>sm_accepted = True, sm_seen = [''c1''], sm_final = None, sm_phase = ''STREAM_READ'',
    sm_callbacks = (rs, [Progress (Some Remote_accepted), Tool_call sample_tool_call, Policy_answer 0 Policy_completed]),
    sm_log = ?log @ [Ta_tool sample_tool_call, Ta_result ''c1'' 0 (result_request sample_transport sample_transport_input ''c1'' JNull), Ta_accepted ''c1'']\<rparr>"
  have "step Cb_accepted ((stream_start (runner_start, []))\<lparr>sm_log := [Ta_request (run_request sample_transport sample_transport_input)], sm_phase := ''STREAM_READ''\<rparr>) = (Inr (), ?s1)"
    by (simp add: step_def on_event_def on_accepted_def stream_start_def sample_callbacks(1))
  moreover have "\<lparr>tc_call_id = Some ''c1'', tc_name = Some ''quote'', tc_input = JNull\<rparr> = sample_tool_call" by (simp add: sample_tool_call_def)
  then have "step (Cb_tool_call ''c1'' ''quote'' JNull) ?s1 = (Inr (), ?s2)"
    by (simp add: step_def on_event_def on_call_event_def tool sample_post Let_def)
  moreover have "step (Cb_final ''raw'' sample_usage) ?s2 = (Inr (), ?s2\<lparr>sm_final := Some (''raw'', sample_usage)\<rparr>)"
    by (simp add: step_def on_event_def on_final_event_def sample_usage_def)
  ultimately show thesis by (rule result) (simp_all add: sample_tool_call_def)
qed

text \<open>The stream in chunks of any sizes, under the runner.\<close>

lemma sample_service_run:
  assumes "concat chunks = sample_stream"
  obtains s where "service_transport_run (sample_net chunks) sample_transport sample_transport_input
      (runner_callbacks sample_agent_request sample_policy) (runner_start, []) = (Inr (''raw'', sample_usage), s)"
    "snd (sm_callbacks s) = [Progress (Some Remote_accepted), Tool_call sample_tool_call, Policy_answer 0 Policy_completed]"
    "accepted_calls (sm_log s) = [''c1'']"
proof -
  note result = that
  let ?net = "sample_net chunks" and ?cb = "runner_callbacks sample_agent_request sample_policy"
  have whole: "stream_text ?net before cs = concat cs" for before cs
    by (induction cs arbitrary: before) (simp_all add: sample_net_def)
  have len: "sum_list (map length chunks) \<le> max_stream_bytes"
    using sample_texts(3) assms length_concat [of chunks] by (simp add: max_stream_bytes_def)
  obtain v1 v2 v3 where v: "sample_events = [v1, v2, v3]" by (simp add: sample_events_def)
  note texts = sample_texts(1) [unfolded v, simplified]
  note parsed = sample_parsed [unfolded v, simplified]
  let ?s = "(stream_start (runner_start, []))\<lparr>sm_log := [Ta_request (run_request sample_transport sample_transport_input)], sm_phase := ''STREAM_READ''\<rparr>"
  obtain s1 s2 s where e: "on_event ?net sample_transport sample_transport_input ?cb Cb_accepted ?s = (Inr (), s1)"
    "on_event ?net sample_transport sample_transport_input ?cb (Cb_tool_call ''c1'' ''quote'' JNull) s1 = (Inr (), s2)"
    "on_event ?net sample_transport sample_transport_input ?cb (Cb_final ''raw'' sample_usage) s2 = (Inr (), s)"
    and s: "sm_final s = Some (''raw'', sample_usage)" "accepted_calls (sm_log s) = [''c1'']"
    "snd (sm_callbacks s) = [Progress (Some Remote_accepted), Tool_call sample_tool_call, Policy_answer 0 Policy_completed]"
    by (rule sample_event_steps [of chunks])
  have "ti_run_id sample_transport_input = ''run-0001''" by (simp add: sample_transport_input_def)
  with texts parsed e have l: "on_lines ?net sample_transport sample_transport_input ?cb [json_text v1, json_text v2, json_text v3, []] ?s = (Inr [], s)"
    by (simp add: on_line_def max_line_bytes_def)
  have "starts_with ''application/x-ndjson'' (map lower_char ''application/x-ndjson'')" by code_simp
  moreover have "tn_response ?net = Inr (sample_response chunks)" by (simp add: sample_net_def)
  moreover have "\<not> ti_aborted sample_transport_input" by (simp add: sample_transport_input_def)
  ultimately have "service_transport_run ?net sample_transport sample_transport_input ?cb (runner_start, []) = (Inr (''raw'', sample_usage), s)"
    using s(1) l sample_texts(4) len
    by (simp add: service_transport_run_def run_stream_def sample_response_def read_stream_whole whole assms sample_lines v
        end_of_stream_def js_trim_def Let_def)
  from result [OF this s(3,2)] show thesis .
qed

theorem chunks_do_not_matter_witness:
  "\<exists>s. service_transport_run (sample_net (map (\<lambda>c. [c]) sample_stream)) sample_transport sample_transport_input
      (runner_callbacks sample_agent_request sample_policy) (runner_start, []) = (Inr (''raw'', sample_usage), s)"
proof -
  let ?net = "sample_net [sample_stream]"
  obtain s where s: "service_transport_run ?net sample_transport sample_transport_input
      (runner_callbacks sample_agent_request sample_policy) (runner_start, []) = (Inr (''raw'', sample_usage), s)"
    using sample_service_run [of "[sample_stream]"] by auto
  have decodes: "stream_text ?net [] cs = id (concat cs)" for cs
  proof -
    have "stream_text ?net before cs = concat cs" for before by (induction cs arbitrary: before) (simp_all add: sample_net_def)
    then show ?thesis by simp
  qed
  have small: "length (concat [sample_stream]) \<le> max_stream_bytes" using sample_texts(3) by (simp add: max_stream_bytes_def)
  have resp: "tn_response ?net = Inr (sample_response [sample_stream])" "sp_body (sample_response [sample_stream]) = Some [sample_stream]"
    "sp_error (sample_response [sample_stream]) = None" by (simp_all add: sample_net_def sample_response_def)
  have same: "concat [sample_stream] = concat (map (\<lambda>c. [c]) sample_stream)" by simp
  have "?net\<lparr>tn_response := Inr ((sample_response [sample_stream])\<lparr>sp_body := Some (map (\<lambda>c. [c]) sample_stream)\<rparr>)\<rparr> =
      sample_net (map (\<lambda>c. [c]) sample_stream)"
    by (simp add: sample_net_def sample_response_def)
  with chunks_do_not_matter [of ?net, OF decodes same small resp, of sample_transport sample_transport_input
      "runner_callbacks sample_agent_request sample_policy" "(runner_start, [])"] s
  show ?thesis by simp
qed

theorem transport_works_in_turn_witness:
  "\<exists>s. service_transport_run (sample_net [sample_stream]) sample_transport sample_transport_input
      (runner_callbacks sample_agent_request sample_policy) (runner_start, []) = (Inr (''raw'', sample_usage), s) \<and>
    in_turn sample_transport sample_transport_input (sm_log s) \<and> logged_calls (sm_log s) = [''c1'']"
proof -
  obtain s where s: "service_transport_run (sample_net [sample_stream]) sample_transport sample_transport_input
      (runner_callbacks sample_agent_request sample_policy) (runner_start, []) = (Inr (''raw'', sample_usage), s)"
    "accepted_calls (sm_log s) = [''c1'']"
    using sample_service_run [of "[sample_stream]"] by auto
  with transport_works_in_turn [OF s(1)] show ?thesis by auto
qed

theorem completed_steps_are_executed_witness:
  "\<exists>es e. run_agent [0] 0 (over_service (sample_net [sample_stream]) sample_transport sample_transport_input sample_agent_request sample_policy
      sample_runner_env) sample_agent_request = (es, [sample_tool_call]) \<and> e \<in> set es \<and> ae_payload e = Pl_completed ''raw!'' runner_id sample_usage \<and>
    us_steps sample_usage = 1"
proof -
  obtain s where s: "service_transport_run (sample_net [sample_stream]) sample_transport sample_transport_input
      (runner_callbacks sample_agent_request sample_policy) (runner_start, []) = (Inr (''raw'', sample_usage), s)"
    "snd (sm_callbacks s) = [Progress (Some Remote_accepted), Tool_call sample_tool_call, Policy_answer 0 Policy_completed]"
    using sample_service_run [of "[sample_stream]"] by auto
  then have env: "over_service (sample_net [sample_stream]) sample_transport sample_transport_input sample_agent_request sample_policy
      sample_runner_env = sample_runner_env"
    by (simp add: over_service_def) (simp add: sample_runner_env_def)
  obtain es where es: "run_agent [0] 0 sample_runner_env sample_agent_request = (es, [sample_tool_call])" "length es = 7"
    "last es = event_of sample_runner_env sample_agent_request 6 Ae_completed (Pl_completed ''raw!'' runner_id sample_usage) True"
    using sample_agent_run by blast
  have "es \<noteq> []" using es(2) by auto
  then have last: "last es \<in> set es" "ae_type (last es) = Ae_completed" "ae_payload (last es) = Pl_completed ''raw!'' runner_id sample_usage"
    using last_in_set [of es] es(3) by (simp_all add: event_of_def)
  have "run_agent [0] 0 (over_service (sample_net [sample_stream]) sample_transport sample_transport_input sample_agent_request sample_policy
      sample_runner_env) sample_agent_request = (es, [sample_tool_call])"
    unfolding env by (rule es(1))
  from completed_steps_are_executed [OF this last(1,2)] have "us_steps sample_usage = 1" by (auto simp: last(3))
  with es(1) last show ?thesis unfolding env by blast
qed

end
