(* ===== verification/Spec2Isabelle.thy ===== *)
theory Spec2Isabelle
  imports Lease_Registry Run_Auth Run_Guard Sandbox_Contract Sandbox_Process Terminal_Lifecycle Handoff_Store
    Artifact_Scanner Process_Tools Sandbox_Bridge Runner_Authority Service_Transport
begin

text \<open>
  A model of the sandbox control plane of the AiphaBee personal research agent, with the theorems that make it correct.

  \<^bold>\<open>The program and its parts.\<close> A user owns a research agent on a remote platform, and each of its research runs gets a
  sandbox of its own. The agent runtime (\<open>packages/agent-runtime/src\<close>) talks to the control plane of that platform, runs the agent under a tool
  policy, mints access grants, drives the life of a lease up to its terminal record and hands approved outputs over to durable storage. The bridge worker (\<open>apps/sandbox-bridge/src\<close>) owns the sandboxes: a lease registry and a
  run guard, each a durable object that serialises the requests on one lease or one run, the Cloudflare backend that
  creates, executes in and destroys containers through the registry, an HTTP surface under run tokens, the egress handler of the containers
  and the artifact scanner. The API worker (\<open>apps/worker/src\<close>) provisions and removes the remote agent, decides who may run it, answers
  the tool calls that leave a container, stores the records, measures each run, tells users the state of their agent, and lets administrators
  kill a run or change the life of an agent.
  Run tokens and tool-gateway tokens (\<open>packages/sandbox-run-auth/src/index.ts\<close>) tie the workers together.

  \<^bold>\<open>Theories.\<close>
  \<^item> \<open>Ctl_Prelude\<close>: strings, numbers, results that throw (\<open>require\<close>, \<open>with_some\<close>, \<open>and_then\<close>), outcomes and deliveries of
    asynchronous calls, and the locales \<open>invariant_machine\<close>, \<open>absorbing_machine\<close> and \<open>first_write_store\<close> that the components interpret.
  \<^item> \<open>Js_Codec\<close>, \<open>Js_Date\<close>: UTF-8, base64url, hexadecimal, JSON text and ISO dates as the language defines them, with their round trips.
  \<^item> \<open>Lease_Registry\<close>: \<open>lease-registry.ts\<close>; a record per lease, one definition \<open>on_\<dots>\<close> per request, and an abstract life
    cycle that every request refines.
  \<^item> \<open>Run_Auth\<close>: issuing and verifying both kinds of tokens. \<open>Run_Guard\<close>: \<open>run-guard.ts\<close>, its decision function, handler and client.
  \<^item> \<open>Sandbox_Contract\<close>: runner selection, grants, egress access and workspace paths.
  \<^item> \<open>Sandbox_Backend\<close>, \<open>Sandbox_Process\<close>: \<open>cloudflare-sandbox-backend.ts\<close>; leases and files, and the execution of a process with its
    bounded event queue.
  \<^item> \<open>Sandbox_Bridge\<close>: \<open>bridge.ts\<close>; routes, authorisation, guard claims and the operations on the sandbox.
  \<^item> \<open>Tool_Gateway\<close>, \<open>Process_Tools\<close>: \<open>sandbox-tool-gateway.ts\<close> and \<open>tool-gateway-egress.ts\<close>, and tool calls of a modelled process.
  \<^item> \<open>Terminal_Lifecycle\<close>: \<open>sandbox-terminal-lifecycle.ts\<close>, with all its timers and races.
  \<^item> \<open>Durable_Handoff\<close>, \<open>Handoff_Store\<close>, \<open>Artifact_Scanner\<close>: the handoff of outputs, its database adapter and the scanner with its client.
  \<^item> \<open>Agent_Runner\<close>, \<open>Runner_Authority\<close>: the two files \<open>fastclaw-agent-runner.ts\<close>; a run of the agent as a sequence of callback
    steps with its checks and events, and the worker's decision on the owner, its database transaction and the lock of the shared client, a
    step relation.
  \<^item> \<open>Agent_Control_Client\<close>, \<open>Agent_Lifecycle\<close>, \<open>Agent_Reconciliation\<close>: \<open>fastclaw-lifecycle.ts\<close> and
    \<open>research-agent-lifecycle.ts\<close>; the client of the control plane, the service over its rows, and what its transactions guarantee.
  \<^item> \<open>Agent_Usage\<close>, \<open>Agent_Product_Control\<close>: \<open>research-agent-product-control.ts\<close>; the measurements of runs in three tables with the
    sink of terminal records, the status of a user, and the audited actions of administrators over the life cycle.
  \<^item> \<open>Run_Killer\<close>: \<open>fastclaw-live-control.ts\<close>; the kill of a run through the bridge, and an administrator's kill from the action to the guard.
  \<^item> \<open>Service_Transport\<close>: \<open>fastclaw-service-transport.ts\<close>; the stream of a remote run with its tool calls, under the callbacks of the runner.
  \<^item> This theory imports them all and holds the properties that span components.

  \<^bold>\<open>How code becomes definitions.\<close> An object or interface is a record, a union a datatype with the constructors of the source, a
  handler a function from state to state and response with one branch per guard, throw and early return. A durable object is a function
  on its optional stored value; the namespace of all objects is a function from names to stored values. Every request between workers has a delivery:
  delivered, lost, or applied with its response lost. Wherever the code awaits, requests of others may be applied first, so the
  theorems hold under interleaving. Promises raced against timers are outcomes of the environment with their delays. What a handler
  calls outside is returned as a log, and safety properties speak of the log.

  \<^bold>\<open>What the lemmas show.\<close> Invariants of the stored records and of streams; safety over request sequences (nothing
  starts after a kill, the call budget, who may call a sandbox or a tool); refinement of the registry by its phases and of
  release safety down to the registry; functional truth of answers (a destroy reported done is done, an exec answered is recorded); round trips
  of tokens, records and stored objects; bounds; the error behaviour of lost requests; the equivalence of the routes with a table, and of a user's status with
  the authority of the runner; agreement of the usage tables and the stability of audit events; that a repeated request replays; that the chunks of a stream do not matter; and, across components,
  that a kill answered as done ended its run and that the steps a completed run reports were executed. The transactions on agent profiles are shown
  correct by rely and guarantee: what each of them may assume of the others is what each of them is shown to keep.

  \<^bold>\<open>Bounds and fuel.\<close> JSON texts are parsed with fuel twice their length and two, which the round trip shows to be enough for every printed value.
  Other recursion is structural or has a termination proof. The constants of the source are kept: 64 calls of a run, tokens of at most
  4096 characters and 600 seconds with 30 seconds of skew, bodies of 65536 bytes at the gateway and 1 MiB at the bridge, 120 status
  probes, the deadlines of the lifecycle, which add up to 675 seconds, and the budgets of a run, which bound its events by 57.

  \<^bold>\<open>Limits of the model.\<close> Strings are lists of code units 0 to 255, numbers that are not integers do not occur, and
  HMAC, SHA-256, the sandbox SDK, the container, object storage and the database driver are parameters with what the code relies on as
  hypotheses. Messages of errors, logging and response headers that nothing reads are left out.

  \<^bold>\<open>Not modelled.\<close> The API worker's routing and SQL, the MCP runtime, the market-data, account and product
  packages, the question planner, the web app and the scripts: they are outside of the control plane, and most of their lines
  are response tables, SQL text and floating-point indicators. The Postgres statements of the agent's life cycle are modelled by their effect on rows;
  the queries that compute an authority row of the runner, of accounts and of memberships are a parameter.
\<close>

section \<open>The lifecycle over the Cloudflare backend\<close>

text \<open>
  C2: Release safety reaches the registry: when a lifecycle runs on the modelled backend and its terminal
  record calls the sandbox safe to release, the lease the backend created is recorded as destroyed in the
  lease registry, whatever requests of others interleaved with the destruction.
\<close>

theorem release_safe_lease_is_destroyed:
  assumes "Call_record rec \<in> set (lu_calls (run_terminal_lifecycle env input))" and "lc_release_safe (tr_cleanup rec)"
    and "Call_create (li_access_grant input) \<in> set (lu_calls (run_terminal_lifecycle env input))"
    and "lease_created env l" and "backend_destroy denv l ns = (d, log, ns')" and "snd (lv_destroy env) = Some d"
  shows "tr_lease_id rec = Some (sl_lease_id l) \<and>
    (\<exists>c. ns' (sl_lease_id l) = Some c \<and> record_matches_lease c l \<and> lr_status c = Destroyed)"
proof -
  have "lu_calls (run_terminal_lifecycle env input) \<noteq> [Call_record rec]" using assms(3) by auto
  with release_safe_record [OF assms(1,2)] obtain l' x where l': "lease_created env l'" "tr_lease_id rec = Some (sl_lease_id l')"
    "d = Destroy_done x \<or> d = Destroy_already x"
    using assms(6) by auto
  then have "l' = l" using assms(4) by (simp add: lease_created_def)
  moreover obtain c where "ns' (sl_lease_id l) = Some c" "record_matches_lease c l" "lr_status c = Destroyed"
    using destroy_truth [OF assms(5)] l'(3) by blast
  ultimately show ?thesis using l'(2) by blast
qed

theorem release_safe_lease_is_destroyed_witness:
  "\<exists>c log ns'. backend_destroy sample_destroy_env sample_lease ((\<lambda>_. None)(''l1'' := Some live_record)) = (Destroy_done ''l1'', log, ns') \<and>
    tr_lease_id sample_terminal_record = Some (sl_lease_id sample_lease) \<and>
    ns' (sl_lease_id sample_lease) = Some c \<and> lr_status c = Destroyed"
proof -
  obtain log ns' where d: "backend_destroy sample_destroy_env sample_lease ((\<lambda>_. None)(''l1'' := Some live_record)) =
      (Destroy_done ''l1'', log, ns')" using sample_destroyed by blast
  have "lease_created sample_lifecycle_env sample_lease"
    by (simp add: lease_created_def create_attempt_def sample_lifecycle_env_def sample_lifecycle_input_def sample_lease_def sample_grant_def)
  moreover have "Call_create (li_access_grant sample_lifecycle_input)
      \<in> set (lu_calls (run_terminal_lifecycle sample_lifecycle_env sample_lifecycle_input))"
    by (simp add: sample_lifecycle_input_def sample_lifecycle_env_def lifecycle_defs race_defs deadlines)
  moreover have "snd (lv_destroy sample_lifecycle_env) = Some (Destroy_done ''l1'')" by (simp add: sample_lifecycle_env_def)
  ultimately show ?thesis
    using release_safe_lease_is_destroyed [OF sample_recorded _ _ _ d] d sample_lifecycle_facts by blast
qed

end
